(* ===== verification/Prelude.thy ===== *)
theory Prelude
  imports Main "HOL-Library.AList" "HOL-Library.Multiset" "HOL-Library.Char_ord"
    "HOL-Library.List_Lexorder" "HOL-Library.Product_Lexorder" "HOL-Library.Option_ord"
begin

text \<open>
  What the components share: the conventions for Rust's standard library types
  and the generic lemmas over them.

  A \<open>HashMap\<close> is an association list with distinct keys; its order
  stands for the iteration order of the table, which the program never
  controls, so no property may depend on it.  \<open>insert\<close> is
  \<^const>\<open>AList.update\<close>, \<open>remove\<close> is
  \<^const>\<open>AList.delete\<close>, \<open>retain\<close> is
  \<^const>\<open>filter\<close>, \<open>get\<close> is \<^const>\<open>map_of\<close> and
  \<open>values\<close> maps \<^const>\<open>snd\<close>.  A \<open>String\<close> is
  its list of bytes, ordered as Rust orders \<open>str\<close>.  A
  \<open>DateTime<Utc>\<close> is its number of nanoseconds since the epoch, and
  each reading of the clock is an argument of the operation that reads it.
  Bounded integers are \<^typ>\<open>int\<close> with the wrap-around of a release
  build written out where an operation can reach it.
\<close>

named_theorems store_simps \<open>what each operation does to each table of the store\<close>
named_theorems inv_intros \<open>preservation of the store invariant, one rule per operation\<close>

type_synonym datetime = int
type_synonym epoch_ms = int
type_synonym ('k, 'v) hashmap = "('k \<times> 'v) list"

section \<open>Time and bounded integers\<close>

definition timestamp_millis :: "datetime \<Rightarrow> epoch_ms" where
  "timestamp_millis t = t div 1000000"

definition wrap_i32 :: "int \<Rightarrow> int" where
  "wrap_i32 i = (i + 2 ^ 31) mod 2 ^ 32 - 2 ^ 31"

definition wrap_i64 :: "int \<Rightarrow> int" where
  "wrap_i64 i = (i + 2 ^ 63) mod 2 ^ 64 - 2 ^ 63"

definition is_i32 :: "int \<Rightarrow> bool" where
  "is_i32 i \<longleftrightarrow> - (2 ^ 31) \<le> i \<and> i < 2 ^ 31"

definition is_i64 :: "int \<Rightarrow> bool" where
  "is_i64 i \<longleftrightarrow> - (2 ^ 63) \<le> i \<and> i < 2 ^ 63"

text \<open>\<open>i as usize\<close> on an \<open>i64\<close> that is not negative.\<close>

definition as_usize :: "int \<Rightarrow> nat" where
  "as_usize i = nat (i mod 2 ^ 64)"

section \<open>Text\<close>

definition digit_char :: "nat \<Rightarrow> char" where
  "digit_char d = char_of (48 + d)"

fun show_nat :: "nat \<Rightarrow> string" where
  "show_nat n = (if n < 10 then [digit_char n] else show_nat (n div 10) @ [digit_char (n mod 10)])"

declare show_nat.simps [simp del]

definition show_int :: "int \<Rightarrow> string" where
  "show_int i = (if i < 0 then ''-'' @ show_nat (nat (- i)) else show_nat (nat i))"

definition digit_val :: "char \<Rightarrow> nat option" where
  "digit_val c = (if 48 \<le> (of_char c :: nat) \<and> (of_char c :: nat) \<le> 57
     then Some (of_char c - 48) else None)"

fun parse_digits :: "int \<Rightarrow> string \<Rightarrow> int option" where
  "parse_digits acc [] = Some acc"
| "parse_digits acc (c # cs) =
     (case digit_val c of None \<Rightarrow> None | Some d \<Rightarrow> parse_digits (acc * 10 + int d) cs)"

text \<open>\<open>str::parse::<i32>\<close>: an optional sign, at least one digit, and a value in range.\<close>

definition parse_i32 :: "string \<Rightarrow> int option" where
  "parse_i32 s =
     (let (sgn, ds) = (case s of
          c # cs \<Rightarrow> if c = CHR ''-'' then (-1, cs) else if c = CHR ''+'' then (1, cs) else (1, s)
        | [] \<Rightarrow> (1, [])) in
      if ds = [] then None
      else case parse_digits 0 ds of
        None \<Rightarrow> None
      | Some n \<Rightarrow> if is_i32 (sgn * n) then Some (sgn * n) else None)"

definition starts_with :: "string \<Rightarrow> string \<Rightarrow> bool" where
  "starts_with s p \<longleftrightarrow> take (length p) s = p"

definition strip_prefix :: "string \<Rightarrow> string \<Rightarrow> string option" where
  "strip_prefix s p = (if starts_with s p then Some (drop (length p) s) else None)"

section \<open>Options and lists\<close>

definition is_some_and :: "'a option \<Rightarrow> ('a \<Rightarrow> bool) \<Rightarrow> bool" where
  "is_some_and x P = (case x of None \<Rightarrow> False | Some a \<Rightarrow> P a)"

definition is_none_or :: "'a option \<Rightarrow> ('a \<Rightarrow> bool) \<Rightarrow> bool" where
  "is_none_or x P = (case x of None \<Rightarrow> True | Some a \<Rightarrow> P a)"

definition opt_filter :: "('a \<Rightarrow> bool) \<Rightarrow> 'a option \<Rightarrow> 'a option" where
  "opt_filter P x = (case x of None \<Rightarrow> None | Some a \<Rightarrow> if P a then Some a else None)"

definition then_some :: "bool \<Rightarrow> 'a \<Rightarrow> 'a option" where
  "then_some b a = (if b then Some a else None)"

definition unwrap_or :: "'a \<Rightarrow> 'a option \<Rightarrow> 'a" where
  "unwrap_or d x = (case x of None \<Rightarrow> d | Some a \<Rightarrow> a)"

definition hm_values :: "('k, 'v) hashmap \<Rightarrow> 'v list" where
  "hm_values m = map snd m"

definition contains_key :: "('k, 'v) hashmap \<Rightarrow> 'k \<Rightarrow> bool" where
  "contains_key m k \<longleftrightarrow> map_of m k \<noteq> None"

text \<open>\<open>entry(k).or_insert(v)\<close>: an occupied entry keeps its value.\<close>

definition or_insert :: "'k \<Rightarrow> 'v \<Rightarrow> ('k, 'v) hashmap \<Rightarrow> ('k, 'v) hashmap" where
  "or_insert k v m = (if contains_key m k then m else AList.update k v m)"

text \<open>\<open>Iterator::min_by_key\<close> returns the first of several least elements,
  \<open>max_by_key\<close> the last of several greatest ones.\<close>

fun min_by_key :: "('a \<Rightarrow> 'k :: linorder) \<Rightarrow> 'a list \<Rightarrow> 'a option" where
  "min_by_key f [] = None"
| "min_by_key f (x # xs) = (case min_by_key f xs of
     None \<Rightarrow> Some x | Some y \<Rightarrow> if f x \<le> f y then Some x else Some y)"

fun max_by_key :: "('a \<Rightarrow> 'k :: linorder) \<Rightarrow> 'a list \<Rightarrow> 'a option" where
  "max_by_key f [] = None"
| "max_by_key f (x # xs) = (case max_by_key f xs of
     None \<Rightarrow> Some x | Some y \<Rightarrow> if f x \<le> f y then Some y else Some x)"

text \<open>\<open>Vec::dedup\<close> drops an element equal to the one just before it.\<close>

fun vec_dedup :: "'a list \<Rightarrow> 'a list" where
  "vec_dedup [] = []"
| "vec_dedup [x] = [x]"
| "vec_dedup (x # y # zs) = (if x = y then vec_dedup (y # zs) else x # vec_dedup (y # zs))"

definition count_if :: "('a \<Rightarrow> bool) \<Rightarrow> 'a list \<Rightarrow> int" where
  "count_if P xs = int (length (filter P xs))"

section \<open>Lemmas\<close>

lemma wrap_i32_id [simp]: "is_i32 i \<Longrightarrow> wrap_i32 i = i"
  by (simp add: wrap_i32_def is_i32_def)

lemma wrap_i64_id [simp]: "is_i64 i \<Longrightarrow> wrap_i64 i = i"
  by (simp add: wrap_i64_def is_i64_def)

lemma is_i32_wrap [simp]: "is_i32 (wrap_i32 i)"
  by (simp add: wrap_i32_def is_i32_def)

lemma timestamp_millis_mono: "s \<le> t \<Longrightarrow> timestamp_millis s \<le> timestamp_millis t"
  by (simp add: timestamp_millis_def zdiv_mono1)

lemma option_test_simps [simp]:
  "is_some_and None P = False" "is_some_and (Some a) P = P a"
  "is_none_or None P = True" "is_none_or (Some a) P = P a"
  "opt_filter P None = None" "opt_filter P (Some a) = (if P a then Some a else None)"
  "then_some True a = Some a" "then_some False a = None"
  "unwrap_or d None = d" "unwrap_or d (Some a) = a"
  by (simp_all add: is_some_and_def is_none_or_def opt_filter_def then_some_def unwrap_or_def)

lemma is_some_and_iff: "is_some_and x P \<longleftrightarrow> (\<exists>a. x = Some a \<and> P a)"
  by (cases x) simp_all

lemma is_none_or_iff: "is_none_or x P \<longleftrightarrow> (\<forall>a. x = Some a \<longrightarrow> P a)"
  by (cases x) simp_all

lemmas map_of_AList [simp] = update_conv' delete_conv'

lemma distinct_keys_update [simp]:
  "distinct (map fst m) \<Longrightarrow> distinct (map fst (AList.update k v m))"
  by (simp add: distinct_update)

lemma distinct_keys_delete [simp]:
  "distinct (map fst m) \<Longrightarrow> distinct (map fst (AList.delete k m))"
  by (simp add: distinct_delete)

lemma distinct_keys_filter [simp]:
  "distinct (map fst m) \<Longrightarrow> distinct (map fst (filter P m))"
  by (simp add: distinct_map_filter)

lemma contains_key_iff: "contains_key m k \<longleftrightarrow> k \<in> dom (map_of m)"
  by (auto simp: contains_key_def)

lemma contains_key_update [simp]:
  "contains_key (AList.update k v m) k' \<longleftrightarrow> k' = k \<or> contains_key m k'"
  by (auto simp: contains_key_def)

lemma map_of_or_insert [simp]:
  "map_of (or_insert k v m) = (if contains_key m k then map_of m else (map_of m)(k \<mapsto> v))"
  by (simp add: or_insert_def)

lemma distinct_keys_or_insert [simp]:
  "distinct (map fst m) \<Longrightarrow> distinct (map fst (or_insert k v m))"
  by (simp add: or_insert_def)

lemma map_of_filter_key [simp]:
  "map_of (filter (\<lambda>p. P (fst p)) m) k = (if P k then map_of m k else None)"
  by (induction m) auto

lemma map_of_filter_split [simp]:
  "map_of (filter (\<lambda>((a, b), v). P a b) m) k = (if P (fst k) (snd k) then map_of m k else None)"
  by (induction m) auto

lemma in_hm_values:
  "distinct (map fst m) \<Longrightarrow> v \<in> set (hm_values m) \<longleftrightarrow> (\<exists>k. map_of m k = Some v)"
  by (force simp: hm_values_def image_iff)

lemma starts_with_append [simp]: "starts_with (p @ s) p"
  by (simp add: starts_with_def)

lemma starts_with_iff: "starts_with s p \<longleftrightarrow> (\<exists>t. s = p @ t)"
  by (metis append_eq_conv_conj append_take_drop_id starts_with_def)

lemma strip_prefix_append [simp]: "strip_prefix (p @ s) p = Some s"
  by (simp add: strip_prefix_def)

lemma min_by_key_None [simp]: "min_by_key f xs = None \<longleftrightarrow> xs = []"
  by (induction xs) (auto split: option.splits)

lemma max_by_key_None [simp]: "max_by_key f xs = None \<longleftrightarrow> xs = []"
  by (induction xs) (auto split: option.splits)

lemma min_by_key_Some:
  "min_by_key f xs = Some x \<Longrightarrow> x \<in> set xs \<and> (\<forall>y \<in> set xs. f x \<le> f y)"
  by (induction xs arbitrary: x) (fastforce split: option.splits if_splits)+

lemma max_by_key_Some:
  "max_by_key f xs = Some x \<Longrightarrow> x \<in> set xs \<and> (\<forall>y \<in> set xs. f y \<le> f x)"
  by (induction xs arbitrary: x) (fastforce split: option.splits if_splits)+

lemma set_vec_dedup [simp]: "set (vec_dedup xs) = set xs"
  by (induction xs rule: vec_dedup.induct) auto

lemma sorted_vec_dedup: "sorted xs \<Longrightarrow> sorted (vec_dedup xs) \<and> distinct (vec_dedup xs)"
  by (induction xs rule: vec_dedup.induct) (auto simp: less_le)

lemma count_if_nonneg [simp]: "0 \<le> count_if P xs"
  by (simp add: count_if_def)

lemma count_if_append [simp]: "count_if P (xs @ ys) = count_if P xs + count_if P ys"
  by (simp add: count_if_def)

end
