(* ===== verification/Json.thy ===== *)
theory Json
  imports Complex_Main Prelude
begin

text \<open>
  \<open>serde_json::Value\<close>: the payload type of every input, output, event,
  message and exported row.  The crate is built with \<open>preserve_order\<close>,
  so an object is a list of members in insertion order whose keys are distinct,
  and inserting is \<^const>\<open>AList.update\<close>; equality of two objects ignores
  that order, which is \<open>value_eq\<close>.  An integer number is the union of the
  crate's \<open>PosInt(u64)\<close> and \<open>NegInt(i64)\<close>, a \<open>Float\<close> is
  a finite number and never equals an integer one.  Parsing and printing of text
  is the crate's own and enters the development as a parameter.
\<close>

datatype json = JNull | JBool bool | JInt int | JFloat rat | JString string
  | JArray "json list" | JObject "(string \<times> json) list"

type_synonym jmap = "(string \<times> json) list"

fun value_eq :: "json \<Rightarrow> json \<Rightarrow> bool" where
  "value_eq JNull JNull = True"
| "value_eq (JBool a) (JBool b) = (a = b)"
| "value_eq (JInt a) (JInt b) = (a = b)"
| "value_eq (JFloat a) (JFloat b) = (a = b)"
| "value_eq (JString a) (JString b) = (a = b)"
| "value_eq (JArray as) (JArray bs) = list_all2 value_eq as bs"
| "value_eq (JObject ms) (JObject ns) =
     (length ms = length ns \<and>
      list_all (\<lambda>(k, v). case map_of ns k of None \<Rightarrow> False | Some w \<Rightarrow> value_eq v w) ms)"
| "value_eq _ _ = False"

fun opt_value_eq :: "json option \<Rightarrow> json option \<Rightarrow> bool" where
  "opt_value_eq None None = True"
| "opt_value_eq (Some a) (Some b) = value_eq a b"
| "opt_value_eq _ _ = False"

text \<open>A value that the crate can hold: object keys are distinct, at every depth.\<close>

fun json_wf :: "json \<Rightarrow> bool" where
  "json_wf (JArray as) = list_all json_wf as"
| "json_wf (JObject ms) = (distinct (map fst ms) \<and> list_all (\<lambda>(k, v). json_wf v) ms)"
| "json_wf _ = True"

definition as_str :: "json \<Rightarrow> string option" where
  "as_str v = (case v of JString s \<Rightarrow> Some s | _ \<Rightarrow> None)"

definition as_i64 :: "json \<Rightarrow> int option" where
  "as_i64 v = (case v of JInt i \<Rightarrow> if is_i64 i then Some i else None | _ \<Rightarrow> None)"

definition as_bool :: "json \<Rightarrow> bool option" where
  "as_bool v = (case v of JBool b \<Rightarrow> Some b | _ \<Rightarrow> None)"

definition as_array :: "json \<Rightarrow> json list option" where
  "as_array v = (case v of JArray xs \<Rightarrow> Some xs | _ \<Rightarrow> None)"

definition as_object :: "json \<Rightarrow> jmap option" where
  "as_object v = (case v of JObject m \<Rightarrow> Some m | _ \<Rightarrow> None)"

definition is_null :: "json \<Rightarrow> bool" where
  "is_null v \<longleftrightarrow> v = JNull"

text \<open>\<open>Value::get\<close> with a string index: \<open>None\<close> on anything but an object.\<close>

definition jget :: "json \<Rightarrow> string \<Rightarrow> json option" where
  "jget v k = (case v of JObject m \<Rightarrow> map_of m k | _ \<Rightarrow> None)"

text \<open>The \<open>json!\<close> macro on an optional string and an optional integer.\<close>

definition j_opt_str :: "string option \<Rightarrow> json" where
  "j_opt_str x = (case x of None \<Rightarrow> JNull | Some s \<Rightarrow> JString s)"

definition j_opt_int :: "int option \<Rightarrow> json" where
  "j_opt_int x = (case x of None \<Rightarrow> JNull | Some i \<Rightarrow> JInt i)"

lemma as_str_simps [simp]:
  "as_str JNull = None" "as_str (JString s) = Some s" "as_str (JInt i) = None"
  "as_str (JBool b) = None"
  by (simp_all add: as_str_def)

lemma as_i64_simps [simp]:
  "as_i64 JNull = None" "as_i64 (JString s) = None" "is_i64 i \<Longrightarrow> as_i64 (JInt i) = Some i"
  by (simp_all add: as_i64_def)

lemma as_str_j_opt_str [simp]: "as_str (j_opt_str x) = x"
  by (cases x) (simp_all add: j_opt_str_def)

lemma as_i64_j_opt_int [simp]: "pred_option is_i64 x \<Longrightarrow> as_i64 (j_opt_int x) = x"
  by (cases x) (simp_all add: j_opt_int_def)

lemma is_null_simps [simp]: "is_null JNull" "\<not> is_null (JString s)"
  by (simp_all add: is_null_def)

lemma value_eq_refl [simp]: "json_wf v \<Longrightarrow> value_eq v v"
proof (induction v rule: json_wf.induct)
  case (1 as)
  then show ?case by (simp add: list_all2_same list_all_iff)
next
  case (2 ms)
  have "value_eq (snd p) (snd p)" and "map_of ms (fst p) = Some (snd p)" if "p \<in> set ms" for p
    using 2 that by (force simp: list_all_iff)+
  then show ?case by (fastforce simp: list_all_iff)
qed simp_all

lemma opt_value_eq_refl [simp]: "pred_option json_wf v \<Longrightarrow> opt_value_eq v v"
  by (cases v) simp_all

end
