(* ===== verification/Errors.thy ===== *)
theory Errors
  imports Json
begin

text \<open>
  The crate's error type (\<open>src/error.rs\<close>), its display form, its stable
  code and the classifications of a database failure, with the two types it
  embeds: the portable envelope of \<open>src/serialize.rs\<close> and the
  divergence of \<open>src/replay.rs\<close>.  An error of the \<open>sqlx\<close>
  driver is what the code reads from it: which kind it is, the SQLSTATE or
  result code, the two constraint predicates and its display text.  The
  \<open>source\<close> of an application error is kept as its text.
\<close>

section \<open>Definitions\<close>

datatype divergence =
    Mismatch int string string
  | Extra int string
  | Missing int string
  | Failed string

record portable_workflow_error =
  pe_name :: string
  pe_message :: string
  pe_code :: "json option"
  pe_data :: "json option"

datatype error_code =
    Code_RecoveryRequired | Code_Database | Code_Initialization | Code_Serialization
  | Code_WorkflowNotRegistered | Code_QueueNotRegistered | Code_NonExistentWorkflow
  | Code_QueueDeduplicated | Code_NotAuthorized | Code_WorkflowCancelled
  | Code_MaxRecoveryAttemptsExceeded | Code_ConflictingRegistration | Code_Timeout
  | Code_UnexpectedStep | Code_NestedDurableCall | Code_DurableCallOutsideExecution
  | Code_WorkflowConflict | Code_ReplayDiverged | Code_Application
  | Code_WorkflowTargetConflict

record recorded_error =
  re_code :: error_code
  re_message :: string
  re_retryable :: bool
  re_tx_conflict :: bool
  re_unique_violation :: bool
  re_foreign_key_violation :: bool

record db_error =
  db_code :: "string option"
  db_unique :: bool
  db_foreign_key :: bool

datatype sqlx_kind = Sqlx_Io | Sqlx_PoolTimedOut | Sqlx_PoolClosed | Sqlx_Database db_error | Sqlx_Other

record sqlx_error =
  sqlx_kind :: sqlx_kind
  sqlx_text :: string

datatype error =
    RecoveryRequired error
  | ObservationFailed error
  | Recorded recorded_error
  | Db sqlx_error
  | Migrate string
  | Serde string
  | OutputSerialization string
  | Serialization string
  | UnknownWorkflow string
  | UnknownQueue string
  | NonExistentWorkflow string
  | NotAuthorized string
  | QueueDeduplicated string string
  | Cancelled string
  | MaxRecoveryAttemptsExceeded string
  | ConflictingRegistration string
  | Timeout
  | UnexpectedStep string int string string
  | NestedDurableCall string string
  | DurableCallCrossedBody string
  | DurableCallOutsideExecution string string
  | WorkflowConflict string
  | ReplayDiverged string divergence
  | App string "string option"
  | Portable portable_workflow_error

type_synonym 'a result = "error + 'a"

abbreviation Err :: "error \<Rightarrow> 'a result" where "Err \<equiv> Inl"
abbreviation Ok :: "'a \<Rightarrow> 'a result" where "Ok \<equiv> Inr"

definition result_bind :: "'a result \<Rightarrow> ('a \<Rightarrow> 'b result) \<Rightarrow> 'b result" where
  "result_bind r f = (case r of Inl e \<Rightarrow> Inl e | Inr a \<Rightarrow> f a)"

definition map_err :: "(error \<Rightarrow> error) \<Rightarrow> 'a result \<Rightarrow> 'a result" where
  "map_err f r = (case r of Inl e \<Rightarrow> Inl (f e) | Inr a \<Rightarrow> Inr a)"

text \<open>The UTF-8 bytes of the dash in the display texts.\<close>

definition em_dash :: string where
  "em_dash = [CHR 0xE2, CHR 0x80, CHR 0x94]"

fun divergence_to_string :: "divergence \<Rightarrow> string" where
  "divergence_to_string (Mismatch position expected recorded) =
     ''step '' @ show_int position @ '': the code now issues `'' @ expected @ ''`, but `''
     @ recorded @ ''` is recorded there''"
| "divergence_to_string (Extra position operation) =
     ''step '' @ show_int position @ '': the code now issues `'' @ operation
     @ ''`, which the recorded history does not have''"
| "divergence_to_string (Missing position recorded) =
     ''step '' @ show_int position @ '': the code no longer reaches `'' @ recorded
     @ ''`, which is recorded there''"
| "divergence_to_string (Failed err) =
     ''the recorded run did not fail, but the re-run did '' @ em_dash @ '' '' @ err"

fun error_to_string :: "error \<Rightarrow> string" where
  "error_to_string (RecoveryRequired e) = ''workflow execution requires recovery: '' @ error_to_string e"
| "error_to_string (ObservationFailed e) = ''workflow operation could not be observed: '' @ error_to_string e"
| "error_to_string (Recorded r) = re_message r"
| "error_to_string (Db e) = ''database error: '' @ sqlx_text e"
| "error_to_string (Migrate e) = ''migration error: '' @ e"
| "error_to_string (Serde e) = ''serialization error: '' @ e"
| "error_to_string (OutputSerialization e) = ''serialization error: '' @ e"
| "error_to_string (Serialization e) = ''serialization format error: '' @ e"
| "error_to_string (UnknownWorkflow n) = ''no workflow registered under name `'' @ n @ ''`''"
| "error_to_string (UnknownQueue n) = ''no queue registered under name `'' @ n @ ''`''"
| "error_to_string (NonExistentWorkflow i) = ''workflow `'' @ i @ ''` does not exist''"
| "error_to_string (NotAuthorized m) = ''not authorized: '' @ m"
| "error_to_string (QueueDeduplicated q d) =
     ''deduplication id `'' @ d @ ''` already in use on queue `'' @ q @ ''`''"
| "error_to_string (Cancelled i) = ''workflow `'' @ i @ ''` was cancelled''"
| "error_to_string (MaxRecoveryAttemptsExceeded i) =
     ''workflow `'' @ i @ ''` exceeded its maximum recovery attempts''"
| "error_to_string (ConflictingRegistration n) =
     ''workflow name `'' @ n @ ''` is registered more than once''"
| "error_to_string Timeout = ''operation timed out''"
| "error_to_string (UnexpectedStep w s expected recorded) =
     ''workflow `'' @ w @ ''` step '' @ show_int s @ '' is `'' @ expected @ ''` but `'' @ recorded
     @ ''` is recorded there '' @ em_dash @ '' the workflow function is non-deterministic''"
| "error_to_string (NestedDurableCall w operation) =
     ''workflow `'' @ w @ ''`: `'' @ operation
     @ ''` was created inside another durable operation's body '' @ em_dash
     @ '' a durable call cannot hold its position there''"
| "error_to_string (DurableCallCrossedBody operation) =
     ''`'' @ operation @ ''` was built outside the durable body it is being awaited in '' @ em_dash
     @ '' await it where it was built''"
| "error_to_string (DurableCallOutsideExecution w operation) =
     ''workflow `'' @ w @ ''`: `'' @ operation
     @ ''` was used outside its original workflow execution; keep durable calls in the workflow body or start a child workflow''"
| "error_to_string (WorkflowConflict i) =
     ''workflow `'' @ i
     @ ''` is being executed concurrently by another process; this execution lost the step-checkpoint race''"
| "error_to_string (ReplayDiverged w d) =
     ''workflow `'' @ w @ ''` no longer replays its recorded history: '' @ divergence_to_string d"
| "error_to_string (App m src) = m"
| "error_to_string (Portable p) = pe_message p"

definition workflow_target_conflict :: "string \<Rightarrow> error" where
  "workflow_target_conflict i = Portable \<lparr>
     pe_name = ''durare.WorkflowTargetConflict'',
     pe_message = ''workflow `'' @ i @ ''` already belongs to a different workflow target'',
     pe_code = Some (JString ''workflow_target_conflict''),
     pe_data = Some (JObject [(''workflow_id'', JString i)])\<rparr>"

definition app :: "string \<Rightarrow> error" where
  "app msg = App msg None"

definition app_source :: "string \<Rightarrow> string \<Rightarrow> error" where
  "app_source msg src = App msg (Some src)"

definition portable :: "string \<Rightarrow> string \<Rightarrow> error" where
  "portable nm msg = Portable \<lparr>pe_name = nm, pe_message = msg, pe_code = None, pe_data = None\<rparr>"

fun code :: "error \<Rightarrow> error_code" where
  "code (RecoveryRequired _) = Code_RecoveryRequired"
| "code (ObservationFailed cause) = code cause"
| "code (Recorded e) = re_code e"
| "code (Db _) = Code_Database"
| "code (Migrate _) = Code_Initialization"
| "code (Serde _) = Code_Serialization"
| "code (OutputSerialization _) = Code_Serialization"
| "code (Serialization _) = Code_Serialization"
| "code (UnknownWorkflow _) = Code_WorkflowNotRegistered"
| "code (UnknownQueue _) = Code_QueueNotRegistered"
| "code (NonExistentWorkflow _) = Code_NonExistentWorkflow"
| "code (QueueDeduplicated _ _) = Code_QueueDeduplicated"
| "code (NotAuthorized _) = Code_NotAuthorized"
| "code (Cancelled _) = Code_WorkflowCancelled"
| "code (MaxRecoveryAttemptsExceeded _) = Code_MaxRecoveryAttemptsExceeded"
| "code (ConflictingRegistration _) = Code_ConflictingRegistration"
| "code Timeout = Code_Timeout"
| "code (UnexpectedStep _ _ _ _) = Code_UnexpectedStep"
| "code (NestedDurableCall _ _) = Code_NestedDurableCall"
| "code (DurableCallCrossedBody _) = Code_NestedDurableCall"
| "code (DurableCallOutsideExecution _ _) = Code_DurableCallOutsideExecution"
| "code (WorkflowConflict _) = Code_WorkflowConflict"
| "code (ReplayDiverged _ _) = Code_ReplayDiverged"
| "code (Portable info) =
     (if pe_name info = ''durare.WorkflowTargetConflict''
         \<and> Option.bind (pe_code info) as_str = Some ''workflow_target_conflict''
      then Code_WorkflowTargetConflict else Code_Application)"
| "code (App _ _) = Code_Application"

definition is_cancellation_for :: "error \<Rightarrow> string \<Rightarrow> bool" where
  "is_cancellation_for e w = (case e of Cancelled i \<Rightarrow> i = w | _ \<Rightarrow> False)"

definition is_scope_violation :: "error \<Rightarrow> bool" where
  "is_scope_violation e \<longleftrightarrow>
     code e = Code_NestedDurableCall \<or> code e = Code_DurableCallOutsideExecution"

text \<open>\<open>n & 0xFF\<close> of an \<open>i32\<close> is its residue modulo 256.\<close>

definition sqlite_busy_code :: "string \<Rightarrow> bool" where
  "sqlite_busy_code c = (case parse_i32 c of None \<Rightarrow> False
     | Some n \<Rightarrow> n mod 256 = 5 \<or> n mod 256 = 6)"

definition is_tx_conflict_code :: "string \<Rightarrow> bool" where
  "is_tx_conflict_code c =
     (if length c = 5 then c = ''40001'' \<or> c = ''40P01'' else sqlite_busy_code c)"

definition is_retryable_db_code :: "string \<Rightarrow> bool" where
  "is_retryable_db_code c =
     (if length c = 5
      then starts_with c ''08'' \<or> c = ''57P01'' \<or> c = ''57P02'' \<or> c = ''57P03'' \<or> c = ''53300''
      else sqlite_busy_code c)"

fun is_unique_violation :: "error \<Rightarrow> bool" where
  "is_unique_violation (RecoveryRequired cause) = is_unique_violation cause"
| "is_unique_violation (ObservationFailed cause) = is_unique_violation cause"
| "is_unique_violation (Recorded e) = re_unique_violation e"
| "is_unique_violation (Db e) =
     (case sqlx_kind e of Sqlx_Database d \<Rightarrow> db_unique d | _ \<Rightarrow> False)"
| "is_unique_violation _ = False"

fun is_foreign_key_violation :: "error \<Rightarrow> bool" where
  "is_foreign_key_violation (RecoveryRequired cause) = is_foreign_key_violation cause"
| "is_foreign_key_violation (ObservationFailed cause) = is_foreign_key_violation cause"
| "is_foreign_key_violation (Recorded e) = re_foreign_key_violation e"
| "is_foreign_key_violation (Db e) =
     (case sqlx_kind e of Sqlx_Database d \<Rightarrow> db_foreign_key d | _ \<Rightarrow> False)"
| "is_foreign_key_violation _ = False"

fun is_retryable :: "error \<Rightarrow> bool" where
  "is_retryable (RecoveryRequired cause) = is_retryable cause"
| "is_retryable (ObservationFailed cause) = is_retryable cause"
| "is_retryable (Recorded e) = re_retryable e"
| "is_retryable (Db e) = (case sqlx_kind e of
       Sqlx_Io \<Rightarrow> True | Sqlx_PoolTimedOut \<Rightarrow> True | Sqlx_PoolClosed \<Rightarrow> True
     | Sqlx_Database d \<Rightarrow> (case db_code d of None \<Rightarrow> False | Some c \<Rightarrow> is_retryable_db_code c)
     | Sqlx_Other \<Rightarrow> False)"
| "is_retryable _ = False"

fun is_tx_conflict :: "error \<Rightarrow> bool" where
  "is_tx_conflict (RecoveryRequired cause) = is_tx_conflict cause"
| "is_tx_conflict (ObservationFailed cause) = is_tx_conflict cause"
| "is_tx_conflict (Recorded e) = re_tx_conflict e"
| "is_tx_conflict (Db e) = (case sqlx_kind e of
       Sqlx_Database d \<Rightarrow> (case db_code d of None \<Rightarrow> False | Some c \<Rightarrow> is_tx_conflict_code c)
     | _ \<Rightarrow> False)"
| "is_tx_conflict _ = False"

definition should_retry_live_transaction :: "error \<Rightarrow> bool" where
  "should_retry_live_transaction e \<longleftrightarrow>
     (case e of Db _ \<Rightarrow> True | _ \<Rightarrow> False) \<and> (is_tx_conflict e \<or> is_retryable e)"

definition capture :: "error \<Rightarrow> recorded_error" where
  "capture e = \<lparr>re_code = code e, re_message = error_to_string e, re_retryable = is_retryable e,
     re_tx_conflict = is_tx_conflict e, re_unique_violation = is_unique_violation e,
     re_foreign_key_violation = is_foreign_key_violation e\<rparr>"

datatype panic_payload = Panic_Str string | Panic_String string | Panic_Other

definition panic_message :: "panic_payload \<Rightarrow> string" where
  "panic_message p = (case p of Panic_Str s \<Rightarrow> s | Panic_String s \<Rightarrow> s
     | Panic_Other \<Rightarrow> ''panicked with a non-string payload'')"

section \<open>Lemmas\<close>

lemma result_bind_simps [simp]:
  "result_bind (Inl e) f = Inl e" "result_bind (Inr a) f = f a"
  by (simp_all add: result_bind_def)

lemma result_bind_Ok_iff:
  "result_bind r f = Inr b \<longleftrightarrow> (\<exists>a. r = Inr a \<and> f a = Inr b)"
  by (cases r) simp_all

lemma map_err_simps [simp]: "map_err f (Inl e) = Inl (f e)" "map_err f (Inr a) = Inr a"
  by (simp_all add: map_err_def)

lemma code_constructors [simp]:
  "code (app m) = Code_Application" "code (app_source m s) = Code_Application"
  "code (workflow_target_conflict i) = Code_WorkflowTargetConflict"
  by (simp_all add: app_def app_source_def workflow_target_conflict_def)

lemma capture_classification [simp]:
  "code (Recorded (capture e)) = code e"
  "error_to_string (Recorded (capture e)) = error_to_string e"
  "is_retryable (Recorded (capture e)) = is_retryable e"
  "is_tx_conflict (Recorded (capture e)) = is_tx_conflict e"
  "is_unique_violation (Recorded (capture e)) = is_unique_violation e"
  "is_foreign_key_violation (Recorded (capture e)) = is_foreign_key_violation e"
  by (simp_all add: capture_def)

lemma captured_not_live [simp]: "\<not> should_retry_live_transaction (Recorded r)"
  by (simp add: should_retry_live_transaction_def)

end
