(* ===== verification/Execution.thy ===== *)
theory Execution
  imports Errors
begin

text \<open>
  The per-execution identity and failure latch of \<open>src/execution.rs\<close>.
  An execution is its allocation (\<open>Arc::ptr_eq\<close> compares tokens), its
  workflow id and the write-once cell \<open>failure\<close>; the task-local
  \<open>CURRENT_EXECUTION\<close> is an explicit argument.  Waking the waiter of
  \<open>failed\<close> (\<open>Notify\<close>) has no state of its own and is left out.
\<close>

section \<open>Definitions\<close>

record execution =
  ex_token :: nat
  ex_workflow_id :: string
  ex_failure :: "error option"

definition execution_new :: "nat \<Rightarrow> string \<Rightarrow> execution" where
  "execution_new token w = \<lparr>ex_token = token, ex_workflow_id = w, ex_failure = None\<rparr>"

definition scope :: "execution \<Rightarrow> (nat option \<Rightarrow> 'a) \<Rightarrow> nat option \<Rightarrow> 'a \<times> nat option" where
  "scope ex body current = (body (Some (ex_token ex)), current)"

definition check_placement :: "nat option \<Rightarrow> execution \<Rightarrow> string \<Rightarrow> unit result" where
  "check_placement current ex operation =
     (if current = Some (ex_token ex) then Ok ()
      else Err (DurableCallOutsideExecution (ex_workflow_id ex) operation))"

definition check :: "execution \<Rightarrow> unit result" where
  "check ex = (case ex_failure ex of Some e \<Rightarrow> Err (RecoveryRequired e) | None \<Rightarrow> Ok ())"

definition recovery_error :: "error \<Rightarrow> error" where
  "recovery_error e = (case e of RecoveryRequired _ \<Rightarrow> e
     | ObservationFailed cause \<Rightarrow> RecoveryRequired cause
     | other \<Rightarrow> RecoveryRequired other)"

definition is_storage_failure :: "error \<Rightarrow> bool" where
  "is_storage_failure e = (case e of
       Db _ \<Rightarrow> True | Migrate _ \<Rightarrow> True | Serde _ \<Rightarrow> True | Serialization _ \<Rightarrow> True
     | RecoveryRequired _ \<Rightarrow> True | ObservationFailed _ \<Rightarrow> True | _ \<Rightarrow> False)"

definition provider_error :: "error \<Rightarrow> error" where
  "provider_error e = (if is_storage_failure e then recovery_error e else e)"

definition observation_error :: "error \<Rightarrow> error" where
  "observation_error e = (case e of ObservationFailed _ \<Rightarrow> e
     | RecoveryRequired cause \<Rightarrow> ObservationFailed cause
     | other \<Rightarrow> if is_storage_failure other then ObservationFailed other else other)"

definition interrupt :: "error \<Rightarrow> execution \<Rightarrow> error \<times> execution" where
  "interrupt e ex =
     (let first = (case ex_failure ex of Some f \<Rightarrow> f
        | None \<Rightarrow> (case e of RecoveryRequired cause \<Rightarrow> cause | ObservationFailed cause \<Rightarrow> cause
                     | other \<Rightarrow> other))
      in (RecoveryRequired first, ex\<lparr>ex_failure := Some first\<rparr>))"

definition record_error :: "error \<Rightarrow> execution \<Rightarrow> error \<times> execution" where
  "record_error e ex = (case provider_error e of
       RecoveryRequired c \<Rightarrow> interrupt (RecoveryRequired c) ex
     | rejection \<Rightarrow> (rejection, ex))"

definition body_error :: "error \<Rightarrow> execution \<Rightarrow> error \<times> execution" where
  "body_error e ex = (case e of RecoveryRequired _ \<Rightarrow> interrupt e ex
     | ObservationFailed _ \<Rightarrow> interrupt e ex | _ \<Rightarrow> (e, ex))"

definition storage :: "'a result \<Rightarrow> execution \<Rightarrow> 'a result \<times> execution" where
  "storage r ex = (case r of Inr a \<Rightarrow> (Ok a, ex)
     | Inl e \<Rightarrow> (let (e', ex') = record_error e ex in (Err e', ex')))"

text \<open>The calls an execution receives, as data, and a run of several of them.\<close>

datatype latch_call = Call_record error | Call_body error | Call_interrupt error

fun latch_step :: "latch_call \<Rightarrow> execution \<Rightarrow> error \<times> execution" where
  "latch_step (Call_record e) ex = record_error e ex"
| "latch_step (Call_body e) ex = body_error e ex"
| "latch_step (Call_interrupt e) ex = interrupt e ex"

fun latch_run :: "latch_call list \<Rightarrow> execution \<Rightarrow> error list \<times> execution" where
  "latch_run [] ex = ([], ex)"
| "latch_run (c # cs) ex =
     (let (e, ex') = latch_step c ex; (es, ex'') = latch_run cs ex' in (e # es, ex''))"

text \<open>The cause one call would latch on a fresh execution; \<open>None\<close> for a
  semantic rejection or a business error, which latch nothing.\<close>

definition unwrapped :: "error \<Rightarrow> error" where
  "unwrapped e = (case e of RecoveryRequired c \<Rightarrow> c | ObservationFailed c \<Rightarrow> c | _ \<Rightarrow> e)"

fun call_cause :: "latch_call \<Rightarrow> error option" where
  "call_cause (Call_record e) = (if is_storage_failure e then Some (unwrapped e) else None)"
| "call_cause (Call_body e) = (case e of RecoveryRequired c \<Rightarrow> Some c
     | ObservationFailed c \<Rightarrow> Some c | _ \<Rightarrow> None)"
| "call_cause (Call_interrupt e) = Some (unwrapped e)"

fun first_cause :: "latch_call list \<Rightarrow> error option" where
  "first_cause [] = None"
| "first_cause (c # cs) = (case call_cause c of Some e \<Rightarrow> Some e | None \<Rightarrow> first_cause cs)"

section \<open>Lemmas\<close>

lemma interrupt_latched [simp]:
  "ex_failure ex = Some f \<Longrightarrow> interrupt e ex = (RecoveryRequired f, ex)"
  by (simp add: interrupt_def)

lemma interrupt_fresh:
  "ex_failure ex = None \<Longrightarrow>
   interrupt e ex = (RecoveryRequired (unwrapped e), ex\<lparr>ex_failure := Some (unwrapped e)\<rparr>)"
  by (cases e) (simp_all add: interrupt_def unwrapped_def Let_def)

lemma provider_error_cases:
  "provider_error e = (if is_storage_failure e then RecoveryRequired (unwrapped e) else e)"
  by (cases e) (simp_all add: provider_error_def recovery_error_def is_storage_failure_def unwrapped_def)

lemma record_error_cases:
  "record_error e ex =
     (if is_storage_failure e then interrupt (RecoveryRequired (unwrapped e)) ex else (e, ex))"
  unfolding record_error_def provider_error_cases
  by (cases e) (simp_all add: is_storage_failure_def)

lemma latch_step_failure:
  "ex_failure (snd (latch_step c ex)) =
     (case ex_failure ex of Some f \<Rightarrow> Some f | None \<Rightarrow> call_cause c)"
proof (cases "ex_failure ex")
  case None
  show ?thesis
  proof (cases c)
    case (Call_body e)
    then show ?thesis using None
      by (cases e) (simp_all add: body_error_def interrupt_fresh unwrapped_def)
  qed (use None in \<open>simp_all add: record_error_cases interrupt_fresh unwrapped_def\<close>)
next
  case (Some f)
  then show ?thesis
    by (cases c) (auto simp: record_error_cases body_error_def split: error.splits)
qed

lemma latch_run_failure:
  "ex_failure (snd (latch_run cs ex)) =
     (case ex_failure ex of Some f \<Rightarrow> Some f | None \<Rightarrow> first_cause cs)"
  by (induction cs arbitrary: ex)
     (auto simp: latch_step_failure split: prod.splits option.splits, (metis latch_step_failure option.simps snd_conv)+)

lemma latch_step_out:
  "fst (latch_step c ex) = (case call_cause c of
      Some e \<Rightarrow> RecoveryRequired (case ex_failure ex of Some f \<Rightarrow> f | None \<Rightarrow> e)
    | None \<Rightarrow> (case c of Call_record e \<Rightarrow> e | Call_body e \<Rightarrow> e | Call_interrupt e \<Rightarrow> e))"
proof (cases c)
  case (Call_body e)
  then show ?thesis
    by (cases e; cases "ex_failure ex") (simp_all add: body_error_def interrupt_fresh unwrapped_def)
qed (cases "ex_failure ex"; simp add: record_error_cases interrupt_fresh unwrapped_def)+

lemma latch_token [simp]:
  "ex_token (snd (latch_step c ex)) = ex_token ex"
  "ex_workflow_id (snd (latch_step c ex)) = ex_workflow_id ex"
  by (cases c; auto simp: record_error_cases body_error_def interrupt_def Let_def split: error.splits)+

section \<open>Properties\<close>

text \<open>
  The first infrastructure failure wins.  Whatever calls an execution
  receives, its latch holds the cause of the first of them that reports an
  infrastructure failure or another execution's interruption; from then on
  every check of the execution fails with that cause, and so does every further
  call that reports such a failure, while semantic rejections and business errors pass
  through unchanged and latch nothing.
\<close>

theorem latch_first_failure:
  assumes "ex_failure ex = None"
  shows "ex_failure (snd (latch_run cs ex)) = first_cause cs
    \<and> check (snd (latch_run cs ex)) = (case first_cause cs of
        Some cause \<Rightarrow> Err (RecoveryRequired cause) | None \<Rightarrow> Ok ())
    \<and> fst (latch_step c (snd (latch_run cs ex))) = (case call_cause c of
        Some e \<Rightarrow> RecoveryRequired (case first_cause cs of Some f \<Rightarrow> f | None \<Rightarrow> e)
      | None \<Rightarrow> (case c of Call_record e \<Rightarrow> e | Call_body e \<Rightarrow> e | Call_interrupt e \<Rightarrow> e))"
  using assms by (simp add: latch_run_failure check_def latch_step_out split: option.split)

section \<open>Witnesses\<close>

theorem latch_first_failure_witness:
  "check (snd (latch_run [Call_record (NonExistentWorkflow ''a''), Call_record (Serde ''x''),
      Call_body (RecoveryRequired Timeout)] (execution_new 0 ''w''))) = Err (RecoveryRequired (Serde ''x''))"
  using latch_first_failure [of "execution_new 0 ''w''" "[Call_record (NonExistentWorkflow ''a''),
      Call_record (Serde ''x''), Call_body (RecoveryRequired Timeout)]"]
  by (simp add: execution_new_def is_storage_failure_def unwrapped_def)

end
