(* ===== verification/Recorded_Errors.thy ===== *)
theory Recorded_Errors
  imports Errors
begin

text \<open>
  Storage formats (\<open>src/serialize.rs\<close>) and the versioned error records
  (\<open>src/recorded_error.rs\<close>).  The text forms that \<open>serde_json\<close>
  and its derive macros, and the \<open>base64\<close> crate, give to values are the
  fields of the parameter record \<open>codec\<close>; what a theorem relies on
  them for is a named hypothesis of that theorem.
\<close>

section \<open>Definitions\<close>

record portable_workflow_args =
  positional_args :: "json list"
  named_args :: jmap

text \<open>
  \<open>json_to_string\<close>/\<open>json_from_str\<close> are the text form of a value;
  \<open>env_*\<close> that of the error envelope; \<open>args_to_string\<close> that of
  the argument envelope; \<open>payload_from_value\<close>, \<open>error_to_value\<close>
  and \<open>error_from_value\<close> are the derived conversions of \<open>Payload\<close>
  and of \<open>ErrorWire\<close>; an error result carries its display text.
\<close>

record codec =
  json_to_string :: "json \<Rightarrow> string"
  json_from_str :: "string \<Rightarrow> string + json"
  env_to_string :: "portable_workflow_error \<Rightarrow> string"
  env_from_str :: "string \<Rightarrow> portable_workflow_error option"
  args_to_string :: "portable_workflow_args \<Rightarrow> string"
  payload_from_value :: "json \<Rightarrow> string + (nat \<times> json)"
  error_to_value :: "error \<Rightarrow> json"
  error_from_value :: "json \<Rightarrow> string + error"
  base64_encode :: "string \<Rightarrow> string"
  base64_decode :: "string \<Rightarrow> string + string"
  show_quoted :: "string \<Rightarrow> string"

record serializer_codec =
  sc_name :: string
  sc_encode :: "json \<Rightarrow> string result"
  sc_decode :: "string \<Rightarrow> json result"

datatype serializer = Json_Format | Portable_Format | Custom serializer_codec

definition PORTABLE :: string where "PORTABLE = ''portable_json''"
definition DBOS_JSON :: string where "DBOS_JSON = ''DBOS_JSON''"
definition NIL_MARKER :: string where "NIL_MARKER = ''__DBOS_NIL''"
definition PORTABLE_ERROR_NAME :: string where "PORTABLE_ERROR_NAME = ''Portable Error''"
definition PREFIX :: string where "PREFIX = ''__DURARE_ERROR__:''"
definition NAME :: string where "NAME = ''durare.RecordedError''"

definition serializer_name :: "serializer \<Rightarrow> string" where
  "serializer_name s = (case s of Json_Format \<Rightarrow> DBOS_JSON | Portable_Format \<Rightarrow> PORTABLE
     | Custom c \<Rightarrow> sc_name c)"

definition is_portable :: "serializer \<Rightarrow> bool" where
  "is_portable s = (case s of Portable_Format \<Rightarrow> True | _ \<Rightarrow> False)"

definition encode :: "codec \<Rightarrow> serializer \<Rightarrow> json \<Rightarrow> string result" where
  "encode C s v = (case s of
       Portable_Format \<Rightarrow> if is_null v then Ok ''null'' else Ok (json_to_string C v)
     | Json_Format \<Rightarrow> if is_null v then Ok NIL_MARKER
         else Ok (base64_encode C (json_to_string C v))
     | Custom c \<Rightarrow> sc_encode c v)"

definition from_str :: "codec \<Rightarrow> string \<Rightarrow> json result" where
  "from_str C s = (case json_from_str C s of Inl e \<Rightarrow> Err (Serde e) | Inr v \<Rightarrow> Ok v)"

definition decode_dbos_json :: "codec \<Rightarrow> string \<Rightarrow> json result" where
  "decode_dbos_json C stored =
     (if stored = NIL_MARKER then Ok JNull
      else case base64_decode C stored of
        Inl e \<Rightarrow> Err (Serialization (''invalid base64 in '' @ DBOS_JSON @ '' value: '' @ e))
      | Inr bytes \<Rightarrow> from_str C bytes)"

definition decode :: "codec \<Rightarrow> serializer \<Rightarrow> string option \<Rightarrow> string \<Rightarrow> json result" where
  "decode C s fmt stored =
     (let f = unwrap_or '''' fmt in
      if f = PORTABLE then (if stored = ''null'' then Ok JNull else from_str C stored)
      else case s of
        Custom c \<Rightarrow> if sc_name c = f then sc_decode c stored
          else if f = '''' \<or> f = DBOS_JSON then decode_dbos_json C stored
          else Err (Serialization (''value uses serialization format '' @ show_quoted C f
            @ '', which this SDK cannot decode; use '' @ PORTABLE
            @ '' for cross-language interop, or configure a matching custom serializer''))
      | _ \<Rightarrow> if f = '''' \<or> f = DBOS_JSON then decode_dbos_json C stored
          else Err (Serialization (''value uses serialization format '' @ show_quoted C f
            @ '', which this SDK cannot decode; use '' @ PORTABLE
            @ '' for cross-language interop, or configure a matching custom serializer'')))"

definition decode_opt :: "codec \<Rightarrow> serializer \<Rightarrow> string option \<Rightarrow> string option \<Rightarrow> json option result" where
  "decode_opt C s fmt stored = (case stored of
       Some t \<Rightarrow> result_bind (decode C s fmt t) (\<lambda>v. Ok (Some v)) | None \<Rightarrow> Ok None)"

definition single :: "json \<Rightarrow> portable_workflow_args" where
  "single arg = \<lparr>positional_args = [arg], named_args = []\<rparr>"

definition as_envelope :: "json \<Rightarrow> portable_workflow_args option" where
  "as_envelope v = (case as_object v of None \<Rightarrow> None | Some obj \<Rightarrow>
     (case Option.bind (map_of obj ''positionalArgs'') as_array of None \<Rightarrow> None | Some ps \<Rightarrow>
       (case map_of obj ''namedArgs'' of
          Some (JObject m) \<Rightarrow> Some \<lparr>positional_args = ps, named_args = m\<rparr>
        | None \<Rightarrow> Some \<lparr>positional_args = ps, named_args = []\<rparr>
        | Some JNull \<Rightarrow> Some \<lparr>positional_args = ps, named_args = []\<rparr>
        | Some _ \<Rightarrow> None)))"

definition encode_input :: "codec \<Rightarrow> serializer \<Rightarrow> json \<Rightarrow> string result" where
  "encode_input C s v =
     (if is_portable s
      then Ok (args_to_string C (unwrap_or (single v) (as_envelope v)))
      else encode C s v)"

definition first_positional :: "json \<Rightarrow> json" where
  "first_positional v = (case as_envelope v of
       Some env \<Rightarrow> (case positional_args env of p # _ \<Rightarrow> p | [] \<Rightarrow> JNull)
     | None \<Rightarrow> v)"

definition decode_input :: "codec \<Rightarrow> serializer \<Rightarrow> string option \<Rightarrow> string \<Rightarrow> json result" where
  "decode_input C s fmt stored = result_bind (decode C s fmt stored)
     (\<lambda>v. if fmt = Some PORTABLE then Ok (first_positional v) else Ok v)"

definition decode_input_opt ::
  "codec \<Rightarrow> serializer \<Rightarrow> string option \<Rightarrow> string option \<Rightarrow> json option result" where
  "decode_input_opt C s fmt stored = (case stored of
       Some t \<Rightarrow> result_bind (decode_input C s fmt t) (\<lambda>v. Ok (Some v)) | None \<Rightarrow> Ok None)"

text \<open>The record written for \<open>recordable\<close>, before and after it becomes text.\<close>

definition recordable :: "error \<Rightarrow> error" where
  "recordable e = (case e of Db _ \<Rightarrow> Recorded (capture e) | Migrate _ \<Rightarrow> Recorded (capture e)
     | Serde _ \<Rightarrow> Recorded (capture e) | OutputSerialization _ \<Rightarrow> Recorded (capture e) | _ \<Rightarrow> e)"

definition record_envelope :: "codec \<Rightarrow> error \<Rightarrow> portable_workflow_error" where
  "record_envelope C e = \<lparr>pe_name = NAME, pe_message = error_to_string e, pe_code = None,
     pe_data = Some (JObject [(''version'', JInt 1), (''error'', error_to_value C (recordable e))])\<rparr>"

definition legacy_form :: "serializer \<Rightarrow> error \<Rightarrow> bool" where
  "legacy_form s e = (case e of
       App message _ \<Rightarrow> \<not> starts_with message PREFIX
     | Portable info \<Rightarrow> is_portable s \<and> pe_name info \<noteq> NAME
         \<and> \<not> (pe_name info = ''DBOSNotAuthorizedError'' \<and> pe_code info = None \<and> pe_data info = None)
     | NotAuthorized _ \<Rightarrow> is_portable s
     | _ \<Rightarrow> False)"

definition record_encode :: "codec \<Rightarrow> serializer \<Rightarrow> error \<Rightarrow> string option result" where
  "record_encode C s e =
     (case e of RecoveryRequired cause \<Rightarrow> Err (RecoveryRequired cause)
      | ObservationFailed cause \<Rightarrow> Err (ObservationFailed cause)
      | _ \<Rightarrow>
        if code e = Code_RecoveryRequired
        then Err (Serialization ''an execution interruption is not a recordable outcome'')
        else if legacy_form s e then Ok None
        else let encoded = env_to_string C (record_envelope C e) in
          Ok (Some (if is_portable s then encoded else PREFIX @ encoded)))"

definition record_decode :: "codec \<Rightarrow> json \<Rightarrow> error result" where
  "record_decode C v = (case payload_from_value C v of
       Inl e \<Rightarrow> Err (Serde e)
     | Inr (version, err) \<Rightarrow>
        if version \<noteq> 1
        then Err (Serialization (''unsupported recorded error version '' @ show_nat version))
        else case error_from_value C err of
          Inl e \<Rightarrow> Err (Serde e)
        | Inr e \<Rightarrow> if code e = Code_RecoveryRequired
            then Err (Serialization ''record contains an execution interruption, not a business outcome'')
            else Ok e)"

definition try_from_info :: "codec \<Rightarrow> portable_workflow_error \<Rightarrow> error result" where
  "try_from_info C info =
     (if pe_name info = NAME
      then map_err (\<lambda>e. Serialization (''cannot decode recorded error: '' @ error_to_string e))
             (record_decode C (unwrap_or JNull (pe_data info)))
      else if pe_name info = ''DBOSNotAuthorizedError'' \<and> pe_code info = None \<and> pe_data info = None
      then Ok (NotAuthorized (pe_message info))
      else Ok (Portable info))"

definition try_from_parts :: "codec \<Rightarrow> string \<Rightarrow> portable_workflow_error option \<Rightarrow> error result" where
  "try_from_parts C message info = (case info of
       Some i \<Rightarrow> try_from_info C i
     | None \<Rightarrow> (case strip_prefix message PREFIX of
         Some rest \<Rightarrow> (case env_from_str C rest of
             Some i \<Rightarrow> if pe_name i = NAME then try_from_info C i
               else Err (Serialization ''cannot decode recorded error envelope'')
           | None \<Rightarrow> Err (Serialization ''cannot decode recorded error envelope''))
       | None \<Rightarrow> Ok (app message)))"

definition from_parts :: "codec \<Rightarrow> string \<Rightarrow> portable_workflow_error option \<Rightarrow> error" where
  "from_parts C message info = (case try_from_parts C message info of Inr e \<Rightarrow> e | Inl e \<Rightarrow> e)"

definition legacy_envelope :: "error \<Rightarrow> portable_workflow_error" where
  "legacy_envelope e = (case e of
       Portable pe \<Rightarrow> pe
     | NotAuthorized msg \<Rightarrow> \<lparr>pe_name = ''DBOSNotAuthorizedError'', pe_message = msg,
         pe_code = None, pe_data = None\<rparr>
     | other \<Rightarrow> \<lparr>pe_name = PORTABLE_ERROR_NAME, pe_message = error_to_string other,
         pe_code = None, pe_data = None\<rparr>)"

definition encode_error :: "codec \<Rightarrow> serializer \<Rightarrow> error \<Rightarrow> string result" where
  "encode_error C s e = result_bind (record_encode C s e) (\<lambda>recorded. case recorded of
       Some r \<Rightarrow> Ok r
     | None \<Rightarrow>
        if is_portable s then
          Ok (env_to_string C (legacy_envelope e))
        else Ok (error_to_string e))"

definition decode_error ::
  "codec \<Rightarrow> string option \<Rightarrow> string \<Rightarrow> string \<times> portable_workflow_error option" where
  "decode_error C fmt stored = (case strip_prefix stored PREFIX of
       Some encoded \<Rightarrow> (case env_from_str C encoded of
           Some env \<Rightarrow> if pe_name env = NAME then (pe_message env, Some env) else (stored, None)
         | None \<Rightarrow> (stored, None))
     | None \<Rightarrow>
        if fmt = Some PORTABLE then (case env_from_str C stored of
            Some env \<Rightarrow> (pe_message env, Some env)
          | None \<Rightarrow> (case json_from_str C stored of
              Inr v \<Rightarrow> if Option.bind (jget v ''name'') as_str = Some NAME
                then (stored, Some \<lparr>pe_name = NAME, pe_message = stored, pe_code = None, pe_data = None\<rparr>)
                else (stored, None)
            | Inl _ \<Rightarrow> (stored, None)))
        else (stored, None))"

definition restore_error :: "codec \<Rightarrow> string option \<Rightarrow> string \<Rightarrow> error" where
  "restore_error C fmt stored =
     (let (message, info) = decode_error C fmt stored in from_parts C message info)"

text \<open>\<open>expect\<close> on an impossible error is a panic; the model keeps the message then.\<close>

definition encode_stored_error ::
  "codec \<Rightarrow> serializer \<Rightarrow> string \<Rightarrow> portable_workflow_error option \<Rightarrow> string" where
  "encode_stored_error C s message info = (case info of
       Some i \<Rightarrow>
        if pe_name i = NAME then
          (if is_portable s then env_to_string C i else PREFIX @ env_to_string C i)
        else (case encode_error C s (from_parts C message (Some i)) of Inr t \<Rightarrow> t | Inl _ \<Rightarrow> message)
     | None \<Rightarrow> message)"

definition decode_error_opt ::
  "codec \<Rightarrow> string option \<Rightarrow> string option \<Rightarrow> string option \<times> portable_workflow_error option" where
  "decode_error_opt C fmt stored = (case stored of
       Some s \<Rightarrow> (let (msg, env) = decode_error C fmt s in (Some msg, env))
     | None \<Rightarrow> (None, None))"

text \<open>What a persisted failure is read back as: a driver error keeps its message and
  classification, an application error loses its source, and in the portable
  format becomes the generic envelope.\<close>

definition without_source :: "error \<Rightarrow> error" where
  "without_source e = (case e of App m _ \<Rightarrow> App m None | _ \<Rightarrow> e)"

definition persisted_form :: "serializer \<Rightarrow> error \<Rightarrow> error" where
  "persisted_form s e =
     (if is_portable s \<and> legacy_form s e \<and> (case e of App _ _ \<Rightarrow> True | _ \<Rightarrow> False)
      then Portable (legacy_envelope e) else without_source (recordable e))"

definition stored_envelope :: "codec \<Rightarrow> serializer \<Rightarrow> error \<Rightarrow> portable_workflow_error" where
  "stored_envelope C s e = (if legacy_form s e then legacy_envelope e else record_envelope C e)"

definition is_interruption :: "error \<Rightarrow> bool" where
  "is_interruption e = (case e of RecoveryRequired _ \<Rightarrow> True | ObservationFailed _ \<Rightarrow> True
     | _ \<Rightarrow> code e = Code_RecoveryRequired)"

text \<open>The argument envelope as a JSON value: \<open>positionalArgs\<close> first, then \<open>namedArgs\<close>.\<close>

definition args_value :: "portable_workflow_args \<Rightarrow> json" where
  "args_value a = JObject [(''positionalArgs'', JArray (positional_args a)),
     (''namedArgs'', JObject (named_args a))]"

section \<open>Lemmas\<close>

lemma format_names_distinct [simp]:
  "PORTABLE \<noteq> DBOS_JSON" "DBOS_JSON \<noteq> PORTABLE" "PORTABLE \<noteq> []" "DBOS_JSON \<noteq> []"
  "PORTABLE_ERROR_NAME \<noteq> NAME" "''DBOSNotAuthorizedError'' \<noteq> NAME"
  "PORTABLE_ERROR_NAME \<noteq> ''DBOSNotAuthorizedError''"
  by (simp_all add: PORTABLE_def DBOS_JSON_def NAME_def PORTABLE_ERROR_NAME_def)

lemma is_portable_simps [simp]:
  "is_portable Portable_Format" "\<not> is_portable Json_Format" "\<not> is_portable (Custom c)"
  by (simp_all add: is_portable_def)

lemma without_prefix: "\<not> starts_with t p \<Longrightarrow> strip_prefix t p = None"
  by (simp add: strip_prefix_def)

lemma recordable_classification [simp]:
  "code (recordable e) = code e" "error_to_string (recordable e) = error_to_string e"
  "is_retryable (recordable e) = is_retryable e" "is_tx_conflict (recordable e) = is_tx_conflict e"
  "is_unique_violation (recordable e) = is_unique_violation e"
  "is_foreign_key_violation (recordable e) = is_foreign_key_violation e"
  by (cases e; simp add: recordable_def capture_def)+

lemma without_source_classification [simp]:
  "code (without_source e) = code e" "error_to_string (without_source e) = error_to_string e"
  "is_retryable (without_source e) = is_retryable e" "is_tx_conflict (without_source e) = is_tx_conflict e"
  "is_unique_violation (without_source e) = is_unique_violation e"
  "is_foreign_key_violation (without_source e) = is_foreign_key_violation e"
  by (cases e; simp add: without_source_def)+

lemma legacy_envelope_app [simp]:
  "legacy_envelope (App m x) = \<lparr>pe_name = PORTABLE_ERROR_NAME, pe_message = m, pe_code = None, pe_data = None\<rparr>"
  by (simp add: legacy_envelope_def)

lemma persisted_form_classification:
  "code (persisted_form s e) = code e"
  "error_to_string (persisted_form s e) = error_to_string e"
  "is_retryable (persisted_form s e) = is_retryable e"
  "is_tx_conflict (persisted_form s e) = is_tx_conflict e"
  by (cases e; simp add: persisted_form_def PORTABLE_ERROR_NAME_def)+

lemma record_encode_cases:
  assumes "\<not> is_interruption e"
  shows "record_encode C s e = (if legacy_form s e then Ok None
     else Ok (Some ((if is_portable s then [] else PREFIX) @ env_to_string C (record_envelope C e))))"
  using assms by (cases e) (simp_all add: record_encode_def is_interruption_def)

lemma encode_error_interruption:
  "is_interruption e \<Longrightarrow> \<exists>err. encode_error C s e = Err err"
  by (cases e) (simp_all add: encode_error_def record_encode_def is_interruption_def)

lemma restore_record:
  assumes "\<not> is_interruption e"
    and "payload_from_value C (JObject [(''version'', JInt 1), (''error'', error_to_value C (recordable e))])
           = Inr (1, error_to_value C (recordable e))"
    and "error_from_value C (error_to_value C (recordable e)) = Inr (without_source (recordable e))"
  shows "from_parts C m (Some (record_envelope C e)) = without_source (recordable e)"
proof -
  have "code e \<noteq> Code_RecoveryRequired"
    using assms(1) by (cases e) (auto simp: is_interruption_def)
  then show ?thesis
    using assms(2-) by (simp add: from_parts_def try_from_parts_def try_from_info_def
      record_envelope_def record_decode_def)
qed

lemma restore_record_text:
  assumes "env_from_str C (env_to_string C (record_envelope C e)) = Some (record_envelope C e)"
  shows "decode_error C fmt (PREFIX @ env_to_string C (record_envelope C e))
    = (error_to_string e, Some (record_envelope C e))"
  using assms by (simp add: decode_error_def record_envelope_def)

lemma restore_portable_text:
  assumes "env_from_str C (env_to_string C p) = Some p" "\<not> starts_with (env_to_string C p) PREFIX"
  shows "decode_error C (Some PORTABLE) (env_to_string C p) = (pe_message p, Some p)"
  using assms by (simp add: decode_error_def without_prefix)

lemma restore_legacy_text:
  assumes "legacy_form s e" "\<not> is_portable s" "fmt \<noteq> Some PORTABLE"
  shows "restore_error C fmt (error_to_string e) = without_source (recordable e)"
  using assms by (cases e) (auto simp: legacy_form_def restore_error_def decode_error_def without_prefix
      from_parts_def try_from_parts_def app_def without_source_def recordable_def)

lemma restore_legacy_portable:
  assumes "legacy_form s e" "is_portable s"
  shows "from_parts C m (Some (legacy_envelope e)) = persisted_form s e"
  using assms
  by (cases e) (auto simp: legacy_form_def legacy_envelope_def persisted_form_def from_parts_def
      try_from_parts_def try_from_info_def without_source_def recordable_def)

lemma encode_error_cases:
  assumes "\<not> is_interruption e"
  shows "encode_error C s e = Ok (
     if \<not> legacy_form s e then (if is_portable s then [] else PREFIX) @ env_to_string C (record_envelope C e)
     else if is_portable s then env_to_string C (legacy_envelope e) else error_to_string e)"
  using assms by (simp add: encode_error_def record_encode_cases)

text \<open>A foreign envelope always encodes, so the \<open>expect\<close> of the copy is never reached.\<close>

lemma foreign_envelope_encodes:
  assumes "pe_name i \<noteq> NAME"
  shows "\<exists>t. encode_error C s (from_parts C m (Some i)) = Ok t"
proof -
  have "\<not> is_interruption (from_parts C m (Some i))"
    using assms by (simp add: from_parts_def try_from_parts_def try_from_info_def is_interruption_def)
  then show ?thesis by (simp add: encode_error_cases)
qed

section \<open>Properties\<close>

text \<open>
  A recorded failure reads back as itself.  Every error that is a business
  outcome is encoded, in every format, and restored from what was stored as its
  persisted form, which keeps the code, the message and the retry
  classifications of the live error: the first execution and a replay see the
  same error.  Relied on: the envelope and the wire form survive the trip through
  \<open>serde_json\<close> (a source is not carried), the text of an envelope is an object and so
  does not begin with the reserved prefix, and a custom format has a name of its own.
\<close>

theorem recorded_error_roundtrip:
  assumes "\<not> is_interruption e"
    and envelopes: "env_from_str C (env_to_string C (stored_envelope C s e)) = Some (stored_envelope C s e)"
      "\<not> starts_with (env_to_string C (stored_envelope C s e)) PREFIX"
    and payload: "payload_from_value C
        (JObject [(''version'', JInt 1), (''error'', error_to_value C (recordable e))])
      = Inr (1, error_to_value C (recordable e))"
    and wire: "error_from_value C (error_to_value C (recordable e)) = Inr (without_source (recordable e))"
    and custom: "is_portable s \<or> serializer_name s \<noteq> PORTABLE"
  shows "\<exists>stored. encode_error C s e = Ok stored
    \<and> restore_error C (Some (serializer_name s)) stored = persisted_form s e
    \<and> code (persisted_form s e) = code e \<and> error_to_string (persisted_form s e) = error_to_string e
    \<and> is_retryable (persisted_form s e) = is_retryable e
    \<and> is_tx_conflict (persisted_form s e) = is_tx_conflict e"
proof -
  note rec = restore_record [OF assms(1) payload wire]
  have portable: "is_portable s \<Longrightarrow> serializer_name s = PORTABLE"
    by (cases s) (simp_all add: serializer_name_def)
  have plain: "\<not> is_portable s \<Longrightarrow> Some (serializer_name s) \<noteq> Some PORTABLE" using custom by auto
  have "restore_error C (Some (serializer_name s)) (
     if \<not> legacy_form s e then (if is_portable s then [] else PREFIX) @ env_to_string C (record_envelope C e)
     else if is_portable s then env_to_string C (legacy_envelope e) else error_to_string e)
     = persisted_form s e"
  proof (cases "legacy_form s e")
    case True
    then show ?thesis
      using envelopes portable plain restore_legacy_text [OF True _ plain] restore_legacy_portable [OF True]
      by (cases "is_portable s") (auto simp: restore_error_def restore_portable_text persisted_form_def stored_envelope_def)
  next
    case False
    then show ?thesis
      using envelopes portable rec
      by (cases "is_portable s")
         (auto simp: restore_error_def restore_portable_text restore_record_text persisted_form_def stored_envelope_def)
  qed
  then show ?thesis
    using assms(1) by (simp add: encode_error_cases persisted_form_classification)
qed

text \<open>
  Exactly the business outcomes are recordable.  In every format an error is
  encoded unless it stands for a stopped or unobserved execution, or is a recorded error
  whose code says so; those are refused and must go through recovery.
\<close>

theorem recordable_iff:
  "(\<exists>stored. encode_error C s e = Ok stored) \<longleftrightarrow> \<not> is_interruption e"
  using encode_error_cases [of e C s] encode_error_interruption [of e C s] by (cases "is_interruption e") auto

text \<open>
  A stored value reads back as itself, in each built-in format and in a
  custom one whose codec inverts itself; a stored workflow input reads back as
  the argument a single-input workflow receives.
\<close>

theorem value_roundtrip:
  assumes printed: "json_from_str C (json_to_string C v) = Inr v" "v \<noteq> JNull \<longrightarrow> json_to_string C v \<noteq> ''null''"
    and base64: "base64_decode C (base64_encode C (json_to_string C v)) = Inr (json_to_string C v)"
      "base64_encode C (json_to_string C v) \<noteq> NIL_MARKER"
    and custom: "\<forall>c. s = Custom c \<longrightarrow> sc_name c \<noteq> PORTABLE \<and> (\<exists>t. sc_encode c v = Ok t \<and> sc_decode c t = Ok v)"
    and args: "json_from_str C (args_to_string C (unwrap_or (single v) (as_envelope v)))
        = Inr (args_value (unwrap_or (single v) (as_envelope v)))"
      "args_to_string C (unwrap_or (single v) (as_envelope v)) \<noteq> ''null''"
  shows "(\<exists>t. encode C s v = Ok t \<and> decode C s (Some (serializer_name s)) t = Ok v)
    \<and> (\<exists>t. encode_input C s v = Ok t \<and> decode_input C s (Some (serializer_name s)) t
          = Ok (if is_portable s then first_positional v else v))"
proof -
  have plain: "\<exists>t. encode C s v = Ok t \<and> decode C s (Some (serializer_name s)) t = Ok v"
  proof (cases s)
    case (Custom c)
    then show ?thesis using custom by (auto simp: encode_def decode_def serializer_name_def Let_def)
  qed (use printed base64 in \<open>auto simp: encode_def decode_def serializer_name_def is_null_def from_str_def
         decode_dbos_json_def Let_def NIL_MARKER_def\<close>)
  moreover have "\<exists>t. encode_input C s v = Ok t \<and> decode_input C s (Some (serializer_name s)) t
          = Ok (if is_portable s then first_positional v else v)"
  proof (cases s)
    case Portable_Format
    have "as_envelope (args_value a) = Some a" for a
      by (simp add: as_envelope_def args_value_def as_object_def as_array_def)
    then show ?thesis
      using args Portable_Format
      by (cases "as_envelope v") (auto simp: encode_input_def decode_input_def decode_def serializer_name_def
          from_str_def first_positional_def single_def Let_def)
  qed (use plain custom in \<open>auto simp: encode_input_def decode_input_def serializer_name_def\<close>)
  ultimately show ?thesis by blast
qed

section \<open>Witnesses\<close>

text \<open>A codec that is right on one error and one value, which is what the properties ask of it.\<close>

definition sample_codec :: "portable_workflow_error \<Rightarrow> error \<Rightarrow> codec" where
  "sample_codec env e = \<lparr>json_to_string = (\<lambda>_. ''7''), json_from_str = (\<lambda>t. if t = ''7'' then Inr (JInt 7)
       else Inr (args_value (single (JInt 7)))),
     env_to_string = (\<lambda>_. ''{}''), env_from_str = (\<lambda>_. Some env), args_to_string = (\<lambda>_. ''[7]''),
     payload_from_value = (\<lambda>_. Inr (1, JNull)), error_to_value = (\<lambda>_. JNull),
     error_from_value = (\<lambda>_. Inr e), base64_encode = (\<lambda>t. ''b'' @ t), base64_decode = (\<lambda>t. Inr (tl t)),
     show_quoted = (\<lambda>t. t)\<rparr>"

definition sample_envelope :: portable_workflow_error where
  "sample_envelope = \<lparr>pe_name = NAME, pe_message = ''database error: boom'', pe_code = None,
     pe_data = Some (JObject [(''version'', JInt 1), (''error'', JNull)])\<rparr>"

definition sample_db_error :: error where
  "sample_db_error = Db \<lparr>sqlx_kind = Sqlx_PoolTimedOut, sqlx_text = ''boom''\<rparr>"

text \<open>A codec for the stores of the other theories, whose checkpoints hold no error.\<close>

definition plain_codec :: codec where
  "plain_codec = sample_codec sample_envelope Timeout"

theorem recorded_error_roundtrip_witness:
  "\<exists>stored. encode_error (sample_codec sample_envelope (Recorded (capture sample_db_error)))
      Json_Format sample_db_error = Ok stored
    \<and> restore_error (sample_codec sample_envelope (Recorded (capture sample_db_error)))
        (Some DBOS_JSON) stored = Recorded (capture sample_db_error)
    \<and> is_retryable (Recorded (capture sample_db_error))"
proof -
  let ?C = "sample_codec sample_envelope (Recorded (capture sample_db_error))"
  have "\<not> is_interruption sample_db_error" "stored_envelope ?C Json_Format sample_db_error = sample_envelope"
    "recordable sample_db_error = Recorded (capture sample_db_error)" "is_retryable sample_db_error"
    by (simp_all add: is_interruption_def sample_db_error_def stored_envelope_def legacy_form_def
        record_envelope_def sample_envelope_def sample_codec_def recordable_def)
  moreover have "payload_from_value ?C w = Inr (1, JNull)" "error_to_value ?C x = JNull"
    "error_from_value ?C y = Inr (Recorded (capture sample_db_error))" "env_from_str ?C t = Some sample_envelope"
    "env_to_string ?C p = ''{}''" for w x y t p
    by (simp_all add: sample_codec_def)
  moreover have "persisted_form Json_Format sample_db_error = Recorded (capture sample_db_error)"
    "serializer_name Json_Format = DBOS_JSON"
    by (simp_all add: persisted_form_def calculation without_source_def serializer_name_def)
  ultimately show ?thesis
    using recorded_error_roundtrip [of sample_db_error ?C Json_Format]
    by (simp add: without_source_def starts_with_def PREFIX_def capture_def)
qed

theorem value_roundtrip_witness:
  "\<exists>t. encode plain_codec Json_Format (JInt 7) = Ok t \<and> decode plain_codec Json_Format (Some DBOS_JSON) t = Ok (JInt 7)"
proof -
  have "as_envelope (JInt 7) = None" by (simp add: as_envelope_def as_object_def)
  then show ?thesis
    using value_roundtrip [of plain_codec "JInt 7" Json_Format]
    by (simp add: plain_codec_def sample_codec_def NIL_MARKER_def serializer_name_def)
qed

end
