(* ===== verification/Provider_Types.thy ===== *)
theory Provider_Types
  imports Execution Recorded_Errors
begin

text \<open>
  The data of the storage boundary: \<open>src/provider.rs\<close> (rows, filters,
  requests and the small functions over them), \<open>src/queue.rs\<close> and
  \<open>src/schedule.rs\<close>.  Field names carry a prefix per record.
  A \<open>Duration\<close> is its number of nanoseconds.
\<close>

section \<open>Workflow rows\<close>

definition STATUS_ENQUEUED :: string where "STATUS_ENQUEUED = ''ENQUEUED''"
definition STATUS_DELAYED :: string where "STATUS_DELAYED = ''DELAYED''"
definition STATUS_PENDING :: string where "STATUS_PENDING = ''PENDING''"
definition STATUS_SUCCESS :: string where "STATUS_SUCCESS = ''SUCCESS''"
definition STATUS_ERROR :: string where "STATUS_ERROR = ''ERROR''"
definition STATUS_CANCELLED :: string where "STATUS_CANCELLED = ''CANCELLED''"
definition STATUS_MAX_RECOVERY_ATTEMPTS_EXCEEDED :: string where
  "STATUS_MAX_RECOVERY_ATTEMPTS_EXCEEDED = ''MAX_RECOVERY_ATTEMPTS_EXCEEDED''"
definition STREAM_CLOSED_SENTINEL :: string where
  "STREAM_CLOSED_SENTINEL = ''__DBOS_STREAM_CLOSED__''"

definition is_terminal :: "string \<Rightarrow> bool" where
  "is_terminal s \<longleftrightarrow> s = STATUS_SUCCESS \<or> s = STATUS_ERROR \<or> s = STATUS_CANCELLED
     \<or> s = STATUS_MAX_RECOVERY_ATTEMPTS_EXCEEDED"

record workflow_status =
  wf_id :: string
  wf_name :: string
  wf_status :: string
  wf_input :: json
  wf_output :: "json option"
  wf_error :: "string option"
  wf_error_info :: "portable_workflow_error option"
  wf_executor_id :: string
  wf_app_version :: string
  wf_queue_name :: "string option"
  wf_queue_partition_key :: "string option"
  wf_priority :: int
  wf_dedup_id :: "string option"
  wf_recovery_attempts :: int
  wf_parent_workflow_id :: "string option"
  wf_timeout_ms :: "int option"
  wf_deadline_ms :: "int option"
  wf_started_at_ms :: "int option"
  wf_rate_limited :: bool
  wf_delay_until_ms :: "int option"
  wf_completed_at_ms :: "int option"
  wf_forked_from :: "string option"
  wf_authenticated_user :: "string option"
  wf_assumed_role :: "string option"
  wf_authenticated_roles :: "string list"
  wf_class_name :: "string option"
  wf_config_name :: "string option"
  wf_created_at :: datetime
  wf_updated_at :: datetime
  wf_attributes :: "json option"

definition app_version_opt :: "workflow_status \<Rightarrow> string option" where
  "app_version_opt w = opt_filter (\<lambda>v. v \<noteq> []) (Some (wf_app_version w))"

definition workflow_status_new ::
  "datetime \<Rightarrow> string \<Rightarrow> string \<Rightarrow> json \<Rightarrow> string \<Rightarrow> string \<Rightarrow> string \<Rightarrow> workflow_status" where
  "workflow_status_new now i nm input status executor version = \<lparr>
     wf_id = i, wf_name = nm, wf_status = status, wf_input = input, wf_output = None,
     wf_error = None, wf_error_info = None, wf_executor_id = executor, wf_app_version = version,
     wf_queue_name = None, wf_queue_partition_key = None, wf_priority = 0, wf_dedup_id = None,
     wf_recovery_attempts = 0, wf_parent_workflow_id = None, wf_timeout_ms = None,
     wf_deadline_ms = None, wf_started_at_ms = None, wf_rate_limited = False,
     wf_delay_until_ms = None, wf_completed_at_ms = None, wf_forked_from = None,
     wf_authenticated_user = None, wf_assumed_role = None, wf_authenticated_roles = [],
     wf_class_name = None, wf_config_name = None, wf_created_at = now, wf_updated_at = now,
     wf_attributes = None\<rparr>"

definition dedup_or :: "sqlx_error \<Rightarrow> workflow_status \<Rightarrow> error" where
  "dedup_or e s = (if is_unique_violation (Db e)
     then QueueDeduplicated (unwrap_or [] (wf_queue_name s)) (unwrap_or [] (wf_dedup_id s))
     else Db e)"

definition nonexistent_or :: "sqlx_error \<Rightarrow> string \<Rightarrow> error" where
  "nonexistent_or e destination =
     (if is_foreign_key_violation (Db e) then NonExistentWorkflow destination else Db e)"

definition check_target ::
  "workflow_status \<Rightarrow> string \<Rightarrow> string option \<Rightarrow> string option \<Rightarrow> unit result" where
  "check_target row nm class_nm config_nm =
     (if wf_name row \<noteq> nm
         \<or> opt_filter (\<lambda>s. s \<noteq> []) (wf_class_name row) \<noteq> opt_filter (\<lambda>s. s \<noteq> []) class_nm
         \<or> opt_filter (\<lambda>s. s \<noteq> []) (wf_config_name row) \<noteq> opt_filter (\<lambda>s. s \<noteq> []) config_nm
      then Err (workflow_target_conflict (wf_id row)) else Ok ())"

definition check_child_target :: "workflow_status \<Rightarrow> workflow_status \<Rightarrow> unit result" where
  "check_child_target row requested =
     check_target row (wf_name requested) (wf_class_name requested) (wf_config_name requested)"

definition encode_roles :: "codec \<Rightarrow> string list \<Rightarrow> string option" where
  "encode_roles C roles =
     (if roles = [] then None else Some (json_to_string C (JArray (map JString roles))))"

text \<open>\<open>serde_json::from_str::<Vec<String>>\<close>: an array all of whose elements are strings.\<close>

definition decode_roles :: "codec \<Rightarrow> string option \<Rightarrow> string list" where
  "decode_roles C stored = (case stored of None \<Rightarrow> [] | Some s \<Rightarrow>
     (case json_from_str C s of
        Inr (JArray xs) \<Rightarrow> (if list_all (\<lambda>v. as_str v \<noteq> None) xs then map (the \<circ> as_str) xs else [])
      | _ \<Rightarrow> []))"

fun contains_value :: "json \<Rightarrow> json \<Rightarrow> bool" where
  "contains_value (JObject s) (JObject f) =
     list_all (\<lambda>(k, v). case map_of s k of None \<Rightarrow> False | Some sv \<Rightarrow> contains_value sv v) f"
| "contains_value (JArray s) (JArray f) = list_all (\<lambda>fv. list_ex (\<lambda>sv. contains_value sv fv) s) f"
| "contains_value s f = value_eq s f"

definition attributes_contain :: "json option \<Rightarrow> jmap \<Rightarrow> bool" where
  "attributes_contain stored filter_map = (case stored of
       Some (JObject s) \<Rightarrow>
         list_all (\<lambda>(k, v). is_some_and (map_of s k) (\<lambda>sv. contains_value sv v)) filter_map
     | _ \<Rightarrow> filter_map = [])"

text \<open>Grouping of the ordered stream rows of the SQL backends.\<close>

fun group_stream_rows_from ::
  "codec \<Rightarrow> serializer \<Rightarrow> (string \<times> json list) list \<Rightarrow> (string \<times> string \<times> string option) list
   \<Rightarrow> (string \<times> json list) list result" where
  "group_stream_rows_from C s out [] = Ok out"
| "group_stream_rows_from C s out ((key, v, fmt) # rows) =
     (if v = STREAM_CLOSED_SENTINEL
      then group_stream_rows_from C s
             (if out = [] \<or> fst (last out) \<noteq> key then out @ [(key, [])] else out) rows
      else case decode C s fmt v of
        Inl e \<Rightarrow> Err e
      | Inr d \<Rightarrow> group_stream_rows_from C s
          (if out \<noteq> [] \<and> fst (last out) = key
           then butlast out @ [(key, snd (last out) @ [d])] else out @ [(key, [d])]) rows)"

definition group_stream_rows ::
  "codec \<Rightarrow> serializer \<Rightarrow> (string \<times> string \<times> string option) list \<Rightarrow> (string \<times> json list) list result" where
  "group_stream_rows C s rows = group_stream_rows_from C s [] rows"

section \<open>Filters and aggregate queries\<close>

record list_filter =
  lf_workflow_ids :: "string list"
  lf_workflow_id_prefix :: "string list"
  lf_name :: "string list"
  lf_status :: "string list"
  lf_queue_name :: "string list"
  lf_app_version :: "string list"
  lf_executor_ids :: "string list"
  lf_authenticated_users :: "string list"
  lf_forked_from :: "string list"
  lf_parent_workflow_ids :: "string list"
  lf_was_forked_from :: "bool option"
  lf_start_time_ms :: "int option"
  lf_end_time_ms :: "int option"
  lf_completed_after_ms :: "int option"
  lf_completed_before_ms :: "int option"
  lf_dequeued_after_ms :: "int option"
  lf_dequeued_before_ms :: "int option"
  lf_has_parent :: "bool option"
  lf_attributes :: "jmap option"
  lf_limit :: "int option"
  lf_offset :: "int option"
  lf_sort_desc :: bool
  lf_queues_only :: bool
  lf_load_input :: bool
  lf_load_output :: bool

definition list_filter_default :: list_filter where
  "list_filter_default = \<lparr>lf_workflow_ids = [], lf_workflow_id_prefix = [], lf_name = [],
     lf_status = [], lf_queue_name = [], lf_app_version = [], lf_executor_ids = [],
     lf_authenticated_users = [], lf_forked_from = [], lf_parent_workflow_ids = [],
     lf_was_forked_from = None, lf_start_time_ms = None, lf_end_time_ms = None,
     lf_completed_after_ms = None, lf_completed_before_ms = None, lf_dequeued_after_ms = None,
     lf_dequeued_before_ms = None, lf_has_parent = None, lf_attributes = None, lf_limit = None,
     lf_offset = None, lf_sort_desc = False, lf_queues_only = False, lf_load_input = True,
     lf_load_output = True\<rparr>"

record workflow_aggregate_query =
  wq_by_status :: bool
  wq_by_name :: bool
  wq_by_queue_name :: bool
  wq_by_executor_id :: bool
  wq_by_app_version :: bool
  wq_select_count :: bool
  wq_select_min_created_at :: bool
  wq_select_max_queue_wait_ms :: bool
  wq_select_max_total_latency_ms :: bool
  wq_time_bucket_ms :: "int option"
  wq_status :: "string list"
  wq_name :: "string list"
  wq_app_version :: "string list"
  wq_executor_ids :: "string list"
  wq_queue_names :: "string list"
  wq_workflow_id_prefix :: "string option"
  wq_start_time_ms :: "int option"
  wq_end_time_ms :: "int option"
  wq_completed_after_ms :: "int option"
  wq_completed_before_ms :: "int option"
  wq_dequeued_after_ms :: "int option"
  wq_dequeued_before_ms :: "int option"
  wq_limit :: "int option"

definition AGG_DIMENSIONS :: "(string \<times> string) list" where
  "AGG_DIMENSIONS = [(''status'', ''status''), (''name'', ''name''), (''queue_name'', ''queue_name''),
     (''executor_id'', ''executor_id''), (''application_version'', ''application_version'')]"

definition enabled_columns :: "workflow_aggregate_query \<Rightarrow> (string \<times> string) list" where
  "enabled_columns q = map fst (filter snd (zip AGG_DIMENSIONS
     [wq_by_status q, wq_by_name q, wq_by_queue_name q, wq_by_executor_id q, wq_by_app_version q]))"

definition wq_is_empty :: "workflow_aggregate_query \<Rightarrow> bool" where
  "wq_is_empty q \<longleftrightarrow> enabled_columns q = [] \<and> wq_time_bucket_ms q = None"

definition wq_no_select :: "workflow_aggregate_query \<Rightarrow> bool" where
  "wq_no_select q \<longleftrightarrow> \<not> wq_select_count q \<and> \<not> wq_select_min_created_at q
     \<and> \<not> wq_select_max_queue_wait_ms q \<and> \<not> wq_select_max_total_latency_ms q"

definition workflow_agg_selects :: "workflow_aggregate_query \<Rightarrow> string list" where
  "workflow_agg_selects q =
     (if wq_select_count q then [''COUNT(*) AS cnt''] else [])
     @ (if wq_select_min_created_at q then [''MIN(created_at) AS min_created_at''] else [])
     @ (if wq_select_max_queue_wait_ms q
        then [''MAX(started_at_epoch_ms - created_at) AS max_queue_wait_ms''] else [])
     @ (if wq_select_max_total_latency_ms q
        then [''MAX(completed_at - created_at) AS max_total_latency_ms''] else [])"

record workflow_aggregate =
  wa_group :: "(string \<times> string option) list"
  wa_count :: "int option"
  wa_min_created_at :: "int option"
  wa_max_queue_wait_ms :: "int option"
  wa_max_total_latency_ms :: "int option"

definition STEP_STATUS_EXPR :: string where
  "STEP_STATUS_EXPR = ''(CASE WHEN error IS NULL THEN 'SUCCESS' ELSE 'ERROR' END)''"

record step_aggregate_query =
  sq_by_function_name :: bool
  sq_by_status :: bool
  sq_select_count :: bool
  sq_select_max_duration_ms :: bool
  sq_time_bucket_ms :: "int option"
  sq_status :: "string list"
  sq_function_name :: "string list"
  sq_workflow_id_prefix :: "string option"
  sq_completed_after_ms :: "int option"
  sq_completed_before_ms :: "int option"
  sq_limit :: "int option"

definition group_exprs :: "step_aggregate_query \<Rightarrow> (string \<times> string) list" where
  "group_exprs q =
     (if sq_by_function_name q then [(''function_name'', ''function_name'')] else [])
     @ (if sq_by_status q then [(''status'', STEP_STATUS_EXPR)] else [])"

definition sq_no_grouping :: "step_aggregate_query \<Rightarrow> bool" where
  "sq_no_grouping q \<longleftrightarrow> \<not> sq_by_function_name q \<and> \<not> sq_by_status q \<and> sq_time_bucket_ms q = None"

definition sq_no_select :: "step_aggregate_query \<Rightarrow> bool" where
  "sq_no_select q \<longleftrightarrow> \<not> sq_select_count q \<and> \<not> sq_select_max_duration_ms q"

record step_aggregate =
  sa_group :: "(string \<times> string option) list"
  sa_count :: "int option"
  sa_max_duration_ms :: "int option"

section \<open>Steps, messages, versions, exports\<close>

record notification_info =
  ni_topic :: "string option"
  ni_message :: json
  ni_created_at_ms :: int
  ni_consumed :: bool

record notification_insert =
  nx_destination_id :: string
  nx_topic :: string
  nx_message :: json
  nx_idempotency_key :: "string option"

record step_list_options =
  so_limit :: "int option"
  so_offset :: "int option"
  so_load_output :: bool

definition step_list_options_default :: step_list_options where
  "step_list_options_default = \<lparr>so_limit = None, so_offset = None, so_load_output = True\<rparr>"

record step_info =
  si_step_id :: int
  si_name :: string
  si_output :: "json option"
  si_error :: "string option"
  si_child_workflow_id :: "string option"
  si_started_at :: "datetime option"
  si_completed_at :: "datetime option"

datatype step_outcome =
    Output json
  | Failure string "portable_workflow_error option"

definition into_value_result :: "codec \<Rightarrow> step_outcome \<Rightarrow> json result" where
  "into_value_result C outcome = (case outcome of Output v \<Rightarrow> Ok v
     | Failure message info \<Rightarrow> Err (from_parts C message info))"

record recorded_step =
  rs_name :: string
  rs_outcome :: step_outcome

definition step_outcome_from ::
  "codec \<Rightarrow> serializer \<Rightarrow> string option \<Rightarrow> string option \<Rightarrow> string option \<Rightarrow> step_outcome option result" where
  "step_outcome_from C s fmt output err = (case err of
       Some e \<Rightarrow> (let (message, info) = decode_error C fmt e in Ok (Some (Failure message info)))
     | None \<Rightarrow> (case output of
         Some out \<Rightarrow> result_bind (decode C s fmt out) (\<lambda>v. Ok (Some (Output v)))
       | None \<Rightarrow> Ok None))"

record version_info =
  vi_version_id :: string
  vi_version_name :: string
  vi_version_timestamp :: datetime
  vi_created_at :: datetime

record exported_workflow =
  xw_workflow_status :: jmap
  xw_operation_outputs :: "jmap list"
  xw_workflow_events :: "jmap list"
  xw_workflow_events_history :: "jmap list"
  xw_streams :: "jmap list"

definition col_str :: "jmap \<Rightarrow> string \<Rightarrow> string option" where
  "col_str m k = Option.bind (map_of m k) as_str"

definition col_i64 :: "jmap \<Rightarrow> string \<Rightarrow> int option" where
  "col_i64 m k = Option.bind (map_of m k) as_i64"

definition col_bool :: "jmap \<Rightarrow> string \<Rightarrow> bool option" where
  "col_bool m k = Option.bind (map_of m k) as_bool"

section \<open>Requests\<close>

record cancel_options =
  co_cancel_children :: bool

record fork_params =
  fp_original_id :: string
  fp_new_id :: string
  fp_start_step :: int
  fp_app_version :: "string option"
  fp_queue_name :: string
  fp_partition_key :: "string option"

record dequeue_request =
  dq_queue_name :: string
  dq_executor_id :: string
  dq_app_version :: string
  dq_partition_key :: "string option"
  dq_max_tasks :: int
  dq_global_concurrency :: "int option"
  dq_rate_limit_max :: "int option"
  dq_rate_limit_period_ms :: "int option"

record recovery_claim_request =
  rc_workflow_id :: string
  rc_expected_executor :: string
  rc_expected_attempts :: int
  rc_new_executor :: string
  rc_max_attempts :: int
  rc_requeue :: bool

datatype recovery_claim = Claimed int | Requeued | Parked int | Lost

datatype child_insert = Replayed string | Resolved workflow_status bool

section \<open>Queues and schedules\<close>

record rate_limiter =
  rl_limit :: int
  rl_period :: nat

record workflow_queue =
  q_name :: string
  q_worker_concurrency :: "nat option"
  q_global_concurrency :: "int option"
  q_priority_enabled :: bool
  q_rate_limit :: "rate_limiter option"
  q_max_tasks_per_iteration :: nat
  q_partitioned :: bool
  q_base_polling_interval :: nat
  q_max_polling_interval :: nat

definition workflow_queue_new :: "string \<Rightarrow> workflow_queue" where
  "workflow_queue_new nm = \<lparr>q_name = nm, q_worker_concurrency = None, q_global_concurrency = None,
     q_priority_enabled = False, q_rate_limit = None, q_max_tasks_per_iteration = 100,
     q_partitioned = False, q_base_polling_interval = 1 * 10 ^ 9,
     q_max_polling_interval = 120 * 10 ^ 9\<rparr>"

datatype schedule_status = Active | Paused

definition schedule_status_as_str :: "schedule_status \<Rightarrow> string" where
  "schedule_status_as_str s = (case s of Active \<Rightarrow> ''ACTIVE'' | Paused \<Rightarrow> ''PAUSED'')"

definition schedule_status_parse :: "string \<Rightarrow> schedule_status" where
  "schedule_status_parse s = (if s = ''PAUSED'' then Paused else Active)"

record workflow_schedule =
  ws_schedule_id :: string
  ws_schedule_name :: string
  ws_workflow_name :: string
  ws_schedule :: string
  ws_status :: schedule_status
  ws_context :: "json option"
  ws_last_fired_at :: "datetime option"
  ws_automatic_backfill :: bool
  ws_cron_timezone :: "string option"
  ws_queue_name :: "string option"

definition same_definition :: "workflow_schedule \<Rightarrow> workflow_schedule \<Rightarrow> bool" where
  "same_definition a b \<longleftrightarrow> ws_schedule_id a = ws_schedule_id b
     \<and> ws_workflow_name a = ws_workflow_name b \<and> ws_schedule a = ws_schedule b
     \<and> opt_value_eq (ws_context a) (ws_context b)
     \<and> ws_automatic_backfill a = ws_automatic_backfill b
     \<and> ws_cron_timezone a = ws_cron_timezone b \<and> ws_queue_name a = ws_queue_name b"

record scheduled_input =
  in_scheduled_time :: datetime
  in_context :: "json option"

definition tick_input :: "workflow_schedule \<Rightarrow> datetime \<Rightarrow> scheduled_input" where
  "tick_input s instant = \<lparr>in_scheduled_time = instant, in_context = ws_context s\<rparr>"

record schedule_update =
  su_schedule :: "string option"
  su_context :: "json option option"
  su_automatic_backfill :: "bool option"
  su_cron_timezone :: "string option option"
  su_queue_name :: "string option option"

text \<open>\<open>parse_cron\<close> and \<open>parse_timezone\<close> validate with the \<open>cron\<close>
  and \<open>chrono-tz\<close> crates; the two validators are parameters.\<close>

definition schedule_update_validate ::
  "(string \<Rightarrow> unit result) \<Rightarrow> (string \<Rightarrow> unit result) \<Rightarrow> string \<Rightarrow> schedule_update \<Rightarrow> unit result" where
  "schedule_update_validate parse_cron parse_timezone nm u =
     (if nm = [] then Err (app ''schedule_name is required'')
      else result_bind (case su_schedule u of None \<Rightarrow> Ok () | Some cron \<Rightarrow> parse_cron cron)
        (\<lambda>_. case su_cron_timezone u of Some (Some tz) \<Rightarrow> parse_timezone tz | _ \<Rightarrow> Ok ()))"

record schedule_filter =
  sf_statuses :: "schedule_status list"
  sf_workflow_names :: "string list"
  sf_name_prefixes :: "string list"

section \<open>Lemmas\<close>

lemmas status_defs = STATUS_ENQUEUED_def STATUS_DELAYED_def STATUS_PENDING_def STATUS_SUCCESS_def
  STATUS_ERROR_def STATUS_CANCELLED_def STATUS_MAX_RECOVERY_ATTEMPTS_EXCEEDED_def

lemma status_distinct [simp]:
  "STATUS_ENQUEUED \<noteq> STATUS_DELAYED"
  "STATUS_ENQUEUED \<noteq> STATUS_PENDING"
  "STATUS_ENQUEUED \<noteq> STATUS_SUCCESS"
  "STATUS_ENQUEUED \<noteq> STATUS_ERROR"
  "STATUS_ENQUEUED \<noteq> STATUS_CANCELLED"
  "STATUS_ENQUEUED \<noteq> STATUS_MAX_RECOVERY_ATTEMPTS_EXCEEDED"
  "STATUS_DELAYED \<noteq> STATUS_ENQUEUED"
  "STATUS_DELAYED \<noteq> STATUS_PENDING"
  "STATUS_DELAYED \<noteq> STATUS_SUCCESS"
  "STATUS_DELAYED \<noteq> STATUS_ERROR"
  "STATUS_DELAYED \<noteq> STATUS_CANCELLED"
  "STATUS_DELAYED \<noteq> STATUS_MAX_RECOVERY_ATTEMPTS_EXCEEDED"
  "STATUS_PENDING \<noteq> STATUS_ENQUEUED"
  "STATUS_PENDING \<noteq> STATUS_DELAYED"
  "STATUS_PENDING \<noteq> STATUS_SUCCESS"
  "STATUS_PENDING \<noteq> STATUS_ERROR"
  "STATUS_PENDING \<noteq> STATUS_CANCELLED"
  "STATUS_PENDING \<noteq> STATUS_MAX_RECOVERY_ATTEMPTS_EXCEEDED"
  "STATUS_SUCCESS \<noteq> STATUS_ENQUEUED"
  "STATUS_SUCCESS \<noteq> STATUS_DELAYED"
  "STATUS_SUCCESS \<noteq> STATUS_PENDING"
  "STATUS_SUCCESS \<noteq> STATUS_ERROR"
  "STATUS_SUCCESS \<noteq> STATUS_CANCELLED"
  "STATUS_SUCCESS \<noteq> STATUS_MAX_RECOVERY_ATTEMPTS_EXCEEDED"
  "STATUS_ERROR \<noteq> STATUS_ENQUEUED"
  "STATUS_ERROR \<noteq> STATUS_DELAYED"
  "STATUS_ERROR \<noteq> STATUS_PENDING"
  "STATUS_ERROR \<noteq> STATUS_SUCCESS"
  "STATUS_ERROR \<noteq> STATUS_CANCELLED"
  "STATUS_ERROR \<noteq> STATUS_MAX_RECOVERY_ATTEMPTS_EXCEEDED"
  "STATUS_CANCELLED \<noteq> STATUS_ENQUEUED"
  "STATUS_CANCELLED \<noteq> STATUS_DELAYED"
  "STATUS_CANCELLED \<noteq> STATUS_PENDING"
  "STATUS_CANCELLED \<noteq> STATUS_SUCCESS"
  "STATUS_CANCELLED \<noteq> STATUS_ERROR"
  "STATUS_CANCELLED \<noteq> STATUS_MAX_RECOVERY_ATTEMPTS_EXCEEDED"
  "STATUS_MAX_RECOVERY_ATTEMPTS_EXCEEDED \<noteq> STATUS_ENQUEUED"
  "STATUS_MAX_RECOVERY_ATTEMPTS_EXCEEDED \<noteq> STATUS_DELAYED"
  "STATUS_MAX_RECOVERY_ATTEMPTS_EXCEEDED \<noteq> STATUS_PENDING"
  "STATUS_MAX_RECOVERY_ATTEMPTS_EXCEEDED \<noteq> STATUS_SUCCESS"
  "STATUS_MAX_RECOVERY_ATTEMPTS_EXCEEDED \<noteq> STATUS_ERROR"
  "STATUS_MAX_RECOVERY_ATTEMPTS_EXCEEDED \<noteq> STATUS_CANCELLED"
  by (simp_all add: status_defs)

lemma is_terminal_simps [simp]:
  "is_terminal STATUS_SUCCESS" "is_terminal STATUS_ERROR" "is_terminal STATUS_CANCELLED"
  "is_terminal STATUS_MAX_RECOVERY_ATTEMPTS_EXCEEDED"
  "\<not> is_terminal STATUS_PENDING" "\<not> is_terminal STATUS_ENQUEUED" "\<not> is_terminal STATUS_DELAYED"
  by (simp_all add: is_terminal_def status_defs)

lemma into_value_result_simps [simp]:
  "into_value_result C (Output v) = Ok v"
  "into_value_result C (Failure m i) = Err (from_parts C m i)"
  by (simp_all add: into_value_result_def)

end
