(* ===== verification/Memory_State.thy ===== *)
theory Memory_State
  imports Provider_Types
begin

text \<open>
  The state of the in-memory provider (\<open>src/memory.rs\<close>): its tables, the
  helpers that several operations share, and its representation invariant.
  The mutex is held for the whole of every operation, so an operation is a
  function from the state to a result and the state it leaves, also on an error.
\<close>

section \<open>Definitions\<close>

record notification_row =
  nr_message_uuid :: string
  nr_destination_id :: string
  nr_topic :: string
  nr_message :: json
  nr_consumed :: bool
  nr_created_at_ms :: int

record step_row =
  sr_name :: string
  sr_output :: "json option"
  sr_error :: "string option"
  sr_child_workflow_id :: "string option"
  sr_started_at_ms :: "int option"
  sr_completed_at_ms :: "int option"

definition step_row_default :: step_row where
  "step_row_default = \<lparr>sr_name = [], sr_output = None, sr_error = None,
     sr_child_workflow_id = None, sr_started_at_ms = None, sr_completed_at_ms = None\<rparr>"

record inner =
  workflows :: "(string, workflow_status) hashmap"
  steps :: "(string \<times> int, step_row) hashmap"
  notifications :: "notification_row list"
  events :: "(string \<times> string, json) hashmap"
  streams :: "(string \<times> string, json option list) hashmap"
  schedules :: "(string, workflow_schedule) hashmap"
  versions :: "(string, version_info) hashmap"
  queues :: "(string, workflow_queue) hashmap"

definition inner_default :: inner where
  "inner_default = \<lparr>workflows = [], steps = [], notifications = [], events = [], streams = [],
     schedules = [], versions = [], queues = []\<rparr>"

definition step_row_outcome :: "codec \<Rightarrow> step_row \<Rightarrow> step_outcome" where
  "step_row_outcome C r = (case sr_error r of
       Some e \<Rightarrow> (let (message, info) = decode_error C None e in Failure message info)
     | None \<Rightarrow> Output (unwrap_or JNull (sr_output r)))"

definition recorded_at :: "inner \<Rightarrow> string \<Rightarrow> int \<Rightarrow> string \<Rightarrow> step_row option result" where
  "recorded_at g w seq nm = (case map_of (steps g) (w, seq) of
       None \<Rightarrow> Ok None
     | Some recorded \<Rightarrow>
        if sr_name recorded \<noteq> nm then Err (UnexpectedStep w seq nm (sr_name recorded))
        else Ok (Some recorded))"

definition checkpoint :: "datetime \<Rightarrow> string \<Rightarrow> int \<Rightarrow> string \<Rightarrow> json \<Rightarrow> inner \<Rightarrow> inner" where
  "checkpoint now w seq nm output g = g\<lparr>steps := AList.update (w, seq)
     (step_row_default\<lparr>sr_name := nm, sr_output := Some output,
        sr_completed_at_ms := Some (timestamp_millis now)\<rparr>) (steps g)\<rparr>"

text \<open>The primary key of a message: derived from the key of a keyed send, else fresh.\<close>

definition message_uuid :: "string \<Rightarrow> string option \<Rightarrow> string \<Rightarrow> string" where
  "message_uuid fresh key destination = (case key of
       Some k \<Rightarrow> k @ ''::'' @ destination | None \<Rightarrow> fresh)"

definition push_notification :: "epoch_ms \<Rightarrow> string \<Rightarrow> notification_insert \<Rightarrow> notification_row list
  \<Rightarrow> notification_row list" where
  "push_notification now_ms fresh r ns =
     (let u = message_uuid fresh (nx_idempotency_key r) (nx_destination_id r) in
      if nx_idempotency_key r \<noteq> None \<and> list_ex (\<lambda>n. nr_message_uuid n = u) ns then ns
      else ns @ [\<lparr>nr_message_uuid = u, nr_destination_id = nx_destination_id r,
        nr_topic = nx_topic r, nr_message = nx_message r, nr_consumed = False,
        nr_created_at_ms = now_ms\<rparr>])"

text \<open>\<open>fresh i\<close> is the uuid generated for the \<open>i\<close>-th row of the batch.\<close>

fun push_rows :: "epoch_ms \<Rightarrow> (nat \<Rightarrow> string) \<Rightarrow> nat \<Rightarrow> notification_insert list
  \<Rightarrow> notification_row list \<Rightarrow> notification_row list" where
  "push_rows now_ms fresh i [] ns = ns"
| "push_rows now_ms fresh i (r # rs) ns =
     push_rows now_ms fresh (Suc i) rs (push_notification now_ms (fresh i) r ns)"

definition push_notifications :: "datetime \<Rightarrow> (nat \<Rightarrow> string) \<Rightarrow> notification_insert list \<Rightarrow> inner
  \<Rightarrow> unit result \<times> inner" where
  "push_notifications now fresh rows g =
     (case List.find (\<lambda>r. \<not> contains_key (workflows g) (nx_destination_id r)) rows of
        Some missing \<Rightarrow> (Err (NonExistentWorkflow (nx_destination_id missing)), g)
      | None \<Rightarrow> (Ok (), g\<lparr>notifications :=
          push_rows (timestamp_millis now) fresh 0 rows (notifications g)\<rparr>))"

text \<open>The entry of the stream is created before the check, as \<open>or_default\<close> does.\<close>

definition append_stream :: "string \<Rightarrow> string \<Rightarrow> json option \<Rightarrow> inner \<Rightarrow> unit result \<times> inner" where
  "append_stream w key v g =
     (let entries = unwrap_or [] (map_of (streams g) (w, key)) in
      if list_ex (\<lambda>e. e = None) entries
      then (Err (app (''stream `'' @ key @ ''` is already closed'')),
            g\<lparr>streams := AList.update (w, key) entries (streams g)\<rparr>)
      else (Ok (), g\<lparr>streams := AList.update (w, key) (entries @ [v]) (streams g)\<rparr>))"

text \<open>The representation invariant: every table is a map, and a row is stored under its own key.\<close>

definition keyed_by :: "('v \<Rightarrow> 'k) \<Rightarrow> ('k, 'v) hashmap \<Rightarrow> bool" where
  "keyed_by f m \<longleftrightarrow> distinct (map fst m) \<and> list_all (\<lambda>(k, v). f v = k) m"

definition mem_inv :: "inner \<Rightarrow> bool" where
  "mem_inv g \<longleftrightarrow> keyed_by wf_id (workflows g) \<and> distinct (map fst (steps g))
     \<and> distinct (map fst (events g)) \<and> distinct (map fst (streams g))
     \<and> keyed_by ws_schedule_name (schedules g) \<and> keyed_by vi_version_name (versions g)
     \<and> keyed_by q_name (queues g)"

text \<open>A sealed stream ends with its close sentinel and holds no other.\<close>

definition sealed_ok :: "json option list \<Rightarrow> bool" where
  "sealed_ok es \<longleftrightarrow> list_all (\<lambda>e. e \<noteq> None) (butlast es)"

definition streams_ok :: "inner \<Rightarrow> bool" where
  "streams_ok g \<longleftrightarrow> list_all (\<lambda>(k, es). sealed_ok es) (streams g)"

section \<open>Lemmas\<close>

lemma keyed_by_Nil [simp]: "keyed_by f []"
  by (simp add: keyed_by_def)

lemma keyed_by_distinct: "keyed_by f m \<Longrightarrow> distinct (map fst m)"
  by (simp add: keyed_by_def)

lemma keyed_by_lookup: "keyed_by f m \<Longrightarrow> map_of m k = Some v \<Longrightarrow> f v = k"
  by (auto simp: keyed_by_def list_all_iff dest: map_of_SomeD)

lemma set_update_subset: "set (AList.update k v m) \<subseteq> insert (k, v) (set m)"
  by (induction m) auto

lemma keyed_by_update [simp]:
  assumes "keyed_by f m" "f v = k"
  shows "keyed_by f (AList.update k v m)"
  using assms set_update_subset [of k v m] by (fastforce simp: keyed_by_def list_all_iff)

lemma keyed_by_delete [simp]: "keyed_by f m \<Longrightarrow> keyed_by f (AList.delete k m)"
  by (auto simp: keyed_by_def list_all_iff AList.delete_eq)

lemma keyed_by_filter [simp]: "keyed_by f m \<Longrightarrow> keyed_by f (filter P m)"
  by (auto simp: keyed_by_def list_all_iff)

lemma keyed_by_or_insert [simp]:
  "keyed_by f m \<Longrightarrow> f v = k \<Longrightarrow> keyed_by f (or_insert k v m)"
  by (simp add: or_insert_def)

lemma keyed_by_map:
  assumes "keyed_by f m" "\<And>v. f (h v) = f v"
  shows "keyed_by f (map (\<lambda>(k, v). (k, h v)) m)"
proof -
  have "map fst (map (\<lambda>(k, v). (k, h v)) m) = map fst m" by auto
  then have "distinct (map fst (map (\<lambda>(k, v). (k, h v)) m))"
    using assms(1) by (simp only: keyed_by_distinct)
  then show ?thesis using assms by (auto simp: keyed_by_def list_all_iff)
qed

lemma values_keyed:
  "keyed_by f m \<Longrightarrow> v \<in> set (hm_values m) \<longleftrightarrow> map_of m (f v) = Some v"
  using in_hm_values [of m v] keyed_by_lookup [of f m _ v] by (auto simp: keyed_by_distinct)

lemma mem_inv_default [simp]: "mem_inv inner_default"
  by (simp add: mem_inv_def inner_default_def)

lemma mem_invD [simp]:
  assumes "mem_inv g"
  shows "keyed_by wf_id (workflows g)" "distinct (map fst (steps g))"
    "distinct (map fst (events g))" "distinct (map fst (streams g))"
    "keyed_by ws_schedule_name (schedules g)" "keyed_by vi_version_name (versions g)"
    "keyed_by q_name (queues g)"
  using assms by (simp_all add: mem_inv_def)

lemma mem_inv_frames [simp]:
  "mem_inv (g\<lparr>notifications := ns\<rparr>) = mem_inv g"
  "mem_inv g \<Longrightarrow> keyed_by wf_id ws \<Longrightarrow> mem_inv (g\<lparr>workflows := ws\<rparr>)"
  "mem_inv g \<Longrightarrow> distinct (map fst ss) \<Longrightarrow> mem_inv (g\<lparr>steps := ss\<rparr>)"
  "mem_inv g \<Longrightarrow> distinct (map fst es) \<Longrightarrow> mem_inv (g\<lparr>events := es\<rparr>)"
  "mem_inv g \<Longrightarrow> distinct (map fst ts) \<Longrightarrow> mem_inv (g\<lparr>streams := ts\<rparr>)"
  "mem_inv g \<Longrightarrow> keyed_by ws_schedule_name cs \<Longrightarrow> mem_inv (g\<lparr>schedules := cs\<rparr>)"
  "mem_inv g \<Longrightarrow> keyed_by vi_version_name vs \<Longrightarrow> mem_inv (g\<lparr>versions := vs\<rparr>)"
  "mem_inv g \<Longrightarrow> keyed_by q_name qs \<Longrightarrow> mem_inv (g\<lparr>queues := qs\<rparr>)"
  by (simp_all add: mem_inv_def del: mem_invD)

lemma row_id: "mem_inv g \<Longrightarrow> map_of (workflows g) i = Some w \<Longrightarrow> wf_id w = i"
  using keyed_by_lookup [of wf_id "workflows g" i w] by simp

lemma in_values_iff:
  "mem_inv g \<Longrightarrow> w \<in> set (hm_values (workflows g)) \<longleftrightarrow> map_of (workflows g) (wf_id w) = Some w"
  by (simp add: values_keyed)

lemma checkpoint_simps [store_simps]:
  "workflows (checkpoint now w seq nm v g) = workflows g"
  "notifications (checkpoint now w seq nm v g) = notifications g"
  "streams (checkpoint now w seq nm v g) = streams g"
  "events (checkpoint now w seq nm v g) = events g"
  "versions (checkpoint now w seq nm v g) = versions g"
  "map_of (steps (checkpoint now w seq nm v g)) = (map_of (steps g))((w, seq) \<mapsto>
     step_row_default\<lparr>sr_name := nm, sr_output := Some v,
       sr_completed_at_ms := Some (timestamp_millis now)\<rparr>)"
  by (simp_all add: checkpoint_def)

lemma checkpoint_inv [inv_intros]: "mem_inv g \<Longrightarrow> mem_inv (checkpoint now w seq nm v g)"
  by (auto simp: checkpoint_def)

lemma push_notifications_simps [store_simps]:
  "workflows (snd (push_notifications now fresh rows g)) = workflows g"
  "steps (snd (push_notifications now fresh rows g)) = steps g"
  "streams (snd (push_notifications now fresh rows g)) = streams g"
  "events (snd (push_notifications now fresh rows g)) = events g"
  by (simp_all add: push_notifications_def split: option.splits)

lemma push_notifications_inv [inv_intros]:
  "mem_inv g \<Longrightarrow> mem_inv (snd (push_notifications now fresh rows g))"
  by (simp add: push_notifications_def split: option.splits)

lemma append_stream_simps [store_simps]:
  "workflows (snd (append_stream w key v g)) = workflows g"
  "steps (snd (append_stream w key v g)) = steps g"
  "notifications (snd (append_stream w key v g)) = notifications g"
  "events (snd (append_stream w key v g)) = events g"
  by (simp_all add: append_stream_def Let_def)

lemma append_stream_inv [inv_intros]:
  "mem_inv g \<Longrightarrow> mem_inv (snd (append_stream w key v g))"
  by (auto simp: append_stream_def Let_def)

lemma sealed_ok_snoc [simp]: "sealed_ok (es @ [e]) \<longleftrightarrow> None \<notin> set es"
  unfolding sealed_ok_def list_all_iff butlast_snoc by metis

lemma append_stream_ok:
  assumes "streams_ok g"
  shows "streams_ok (snd (append_stream w key v g))"
proof -
  let ?es = "unwrap_or [] (map_of (streams g) (w, key))"
  have "sealed_ok ?es"
    using assms by (cases "map_of (streams g) (w, key)")
      (auto simp: streams_ok_def list_all_iff sealed_ok_def dest!: map_of_SomeD)
  then show ?thesis
    using assms set_update_subset [of "(w, key)" _ "streams g"]
    by (fastforce simp: append_stream_def Let_def streams_ok_def list_all_iff list_ex_iff)
qed

lemma recorded_at_Ok_None [simp]:
  "recorded_at g w seq nm = Inr None \<longleftrightarrow> map_of (steps g) (w, seq) = None"
  by (simp add: recorded_at_def split: option.splits)

lemma recorded_at_Ok_Some [simp]:
  "recorded_at g w seq nm = Inr (Some r) \<longleftrightarrow> map_of (steps g) (w, seq) = Some r \<and> sr_name r = nm"
  by (auto simp: recorded_at_def split: option.splits)

lemma recorded_at_Err:
  "recorded_at g w seq nm = Inl e \<longleftrightarrow>
     (\<exists>r. map_of (steps g) (w, seq) = Some r \<and> sr_name r \<noteq> nm \<and> e = UnexpectedStep w seq nm (sr_name r))"
  by (auto simp: recorded_at_def split: option.splits)

lemma step_row_outcome_simps [simp]:
  "sr_error r = None \<Longrightarrow> step_row_outcome C r = Output (unwrap_or JNull (sr_output r))"
  by (simp add: step_row_outcome_def)

end
