(* ===== verification/Memory_Steps.thy ===== *)
theory Memory_Steps
  imports Memory_State
begin

text \<open>
  The step table of the in-memory provider: reading and writing checkpoints,
  child-workflow records, patch markers and the step listing.  The contract
  that the rest of the crate relies on is the locale \<open>checkpoint_store\<close>,
  interpreted here on \<open>get_step_result\<close> and \<open>record_step_result\<close>.
\<close>

section \<open>Definitions\<close>

definition get_step_result :: "codec \<Rightarrow> string \<Rightarrow> int \<Rightarrow> inner \<Rightarrow> recorded_step option result" where
  "get_step_result C w seq g = Ok (map_option
     (\<lambda>r. \<lparr>rs_name = sr_name r, rs_outcome = step_row_outcome C r\<rparr>) (map_of (steps g) (w, seq)))"

definition checkpoint_row ::
  "datetime \<Rightarrow> string \<Rightarrow> json \<Rightarrow> string option \<Rightarrow> int option \<Rightarrow> step_row" where
  "checkpoint_row now nm v err started =
     (let (output, error_field) = (case err of Some e \<Rightarrow> (None, Some e) | None \<Rightarrow> (Some v, None)) in
      \<lparr>sr_name = nm, sr_output = output, sr_error = error_field, sr_child_workflow_id = None,
       sr_started_at_ms = started, sr_completed_at_ms = Some (timestamp_millis now)\<rparr>)"

definition refresh_executor :: "string \<Rightarrow> string option \<Rightarrow> inner \<Rightarrow> inner" where
  "refresh_executor w executor g = (case executor of None \<Rightarrow> g | Some ex \<Rightarrow>
     (case map_of (workflows g) w of None \<Rightarrow> g | Some row \<Rightarrow>
        if wf_executor_id row \<noteq> ex
        then g\<lparr>workflows := AList.update w (row\<lparr>wf_executor_id := ex\<rparr>) (workflows g)\<rparr> else g))"

definition record_step_result ::
  "codec \<Rightarrow> datetime \<Rightarrow> string \<Rightarrow> int \<Rightarrow> string \<Rightarrow> json \<Rightarrow> string option \<Rightarrow> int option \<Rightarrow> string option
   \<Rightarrow> inner \<Rightarrow> step_outcome result \<times> inner" where
  "record_step_result C now w seq nm v err started executor g =
     (let new = checkpoint_row now nm v err started in
      case map_of (steps g) (w, seq) of
        Some row \<Rightarrow>
          if sr_name row \<noteq> nm then (Err (UnexpectedStep w seq nm (sr_name row)), g)
          else if \<not> (opt_value_eq (sr_output row) (sr_output new) \<and> sr_error row = sr_error new
                      \<and> sr_started_at_ms row = started)
          then (Err (WorkflowConflict w), g)
          else (Ok (step_row_outcome C row), g)
      | None \<Rightarrow>
          (Ok (step_row_outcome C new),
           refresh_executor w executor (g\<lparr>steps := AList.update (w, seq) new (steps g)\<rparr>)))"

definition run_transaction_step :: "inner \<Rightarrow> json result \<times> inner" where
  "run_transaction_step g =
     (Err (app ''transactional steps require a SQL backend (Postgres or SQLite)''), g)"

definition dedup_holder :: "string option \<Rightarrow> string option \<Rightarrow> inner \<Rightarrow> workflow_status option" where
  "dedup_holder queue dedup g = (case (queue, dedup) of
       (Some q, Some d) \<Rightarrow> List.find (\<lambda>row. wf_queue_name row = Some q \<and> wf_dedup_id row = Some d)
         (hm_values (workflows g))
     | _ \<Rightarrow> None)"

definition child_step_row :: "string \<Rightarrow> string \<Rightarrow> step_row" where
  "child_step_row nm child = step_row_default\<lparr>sr_name := nm, sr_child_workflow_id := Some child\<rparr>"

definition insert_child_workflow ::
  "workflow_status \<Rightarrow> string \<Rightarrow> int \<Rightarrow> bool \<Rightarrow> inner \<Rightarrow> child_insert option result \<times> inner" where
  "insert_child_workflow child parent seq return_existing g =
     (case map_of (steps g) (parent, seq) of
        Some step \<Rightarrow> (case sr_child_workflow_id step of
            Some cid \<Rightarrow> if sr_name step \<noteq> wf_name child then (Err (WorkflowConflict parent), g)
              else (Ok (Some (Replayed cid)), g)
          | None \<Rightarrow> (Err (WorkflowConflict parent), g))
      | None \<Rightarrow>
        (case map_of (workflows g) parent of
           None \<Rightarrow> (Err (NonExistentWorkflow parent), g)
         | Some prow \<Rightarrow>
           if wf_status prow = STATUS_CANCELLED then (Err (Cancelled parent), g)
           else
             (let by_id = map_of (workflows g) (wf_id child);
                  by_dedup = (if by_id = None
                    then dedup_holder (wf_queue_name child) (wf_dedup_id child) g else None) in
              if by_dedup \<noteq> None \<and> \<not> return_existing
              then (Err (QueueDeduplicated (unwrap_or [] (wf_queue_name child))
                     (unwrap_or [] (wf_dedup_id child))), g)
              else
                (let chosen = (if by_id \<noteq> None then by_id else by_dedup);
                     created = (chosen = None);
                     row = unwrap_or child chosen in
                 case check_child_target row child of
                   Inl e \<Rightarrow> (Err e, g)
                 | Inr _ \<Rightarrow>
                   (Ok (Some (Resolved row created)),
                    g\<lparr>workflows := (if created then AList.update (wf_id row) row (workflows g)
                                     else workflows g),
                      steps := AList.update (parent, seq) (child_step_row (wf_name child) (wf_id row))
                                 (steps g)\<rparr>)))))"

definition record_child_workflow ::
  "string \<Rightarrow> int \<Rightarrow> string \<Rightarrow> string \<Rightarrow> inner \<Rightarrow> unit result \<times> inner" where
  "record_child_workflow parent seq nm child g =
     (Ok (), g\<lparr>steps := or_insert (parent, seq) (child_step_row nm child) (steps g)\<rparr>)"

definition check_child_workflow :: "string \<Rightarrow> int \<Rightarrow> inner \<Rightarrow> (string \<times> string) option result" where
  "check_child_workflow parent seq g = Ok (Option.bind (map_of (steps g) (parent, seq))
     (\<lambda>r. map_option (\<lambda>i. (i, sr_name r)) (sr_child_workflow_id r)))"

text \<open>\<open>from_ts\<close> is chrono's \<open>DateTime::from_timestamp_millis\<close>, undefined outside its range.\<close>

definition step_info_of ::
  "codec \<Rightarrow> (int \<Rightarrow> datetime option) \<Rightarrow> bool \<Rightarrow> int \<Rightarrow> step_row \<Rightarrow> step_info" where
  "step_info_of C from_ts load_output seq row = \<lparr>si_step_id = seq, si_name = sr_name row,
     si_output = (if load_output then sr_output row else None),
     si_error = map_option (\<lambda>e. fst (decode_error C None e)) (sr_error row),
     si_child_workflow_id = sr_child_workflow_id row,
     si_started_at = Option.bind (sr_started_at_ms row) from_ts,
     si_completed_at = Option.bind (sr_completed_at_ms row) from_ts\<rparr>"

definition steps_of :: "string \<Rightarrow> inner \<Rightarrow> (int \<times> step_row) list" where
  "steps_of w g = sort_key fst (map (\<lambda>((_, seq), row). (seq, row))
     (filter (\<lambda>((wid, _), _). wid = w) (steps g)))"

definition skip_take :: "int option \<Rightarrow> int option \<Rightarrow> 'a list \<Rightarrow> 'a list" where
  "skip_take offset limit xs =
     (let rest = drop (nat (max 0 (unwrap_or 0 offset))) xs in
      case opt_filter (\<lambda>n. 0 \<le> n) limit of None \<Rightarrow> rest | Some n \<Rightarrow> take (nat n) rest)"

definition get_workflow_steps_with_options ::
  "codec \<Rightarrow> (int \<Rightarrow> datetime option) \<Rightarrow> string \<Rightarrow> step_list_options \<Rightarrow> inner \<Rightarrow> step_info list result" where
  "get_workflow_steps_with_options C from_ts w opts g =
     Ok (map (\<lambda>(seq, row). step_info_of C from_ts (so_load_output opts) seq row)
       (skip_take (so_offset opts) (so_limit opts) (steps_of w g)))"

definition get_workflow_steps ::
  "codec \<Rightarrow> (int \<Rightarrow> datetime option) \<Rightarrow> string \<Rightarrow> inner \<Rightarrow> step_info list result" where
  "get_workflow_steps C from_ts w g =
     get_workflow_steps_with_options C from_ts w step_list_options_default g"

definition get_step_name :: "string \<Rightarrow> int \<Rightarrow> inner \<Rightarrow> string option result" where
  "get_step_name w seq g = Ok (map_option sr_name (map_of (steps g) (w, seq)))"

definition record_patch :: "string \<Rightarrow> int \<Rightarrow> string \<Rightarrow> inner \<Rightarrow> unit result \<times> inner" where
  "record_patch w seq nm g =
     (Ok (), g\<lparr>steps := or_insert (w, seq) (step_row_default\<lparr>sr_name := nm\<rparr>) (steps g)\<rparr>)"

text \<open>The outcome a caller sees for the columns it wrote.\<close>

definition written_outcome :: "codec \<Rightarrow> json \<Rightarrow> string option \<Rightarrow> step_outcome" where
  "written_outcome C v err = (case err of
       Some e \<Rightarrow> (let (message, info) = decode_error C None e in Failure message info)
     | None \<Rightarrow> Output v)"

definition lookup_step :: "codec \<Rightarrow> inner \<Rightarrow> string \<Rightarrow> int \<Rightarrow> recorded_step option" where
  "lookup_step C g w seq = map_option
     (\<lambda>r. \<lparr>rs_name = sr_name r, rs_outcome = step_row_outcome C r\<rparr>) (map_of (steps g) (w, seq))"

section \<open>The checkpoint contract\<close>

text \<open>
  What a checkpoint store promises to the durable calls: an empty position
  takes the outcome written to it, an occupied one never changes, a different
  name at a position is reported as such, and no write disturbs another position.
\<close>

locale checkpoint_store =
  fixes lookup :: "'s \<Rightarrow> string \<Rightarrow> int \<Rightarrow> recorded_step option"
    and put :: "datetime \<Rightarrow> string \<Rightarrow> int \<Rightarrow> string \<Rightarrow> json \<Rightarrow> string option \<Rightarrow> int option
      \<Rightarrow> string option \<Rightarrow> 's \<Rightarrow> step_outcome result \<times> 's"
    and outcome :: "json \<Rightarrow> string option \<Rightarrow> step_outcome"
  assumes put_empty: "lookup s w q = None \<Longrightarrow> fst (put now w q nm v err st ex s) = Ok (outcome v err)"
    and put_lookup: "lookup s w q = None \<Longrightarrow>
      lookup (snd (put now w q nm v err st ex s)) w q = Some \<lparr>rs_name = nm, rs_outcome = outcome v err\<rparr>"
    and put_occupied: "lookup s w q = Some r \<Longrightarrow> snd (put now w q nm v err st ex s) = s"
    and put_other_name: "lookup s w q = Some r \<Longrightarrow> rs_name r \<noteq> nm \<Longrightarrow>
      fst (put now w q nm v err st ex s) = Err (UnexpectedStep w q nm (rs_name r))"
    and put_same_name: "lookup s w q = Some r \<Longrightarrow> rs_name r = nm \<Longrightarrow>
      fst (put now w q nm v err st ex s) \<in> {Ok (rs_outcome r), Err (WorkflowConflict w)}"
    and put_frame: "(w', q') \<noteq> (w, q) \<Longrightarrow>
      lookup (snd (put now w q nm v err st ex s)) w' q' = lookup s w' q'"
begin

lemma put_keeps:
  assumes "lookup s w' q' = Some r"
  shows "lookup (snd (put now w q nm v err st ex s)) w' q' = Some r"
  using assms by (cases "(w', q') = (w, q)") (auto simp: put_occupied put_frame)

lemma put_Ok_recorded:
  assumes "fst (put now w q nm v err st ex s) = Ok out"
  shows "lookup (snd (put now w q nm v err st ex s)) w q = Some \<lparr>rs_name = nm, rs_outcome = out\<rparr>"
proof (cases "lookup s w q")
  case None
  then show ?thesis using assms put_lookup [of s w q] put_empty [of s w q] by auto
next
  case (Some r)
  have "rs_name r = nm" using assms put_other_name [OF Some, of nm] by force
  moreover have "rs_outcome r = out"
    using assms put_same_name [OF Some calculation, of now v err st ex] by auto
  ultimately have "r = \<lparr>rs_name = nm, rs_outcome = out\<rparr>" by (cases r) simp
  then show ?thesis using Some put_keeps [OF Some, of now w q nm v err st ex] by simp
qed

lemma put_changes_only_empty:
  assumes "lookup (snd (put now w q nm v err st ex s)) w' q' \<noteq> lookup s w' q'"
  shows "w' = w \<and> q' = q \<and> lookup s w q = None"
proof -
  have same: "w' = w \<and> q' = q" using assms put_frame [of w' q' w q] by blast
  then have "lookup s w q = None" using assms put_occupied [of s w q] by (cases "lookup s w q") auto
  with same show ?thesis by simp
qed

lemma put_names_agree:
  assumes "fst (put now w q nm v err st ex s) = Ok out" "lookup s w q = Some r"
  shows "rs_name r = nm"
  using assms put_other_name [OF assms(2), of nm] by force

lemma put_race:
  fixes s now now' w q nm nm' v v' err err' st st' ex ex'
  defines "first \<equiv> put now w q nm v err st ex s"
  defines "late \<equiv> put now' w q nm' v' err' st' ex' (snd first)"
  assumes "lookup s w q = None"
  shows "fst first = Ok (outcome v err)
    \<and> snd late = snd first
    \<and> lookup (snd late) w q = Some \<lparr>rs_name = nm, rs_outcome = outcome v err\<rparr>
    \<and> (nm' = nm \<longrightarrow> fst late = fst first \<or> fst late = Err (WorkflowConflict w))
    \<and> (nm' \<noteq> nm \<longrightarrow> fst late = Err (UnexpectedStep w q nm' nm))
    \<and> (\<forall>w' q'. (w', q') \<noteq> (w, q) \<longrightarrow> lookup (snd late) w' q' = lookup s w' q')"
proof -
  have rec: "lookup (snd first) w q = Some \<lparr>rs_name = nm, rs_outcome = outcome v err\<rparr>"
    using assms(3) by (simp add: first_def put_lookup)
  show ?thesis
    using assms(3) put_occupied [OF rec, of now' nm' v' err' st' ex'] rec
      put_same_name [OF rec, of nm' now' v' err' st' ex'] put_other_name [OF rec, of nm' now' v' err' st' ex']
    by (auto simp: late_def first_def put_empty put_frame)
qed

end

section \<open>Lemmas\<close>

lemma lookup_step_cong: "steps g = steps g' \<Longrightarrow> lookup_step C g = lookup_step C g'"
  by (simp add: fun_eq_iff lookup_step_def)

lemma get_step_result_eq: "get_step_result C w seq g = Ok (lookup_step C g w seq)"
  by (simp add: get_step_result_def lookup_step_def)

lemma refresh_executor_frame [store_simps, simp]:
  "steps (refresh_executor w ex g) = steps g"
  "notifications (refresh_executor w ex g) = notifications g"
  "events (refresh_executor w ex g) = events g"
  "streams (refresh_executor w ex g) = streams g"
  "versions (refresh_executor w ex g) = versions g"
  by (simp_all add: refresh_executor_def split: option.splits)

lemma refresh_executor_inv [inv_intros]: "mem_inv g \<Longrightarrow> mem_inv (refresh_executor w ex g)"
  by (auto simp: refresh_executor_def row_id split: option.splits)

lemma checkpoint_row_outcome:
  "step_row_outcome C (checkpoint_row now nm v err started) = written_outcome C v err"
  by (simp add: step_row_outcome_def checkpoint_row_def written_outcome_def split: option.splits)

lemma checkpoint_row_simps [simp]:
  "sr_name (checkpoint_row now nm v err started) = nm"
  "sr_started_at_ms (checkpoint_row now nm v err started) = started"
  "sr_error (checkpoint_row now nm v err started) = err"
  "sr_output (checkpoint_row now nm v err started) = (if err = None then Some v else None)"
  by (simp_all add: checkpoint_row_def split: option.splits)

interpretation mem_steps: checkpoint_store "lookup_step C" "record_step_result C" "written_outcome C" for C
proof unfold_locales
  show "(w', q') \<noteq> (w, q) \<Longrightarrow>
    lookup_step C (snd (record_step_result C now w q nm v err st ex s)) w' q' = lookup_step C s w' q'"
    for w' q' w q now nm v err st ex s
    by (auto simp: lookup_step_def record_step_result_def Let_def split: option.splits)
qed (auto simp: lookup_step_def record_step_result_def Let_def checkpoint_row_outcome
      split: option.splits if_splits)

lemma record_step_result_inv [inv_intros]:
  "mem_inv g \<Longrightarrow> mem_inv (snd (record_step_result C now w seq nm v err st ex g))"
  by (auto simp: record_step_result_def Let_def intro!: inv_intros split: option.splits)

lemma record_child_workflow_inv [inv_intros]:
  "mem_inv g \<Longrightarrow> mem_inv (snd (record_child_workflow parent seq nm child g))"
  by (simp add: record_child_workflow_def)

lemma record_patch_inv [inv_intros]: "mem_inv g \<Longrightarrow> mem_inv (snd (record_patch w seq nm g))"
  by (simp add: record_patch_def)

lemma insert_child_workflow_inv [inv_intros]:
  assumes "mem_inv g"
  shows "mem_inv (snd (insert_child_workflow child parent seq return_existing g))"
  using assms unfolding insert_child_workflow_def Let_def
  by (auto split: option.splits sum.splits simp: mem_inv_def simp del: mem_invD)

section \<open>Properties\<close>

text \<open>
  C25: the first checkpoint at a position wins.  Of two executors that record
  the same position of a workflow, the first gets the outcome it wrote; the
  second changes nothing and is told the recorded outcome, that another executor
  owns the run (\<open>WorkflowConflict\<close>), or that another step is recorded there
  (\<open>UnexpectedStep\<close>).  No other position is touched.
\<close>

theorem first_checkpoint_wins:
  assumes "map_of (steps g) (w, q) = None"
    and "record_step_result C now w q nm v err st ex g = (r1, g1)"
    and "record_step_result C now' w q nm' v' err' st' ex' g1 = (r2, g2)"
  shows "r1 = Ok (written_outcome C v err) \<and> g2 = g1
    \<and> get_step_result C w q g2 = Ok (Some \<lparr>rs_name = nm, rs_outcome = written_outcome C v err\<rparr>)
    \<and> (nm' = nm \<longrightarrow> r2 = r1 \<or> r2 = Err (WorkflowConflict w))
    \<and> (nm' \<noteq> nm \<longrightarrow> r2 = Err (UnexpectedStep w q nm' nm))
    \<and> (\<forall>w' q'. (w', q') \<noteq> (w, q) \<longrightarrow> get_step_result C w' q' g2 = get_step_result C w' q' g)"
proof -
  have "lookup_step C g w q = None" using assms(1) by (simp add: lookup_step_def)
  from mem_steps.put_race [OF this, of now nm v err st ex now' nm' v' err' st' ex'] show ?thesis
    unfolding get_step_result_eq assms(2,3) fst_conv snd_conv by blast
qed

section \<open>Witnesses\<close>

theorem first_checkpoint_wins_witness:
  "\<exists>r2 g2. record_step_result plain_codec 2 ''w'' 0 ''a'' (JInt 8) None (Some 4) None
       (snd (record_step_result plain_codec 1 ''w'' 0 ''a'' (JInt 7) None (Some 3) None inner_default)) = (r2, g2)
     \<and> get_step_result plain_codec ''w'' 0 g2 = Ok (Some \<lparr>rs_name = ''a'', rs_outcome = Output (JInt 7)\<rparr>)"
proof -
  have none: "map_of (steps inner_default) (''w'', 0) = None" by (simp add: inner_default_def)
  obtain r1 g1 where 1: "record_step_result plain_codec 1 ''w'' 0 ''a'' (JInt 7) None (Some 3) None inner_default = (r1, g1)"
    by fastforce
  obtain r2 g2 where 2: "record_step_result plain_codec 2 ''w'' 0 ''a'' (JInt 8) None (Some 4) None g1 = (r2, g2)"
    by fastforce
  show ?thesis using first_checkpoint_wins [OF none 1 2] 1 2 by (auto simp: written_outcome_def)
qed

end
