(* ===== verification/Memory_Messages.thy ===== *)
theory Memory_Messages
  imports Memory_Steps
begin

text \<open>
  Mailboxes, events and streams of the in-memory provider.  A send and a
  receive made by a workflow commit together with the checkpoint of the call,
  so both are replayed, never repeated.
\<close>

section \<open>Definitions\<close>

definition insert_notification :: "datetime \<Rightarrow> string \<Rightarrow> string \<Rightarrow> string \<Rightarrow> json \<Rightarrow> string option
  \<Rightarrow> inner \<Rightarrow> unit result \<times> inner" where
  "insert_notification now fresh destination topic message key g =
     (if \<not> contains_key (workflows g) destination then (Err (NonExistentWorkflow destination), g)
      else (Ok (), g\<lparr>notifications := push_notification (timestamp_millis now) fresh
        \<lparr>nx_destination_id = destination, nx_topic = topic, nx_message = message,
         nx_idempotency_key = key\<rparr> (notifications g)\<rparr>))"

definition insert_notifications :: "datetime \<Rightarrow> (nat \<Rightarrow> string) \<Rightarrow> notification_insert list
  \<Rightarrow> inner \<Rightarrow> unit result \<times> inner" where
  "insert_notifications now fresh rows g = push_notifications now fresh rows g"

definition send_from_workflow :: "datetime \<Rightarrow> datetime \<Rightarrow> (nat \<Rightarrow> string) \<Rightarrow> string \<Rightarrow> int \<Rightarrow> string
  \<Rightarrow> notification_insert list \<Rightarrow> inner \<Rightarrow> unit result \<times> inner" where
  "send_from_workflow now now' fresh w seq nm rows g = (case recorded_at g w seq nm of
       Inl e \<Rightarrow> (Err e, g)
     | Inr (Some _) \<Rightarrow> (Ok (), g)
     | Inr None \<Rightarrow> (case push_notifications now fresh rows g of
         (Inl e, g') \<Rightarrow> (Err e, g')
       | (Inr _, g') \<Rightarrow> (Ok (), checkpoint now' w seq nm JNull g')))"

definition mailbox_candidate :: "string \<Rightarrow> string \<Rightarrow> notification_row \<Rightarrow> bool" where
  "mailbox_candidate w topic n \<longleftrightarrow> \<not> nr_consumed n \<and> nr_destination_id n = w \<and> nr_topic n = topic"

definition oldest_unconsumed :: "string \<Rightarrow> string \<Rightarrow> notification_row list \<Rightarrow> (nat \<times> notification_row) option" where
  "oldest_unconsumed w topic ns = min_by_key (\<lambda>(i, n). nr_created_at_ms n)
     (filter (\<lambda>(i, n). mailbox_candidate w topic n) (enumerate 0 ns))"

definition consume_notification :: "codec \<Rightarrow> datetime \<Rightarrow> string \<Rightarrow> string \<Rightarrow> int \<Rightarrow> string \<Rightarrow> inner
  \<Rightarrow> json option result \<times> inner" where
  "consume_notification C now w topic seq nm g = (case recorded_at g w seq nm of
       Inl e \<Rightarrow> (Err e, g)
     | Inr (Some recorded) \<Rightarrow>
        (result_bind (into_value_result C (step_row_outcome C recorded)) (\<lambda>v. Ok (Some v)), g)
     | Inr None \<Rightarrow> (case oldest_unconsumed w topic (notifications g) of
         None \<Rightarrow> (Ok None, g)
       | Some (i, row) \<Rightarrow>
          (Ok (Some (nr_message row)),
           checkpoint now w seq nm (nr_message row)
             (g\<lparr>notifications := (notifications g)[i := row\<lparr>nr_consumed := True\<rparr>]\<rparr>))))"

definition upsert_event :: "string \<Rightarrow> string \<Rightarrow> json \<Rightarrow> inner \<Rightarrow> unit result \<times> inner" where
  "upsert_event w key v g = (Ok (), g\<lparr>events := AList.update (w, key) v (events g)\<rparr>)"

definition get_event_value :: "string \<Rightarrow> string \<Rightarrow> inner \<Rightarrow> json option result" where
  "get_event_value w key g = Ok (map_of (events g) (w, key))"

definition write_stream :: "string \<Rightarrow> string \<Rightarrow> json option \<Rightarrow> int \<Rightarrow> inner \<Rightarrow> unit result \<times> inner" where
  "write_stream w key v function_id g = append_stream w key v g"

definition write_stream_from_workflow :: "datetime \<Rightarrow> string \<Rightarrow> int \<Rightarrow> string \<Rightarrow> string \<Rightarrow> json option
  \<Rightarrow> inner \<Rightarrow> unit result \<times> inner" where
  "write_stream_from_workflow now w seq nm key v g = (case recorded_at g w seq nm of
       Inl e \<Rightarrow> (Err e, g)
     | Inr (Some _) \<Rightarrow> (Ok (), g)
     | Inr None \<Rightarrow> (case append_stream w key v g of
         (Inl e, g') \<Rightarrow> (Err e, g')
       | (Inr _, g') \<Rightarrow> (Ok (), checkpoint now w seq nm JNull g')))"

fun scan_stream :: "json option list \<Rightarrow> json list \<times> bool" where
  "scan_stream [] = ([], False)"
| "scan_stream (None # _) = ([], True)"
| "scan_stream (Some v # es) = (let (vs, closed) = scan_stream es in (v # vs, closed))"

definition read_stream :: "string \<Rightarrow> string \<Rightarrow> int \<Rightarrow> inner \<Rightarrow> (json list \<times> bool) result" where
  "read_stream w key from_offset g = Ok (case map_of (streams g) (w, key) of
       None \<Rightarrow> ([], False)
     | Some entries \<Rightarrow> scan_stream (drop (nat (max 0 from_offset)) entries))"

definition list_workflow_events :: "string \<Rightarrow> inner \<Rightarrow> (string \<times> json) list result" where
  "list_workflow_events w g = Ok (sort_key fst (map (\<lambda>((_, key), v). (key, v))
     (filter (\<lambda>((wid, _), _). wid = w) (events g))))"

definition list_workflow_notifications :: "string \<Rightarrow> inner \<Rightarrow> notification_info list result" where
  "list_workflow_notifications w g = Ok (map (\<lambda>n. \<lparr>
       ni_topic = then_some (nr_topic n \<noteq> []) (nr_topic n), ni_message = nr_message n,
       ni_created_at_ms = nr_created_at_ms n, ni_consumed = nr_consumed n\<rparr>)
     (sort_key nr_created_at_ms (filter (\<lambda>n. nr_destination_id n = w) (notifications g))))"

definition list_workflow_streams :: "string \<Rightarrow> inner \<Rightarrow> (string \<times> json list) list result" where
  "list_workflow_streams w g = Ok (sort_key fst (map (\<lambda>((_, key), entries).
       (key, List.map_filter id (takeWhile (\<lambda>e. e \<noteq> None) entries)))
     (filter (\<lambda>((wid, _), _). wid = w) (streams g))))"

text \<open>What a mailbox still holds for a topic, in arrival order.\<close>

definition mailbox :: "string \<Rightarrow> string \<Rightarrow> inner \<Rightarrow> notification_row list" where
  "mailbox w topic g = filter (mailbox_candidate w topic) (notifications g)"

section \<open>Invariant\<close>

lemma insert_notification_inv [inv_intros]:
  "mem_inv g \<Longrightarrow> mem_inv (snd (insert_notification now fresh d t m k g))"
  by (simp add: insert_notification_def)

lemma insert_notifications_inv [inv_intros]:
  "mem_inv g \<Longrightarrow> mem_inv (snd (insert_notifications now fresh rows g))"
  by (simp add: insert_notifications_def push_notifications_inv)

lemma send_from_workflow_inv [inv_intros]:
  "mem_inv g \<Longrightarrow> mem_inv (snd (send_from_workflow now now' fresh w seq nm rows g))"
  using push_notifications_inv [of g now fresh rows]
  by (auto simp: send_from_workflow_def intro: checkpoint_inv split: sum.splits option.splits prod.splits)

lemma consume_notification_inv [inv_intros]:
  "mem_inv g \<Longrightarrow> mem_inv (snd (consume_notification C now w topic seq nm g))"
  by (auto simp: consume_notification_def intro: checkpoint_inv split: sum.splits option.splits prod.splits)

lemma upsert_event_inv [inv_intros]: "mem_inv g \<Longrightarrow> mem_inv (snd (upsert_event w key v g))"
  by (simp add: upsert_event_def)

lemma write_stream_inv [inv_intros]: "mem_inv g \<Longrightarrow> mem_inv (snd (write_stream w key v f g))"
  by (simp add: write_stream_def append_stream_inv)

lemma write_stream_from_workflow_inv [inv_intros]:
  "mem_inv g \<Longrightarrow> mem_inv (snd (write_stream_from_workflow now w seq nm key v g))"
  using append_stream_inv [of g w key v]
  by (auto simp: write_stream_from_workflow_def intro: checkpoint_inv
      split: sum.splits option.splits prod.splits)

section \<open>Mailboxes\<close>

lemma enumerate_iff: "(i, x) \<in> set (enumerate 0 xs) \<longleftrightarrow> i < length xs \<and> xs ! i = x"
  by (simp add: in_set_enumerate_eq)

lemma enumerate_all: "(\<forall>p \<in> set (enumerate 0 xs). Q (snd p)) \<longleftrightarrow> (\<forall>x \<in> set xs. Q x)"
  unfolding Ball_def split_paired_All enumerate_iff by (auto simp: in_set_conv_nth)

lemma oldest_unconsumed_None:
  "oldest_unconsumed w topic ns = None \<longleftrightarrow> filter (mailbox_candidate w topic) ns = []"
  using enumerate_all [of ns "\<lambda>n. \<not> mailbox_candidate w topic n"]
  by (simp add: oldest_unconsumed_def filter_empty_conv case_prod_unfold)

lemma oldest_unconsumed_Some:
  assumes "oldest_unconsumed w topic ns = Some (i, n)"
  shows "i < length ns" "ns ! i = n" "mailbox_candidate w topic n"
    "\<And>m. m \<in> set ns \<Longrightarrow> mailbox_candidate w topic m \<Longrightarrow> nr_created_at_ms n \<le> nr_created_at_ms m"
proof -
  note min = min_by_key_Some [OF assms [unfolded oldest_unconsumed_def]]
  then show "i < length ns" "ns ! i = n" "mailbox_candidate w topic n"
    by (auto simp: in_set_enumerate_eq)
  fix m assume "m \<in> set ns" "mailbox_candidate w topic m"
  then obtain j where "(j, m) \<in> set (filter (\<lambda>(i, n). mailbox_candidate w topic n) (enumerate 0 ns))"
    by (auto simp: enumerate_iff in_set_conv_nth [of m])
  then show "nr_created_at_ms n \<le> nr_created_at_ms m" using min by fastforce
qed

lemma consume_candidates:
  assumes "i < length ns" "mailbox_candidate w topic (ns ! i)"
  shows "mset (filter (mailbox_candidate w topic) ns) =
    add_mset (ns ! i) (mset (filter (mailbox_candidate w topic) (ns[i := (ns ! i)\<lparr>nr_consumed := True\<rparr>])))"
proof -
  let ?P = "mailbox_candidate w topic"
  have split: "ns = take i ns @ ns ! i # drop (Suc i) ns" using assms(1) by (rule id_take_nth_drop)
  have upd: "ns[i := x] = take i ns @ x # drop (Suc i) ns" for x
    using assms(1) by (rule upd_conv_take_nth_drop)
  have "\<not> ?P ((ns ! i)\<lparr>nr_consumed := True\<rparr>)" by (simp add: mailbox_candidate_def)
  then have "filter ?P (ns[i := (ns ! i)\<lparr>nr_consumed := True\<rparr>])
      = filter ?P (take i ns) @ filter ?P (drop (Suc i) ns)" by (simp add: upd)
  moreover have "filter ?P ns = filter ?P (take i ns) @ ns ! i # filter ?P (drop (Suc i) ns)"
    using assms(2) by (subst split) simp
  ultimately show ?thesis by simp
qed

lemma push_rows_append: "\<exists>new. push_rows now_ms fresh i rs ns = ns @ new
   \<and> (\<forall>n \<in> set new. \<not> nr_consumed n \<and> nr_created_at_ms n = now_ms)"
proof (induction rs arbitrary: i ns)
  case (Cons r rs)
  obtain a where a: "push_notification now_ms (fresh i) r ns = ns @ a"
      "\<forall>n \<in> set a. \<not> nr_consumed n \<and> nr_created_at_ms n = now_ms"
    using that [of "[]"] that by (fastforce simp: push_notification_def Let_def split: if_splits)
  obtain b where "push_rows now_ms fresh (Suc i) rs (ns @ a) = (ns @ a) @ b"
      "\<forall>n \<in> set b. \<not> nr_consumed n \<and> nr_created_at_ms n = now_ms"
    using Cons.IH by blast
  then show ?case using a by (intro exI [of _ "a @ b"]) auto
qed simp

section \<open>Streams\<close>

lemma scan_stream_open: "None \<notin> set es \<Longrightarrow> scan_stream es = (map the es, False)"
  by (induction es rule: scan_stream.induct) auto

lemma scan_stream_closed: "None \<notin> set es \<Longrightarrow> scan_stream (es @ None # rest) = (map the es, True)"
  by (induction es rule: scan_stream.induct) auto

fun write_all :: "string \<Rightarrow> string \<Rightarrow> json list \<Rightarrow> inner \<Rightarrow> inner" where
  "write_all w key [] g = g"
| "write_all w key (v # vs) g = write_all w key vs (snd (write_stream w key (Some v) 0 g))"

lemma write_all_entries:
  assumes "None \<notin> set (unwrap_or [] (map_of (streams g) (w, key)))"
  shows "unwrap_or [] (map_of (streams (write_all w key vs g)) (w, key))
    = unwrap_or [] (map_of (streams g) (w, key)) @ map Some vs"
  using assms
  by (induction vs arbitrary: g) (auto simp: write_stream_def append_stream_def Let_def list_ex_iff)

lemma read_stream_eq:
  "read_stream w key off g =
     Ok (scan_stream (drop (nat (max 0 off)) (unwrap_or [] (map_of (streams g) (w, key)))))"
  by (simp add: read_stream_def split: option.split)

lemma count_push_notification:
  assumes "fresh \<noteq> u"
  shows "length (filter (\<lambda>n. nr_message_uuid n = u) (push_notification now_ms fresh r ns))
    \<le> max 1 (length (filter (\<lambda>n. nr_message_uuid n = u) ns))"
  using assms
  by (cases "nx_idempotency_key r")
     (auto simp: push_notification_def message_uuid_def Let_def list_ex_iff filter_empty_conv)

lemma count_push_rows:
  assumes "\<forall>i. fresh i \<noteq> u"
  shows "length (filter (\<lambda>n. nr_message_uuid n = u) (push_rows now_ms fresh i rs ns))
    \<le> max 1 (length (filter (\<lambda>n. nr_message_uuid n = u) ns))"
proof (induction rs arbitrary: i ns)
  case (Cons r rs)
  have "fresh i \<noteq> u" using assms by blast
  then show ?case
    using Cons.IH [of "Suc i" "push_notification now_ms (fresh i) r ns"]
      count_push_notification [of "fresh i" u now_ms r ns] by simp
qed simp

section \<open>Properties\<close>

text \<open>
  A receive takes the oldest message once.  At a position with no checkpoint,
  a receive that returns a message returns an oldest unconsumed one of that
  mailbox and topic, removes exactly it from the mailbox, and records it as the
  outcome of the position in the same step; a receive that returns nothing found
  the mailbox empty and changed nothing.
\<close>

theorem receive_fresh:
  assumes "map_of (steps g) (w, seq) = None"
    and "consume_notification C now w topic seq nm g = (Ok m, g')"
  shows "case m of
      None \<Rightarrow> mailbox w topic g = [] \<and> g' = g
    | Some v \<Rightarrow> (\<exists>n \<in> set (mailbox w topic g). v = nr_message n
        \<and> (\<forall>n' \<in> set (mailbox w topic g). nr_created_at_ms n \<le> nr_created_at_ms n')
        \<and> mset (mailbox w topic g) = add_mset n (mset (mailbox w topic g'))
        \<and> lookup_step C g' w seq = Some \<lparr>rs_name = nm, rs_outcome = Output v\<rparr>)"
proof (cases "oldest_unconsumed w topic (notifications g)")
  case None
  then have "m = None \<and> g' = g"
    using assms by (auto simp: consume_notification_def recorded_at_def)
  moreover have "mailbox w topic g = []" using None by (simp only: oldest_unconsumed_None mailbox_def)
  ultimately show ?thesis by simp
next
  case (Some p)
  obtain i n where p: "p = (i, n)" by (cases p)
  note old = oldest_unconsumed_Some [OF Some [unfolded p]]
  have m: "m = Some (nr_message n)"
      and g': "g' = checkpoint now w seq nm (nr_message n)
        (g\<lparr>notifications := (notifications g)[i := n\<lparr>nr_consumed := True\<rparr>]\<rparr>)"
    using assms Some by (auto simp: consume_notification_def recorded_at_def p)
  have "mset (mailbox w topic g) = add_mset n (mset (mailbox w topic g'))"
    using consume_candidates [OF old(1), of w topic] old(2,3) by (simp add: mailbox_def g' checkpoint_simps)
  moreover have "lookup_step C g' w seq = Some \<lparr>rs_name = nm, rs_outcome = Output (nr_message n)\<rparr>"
    by (simp add: lookup_step_def g' checkpoint_simps step_row_default_def)
  moreover have "n \<in> set (mailbox w topic g)" using old(1-3) by (auto simp: mailbox_def)
  ultimately show ?thesis using old(4) by (auto simp: m mailbox_def)
qed

text \<open>
  A receive replays its message.  Once a receive has returned a message, the
  same call made again in any later state that still holds its checkpoint
  returns that message and consumes nothing.
\<close>

theorem receive_replay:
  assumes "consume_notification C now w topic seq nm g = (Ok (Some v), g')"
    and "map_of (steps g'') (w, seq) = map_of (steps g') (w, seq)"
  shows "consume_notification C now' w topic' seq nm g'' = (Ok (Some v), g'')"
proof (cases "recorded_at g w seq nm")
  case (Inr r)
  show ?thesis
  proof (cases r)
    case None
    then have "map_of (steps g') (w, seq) = Some (step_row_default\<lparr>sr_name := nm, sr_output := Some v,
        sr_completed_at_ms := Some (timestamp_millis now)\<rparr>)"
      using assms(1) Inr by (auto simp: consume_notification_def checkpoint_simps split: option.splits prod.splits)
    then show ?thesis using assms(2) by (simp add: consume_notification_def recorded_at_def step_row_default_def)
  next
    case (Some row)
    then show ?thesis using assms Inr by (auto simp: consume_notification_def recorded_at_def split: if_splits)
  qed
qed (use assms in \<open>simp add: consume_notification_def\<close>)

text \<open>
  A workflow's send is all or nothing and happens once.  A send that fails
  leaves the store unchanged; one that succeeds has recorded its checkpoint, and
  the same call made again returns at once without sending.
\<close>

theorem send_atomic_once:
  assumes "send_from_workflow now now' fresh w seq nm rows g = (r, g')"
  shows "(case r of
      Inl e \<Rightarrow> g' = g
    | Inr _ \<Rightarrow> lookup_step C g' w seq \<noteq> None
        \<and> (map_of (steps g) (w, seq) = None \<longrightarrow>
             notifications g' = push_rows (timestamp_millis now) fresh 0 rows (notifications g)
             \<and> (\<forall>row \<in> set rows. contains_key (workflows g) (nx_destination_id row)))
        \<and> send_from_workflow t t' fresh' w seq nm rows' g' = (Ok (), g'))"
  using assms
  by (auto simp: send_from_workflow_def push_notifications_def recorded_at_def checkpoint_simps
      lookup_step_def step_row_default_def find_None_iff checkpoint_def
      split: option.splits sum.splits prod.splits if_splits)

text \<open>
  A keyed send is delivered at most once.  However batches of messages are
  inserted, one key and destination name at most one row of the mailbox table,
  provided generated uuids never collide with that keyed name.
\<close>

theorem keyed_send_at_most_once:
  assumes "\<forall>b \<in> set batches. \<forall>i. snd (fst b) i \<noteq> k @ ''::'' @ d"
    and "length (filter (\<lambda>n. nr_message_uuid n = k @ ''::'' @ d) (notifications g)) \<le> 1"
  shows "length (filter (\<lambda>n. nr_message_uuid n = k @ ''::'' @ d)
    (notifications (fold (\<lambda>((now, fresh), rows) g. snd (insert_notifications now fresh rows g)) batches g))) \<le> 1"
  using assms
proof (induction batches arbitrary: g)
  case (Cons b batches)
  obtain now fresh rows where b: "b = ((now, fresh), rows)" by (metis prod.collapse)
  have "\<forall>i. fresh i \<noteq> k @ ''::'' @ d" using Cons.prems(1) by (simp add: b)
  then have "length (filter (\<lambda>n. nr_message_uuid n = k @ ''::'' @ d)
      (notifications (snd (insert_notifications now fresh rows g)))) \<le> 1"
    using Cons.prems(2) count_push_rows [of fresh "k @ ''::'' @ d" "timestamp_millis now" 0 rows "notifications g"]
    by (simp add: insert_notifications_def push_notifications_def split: option.split)
  then show ?case using Cons by (simp add: b)
qed simp

text \<open>
  A stream reads back what was written.  After values are appended to an open
  stream, a read from any offset returns the values from that offset on, in
  order, and reports the stream open; after the close marker it reports it closed with the
  same values, and any further write is refused and changes nothing.
\<close>

theorem stream_roundtrip:
  assumes "unwrap_or [] (map_of (streams g) (w, key)) = map Some old"
    and "g1 = write_all w key vs g" "g2 = snd (write_stream w key None f g1)"
  shows "read_stream w key off g1 = Ok (drop (nat (max 0 off)) (old @ vs), False)
    \<and> (nat (max 0 off) \<le> length (old @ vs) \<longrightarrow>
        read_stream w key off g2 = Ok (drop (nat (max 0 off)) (old @ vs), True))
    \<and> fst (write_stream w key v f' g2) = Err (app (''stream `'' @ key @ ''` is already closed''))
    \<and> map_of (streams (snd (write_stream w key v f' g2))) = map_of (streams g2)"
proof -
  have e1: "unwrap_or [] (map_of (streams g1) (w, key)) = map Some (old @ vs)"
    using assms(1) write_all_entries [of g w key vs] by (simp add: assms(2))
  have e2: "map_of (streams g2) (w, key) = Some (map Some (old @ vs) @ [None])"
    using e1 by (simp add: assms(3) write_stream_def append_stream_def Let_def list_ex_iff)
  have "None \<notin> set (drop n (map Some (old @ vs)))" for n by (auto dest: in_set_dropD)
  then have "scan_stream (drop n (map Some (old @ vs))) = (drop n (old @ vs), False)"
      "scan_stream (drop n (map Some (old @ vs)) @ [None]) = (drop n (old @ vs), True)" for n
    using scan_stream_open [of "drop n (map Some (old @ vs))"]
      scan_stream_closed [of "drop n (map Some (old @ vs))" "[]"] by (simp_all add: drop_map o_def)
  then show ?thesis
    using e1 e2 by (simp add: read_stream_eq write_stream_def append_stream_def Let_def fun_eq_iff)
qed

section \<open>Witnesses\<close>

definition sample_message :: "string \<Rightarrow> int \<Rightarrow> notification_row" where
  "sample_message u t = \<lparr>nr_message_uuid = u, nr_destination_id = ''a'', nr_topic = ''t'',
     nr_message = JString u, nr_consumed = False, nr_created_at_ms = t\<rparr>"

definition sample_mail :: inner where
  "sample_mail = inner_default\<lparr>
     workflows := [(''a'', workflow_status_new 0 ''a'' ''wf'' JNull STATUS_PENDING ''x'' ''v'')],
     notifications := [sample_message ''late'' 9, sample_message ''early'' 4]\<rparr>"

definition sample_send :: notification_insert where
  "sample_send = \<lparr>nx_destination_id = ''a'', nx_topic = ''t'', nx_message = JInt 1,
     nx_idempotency_key = Some ''k''\<rparr>"

lemma sample_receive:
  "consume_notification plain_codec 5 ''a'' ''t'' 0 ''DBOS.recv'' sample_mail
     = (Ok (Some (JString ''early'')),
        snd (consume_notification plain_codec 5 ''a'' ''t'' 0 ''DBOS.recv'' sample_mail))"
  "map_of (steps sample_mail) (''a'', 0) = None"
  by code_simp+

theorem receive_fresh_witness:
  "lookup_step plain_codec (snd (consume_notification plain_codec 5 ''a'' ''t'' 0 ''DBOS.recv'' sample_mail)) ''a'' 0
     = Some \<lparr>rs_name = ''DBOS.recv'', rs_outcome = Output (JString ''early'')\<rparr>"
  using receive_fresh [OF sample_receive(2,1)] by auto

theorem receive_replay_witness:
  "fst (consume_notification plain_codec 6 ''a'' ''t'' 0 ''DBOS.recv''
     (snd (consume_notification plain_codec 5 ''a'' ''t'' 0 ''DBOS.recv'' sample_mail)))
   = Ok (Some (JString ''early''))"
  using receive_replay [OF sample_receive(1) refl] by simp

theorem send_atomic_once_witness:
  "send_from_workflow 7 8 (\<lambda>_. ''u'') ''a'' 1 ''DBOS.send'' []
     (snd (send_from_workflow 5 6 (\<lambda>_. ''u'') ''a'' 1 ''DBOS.send'' [sample_send] sample_mail))
   = (Ok (), snd (send_from_workflow 5 6 (\<lambda>_. ''u'') ''a'' 1 ''DBOS.send'' [sample_send] sample_mail))"
proof -
  have "send_from_workflow 5 6 (\<lambda>_. ''u'') ''a'' 1 ''DBOS.send'' [sample_send] sample_mail
      = (Ok (), snd (send_from_workflow 5 6 (\<lambda>_. ''u'') ''a'' 1 ''DBOS.send'' [sample_send] sample_mail))"
    by code_simp
  from send_atomic_once [OF this] show ?thesis by simp
qed

theorem keyed_send_at_most_once_witness:
  "length (filter (\<lambda>n. nr_message_uuid n = ''k'' @ ''::'' @ ''a'')
    (notifications (fold (\<lambda>((now, fresh), rows) g. snd (insert_notifications now fresh rows g))
      [((5, \<lambda>_. ''u''), [sample_send, sample_send]), ((6, \<lambda>_. ''v''), [sample_send])] sample_mail))) \<le> 1"
proof -
  have "length (filter (\<lambda>n. nr_message_uuid n = ''k'' @ ''::'' @ ''a'') (notifications sample_mail)) \<le> 1"
    by code_simp
  then show ?thesis
    by (intro keyed_send_at_most_once [of _ "''k''" "''a''"]) auto
qed

theorem stream_roundtrip_witness:
  "read_stream ''a'' ''s'' 1 (write_all ''a'' ''s'' [JInt 1, JInt 2] sample_mail) = Ok ([JInt 2], False)"
  using stream_roundtrip [of sample_mail "''a''" "''s''" "[]" _ "[JInt 1, JInt 2]" _ 0 1 None 0, OF _ refl refl]
  by (simp add: sample_mail_def inner_default_def)

end
