(* ===== verification/Memory_Workflows.thy ===== *)
theory Memory_Workflows
  imports Memory_Steps
begin

text \<open>
  The workflow table of the in-memory provider: creation with queue-scoped
  deduplication, the guarded status write, cancellation and deletion with
  descendants, resumption, forking and the recovery claim.
\<close>

section \<open>Definitions\<close>

definition put_row :: "workflow_status \<Rightarrow> inner \<Rightarrow> inner" where
  "put_row w g = g\<lparr>workflows := AList.update (wf_id w) w (workflows g)\<rparr>"

definition holds_slot :: "string \<Rightarrow> string \<Rightarrow> workflow_status \<Rightarrow> bool" where
  "holds_slot q d w \<longleftrightarrow> wf_queue_name w = Some q \<and> wf_dedup_id w = Some d"

definition insert_workflow_status ::
  "workflow_status \<Rightarrow> inner \<Rightarrow> (workflow_status \<times> bool) result \<times> inner" where
  "insert_workflow_status status g =
     (let conflict = (case (wf_queue_name status, wf_dedup_id status) of
          (Some q, Some d) \<Rightarrow> list_ex (\<lambda>w. wf_id w \<noteq> wf_id status \<and> holds_slot q d w)
            (hm_values (workflows g))
        | _ \<Rightarrow> False) in
      if conflict
      then (Err (QueueDeduplicated (unwrap_or [] (wf_queue_name status))
              (unwrap_or [] (wf_dedup_id status))), g)
      else case map_of (workflows g) (wf_id status) of
        Some row \<Rightarrow> (Ok (row, False), g)
      | None \<Rightarrow> (Ok (status, True), put_row status g))"

definition get_deduplicated_workflow :: "string \<Rightarrow> string \<Rightarrow> inner \<Rightarrow> string option result" where
  "get_deduplicated_workflow q d g =
     Ok (map_option wf_id (List.find (holds_slot q d) (hm_values (workflows g))))"

definition get_workflow_status :: "string \<Rightarrow> inner \<Rightarrow> workflow_status option result" where
  "get_workflow_status i g = Ok (map_of (workflows g) i)"

definition status_write_allowed :: "string \<Rightarrow> string \<Rightarrow> bool" where
  "status_write_allowed old new =
     (if new = STATUS_SUCCESS \<or> new = STATUS_ERROR \<or> new = STATUS_MAX_RECOVERY_ATTEMPTS_EXCEEDED
      then old = STATUS_PENDING
      else if new = STATUS_CANCELLED
      then \<not> (old = STATUS_SUCCESS \<or> old = STATUS_ERROR \<or> old = STATUS_CANCELLED)
      else True)"

definition apply_status :: "codec \<Rightarrow> datetime \<Rightarrow> string \<Rightarrow> json option \<Rightarrow> string option
  \<Rightarrow> workflow_status \<Rightarrow> workflow_status" where
  "apply_status C now status output err row =
     (let r1 = row\<lparr>wf_status := status\<rparr>;
          r2 = (case output of Some v \<Rightarrow> r1\<lparr>wf_output := Some v\<rparr> | None \<Rightarrow> r1);
          r3 = (case err of Some e \<Rightarrow> (let (message, info) = decode_error C None e in
                  r2\<lparr>wf_error := Some message, wf_error_info := info\<rparr>) | None \<Rightarrow> r2);
          r4 = (if is_terminal status
                then r3\<lparr>wf_completed_at_ms := Some (timestamp_millis now), wf_dedup_id := None\<rparr>
                else r3)
      in r4\<lparr>wf_updated_at := now\<rparr>)"

definition set_workflow_status :: "codec \<Rightarrow> datetime \<Rightarrow> string \<Rightarrow> string \<Rightarrow> json option \<Rightarrow> string option
  \<Rightarrow> inner \<Rightarrow> bool result \<times> inner" where
  "set_workflow_status C now i status output err g = (case map_of (workflows g) i of
       None \<Rightarrow> (Ok False, g)
     | Some row \<Rightarrow>
        if \<not> status_write_allowed (wf_status row) status then (Ok False, g)
        else (Ok True, g\<lparr>workflows :=
          AList.update i (apply_status C now status output err row) (workflows g)\<rparr>))"

text \<open>The breadth-first collection of descendants along \<open>parent_workflow_id\<close>.\<close>

fun add_children :: "string \<Rightarrow> (string, workflow_status) hashmap \<Rightarrow> string list \<Rightarrow> string list" where
  "add_children parent [] targets = targets"
| "add_children parent ((i, row) # ws) targets =
     add_children parent ws
       (if wf_parent_workflow_id row = Some parent \<and> i \<notin> set targets then targets @ [i] else targets)"

lemma add_children_extends:
  "\<exists>new. add_children p ws ts = ts @ new \<and> distinct new \<and> set new \<inter> set ts = {}
     \<and> set new \<subseteq> fst ` set ws"
proof (induction ws arbitrary: ts)
  case (Cons a ws)
  obtain i row where a: "a = (i, row)" by (cases a)
  show ?case
  proof (cases "wf_parent_workflow_id row = Some p \<and> i \<notin> set ts")
    case True
    obtain new where "add_children p ws (ts @ [i]) = (ts @ [i]) @ new" "distinct new"
      "set new \<inter> set (ts @ [i]) = {}" "set new \<subseteq> fst ` set ws"
      using Cons.IH by blast
    then show ?thesis using True a by (intro exI [of _ "i # new"]) auto
  next
    case False
    obtain new where "add_children p ws ts = ts @ new" "distinct new"
      "set new \<inter> set ts = {}" "set new \<subseteq> fst ` set ws"
      using Cons.IH by blast
    then show ?thesis using False a by (intro exI [of _ new]) auto
  qed
qed simp

lemma descend_measure:
  fixes i :: nat
  assumes "i < length ts"
  shows "card (fst ` set ws - set (add_children p ws ts)) + (length (add_children p ws ts) - Suc i)
    < card (fst ` set ws - set ts) + (length ts - i)"
proof -
  obtain new where new: "add_children p ws ts = ts @ new" "distinct new"
      "set new \<inter> set ts = {}" "set new \<subseteq> fst ` set ws"
    using add_children_extends by blast
  have "fst ` set ws - set (ts @ new) = (fst ` set ws - set ts) - set new" by auto
  moreover have sub: "set new \<subseteq> fst ` set ws - set ts" using new by auto
  ultimately have "card (fst ` set ws - set (ts @ new)) = card (fst ` set ws - set ts) - length new"
    using new(2) by (simp add: card_Diff_subset distinct_card)
  moreover have "length new \<le> card (fst ` set ws - set ts)"
    using sub new(2) by (metis card_mono distinct_card finite_Diff finite_imageI finite_set)
  ultimately show ?thesis using assms new(1) by simp
qed

function descend :: "(string, workflow_status) hashmap \<Rightarrow> string list \<Rightarrow> nat \<Rightarrow> string list" where
  "descend ws ts i =
     (if i < length ts then descend ws (add_children (ts ! i) ws ts) (Suc i) else ts)"
  by pat_completeness auto
termination
  by (relation "measure (\<lambda>(ws, ts, i). card (fst ` set ws - set ts) + (length ts - i))")
     (simp, simp only: in_measure case_prod_conv, rule descend_measure)

declare descend.simps [simp del]

definition targets_of :: "string list \<Rightarrow> bool \<Rightarrow> inner \<Rightarrow> string list" where
  "targets_of ids with_children g = (if with_children then descend (workflows g) ids 0 else ids)"

definition cancel_row :: "datetime \<Rightarrow> workflow_status \<Rightarrow> workflow_status" where
  "cancel_row now row =
     (if wf_status row = STATUS_SUCCESS \<or> wf_status row = STATUS_ERROR \<or> wf_status row = STATUS_CANCELLED
      then row
      else row\<lparr>wf_status := STATUS_CANCELLED, wf_completed_at_ms := Some (timestamp_millis now),
        wf_started_at_ms := None, wf_queue_name := None, wf_dedup_id := None, wf_updated_at := now\<rparr>)"

definition modify_row :: "string \<Rightarrow> (workflow_status \<Rightarrow> workflow_status) \<Rightarrow> inner \<Rightarrow> inner" where
  "modify_row i f g = (case map_of (workflows g) i of None \<Rightarrow> g
     | Some row \<Rightarrow> g\<lparr>workflows := AList.update i (f row) (workflows g)\<rparr>)"

definition cancel_workflows_with_options ::
  "datetime \<Rightarrow> string list \<Rightarrow> cancel_options \<Rightarrow> inner \<Rightarrow> unit result \<times> inner" where
  "cancel_workflows_with_options now ids options g =
     (Ok (), fold (\<lambda>i. modify_row i (cancel_row now)) (targets_of ids (co_cancel_children options) g) g)"

definition cancel_workflows :: "datetime \<Rightarrow> string list \<Rightarrow> inner \<Rightarrow> unit result \<times> inner" where
  "cancel_workflows now ids g = cancel_workflows_with_options now ids \<lparr>co_cancel_children = False\<rparr> g"

definition cancel_workflow :: "datetime \<Rightarrow> string \<Rightarrow> inner \<Rightarrow> unit result \<times> inner" where
  "cancel_workflow now i g = cancel_workflows now [i] g"

definition resumable :: "workflow_status \<Rightarrow> bool" where
  "resumable row \<longleftrightarrow> \<not> (wf_status row = STATUS_SUCCESS \<or> wf_status row = STATUS_ERROR)"

definition resume_row :: "datetime \<Rightarrow> workflow_status \<Rightarrow> workflow_status" where
  "resume_row now row = row\<lparr>wf_status := STATUS_PENDING, wf_recovery_attempts := 0,
     wf_deadline_ms := None, wf_dedup_id := None, wf_started_at_ms := None,
     wf_completed_at_ms := None, wf_updated_at := now\<rparr>"

definition resume_workflow :: "datetime \<Rightarrow> string \<Rightarrow> inner \<Rightarrow> bool result \<times> inner" where
  "resume_workflow now i g = (case map_of (workflows g) i of
       None \<Rightarrow> (Ok False, g)
     | Some row \<Rightarrow> if \<not> resumable row then (Ok False, g)
        else (Ok True, g\<lparr>workflows := AList.update i (resume_row now row) (workflows g)\<rparr>))"

fun resume_each :: "datetime \<Rightarrow> string list \<Rightarrow> inner \<Rightarrow> string list \<times> inner" where
  "resume_each now [] g = ([], g)"
| "resume_each now (i # ids) g = (case map_of (workflows g) i of
       None \<Rightarrow> resume_each now ids g
     | Some row \<Rightarrow> if \<not> resumable row then resume_each now ids g
        else (let (resumed, g') = resume_each now ids
                (g\<lparr>workflows := AList.update i (resume_row now row) (workflows g)\<rparr>)
              in (i # resumed, g')))"

definition resume_workflows :: "datetime \<Rightarrow> string list \<Rightarrow> inner \<Rightarrow> string list result \<times> inner" where
  "resume_workflows now ids g = (let (resumed, g') = resume_each now ids g in (Ok resumed, g'))"

definition enqueue_existing :: "datetime \<Rightarrow> string \<Rightarrow> string \<Rightarrow> inner \<Rightarrow> unit result \<times> inner" where
  "enqueue_existing now i queue g = (Ok (), modify_row i (\<lambda>row. row\<lparr>wf_status := STATUS_ENQUEUED,
     wf_queue_name := Some queue, wf_executor_id := [], wf_started_at_ms := None,
     wf_updated_at := now\<rparr>) g)"

definition delete_one :: "string \<Rightarrow> inner \<Rightarrow> inner" where
  "delete_one i g = g\<lparr>workflows := AList.delete i (workflows g),
     steps := filter (\<lambda>((w, _), _). w \<noteq> i) (steps g),
     streams := filter (\<lambda>((w, _), _). w \<noteq> i) (streams g),
     notifications := filter (\<lambda>n. nr_destination_id n \<noteq> i) (notifications g)\<rparr>"

definition delete_workflows :: "string list \<Rightarrow> bool \<Rightarrow> inner \<Rightarrow> unit result \<times> inner" where
  "delete_workflows ids delete_children g = (Ok (), fold delete_one (targets_of ids delete_children g) g)"

definition set_workflow_delay :: "datetime \<Rightarrow> string \<Rightarrow> int \<Rightarrow> inner \<Rightarrow> bool result \<times> inner" where
  "set_workflow_delay now i delay_until g = (case map_of (workflows g) i of
       None \<Rightarrow> (Ok False, g)
     | Some row \<Rightarrow> if wf_status row = STATUS_DELAYED
        then (Ok True, g\<lparr>workflows := AList.update i
               (row\<lparr>wf_delay_until_ms := Some delay_until, wf_updated_at := now\<rparr>) (workflows g)\<rparr>)
        else (Ok False, g))"

definition set_workflow_attributes :: "datetime \<Rightarrow> string \<Rightarrow> jmap option \<Rightarrow> inner \<Rightarrow> unit result \<times> inner" where
  "set_workflow_attributes now i attrs g = (case map_of (workflows g) i of
       None \<Rightarrow> (Err (NonExistentWorkflow i), g)
     | Some row \<Rightarrow> (Ok (), g\<lparr>workflows := AList.update i
         (row\<lparr>wf_attributes := map_option JObject (opt_filter (\<lambda>m. m \<noteq> []) attrs),
              wf_updated_at := now\<rparr>) (workflows g)\<rparr>))"

definition forked_row :: "datetime \<Rightarrow> fork_params \<Rightarrow> int option \<Rightarrow> workflow_status \<Rightarrow> workflow_status" where
  "forked_row now params timeout original =
     (workflow_status_new now (fp_new_id params) (wf_name original) (wf_input original)
        STATUS_ENQUEUED [] (unwrap_or (wf_app_version original) (fp_app_version params)))
     \<lparr>wf_timeout_ms := timeout, wf_forked_from := Some (fp_original_id params),
      wf_authenticated_user := wf_authenticated_user original,
      wf_assumed_role := wf_assumed_role original,
      wf_authenticated_roles := wf_authenticated_roles original,
      wf_class_name := wf_class_name original, wf_config_name := wf_config_name original,
      wf_attributes := wf_attributes original, wf_queue_name := Some (fp_queue_name params),
      wf_queue_partition_key := fp_partition_key params\<rparr>"

definition copied_steps :: "fork_params \<Rightarrow> inner \<Rightarrow> (int \<times> step_row) list" where
  "copied_steps params g = map (\<lambda>((_, seq), v). (seq, v))
     (filter (\<lambda>((w, seq), _). w = fp_original_id params \<and> seq < fp_start_step params) (steps g))"

definition fork_workflow_with_timeout ::
  "datetime \<Rightarrow> fork_params \<Rightarrow> int option \<Rightarrow> inner \<Rightarrow> unit result \<times> inner" where
  "fork_workflow_with_timeout now params timeout g =
     (if is_some_and timeout (\<lambda>t. t < 0) then (Err (app ''fork timeout cannot be negative''), g)
      else case map_of (workflows g) (fp_original_id params) of
        None \<Rightarrow> (Err (NonExistentWorkflow (fp_original_id params)), g)
      | Some original \<Rightarrow>
         (let g1 = g\<lparr>workflows := AList.update (fp_new_id params)
                       (forked_row now params timeout original) (workflows g)\<rparr> in
          (Ok (), g1\<lparr>steps := fold (\<lambda>(seq, v). AList.update (fp_new_id params, seq) v)
                                (copied_steps params g1) (steps g1)\<rparr>)))"

definition fork_workflow :: "datetime \<Rightarrow> fork_params \<Rightarrow> inner \<Rightarrow> unit result \<times> inner" where
  "fork_workflow now params g = fork_workflow_with_timeout now params None g"

definition claim_row ::
  "datetime \<Rightarrow> recovery_claim_request \<Rightarrow> workflow_status \<Rightarrow> recovery_claim \<times> workflow_status" where
  "claim_row now req row0 =
     (let attempts = wrap_i32 (wf_recovery_attempts row0 + 1);
          row = row0\<lparr>wf_recovery_attempts := attempts, wf_updated_at := now\<rparr> in
      if attempts > rc_max_attempts req
      then (Parked attempts, row\<lparr>wf_status := STATUS_MAX_RECOVERY_ATTEMPTS_EXCEEDED, wf_dedup_id := None\<rparr>)
      else if rc_requeue req
      then (Requeued, row\<lparr>wf_status := STATUS_ENQUEUED, wf_started_at_ms := None\<rparr>)
      else (Claimed attempts, row\<lparr>wf_executor_id := rc_new_executor req\<rparr>))"

definition claim_matches :: "recovery_claim_request \<Rightarrow> workflow_status \<Rightarrow> bool" where
  "claim_matches req row \<longleftrightarrow> \<not> (wf_status row \<noteq> STATUS_PENDING
     \<or> wf_executor_id row \<noteq> rc_expected_executor req
     \<or> wf_recovery_attempts row \<noteq> rc_expected_attempts req)"

definition claim_for_recovery ::
  "datetime \<Rightarrow> recovery_claim_request \<Rightarrow> inner \<Rightarrow> recovery_claim result \<times> inner" where
  "claim_for_recovery now req g = (case map_of (workflows g) (rc_workflow_id req) of
       None \<Rightarrow> (Ok Lost, g)
     | Some row \<Rightarrow> if \<not> claim_matches req row then (Ok Lost, g)
        else (let (claim, row') = claim_row now req row in
          (Ok claim, g\<lparr>workflows := AList.update (rc_workflow_id req) row' (workflows g)\<rparr>)))"

text \<open>Each released row reads the clock: \<open>clock i\<close> is the reading for row \<open>i\<close>.\<close>

definition due :: "epoch_ms \<Rightarrow> workflow_status \<Rightarrow> bool" where
  "due now_ms w \<longleftrightarrow> wf_status w = STATUS_DELAYED \<and> is_some_and (wf_delay_until_ms w) (\<lambda>t. t \<le> now_ms)"

definition release_row :: "datetime \<Rightarrow> workflow_status \<Rightarrow> workflow_status" where
  "release_row now w =
     w\<lparr>wf_status := STATUS_ENQUEUED, wf_delay_until_ms := None, wf_updated_at := now\<rparr>"

definition transition_delayed_workflows ::
  "(string \<Rightarrow> datetime) \<Rightarrow> epoch_ms \<Rightarrow> inner \<Rightarrow> nat result \<times> inner" where
  "transition_delayed_workflows clock now_ms g =
     (Ok (length (filter (due now_ms) (hm_values (workflows g)))),
      g\<lparr>workflows := map (\<lambda>(i, w). (i, if due now_ms w then release_row (clock i) w else w)) (workflows g)\<rparr>)"

text \<open>The parent link as a relation, for the descendants it spans.\<close>

definition child_of :: "(string, workflow_status) hashmap \<Rightarrow> (string \<times> string) set" where
  "child_of ws = {(p, c). \<exists>row. (c, row) \<in> set ws \<and> wf_parent_workflow_id row = Some p}"

text \<open>Several sweeps claiming one after the other.\<close>

fun claim_run :: "(datetime \<times> recovery_claim_request) list \<Rightarrow> inner \<Rightarrow> recovery_claim list \<times> inner" where
  "claim_run [] g = ([], g)"
| "claim_run ((now, req) # reqs) g =
     (let (r, g') = claim_for_recovery now req g;
          c = (case r of Inr c \<Rightarrow> c | Inl _ \<Rightarrow> Lost);
          (cs, g'') = claim_run reqs g' in (c # cs, g''))"

text \<open>Several reports of an outcome, one after the other.\<close>

fun status_run :: "codec \<Rightarrow> string \<Rightarrow> (datetime \<times> string \<times> json option \<times> string option) list \<Rightarrow> inner
  \<Rightarrow> bool list \<times> inner" where
  "status_run C i [] g = ([], g)"
| "status_run C i ((now, st, out, err) # ws) g =
     (let (r, g') = set_workflow_status C now i st out err g;
          b = (case r of Inr b \<Rightarrow> b | Inl _ \<Rightarrow> False);
          (bs, g'') = status_run C i ws g' in (b # bs, g''))"

section \<open>Row updates\<close>

lemma modify_row_lookup [store_simps]:
  "map_of (workflows (modify_row i f g)) j =
     (if j = i then map_option f (map_of (workflows g) i) else map_of (workflows g) j)"
  by (simp add: modify_row_def split: option.splits)

lemma modify_row_frame [store_simps, simp]:
  "steps (modify_row i f g) = steps g" "notifications (modify_row i f g) = notifications g"
  "streams (modify_row i f g) = streams g" "events (modify_row i f g) = events g"
  "versions (modify_row i f g) = versions g" "schedules (modify_row i f g) = schedules g"
  "queues (modify_row i f g) = queues g"
  by (simp_all add: modify_row_def split: option.splits)

lemma modify_row_inv [inv_intros]:
  assumes "mem_inv g" "\<And>row. wf_id (f row) = wf_id row"
  shows "mem_inv (modify_row i f g)"
  using assms row_id [of g i] by (auto simp: modify_row_def split: option.splits)

lemma row_ids [simp]:
  "wf_id (cancel_row now row) = wf_id row" "wf_id (resume_row now row) = wf_id row"
  "wf_id (apply_status C now st out err row) = wf_id row" "wf_id (release_row now row) = wf_id row"
  "wf_id (snd (claim_row now req row)) = wf_id row"
  "wf_id (forked_row now params timeout row) = fp_new_id params"
  by (simp_all add: cancel_row_def resume_row_def apply_status_def release_row_def claim_row_def
      forked_row_def workflow_status_new_def Let_def split: option.splits prod.splits)

lemma fold_modify_lookup:
  assumes "\<And>row. f (f row) = f row"
  shows "map_of (workflows (fold (\<lambda>i. modify_row i f) ids g)) j =
    (if j \<in> set ids then map_option f (map_of (workflows g) j) else map_of (workflows g) j)"
  using assms
  by (induction ids arbitrary: g) (auto simp: modify_row_lookup option.map_comp o_def)

lemma fold_modify_frame [simp]:
  "steps (fold (\<lambda>i. modify_row i f) ids g) = steps g"
  "notifications (fold (\<lambda>i. modify_row i f) ids g) = notifications g"
  "streams (fold (\<lambda>i. modify_row i f) ids g) = streams g"
  "events (fold (\<lambda>i. modify_row i f) ids g) = events g"
  "versions (fold (\<lambda>i. modify_row i f) ids g) = versions g"
  by (induction ids arbitrary: g) simp_all

lemma fold_modify_inv:
  assumes "mem_inv g" "\<And>row. wf_id (f row) = wf_id row"
  shows "mem_inv (fold (\<lambda>i. modify_row i f) ids g)"
  using assms by (induction ids arbitrary: g) (auto intro: modify_row_inv)

lemma cancel_row_idem [simp]: "cancel_row now (cancel_row now row) = cancel_row now row"
  by (simp add: cancel_row_def)

section \<open>Descendants\<close>

lemma set_add_children:
  "set (add_children p ws ts) = set ts \<union> {c. \<exists>row. (c, row) \<in> set ws \<and> wf_parent_workflow_id row = Some p}"
proof (induction ws arbitrary: ts)
  case (Cons a ws)
  obtain i row where "a = (i, row)" by (cases a)
  then show ?case by (auto simp: Cons.IH split: if_splits)
qed simp

lemma descend_sound:
  assumes "set ts \<subseteq> (child_of ws)\<^sup>* `` A"
  shows "set (descend ws ts i) \<subseteq> (child_of ws)\<^sup>* `` A"
  using assms
proof (induction ws ts i rule: descend.induct)
  case (1 ws ts i)
  show ?case
  proof (cases "i < length ts")
    case True
    then have "ts ! i \<in> (child_of ws)\<^sup>* `` A" using 1(2) by auto
    then have "set (add_children (ts ! i) ws ts) \<subseteq> (child_of ws)\<^sup>* `` A"
      using 1(2) by (auto simp: set_add_children child_of_def intro: rtrancl_into_rtrancl)
    then show ?thesis using True 1 by (simp add: descend.simps [of ws ts i])
  next
    case False
    then show ?thesis using 1(2) by (simp add: descend.simps [of ws ts i])
  qed
qed

lemma descend_prefix: "\<exists>new. descend ws ts i = ts @ new"
proof (induction ws ts i rule: descend.induct)
  case (1 ws ts i)
  then show ?case
    using add_children_extends [of "ts ! i" ws ts] by (subst descend.simps) fastforce
qed

lemma descend_closed:
  assumes "\<forall>j < i. \<forall>c. (ts ! j, c) \<in> child_of ws \<longrightarrow> c \<in> set ts" "i \<le> length ts"
  shows "child_of ws `` set (descend ws ts i) \<subseteq> set (descend ws ts i)"
  using assms
proof (induction ws ts i rule: descend.induct)
  case (1 ws ts i)
  show ?case
  proof (cases "i < length ts")
    case True
    let ?ts = "add_children (ts ! i) ws ts"
    obtain new where new: "?ts = ts @ new" using add_children_extends by blast
    have "\<forall>j < Suc i. \<forall>c. (?ts ! j, c) \<in> child_of ws \<longrightarrow> c \<in> set ?ts"
    proof (intro allI impI)
      fix j c assume "j < Suc i" "(?ts ! j, c) \<in> child_of ws"
      then have "(ts ! j, c) \<in> child_of ws" using True by (simp add: new nth_append)
      then show "c \<in> set ?ts"
        using 1(2) \<open>j < Suc i\<close> less_Suc_eq [of j i]
        by (cases "j = i") (auto simp: set_add_children child_of_def)
    qed
    moreover have "Suc i \<le> length ?ts" using True by (simp add: new)
    ultimately show ?thesis using True 1(1) by (simp add: descend.simps [of ws ts i])
  next
    case False
    then have same: "descend ws ts i = ts" by (simp add: descend.simps [of ws ts i])
    have "c \<in> set ts" if "p \<in> set ts" "(p, c) \<in> child_of ws" for p c
      using that 1(2,3) False by (auto simp: in_set_conv_nth [of p])
    then show ?thesis unfolding same by blast
  qed
qed

lemma set_descend: "set (descend ws ids 0) = (child_of ws)\<^sup>* `` set ids"
proof
  show "set (descend ws ids 0) \<subseteq> (child_of ws)\<^sup>* `` set ids"
    by (rule descend_sound) auto
  have closed: "child_of ws `` set (descend ws ids 0) \<subseteq> set (descend ws ids 0)"
    by (rule descend_closed) auto
  have start: "set ids \<subseteq> set (descend ws ids 0)" using descend_prefix [of ws ids 0] by auto
  show "(child_of ws)\<^sup>* `` set ids \<subseteq> set (descend ws ids 0)"
  proof
    fix c assume "c \<in> (child_of ws)\<^sup>* `` set ids"
    then obtain r where "(r, c) \<in> (child_of ws)\<^sup>*" "r \<in> set ids" by blast
    then show "c \<in> set (descend ws ids 0)"
      using closed start by (induction rule: rtrancl_induct) auto
  qed
qed

lemma cancel_lookup:
  "map_of (workflows (snd (cancel_workflows_with_options now ids opts g))) i =
    (if i \<in> set (targets_of ids (co_cancel_children opts) g)
     then map_option (cancel_row now) (map_of (workflows g) i) else map_of (workflows g) i)"
  by (simp add: cancel_workflows_with_options_def fold_modify_lookup)

section \<open>Deletion\<close>

lemma delete_fold_lookups:
  "map_of (workflows (fold delete_one ts g)) i = (if i \<in> set ts then None else map_of (workflows g) i)"
  "map_of (steps (fold delete_one ts g)) (i, q) = (if i \<in> set ts then None else map_of (steps g) (i, q))"
  "map_of (streams (fold delete_one ts g)) (i, k) = (if i \<in> set ts then None else map_of (streams g) (i, k))"
  "notifications (fold delete_one ts g) = filter (\<lambda>n. nr_destination_id n \<notin> set ts) (notifications g)"
  "events (fold delete_one ts g) = events g"
  by (induction ts arbitrary: g) (auto simp: delete_one_def intro: filter_cong)

lemma delete_fold_inv: "mem_inv g \<Longrightarrow> mem_inv (fold delete_one ts g)"
  by (induction ts arbitrary: g) (auto simp: delete_one_def)

section \<open>Preservation of the invariant\<close>

lemma insert_workflow_status_inv [inv_intros]:
  "mem_inv g \<Longrightarrow> mem_inv (snd (insert_workflow_status status g))"
  by (auto simp: insert_workflow_status_def put_row_def Let_def split: option.splits)

lemma set_workflow_status_inv [inv_intros]:
  "mem_inv g \<Longrightarrow> mem_inv (snd (set_workflow_status C now i st out err g))"
  by (auto simp: set_workflow_status_def row_id split: option.splits)

lemma cancel_workflows_with_options_inv [inv_intros]:
  "mem_inv g \<Longrightarrow> mem_inv (snd (cancel_workflows_with_options now ids opts g))"
  by (simp add: cancel_workflows_with_options_def fold_modify_inv)

lemma resume_workflow_inv [inv_intros]:
  "mem_inv g \<Longrightarrow> mem_inv (snd (resume_workflow now i g))"
  by (auto simp: resume_workflow_def row_id split: option.splits)

lemma resume_each_inv: "mem_inv g \<Longrightarrow> mem_inv (snd (resume_each now ids g))"
proof (induction ids arbitrary: g)
  case (Cons i ids)
  have "mem_inv (g\<lparr>workflows := AList.update i (resume_row now row) (workflows g)\<rparr>)"
    if "map_of (workflows g) i = Some row" for row
    using Cons.prems that by (simp add: row_id)
  then show ?case using Cons
    by (auto simp: case_prod_unfold Let_def split: option.splits)
qed simp

lemma resume_workflows_inv [inv_intros]:
  "mem_inv g \<Longrightarrow> mem_inv (snd (resume_workflows now ids g))"
  using resume_each_inv [of g now ids]
  by (cases "resume_each now ids g") (simp add: resume_workflows_def)

lemma enqueue_existing_inv [inv_intros]:
  "mem_inv g \<Longrightarrow> mem_inv (snd (enqueue_existing now i queue g))"
  by (simp add: enqueue_existing_def modify_row_inv)

lemma delete_workflows_inv [inv_intros]:
  "mem_inv g \<Longrightarrow> mem_inv (snd (delete_workflows ids ch g))"
  by (simp add: delete_workflows_def delete_fold_inv)

lemma set_workflow_delay_inv [inv_intros]:
  "mem_inv g \<Longrightarrow> mem_inv (snd (set_workflow_delay now i t g))"
  by (auto simp: set_workflow_delay_def row_id split: option.splits)

lemma set_workflow_attributes_inv [inv_intros]:
  "mem_inv g \<Longrightarrow> mem_inv (snd (set_workflow_attributes now i a g))"
  by (auto simp: set_workflow_attributes_def row_id split: option.splits)

lemma distinct_fold_update:
  "distinct (map fst m) \<Longrightarrow> distinct (map fst (fold (\<lambda>(q, v). AList.update (w, q) v) cs m))"
  by (induction cs arbitrary: m) auto

lemma fork_workflow_with_timeout_inv [inv_intros]:
  "mem_inv g \<Longrightarrow> mem_inv (snd (fork_workflow_with_timeout now params timeout g))"
  by (auto simp: fork_workflow_with_timeout_def Let_def distinct_fold_update split: option.splits)

lemma claim_for_recovery_inv [inv_intros]:
  assumes "mem_inv g"
  shows "mem_inv (snd (claim_for_recovery now req g))"
proof (cases "map_of (workflows g) (rc_workflow_id req)")
  case (Some row)
  then show ?thesis using assms row_ids(5) [of now req row] row_id [OF assms Some]
    by (cases "claim_row now req row") (simp add: claim_for_recovery_def)
qed (use assms in \<open>simp add: claim_for_recovery_def\<close>)

lemma keyed_map_rows:
  assumes "keyed_by wf_id ws" "\<And>i w. wf_id (f i w) = wf_id w"
  shows "keyed_by wf_id (map (\<lambda>(i, w). (i, f i w)) ws)"
  using assms by (induction ws) (auto simp: keyed_by_def image_iff)

lemma transition_delayed_workflows_inv [inv_intros]:
  "mem_inv g \<Longrightarrow> mem_inv (snd (transition_delayed_workflows clock now_ms g))"
  by (simp add: transition_delayed_workflows_def keyed_map_rows)

section \<open>The recovery claim\<close>

lemma wrap_succ_neq: "wrap_i32 (a + 1) \<noteq> a"
proof
  assume "wrap_i32 (a + 1) = a"
  then have x: "((a + 2147483648) + 1) mod 4294967296 = a + 2147483648"
    by (simp add: wrap_i32_def algebra_simps)
  then have "0 \<le> a + 2147483648" "a + 2147483648 < 4294967296"
    by (metis pos_mod_sign zero_less_numeral, metis pos_mod_bound zero_less_numeral)
  then show False using x by (cases "a + 2147483648 = 4294967295") auto
qed

lemma claim_row_attempts [simp]:
  "wf_recovery_attempts (snd (claim_row now req row)) = wrap_i32 (wf_recovery_attempts row + 1)"
  by (simp add: claim_row_def Let_def)

lemma claim_row_won: "fst (claim_row now req row) \<noteq> Lost"
  by (simp add: claim_row_def Let_def)

lemma claim_for_recovery_cases:
  "claim_for_recovery now req g = (case map_of (workflows g) (rc_workflow_id req) of
      Some row \<Rightarrow> if claim_matches req row
        then (Ok (fst (claim_row now req row)),
              g\<lparr>workflows := AList.update (rc_workflow_id req) (snd (claim_row now req row)) (workflows g)\<rparr>)
        else (Ok Lost, g)
    | None \<Rightarrow> (Ok Lost, g))"
  by (simp add: claim_for_recovery_def case_prod_unfold Let_def split: option.split)

lemma claim_run_fenced:
  assumes "\<forall>(now, req) \<in> set reqs. rc_workflow_id req = i \<and> rc_expected_attempts req = a"
    and "map_of (workflows g) i = Some row" "wf_recovery_attempts row \<noteq> a"
  shows "fst (claim_run reqs g) = replicate (length reqs) Lost"
  using assms
  by (induction reqs arbitrary: g)
     (auto simp: claim_for_recovery_cases claim_matches_def case_prod_unfold Let_def)

section \<open>Outcomes and forks\<close>

lemma apply_status_simps:
  "wf_status (apply_status C now st out err row) = st"
  "is_terminal st \<Longrightarrow> wf_dedup_id (apply_status C now st out err row) = None"
  by (simp_all add: apply_status_def Let_def split: option.split prod.split)

lemma status_run_refused:
  assumes "map_of (workflows g) i = Some row" "wf_status row = STATUS_SUCCESS \<or> wf_status row = STATUS_ERROR"
    and "\<forall>(now, st, out, err) \<in> set ws. st = STATUS_SUCCESS \<or> st = STATUS_ERROR"
  shows "status_run C i ws g = (replicate (length ws) False, g)"
  using assms(3)
proof (induction ws)
  case (Cons w ws)
  obtain now st out err where w: "w = (now, st, out, err)" by (cases w)
  have "\<not> status_write_allowed (wf_status row) st"
    using assms(2) Cons.prems by (auto simp: w status_write_allowed_def)
  then show ?case using assms(1) Cons by (simp add: w set_workflow_status_def)
qed simp

lemma map_of_copied_steps:
  "map_of (copied_steps p g) q =
     (if q < fp_start_step p then map_of (steps g) (fp_original_id p, q) else None)"
proof -
  have "map_of (map (\<lambda>((_, seq), v). (seq, v)) (filter (\<lambda>((w, seq), _). w = i \<and> seq < n) m)) q =
      (if q < n then map_of m (i, q) else None)" for i n and m :: "(string \<times> int, step_row) hashmap"
    by (induction m) auto
  then show ?thesis by (simp add: copied_steps_def)
qed

lemma distinct_copied_steps:
  assumes "distinct (map fst (steps g))"
  shows "distinct (map fst (copied_steps p g))"
proof -
  have "distinct (map fst (map (\<lambda>((_, seq), v). (seq, v)) (filter (\<lambda>((w, seq), _). w = i \<and> seq < n) m)))"
    if "distinct (map fst m)" for i n and m :: "(string \<times> int, step_row) hashmap"
    using that by (induction m) (auto simp: image_iff)
  then show ?thesis using assms by (simp add: copied_steps_def)
qed

lemma fold_update_lookup:
  assumes "distinct (map fst cs)"
  shows "map_of (fold (\<lambda>(q, v). AList.update (n, q) v) cs m) (w, q) =
    (if w = n then (case map_of cs q of Some v \<Rightarrow> Some v | None \<Rightarrow> map_of m (w, q)) else map_of m (w, q))"
  using assms
proof (induction cs arbitrary: m)
  case (Cons c cs)
  obtain k v where c: "c = (k, v)" by (cases c)
  have "map_of cs k = None" using Cons.prems by (simp add: c map_of_eq_None_iff)
  then show ?case using Cons by (auto simp: c split: option.split)
qed simp

section \<open>Properties\<close>

text \<open>
  Recovery is fenced.  Of any number of sweeps that observed the same
  attempt count of a workflow and claim it one after the other, at most one
  gets something other than \<open>Lost\<close>, also when the counter wraps around.
\<close>

theorem claim_at_most_once:
  assumes "\<forall>(now, req) \<in> set reqs. rc_workflow_id req = i \<and> rc_expected_attempts req = a"
  shows "length (filter (\<lambda>c. c \<noteq> Lost) (fst (claim_run reqs g))) \<le> 1"
  using assms
proof (induction reqs arbitrary: g)
  case (Cons r reqs)
  obtain now req where r: "r = (now, req)" by (cases r)
  have req: "rc_workflow_id req = i" "rc_expected_attempts req = a" using Cons.prems by (auto simp: r)
  have rest: "\<forall>(now, req) \<in> set reqs. rc_workflow_id req = i \<and> rc_expected_attempts req = a"
    using Cons.prems by simp
  show ?case
  proof (cases "\<exists>row. map_of (workflows g) i = Some row \<and> claim_matches req row")
    case True
    then obtain row where row: "map_of (workflows g) i = Some row" "claim_matches req row" by blast
    let ?g = "snd (claim_for_recovery now req g)"
    have stored: "map_of (workflows ?g) i = Some (snd (claim_row now req row))"
      using row req by (simp add: claim_for_recovery_cases)
    moreover have "wf_recovery_attempts (snd (claim_row now req row)) \<noteq> a"
      using row req wrap_succ_neq by (simp add: claim_matches_def)
    ultimately have "fst (claim_run reqs ?g) = replicate (length reqs) Lost"
      by (rule claim_run_fenced [OF rest])
    then show ?thesis by (simp add: r case_prod_unfold Let_def filter_replicate)
  next
    case False
    then have "claim_for_recovery now req g = (Ok Lost, g)"
      using req by (auto simp: claim_for_recovery_cases split: option.splits)
    then show ?thesis using Cons.IH [OF rest, of g] by (simp add: r case_prod_unfold Let_def)
  qed
qed simp

text \<open>
  What a claim does.  A claim that wins found the row pending under the
  expected executor at the expected count, advances the count by one, and
  either parks the row beyond the cap, gives it back to its queue, or leaves it
  pending under the claimant with the count still within the cap; a lost claim
  changes nothing, and no claim touches another row.
\<close>

theorem claim_outcome:
  assumes "is_i32 (wf_recovery_attempts row + 1)" "map_of (workflows g) (rc_workflow_id req) = Some row"
    and "claim_for_recovery now req g = (Ok c, g')"
  shows "(c = Lost \<longleftrightarrow> \<not> claim_matches req row) \<and> (c = Lost \<longrightarrow> g' = g)
    \<and> (\<forall>i. i \<noteq> rc_workflow_id req \<longrightarrow> map_of (workflows g') i = map_of (workflows g) i)
    \<and> (c \<noteq> Lost \<longrightarrow> (\<exists>row'. map_of (workflows g') (rc_workflow_id req) = Some row'
        \<and> wf_recovery_attempts row' = wf_recovery_attempts row + 1
        \<and> (case c of
             Claimed n \<Rightarrow> n = wf_recovery_attempts row + 1 \<and> n \<le> rc_max_attempts req
               \<and> wf_status row' = STATUS_PENDING \<and> wf_executor_id row' = rc_new_executor req
           | Requeued \<Rightarrow> wf_status row' = STATUS_ENQUEUED \<and> rc_requeue req
               \<and> wf_recovery_attempts row' \<le> rc_max_attempts req
           | Parked n \<Rightarrow> n = wf_recovery_attempts row + 1 \<and> rc_max_attempts req < n
               \<and> wf_status row' = STATUS_MAX_RECOVERY_ATTEMPTS_EXCEEDED \<and> wf_dedup_id row' = None
           | Lost \<Rightarrow> False)))"
proof (cases "claim_matches req row")
  case True
  then have "c = fst (claim_row now req row)"
      and "g' = g\<lparr>workflows := AList.update (rc_workflow_id req) (snd (claim_row now req row)) (workflows g)\<rparr>"
    using assms(2,3) by (simp_all add: claim_for_recovery_cases)
  then show ?thesis
    using True assms(1) by (simp add: claim_row_def claim_matches_def Let_def)
next
  case False
  then show ?thesis using assms(2,3) by (simp add: claim_for_recovery_cases)
qed

text \<open>
  Cancellation with descendants.  Cancelling a set of ids with its children
  applies the cancellation to exactly the rows reachable along the parent
  links, whatever their depth and also when the links form a cycle; a row that had
  succeeded or failed keeps its outcome, any other reached row ends
  cancelled and releases its queue and deduplication slot; the rest of
  the store is unchanged.
\<close>

theorem cancel_descendants:
  "let g' = snd (cancel_workflows_with_options now ids \<lparr>co_cancel_children = True\<rparr> g);
       reached = (child_of (workflows g))\<^sup>* `` set ids in
   (\<forall>i. map_of (workflows g') i = (if i \<in> reached
      then map_option (\<lambda>row. if wf_status row \<in> {STATUS_SUCCESS, STATUS_ERROR, STATUS_CANCELLED} then row
             else row\<lparr>wf_status := STATUS_CANCELLED, wf_completed_at_ms := Some (timestamp_millis now),
               wf_started_at_ms := None, wf_queue_name := None, wf_dedup_id := None, wf_updated_at := now\<rparr>)
           (map_of (workflows g) i)
      else map_of (workflows g) i))
   \<and> steps g' = steps g \<and> notifications g' = notifications g \<and> streams g' = streams g \<and> events g' = events g"
proof -
  have row: "cancel_row now = (\<lambda>row. if wf_status row \<in> {STATUS_SUCCESS, STATUS_ERROR, STATUS_CANCELLED} then row
      else row\<lparr>wf_status := STATUS_CANCELLED, wf_completed_at_ms := Some (timestamp_millis now),
        wf_started_at_ms := None, wf_queue_name := None, wf_dedup_id := None, wf_updated_at := now\<rparr>)"
    by (auto simp: fun_eq_iff cancel_row_def)
  show ?thesis
    unfolding Let_def row [symmetric]
    by (simp add: cancel_lookup targets_of_def set_descend) (simp add: cancel_workflows_with_options_def)
qed

text \<open>
  Deletion with descendants removes exactly the reachable workflows, their
  steps, streams and messages, and keeps those of every other workflow.  The
  events of the deleted workflows stay in the store.
\<close>

theorem delete_descendants:
  "let g' = snd (delete_workflows ids True g); gone = (child_of (workflows g))\<^sup>* `` set ids in
   (\<forall>i. map_of (workflows g') i = (if i \<in> gone then None else map_of (workflows g) i))
   \<and> (\<forall>i q. map_of (steps g') (i, q) = (if i \<in> gone then None else map_of (steps g) (i, q)))
   \<and> (\<forall>i k. map_of (streams g') (i, k) = (if i \<in> gone then None else map_of (streams g) (i, k)))
   \<and> notifications g' = filter (\<lambda>n. nr_destination_id n \<notin> gone) (notifications g)
   \<and> events g' = events g"
  by (simp add: delete_workflows_def targets_of_def delete_fold_lookups set_descend)

text \<open>
  One outcome per run.  When several executors report an outcome
  (\<open>SUCCESS\<close> or \<open>ERROR\<close>) for a pending workflow, the first report is
  stored, every later one is refused, and the row stays as the first left it.
\<close>

theorem first_outcome_wins:
  assumes "map_of (workflows g) i = Some row" "wf_status row = STATUS_PENDING"
    and "\<forall>(now, st, out, err) \<in> set (w # ws). st = STATUS_SUCCESS \<or> st = STATUS_ERROR"
  shows "fst (status_run C i (w # ws) g) = True # replicate (length ws) False
    \<and> map_of (workflows (snd (status_run C i (w # ws) g))) i =
        (case w of (now, st, out, err) \<Rightarrow> Some (apply_status C now st out err row))
    \<and> (\<forall>j. j \<noteq> i \<longrightarrow> map_of (workflows (snd (status_run C i (w # ws) g))) j = map_of (workflows g) j)"
proof -
  obtain now st out err where w: "w = (now, st, out, err)" by (cases w)
  have st: "st = STATUS_SUCCESS \<or> st = STATUS_ERROR" using assms(3) w by simp
  have allowed: "status_write_allowed (wf_status row) st"
    using st assms(2) by (auto simp: status_write_allowed_def)
  let ?row = "apply_status C now st out err row"
  let ?g = "g\<lparr>workflows := AList.update i ?row (workflows g)\<rparr>"
  have first: "set_workflow_status C now i st out err g = (Ok True, ?g)"
    using assms(1) allowed by (simp add: set_workflow_status_def)
  have "map_of (workflows ?g) i = Some ?row" by simp
  moreover have "wf_status ?row = STATUS_SUCCESS \<or> wf_status ?row = STATUS_ERROR"
    using st by (simp add: apply_status_simps)
  ultimately have "status_run C i ws ?g = (replicate (length ws) False, ?g)"
    using assms(3) by (intro status_run_refused) auto
  then show ?thesis by (simp add: w first)
qed

text \<open>
  A fork replays the past up to its start step.  The fork is stored enqueued
  on the requested queue with the original's name, input and identity; it holds
  exactly the original's checkpoints below the start step; the original and every
  other workflow keep theirs.
\<close>

theorem fork_copies_prefix:
  assumes "mem_inv g" "map_of (workflows g) (fp_original_id p) = Some orig"
    and "fp_original_id p \<noteq> fp_new_id p" "\<forall>q. map_of (steps g) (fp_new_id p, q) = None"
    and "fork_workflow_with_timeout now p timeout g = (Ok (), g')"
  shows "(\<exists>row. map_of (workflows g') (fp_new_id p) = Some row \<and> wf_status row = STATUS_ENQUEUED
        \<and> wf_queue_name row = Some (fp_queue_name p) \<and> wf_name row = wf_name orig
        \<and> wf_input row = wf_input orig \<and> wf_forked_from row = Some (fp_original_id p)
        \<and> wf_recovery_attempts row = 0 \<and> wf_dedup_id row = None)
    \<and> (\<forall>q. map_of (steps g') (fp_new_id p, q)
          = (if q < fp_start_step p then map_of (steps g) (fp_original_id p, q) else None))
    \<and> (\<forall>w q. w \<noteq> fp_new_id p \<longrightarrow> map_of (steps g') (w, q) = map_of (steps g) (w, q))
    \<and> (\<forall>i. i \<noteq> fp_new_id p \<longrightarrow> map_of (workflows g') i = map_of (workflows g) i)"
proof -
  let ?g = "g\<lparr>workflows := AList.update (fp_new_id p) (forked_row now p timeout orig) (workflows g)\<rparr>"
  have g': "g' = ?g\<lparr>steps := fold (\<lambda>(seq, v). AList.update (fp_new_id p, seq) v)
      (copied_steps p ?g) (steps g)\<rparr>"
    using assms(2,5) by (auto simp: fork_workflow_with_timeout_def Let_def split: if_splits)
  have "distinct (map fst (copied_steps p ?g))" "map_of (copied_steps p ?g) q =
      (if q < fp_start_step p then map_of (steps g) (fp_original_id p, q) else None)" for q
    using assms(1) distinct_copied_steps [of ?g p] by (simp_all add: map_of_copied_steps)
  then have "map_of (steps g') (w, q) = (if w = fp_new_id p
      then (if q < fp_start_step p then map_of (steps g) (fp_original_id p, q) else None)
      else map_of (steps g) (w, q))" for w q
    using assms(4) by (simp add: g' fold_update_lookup split: option.split)
  then show ?thesis
    by (simp add: g' forked_row_def workflow_status_new_def)
qed

text \<open>
  Release of delayed workflows.  Exactly the rows that are delayed and due
  become enqueued, the call reports how many, no other row changes, and
  a second call at the same instant releases nothing.
\<close>

theorem delayed_release:
  "let (r, g') = transition_delayed_workflows clock now_ms g in
     r = Ok (length (filter (due now_ms) (hm_values (workflows g))))
     \<and> (\<forall>i. map_of (workflows g') i = map_option
          (\<lambda>w. if wf_status w = STATUS_DELAYED \<and> (\<exists>t. wf_delay_until_ms w = Some t \<and> t \<le> now_ms)
               then w\<lparr>wf_status := STATUS_ENQUEUED, wf_delay_until_ms := None, wf_updated_at := clock i\<rparr>
               else w) (map_of (workflows g) i))
     \<and> transition_delayed_workflows clock' now_ms g' = (Ok 0, g')"
proof -
  let ?f = "\<lambda>i w. if due now_ms w then release_row (clock i) w else w"
  have due: "due now_ms w = (wf_status w = STATUS_DELAYED \<and> (\<exists>t. wf_delay_until_ms w = Some t \<and> t \<le> now_ms))"
    for w by (simp add: due_def is_some_and_iff)
  have none: "\<not> due now_ms (?f i w)" for i w by (simp add: due_def release_row_def)
  have lookup: "map_of (map (\<lambda>(i, w). (i, ?f i w)) ws) i = map_option (?f i) (map_of ws i)" for ws i
    by (induction ws) auto
  have "map (\<lambda>(i, w). (i, if due now_ms w then release_row (clock' i) w else w))
      (map (\<lambda>(i, w). (i, ?f i w)) ws) = map (\<lambda>(i, w). (i, ?f i w)) ws" for ws
    using none by (induction ws) auto
  moreover have "filter (due now_ms) (hm_values (map (\<lambda>(i, w). (i, ?f i w)) ws)) = []" for ws
    using none by (induction ws) (auto simp: hm_values_def)
  ultimately show ?thesis
    by (simp add: transition_delayed_workflows_def lookup due [symmetric])
       (simp add: release_row_def cong: if_cong)
qed

section \<open>Witnesses\<close>

definition sample_pending :: inner where
  "sample_pending = inner_default\<lparr>
     workflows := [(''a'', workflow_status_new 0 ''a'' ''wf'' JNull STATUS_PENDING ''x'' ''v'')],
     steps := [((''a'', 0), step_row_default\<lparr>sr_name := ''one''\<rparr>),
               ((''a'', 1), step_row_default\<lparr>sr_name := ''two''\<rparr>)]\<rparr>"

definition sample_claim :: "string \<Rightarrow> recovery_claim_request" where
  "sample_claim ex = \<lparr>rc_workflow_id = ''a'', rc_expected_executor = ''x'', rc_expected_attempts = 0,
     rc_new_executor = ex, rc_max_attempts = 5, rc_requeue = False\<rparr>"

definition sample_fork :: fork_params where
  "sample_fork = \<lparr>fp_original_id = ''a'', fp_new_id = ''f'', fp_start_step = 1, fp_app_version = None,
     fp_queue_name = ''q'', fp_partition_key = None\<rparr>"

theorem claim_at_most_once_witness:
  "length (filter (\<lambda>c. c \<noteq> Lost)
     (fst (claim_run [(1, sample_claim ''y''), (2, sample_claim ''z'')] sample_pending))) \<le> 1"
  by (rule claim_at_most_once [of _ "''a''" 0]) (simp add: sample_claim_def)

theorem claim_outcome_witness:
  "\<exists>row'. map_of (workflows (snd (claim_for_recovery 1 (sample_claim ''y'') sample_pending))) ''a'' = Some row'
     \<and> wf_recovery_attempts row' = 1 \<and> wf_executor_id row' = ''y''"
proof -
  let ?row = "workflow_status_new 0 ''a'' ''wf'' JNull STATUS_PENDING ''x'' ''v''"
  have "is_i32 (wf_recovery_attempts ?row + 1)" by code_simp
  moreover have "map_of (workflows sample_pending) (rc_workflow_id (sample_claim ''y'')) = Some ?row"
    by (simp add: sample_pending_def sample_claim_def inner_default_def)
  moreover have "claim_for_recovery 1 (sample_claim ''y'') sample_pending
      = (Ok (Claimed 1), snd (claim_for_recovery 1 (sample_claim ''y'') sample_pending))" by code_simp
  ultimately show ?thesis
    using claim_outcome [of ?row sample_pending "sample_claim ''y''" 1 "Claimed 1"]
    by (auto simp: sample_claim_def workflow_status_new_def)
qed

theorem first_outcome_wins_witness:
  "fst (status_run plain_codec ''a'' [(1, STATUS_SUCCESS, Some (JInt 1), None), (2, STATUS_ERROR, None, Some ''e'')]
     sample_pending) = [True, False]"
proof -
  let ?row = "workflow_status_new 0 ''a'' ''wf'' JNull STATUS_PENDING ''x'' ''v''"
  have "map_of (workflows sample_pending) ''a'' = Some ?row" "wf_status ?row = STATUS_PENDING"
    by (simp_all add: sample_pending_def inner_default_def workflow_status_new_def)
  from first_outcome_wins [OF this, of "(1, STATUS_SUCCESS, Some (JInt 1), None)"
      "[(2, STATUS_ERROR, None, Some ''e'')]"]
  show ?thesis by simp
qed

theorem fork_copies_prefix_witness:
  "map_of (steps (snd (fork_workflow_with_timeout 1 sample_fork None sample_pending))) (''f'', 0)
     = Some (step_row_default\<lparr>sr_name := ''one''\<rparr>)
   \<and> map_of (steps (snd (fork_workflow_with_timeout 1 sample_fork None sample_pending))) (''f'', 1) = None"
proof -
  have "mem_inv sample_pending" by code_simp
  moreover have "map_of (workflows sample_pending) (fp_original_id sample_fork)
      = Some (workflow_status_new 0 ''a'' ''wf'' JNull STATUS_PENDING ''x'' ''v'')"
    "fp_original_id sample_fork \<noteq> fp_new_id sample_fork"
    "\<forall>q. map_of (steps sample_pending) (fp_new_id sample_fork, q) = None"
    by (simp_all add: sample_pending_def sample_fork_def inner_default_def)
  moreover have "fork_workflow_with_timeout 1 sample_fork None sample_pending
      = (Ok (), snd (fork_workflow_with_timeout 1 sample_fork None sample_pending))" by code_simp
  ultimately show ?thesis
    using fork_copies_prefix by (fastforce simp: sample_fork_def sample_pending_def)
qed

end
