(* ===== verification/Memory_Queue.thy ===== *)
theory Memory_Queue
  imports Memory_Workflows
begin

text \<open>
  Queue dispatch in the in-memory provider: the claim of enqueued workflows
  under the per-iteration, global-concurrency and rate limits, gated by
  application version; the partitions of a queue; the registries of
  application versions and of queues.
\<close>

section \<open>Definitions\<close>

definition in_partition :: "dequeue_request \<Rightarrow> workflow_status \<Rightarrow> bool" where
  "in_partition req w \<longleftrightarrow> dq_partition_key req = None \<or> wf_queue_partition_key w = dq_partition_key req"

definition on_queue :: "dequeue_request \<Rightarrow> workflow_status \<Rightarrow> bool" where
  "on_queue req w \<longleftrightarrow> wf_queue_name w = Some (dq_queue_name req) \<and> in_partition req w"

definition recent_start :: "dequeue_request \<Rightarrow> epoch_ms \<Rightarrow> workflow_status \<Rightarrow> bool" where
  "recent_start req cutoff w \<longleftrightarrow> on_queue req w \<and> wf_rate_limited w
     \<and> wf_status w \<noteq> STATUS_ENQUEUED \<and> wf_status w \<noteq> STATUS_DELAYED
     \<and> is_some_and (wf_started_at_ms w) (\<lambda>t. t > cutoff)"

definition running :: "dequeue_request \<Rightarrow> workflow_status \<Rightarrow> bool" where
  "running req w \<longleftrightarrow> on_queue req w \<and> wf_status w = STATUS_PENDING"

definition rate_capped :: "epoch_ms \<Rightarrow> dequeue_request \<Rightarrow> inner \<Rightarrow> int \<Rightarrow> int" where
  "rate_capped now_ms req g max_tasks = (case (dq_rate_limit_max req, dq_rate_limit_period_ms req) of
       (Some limit, Some period) \<Rightarrow>
         (let cutoff = wrap_i64 (now_ms - period);
              recent = count_if (recent_start req cutoff) (hm_values (workflows g))
          in min max_tasks (max (wrap_i64 (limit - recent)) 0))
     | _ \<Rightarrow> max_tasks)"

definition concurrency_capped :: "dequeue_request \<Rightarrow> inner \<Rightarrow> int \<Rightarrow> int" where
  "concurrency_capped req g max_tasks = (case dq_global_concurrency req of
       Some global \<Rightarrow> min max_tasks
         (max (wrap_i64 (global - count_if (running req) (hm_values (workflows g)))) 0)
     | None \<Rightarrow> max_tasks)"

definition is_latest :: "string \<Rightarrow> inner \<Rightarrow> bool" where
  "is_latest version g = is_none_or (max_by_key vi_version_timestamp (hm_values (versions g)))
     (\<lambda>latest. vi_version_name latest = version)"

definition claimable :: "dequeue_request \<Rightarrow> inner \<Rightarrow> workflow_status \<Rightarrow> bool" where
  "claimable req g w \<longleftrightarrow> on_queue req w \<and> wf_status w = STATUS_ENQUEUED
     \<and> (wf_app_version w = dq_app_version req
        \<or> (wf_app_version w = [] \<and> is_latest (dq_app_version req) g))"

definition dispatch_key :: "workflow_status \<Rightarrow> int \<times> int \<times> string" where
  "dispatch_key w = (wf_priority w, timestamp_millis (wf_created_at w), wf_id w)"

definition candidates :: "dequeue_request \<Rightarrow> inner \<Rightarrow> (int \<times> int \<times> string) list" where
  "candidates req g =
     sort (map dispatch_key (filter (claimable req g) (hm_values (workflows g))))"

definition dequeue_row :: "datetime \<Rightarrow> epoch_ms \<Rightarrow> dequeue_request \<Rightarrow> workflow_status \<Rightarrow> workflow_status" where
  "dequeue_row now now_ms req w =
     w\<lparr>wf_status := STATUS_PENDING, wf_executor_id := dq_executor_id req,
       wf_app_version := dq_app_version req, wf_started_at_ms := Some now_ms,
       wf_rate_limited := (dq_rate_limit_max req \<noteq> None),
       wf_deadline_ms := (if wf_deadline_ms w = None
          then map_option (\<lambda>t. wrap_i64 (now_ms + t)) (wf_timeout_ms w) else wf_deadline_ms w),
       wf_updated_at := now\<rparr>"

text \<open>A candidate id is a key of the table, so the \<open>expect\<close> on the lookup never fires.\<close>

fun claim_each :: "(string \<Rightarrow> datetime) \<Rightarrow> epoch_ms \<Rightarrow> dequeue_request \<Rightarrow> string list \<Rightarrow> inner
  \<Rightarrow> workflow_status list \<times> inner" where
  "claim_each clock now_ms req [] g = ([], g)"
| "claim_each clock now_ms req (i # ids) g = (case map_of (workflows g) i of
       None \<Rightarrow> claim_each clock now_ms req ids g
     | Some w \<Rightarrow>
        (let w' = dequeue_row (clock i) now_ms req w;
             (claimed, g') = claim_each clock now_ms req ids
               (g\<lparr>workflows := AList.update i w' (workflows g)\<rparr>)
         in (w' # claimed, g')))"

definition max_claims :: "epoch_ms \<Rightarrow> dequeue_request \<Rightarrow> inner \<Rightarrow> int" where
  "max_claims now_ms req g = concurrency_capped req g (rate_capped now_ms req g (dq_max_tasks req))"

definition selected :: "epoch_ms \<Rightarrow> dequeue_request \<Rightarrow> inner \<Rightarrow> string list" where
  "selected now_ms req g = map (snd \<circ> snd) (take (nat (max_claims now_ms req g)) (candidates req g))"

definition dequeue_workflows :: "datetime \<Rightarrow> (string \<Rightarrow> datetime) \<Rightarrow> dequeue_request \<Rightarrow> inner
  \<Rightarrow> workflow_status list result \<times> inner" where
  "dequeue_workflows now clock req g =
     (let now_ms = timestamp_millis now in
      if max_claims now_ms req g \<le> 0 then (Ok [], g)
      else (let (claimed, g') = claim_each clock now_ms req (selected now_ms req g) g
            in (Ok claimed, g')))"

definition queue_partitions :: "string \<Rightarrow> inner \<Rightarrow> string list result" where
  "queue_partitions q g = Ok (vec_dedup (sort (List.map_filter wf_queue_partition_key
     (filter (\<lambda>w. wf_queue_name w = Some q \<and> wf_status w = STATUS_ENQUEUED)
       (hm_values (workflows g))))))"

definition create_application_version :: "datetime \<Rightarrow> string \<Rightarrow> string \<Rightarrow> inner \<Rightarrow> unit result \<times> inner" where
  "create_application_version now fresh nm g = (Ok (), g\<lparr>versions := or_insert nm
     \<lparr>vi_version_id = fresh, vi_version_name = nm, vi_version_timestamp = now, vi_created_at = now\<rparr>
     (versions g)\<rparr>)"

definition list_application_versions :: "inner \<Rightarrow> version_info list result" where
  "list_application_versions g =
     Ok (sort_key (\<lambda>v. - vi_version_timestamp v) (hm_values (versions g)))"

definition get_latest_application_version :: "inner \<Rightarrow> version_info option result" where
  "get_latest_application_version g = Ok (max_by_key vi_version_timestamp (hm_values (versions g)))"

definition set_latest_application_version :: "datetime \<Rightarrow> string \<Rightarrow> inner \<Rightarrow> bool result \<times> inner" where
  "set_latest_application_version now nm g = (case map_of (versions g) nm of
       Some v \<Rightarrow> (Ok True, g\<lparr>versions := AList.update nm (v\<lparr>vi_version_timestamp := now\<rparr>) (versions g)\<rparr>)
     | None \<Rightarrow> (Ok False, g))"

definition upsert_queue :: "workflow_queue \<Rightarrow> bool \<Rightarrow> inner \<Rightarrow> unit result \<times> inner" where
  "upsert_queue queue update_existing g =
     (if update_existing \<or> \<not> contains_key (queues g) (q_name queue)
      then (Ok (), g\<lparr>queues := AList.update (q_name queue) queue (queues g)\<rparr>) else (Ok (), g))"

definition list_queues :: "inner \<Rightarrow> workflow_queue list result" where
  "list_queues g = Ok (sort_key q_name (hm_values (queues g)))"

text \<open>A run of dequeue calls, each with its own clock readings and request, and the ids each claimed.\<close>

fun dequeue_run :: "(datetime \<times> (string \<Rightarrow> datetime) \<times> dequeue_request) list \<Rightarrow> inner
  \<Rightarrow> string list list \<times> inner" where
  "dequeue_run [] g = ([], g)"
| "dequeue_run ((now, clock, req) # calls) g =
     (let (r, g') = dequeue_workflows now clock req g;
          ids = (case r of Inr ws \<Rightarrow> map wf_id ws | Inl _ \<Rightarrow> []);
          (rest, g'') = dequeue_run calls g' in (ids # rest, g''))"

section \<open>Selection\<close>

lemma dequeue_row_simps [simp]:
  "wf_id (dequeue_row now now_ms req w) = wf_id w"
  "wf_status (dequeue_row now now_ms req w) = STATUS_PENDING"
  "wf_executor_id (dequeue_row now now_ms req w) = dq_executor_id req"
  "wf_queue_name (dequeue_row now now_ms req w) = wf_queue_name w"
  "wf_dedup_id (dequeue_row now now_ms req w) = wf_dedup_id w"
  "wf_queue_partition_key (dequeue_row now now_ms req w) = wf_queue_partition_key w"
  by (simp_all add: dequeue_row_def)

lemma on_queue_dequeue_row [simp]: "on_queue req (dequeue_row now now_ms req' w) = on_queue req w"
  by (simp add: on_queue_def in_partition_def)

lemma dispatch_key_id [simp]: "snd (snd (dispatch_key w)) = wf_id w"
  by (simp add: dispatch_key_def)

lemma distinct_values_ids:
  assumes "mem_inv g"
  shows "distinct (map wf_id (hm_values (workflows g)))"
proof -
  have "map wf_id (hm_values (workflows g)) = map fst (workflows g)"
    using mem_invD(1) [OF assms] by (auto simp: hm_values_def keyed_by_def list_all_iff)
  then show ?thesis using keyed_by_distinct [OF mem_invD(1) [OF assms]] by simp
qed

lemma candidates_ids:
  "mset (map (snd \<circ> snd) (candidates req g))
     = mset (map wf_id (filter (claimable req g) (hm_values (workflows g))))"
proof -
  have "mset (map (snd \<circ> snd) (candidates req g)) = image_mset (snd \<circ> snd) (mset (candidates req g))"
    by simp
  then show ?thesis by (simp add: candidates_def image_mset.compositionality o_def)
qed

lemma distinct_candidates:
  assumes "mem_inv g"
  shows "distinct (map (snd \<circ> snd) (candidates req g))"
proof -
  have "distinct (map wf_id (filter (claimable req g) (hm_values (workflows g))))"
    using distinct_values_ids [OF assms] by (rule distinct_map_filter)
  then show ?thesis by (metis candidates_ids mset_eq_imp_distinct_iff)
qed

lemma distinct_selected: "mem_inv g \<Longrightarrow> distinct (selected now_ms req g)"
  using distinct_candidates [of g req] by (simp add: selected_def take_map [symmetric] del: map_map)

lemma selected_subset: "set (selected now_ms req g) \<subseteq> set (map (snd \<circ> snd) (candidates req g))"
  by (auto simp: selected_def dest: in_set_takeD)

lemma selected_rows:
  assumes "mem_inv g" "i \<in> set (selected now_ms req g)"
  shows "\<exists>w. map_of (workflows g) i = Some w \<and> claimable req g w \<and> wf_id w = i"
proof -
  have "i \<in> set (map wf_id (filter (claimable req g) (hm_values (workflows g))))"
    using assms(2) selected_subset [of now_ms req g] mset_eq_setD [OF candidates_ids [of req g]]
    by blast
  then obtain w where "w \<in> set (hm_values (workflows g))" "claimable req g w" "i = wf_id w" by auto
  then show ?thesis using assms(1) by (auto simp: in_values_iff)
qed

lemma length_selected: "int (length (selected now_ms req g)) \<le> max 0 (max_claims now_ms req g)"
  by (simp add: selected_def)

section \<open>The claim loop\<close>

lemma claim_each_lookup:
  assumes "distinct ids"
  shows "map_of (workflows (snd (claim_each clock now_ms req ids g))) i =
    (if i \<in> set ids then map_option (dequeue_row (clock i) now_ms req) (map_of (workflows g) i)
     else map_of (workflows g) i)"
  using assms by (induction ids arbitrary: g) (auto simp: case_prod_unfold Let_def split: option.splits)

lemma claim_each_rows:
  assumes "distinct ids" "\<forall>i \<in> set ids. map_of (workflows g) i \<noteq> None"
  shows "fst (claim_each clock now_ms req ids g) =
    map (\<lambda>i. dequeue_row (clock i) now_ms req (the (map_of (workflows g) i))) ids"
  using assms
  by (induction ids arbitrary: g) (auto simp: case_prod_unfold Let_def split: option.splits)

lemma claim_each_frame:
  "steps (snd (claim_each clock now_ms req ids g)) = steps g"
  "notifications (snd (claim_each clock now_ms req ids g)) = notifications g"
  "streams (snd (claim_each clock now_ms req ids g)) = streams g"
  "events (snd (claim_each clock now_ms req ids g)) = events g"
  "versions (snd (claim_each clock now_ms req ids g)) = versions g"
  by (induction ids arbitrary: g) (auto simp: case_prod_unfold Let_def split: option.splits)

lemma claim_each_inv: "mem_inv g \<Longrightarrow> mem_inv (snd (claim_each clock now_ms req ids g))"
proof (induction ids arbitrary: g)
  case (Cons i ids)
  have "mem_inv (g\<lparr>workflows := AList.update i (dequeue_row (clock i) now_ms req w) (workflows g)\<rparr>)"
    if "map_of (workflows g) i = Some w" for w
    using Cons.prems that by (simp add: row_id)
  then show ?case using Cons by (auto simp: case_prod_unfold Let_def split: option.splits)
qed simp

lemma dequeue_workflows_eq:
  "dequeue_workflows now clock req g =
     (let ids = selected (timestamp_millis now) req g in
      (Ok (fst (claim_each clock (timestamp_millis now) req ids g)),
       snd (claim_each clock (timestamp_millis now) req ids g)))"
  by (simp add: dequeue_workflows_def selected_def Let_def case_prod_unfold)

lemma dequeue_lookup:
  assumes "mem_inv g"
  shows "map_of (workflows (snd (dequeue_workflows now clock req g))) i =
    (if i \<in> set (selected (timestamp_millis now) req g)
     then map_option (dequeue_row (clock i) (timestamp_millis now) req) (map_of (workflows g) i)
     else map_of (workflows g) i)"
  using assms by (simp add: dequeue_workflows_eq Let_def claim_each_lookup distinct_selected)

lemma dequeue_rows:
  assumes "mem_inv g"
  shows "fst (dequeue_workflows now clock req g) = Ok (map
    (\<lambda>i. dequeue_row (clock i) (timestamp_millis now) req (the (map_of (workflows g) i)))
    (selected (timestamp_millis now) req g))"
  using assms selected_rows [OF assms]
  by (auto simp: dequeue_workflows_eq Let_def distinct_selected intro!: claim_each_rows) fastforce

lemma dequeue_ids:
  assumes "mem_inv g" "fst (dequeue_workflows now clock req g) = Ok ws"
  shows "map wf_id ws = selected (timestamp_millis now) req g"
proof -
  have "ws = map (\<lambda>i. dequeue_row (clock i) (timestamp_millis now) req (the (map_of (workflows g) i)))
      (selected (timestamp_millis now) req g)"
    using assms dequeue_rows [OF assms(1), of now clock req] by simp
  moreover have "wf_id (the (map_of (workflows g) i)) = i"
    if "i \<in> set (selected (timestamp_millis now) req g)" for i
    using selected_rows [OF assms(1) that] by auto
  ultimately show ?thesis by (simp add: map_idI)
qed

lemma dequeue_workflows_inv [inv_intros]:
  "mem_inv g \<Longrightarrow> mem_inv (snd (dequeue_workflows now clock req g))"
  by (simp add: dequeue_workflows_eq Let_def claim_each_inv)

lemma create_application_version_inv [inv_intros]:
  "mem_inv g \<Longrightarrow> mem_inv (snd (create_application_version now fresh nm g))"
  by (simp add: create_application_version_def)

lemma set_latest_application_version_inv [inv_intros]:
  "mem_inv g \<Longrightarrow> mem_inv (snd (set_latest_application_version now nm g))"
  using keyed_by_lookup [of vi_version_name "versions g" nm]
  by (auto simp: set_latest_application_version_def split: option.splits)

lemma upsert_queue_inv [inv_intros]: "mem_inv g \<Longrightarrow> mem_inv (snd (upsert_queue q u g))"
  by (simp add: upsert_queue_def)

section \<open>Counting\<close>

lemma count_update_le:
  "map_of m k \<noteq> None \<Longrightarrow>
   count_if P (hm_values (AList.update k v m)) \<le> count_if P (hm_values m) + 1"
  by (induction m) (auto simp: count_if_def hm_values_def)

lemma claim_each_count:
  "count_if P (hm_values (workflows (snd (claim_each clock now_ms req ids g))))
     \<le> count_if P (hm_values (workflows g)) + int (length ids)"
proof (induction ids arbitrary: g)
  case (Cons i ids)
  show ?case
  proof (cases "map_of (workflows g) i")
    case None
    then show ?thesis using Cons.IH [of g] by simp
  next
    case (Some w)
    let ?g = "g\<lparr>workflows := AList.update i (dequeue_row (clock i) now_ms req w) (workflows g)\<rparr>"
    have "count_if P (hm_values (workflows ?g)) \<le> count_if P (hm_values (workflows g)) + 1"
      using Some count_update_le [of "workflows g" i P] by simp
    then show ?thesis using Cons.IH [of ?g] Some by (simp add: case_prod_unfold Let_def)
  qed
qed simp

lemma concurrency_capped_le: "concurrency_capped req g m \<le> m"
  by (simp add: concurrency_capped_def split: option.split)

lemma rate_capped_le: "rate_capped now_ms req g m \<le> m"
  by (simp add: rate_capped_def Let_def split: option.split)

lemma max_claims_le: "max_claims now_ms req g \<le> dq_max_tasks req"
  unfolding max_claims_def using concurrency_capped_le rate_capped_le order_trans by blast

lemma not_enqueued_not_claimed:
  assumes "mem_inv g" "map_of (workflows g) i = Some w" "wf_status w \<noteq> STATUS_ENQUEUED"
  shows "i \<notin> set (selected now_ms req g)"
  using selected_rows [OF assms(1), of i now_ms req] assms by (auto simp: claimable_def)

lemma dequeue_run_skips:
  assumes "mem_inv g" "map_of (workflows g) i = Some w" "wf_status w \<noteq> STATUS_ENQUEUED"
  shows "i \<notin> set (concat (fst (dequeue_run calls g)))"
  using assms
proof (induction calls arbitrary: g)
  case (Cons call calls)
  obtain now clock req where call: "call = (now, clock, req)" by (cases call)
  let ?d = "dequeue_workflows now clock req g"
  have skip: "i \<notin> set (selected (timestamp_millis now) req g)"
    using Cons.prems by (rule not_enqueued_not_claimed)
  obtain ws where ws: "fst ?d = Ok ws" using dequeue_rows [OF Cons.prems(1)] by blast
  have "map_of (workflows (snd ?d)) i = Some w"
    using skip Cons.prems by (simp add: dequeue_lookup)
  then have "i \<notin> set (concat (fst (dequeue_run calls (snd ?d))))"
    using Cons dequeue_workflows_inv by blast
  then show ?case
    using skip ws dequeue_ids [OF Cons.prems(1) ws] by (auto simp: call case_prod_unfold Let_def)
qed simp

section \<open>Properties\<close>

text \<open>
  What one dequeue does.  The rows it returns are exactly the stored rows of
  the ids it claims; each of them was enqueued on the requested queue and
  partition and matched the version gate; each is now pending under the
  requesting executor; every other row, and every other table, is unchanged.
\<close>

theorem dequeue_claims:
  assumes "mem_inv g" "fst (dequeue_workflows now clock req g) = Ok ws"
  defines "g' \<equiv> snd (dequeue_workflows now clock req g)"
  shows "(\<forall>w \<in> set ws. map_of (workflows g') (wf_id w) = Some w
        \<and> wf_status w = STATUS_PENDING \<and> wf_executor_id w = dq_executor_id req
        \<and> (\<exists>old. map_of (workflows g) (wf_id w) = Some old \<and> claimable req g old))
     \<and> (\<forall>i. i \<notin> wf_id ` set ws \<longrightarrow> map_of (workflows g') i = map_of (workflows g) i)
     \<and> distinct (map wf_id ws) \<and> steps g' = steps g \<and> notifications g' = notifications g
     \<and> streams g' = streams g \<and> events g' = events g \<and> versions g' = versions g"
proof -
  let ?ids = "selected (timestamp_millis now) req g"
  have ids: "map wf_id ws = ?ids" using assms(1,2) by (rule dequeue_ids)
  have rows: "ws = map (\<lambda>i. dequeue_row (clock i) (timestamp_millis now) req
      (the (map_of (workflows g) i))) ?ids"
    using assms(2) dequeue_rows [OF assms(1), of now clock req] by simp
  have "map_of (workflows g') (wf_id w) = Some w \<and> wf_status w = STATUS_PENDING
      \<and> wf_executor_id w = dq_executor_id req
      \<and> (\<exists>old. map_of (workflows g) (wf_id w) = Some old \<and> claimable req g old)" if w: "w \<in> set ws" for w
  proof -
    obtain i where i: "i \<in> set ?ids" "w = dequeue_row (clock i) (timestamp_millis now) req
        (the (map_of (workflows g) i))" using w by (subst (asm) rows) auto
    obtain old where "map_of (workflows g) i = Some old" "claimable req g old" "wf_id old = i"
      using selected_rows [OF assms(1) i(1)] by blast
    then show ?thesis using i assms(1) by (simp add: g'_def dequeue_lookup)
  qed
  moreover have "map_of (workflows g') i = map_of (workflows g) i" if "i \<notin> wf_id ` set ws" for i
    using that ids assms(1) by (metis dequeue_lookup g'_def list.set_map)
  moreover have "distinct (map wf_id ws)" using ids assms(1) by (simp add: distinct_selected)
  ultimately show ?thesis
    by (simp add: g'_def dequeue_workflows_eq Let_def claim_each_frame)
qed

text \<open>
  The limits.  One dequeue claims at most \<open>max_tasks\<close> workflows, at most
  what the rate limiter has left in the trailing window, and never lifts the
  number of running workflows of the queue above the global concurrency
  unless it was above before.
\<close>

theorem dequeue_limits:
  assumes "mem_inv g" "fst (dequeue_workflows now clock req g) = Ok ws"
    and "pred_option (\<lambda>lim. is_i64 (lim - count_if (running req) (hm_values (workflows g))))
          (dq_global_concurrency req)"
    and "pred_option (\<lambda>lim. is_i64 (lim - count_if (recent_start req
            (wrap_i64 (timestamp_millis now - p))) (hm_values (workflows g)))) (dq_rate_limit_max req)"
  shows "int (length ws) \<le> max 0 (dq_max_tasks req)
    \<and> (\<forall>lim. dq_global_concurrency req = Some lim \<longrightarrow>
        count_if (running req) (hm_values (workflows (snd (dequeue_workflows now clock req g))))
          \<le> max lim (count_if (running req) (hm_values (workflows g))))
    \<and> (\<forall>lim. dq_rate_limit_max req = Some lim \<and> dq_rate_limit_period_ms req = Some p \<longrightarrow>
        int (length ws) \<le> max 0 (lim - count_if (recent_start req
          (wrap_i64 (timestamp_millis now - p))) (hm_values (workflows g))))"
proof -
  let ?ms = "timestamp_millis now"
  have len: "int (length ws) \<le> max 0 (max_claims ?ms req g)"
    using length_selected [of ?ms req g] dequeue_ids [OF assms(1,2)] by (metis length_map)
  have "int (length ws) \<le> max 0 (dq_max_tasks req)"
    using len max_claims_le [of ?ms req g] by linarith
  moreover have "count_if (running req) (hm_values (workflows (snd (dequeue_workflows now clock req g))))
      \<le> max lim (count_if (running req) (hm_values (workflows g)))"
    if "dq_global_concurrency req = Some lim" for lim
  proof -
    have "max 0 (max_claims ?ms req g) \<le> max 0 (lim - count_if (running req) (hm_values (workflows g)))"
      using that assms(3) by (simp add: max_claims_def concurrency_capped_def)
    then show ?thesis
      using claim_each_count [of "running req" clock ?ms req "selected ?ms req g" g]
        length_selected [of ?ms req g]
      by (simp add: dequeue_workflows_eq Let_def)
  qed
  moreover have "int (length ws) \<le> max 0 (lim - count_if (recent_start req (wrap_i64 (?ms - p)))
      (hm_values (workflows g)))"
    if "dq_rate_limit_max req = Some lim \<and> dq_rate_limit_period_ms req = Some p" for lim
  proof -
    have "max 0 (max_claims ?ms req g) \<le> max 0 (lim - count_if (recent_start req (wrap_i64 (?ms - p)))
        (hm_values (workflows g)))"
      using that assms(4)
      using concurrency_capped_le [of req g "rate_capped ?ms req g (dq_max_tasks req)"]
      by (simp add: max_claims_def rate_capped_def Let_def max.commute)
    then show ?thesis using len by linarith
  qed
  ultimately show ?thesis by blast
qed

text \<open>
  Dispatch order.  The claimed workflows come in the order of priority, then
  creation time, then id, and a claimable workflow that was left behind is
  never before one that was claimed.
\<close>

theorem dequeue_order:
  assumes "mem_inv g" "fst (dequeue_workflows now clock req g) = Ok ws"
  shows "sorted (map (\<lambda>w. dispatch_key (the (map_of (workflows g) (wf_id w)))) ws)
    \<and> (\<forall>w \<in> set ws. \<forall>v \<in> set (hm_values (workflows g)). claimable req g v \<and> wf_id v \<notin> wf_id ` set ws
         \<longrightarrow> dispatch_key (the (map_of (workflows g) (wf_id w))) \<le> dispatch_key v)"
proof -
  let ?ms = "timestamp_millis now"
  let ?n = "nat (max_claims ?ms req g)"
  let ?key = "\<lambda>i. dispatch_key (the (map_of (workflows g) i))"
  have ids: "map wf_id ws = map (snd \<circ> snd) (take ?n (candidates req g))"
    using dequeue_ids [OF assms] by (simp add: selected_def)
  have key: "?key (snd (snd c)) = c" if "c \<in> set (candidates req g)" for c
    using that assms(1) by (auto simp: candidates_def in_values_iff)
  have keys: "map (\<lambda>w. ?key (wf_id w)) ws = take ?n (candidates req g)"
  proof -
    have "map (\<lambda>w. ?key (wf_id w)) ws = map ?key (map wf_id ws)" by simp
    also have "\<dots> = map (\<lambda>c. ?key (snd (snd c))) (take ?n (candidates req g))" by (simp add: ids)
    also have "\<dots> = take ?n (candidates req g)"
      using key by (intro map_idI) (auto dest: in_set_takeD)
    finally show ?thesis .
  qed
  have srt: "sorted (candidates req g)" by (simp add: candidates_def)
  have "?key (wf_id w) \<le> dispatch_key v"
    if "w \<in> set ws" "v \<in> set (hm_values (workflows g))" "claimable req g v" "wf_id v \<notin> wf_id ` set ws" for w v
  proof -
    have c: "dispatch_key v \<in> set (candidates req g)" using that(2,3) by (simp add: candidates_def)
    have "dispatch_key v \<notin> set (take ?n (candidates req g))"
    proof
      assume "dispatch_key v \<in> set (take ?n (candidates req g))"
      then have "wf_id v \<in> set (map wf_id ws)" unfolding ids by force
      then show False using that(4) by simp
    qed
    then have "dispatch_key v \<in> set (drop ?n (candidates req g))"
      using c by (metis Un_iff append_take_drop_id set_append)
    moreover have "?key (wf_id w) \<in> set (take ?n (candidates req g))"
      using that(1) keys by (metis (no_types, lifting) image_eqI list.set_map)
    ultimately show ?thesis
      using srt by (metis append_take_drop_id sorted_append)
  qed
  then show ?thesis using srt by (auto simp: keys sorted_wrt_take)
qed

text \<open>
  A workflow is dispatched once.  However dequeue calls of any executors
  follow each other, no workflow id is claimed twice, within one call or across calls.
\<close>

theorem dequeue_no_double_claim:
  assumes "mem_inv g"
  shows "distinct (concat (fst (dequeue_run calls g)))"
  using assms
proof (induction calls arbitrary: g)
  case (Cons call calls)
  obtain now clock req where call: "call = (now, clock, req)" by (cases call)
  let ?d = "dequeue_workflows now clock req g"
  let ?ids = "selected (timestamp_millis now) req g"
  obtain ws where ws: "fst ?d = Ok ws" using dequeue_rows [OF Cons.prems] by blast
  have inv: "mem_inv (snd ?d)" using Cons.prems by (rule dequeue_workflows_inv)
  have "i \<notin> set (concat (fst (dequeue_run calls (snd ?d))))" if i: "i \<in> set ?ids" for i
  proof -
    obtain w where "map_of (workflows g) i = Some w"
      using selected_rows [OF Cons.prems i] by blast
    then have "map_of (workflows (snd ?d)) i = Some (dequeue_row (clock i) (timestamp_millis now) req w)"
      using i Cons.prems by (simp add: dequeue_lookup)
    from dequeue_run_skips [OF inv this] show ?thesis by simp
  qed
  moreover have "distinct ?ids" using Cons.prems by (rule distinct_selected)
  ultimately show ?case
    using ws dequeue_ids [OF Cons.prems ws] Cons.IH [OF inv]
    by (auto simp: call case_prod_unfold Let_def)
qed simp

section \<open>Witnesses\<close>

definition sample_row :: "string \<Rightarrow> workflow_status" where
  "sample_row i = (workflow_status_new 0 i ''wf'' JNull STATUS_ENQUEUED [] ''v'')
     \<lparr>wf_queue_name := Some ''q''\<rparr>"

definition sample_queue :: inner where
  "sample_queue = inner_default\<lparr>workflows := [(''b'', sample_row ''b''), (''a'', sample_row ''a'')]\<rparr>"

definition sample_request :: dequeue_request where
  "sample_request = \<lparr>dq_queue_name = ''q'', dq_executor_id = ''x'', dq_app_version = ''v'',
     dq_partition_key = None, dq_max_tasks = 1, dq_global_concurrency = Some 3,
     dq_rate_limit_max = Some 2, dq_rate_limit_period_ms = Some 10\<rparr>"

lemma sample_queue_facts:
  "mem_inv sample_queue"
  "fst (dequeue_workflows 5000000 (\<lambda>_. 7) sample_request sample_queue)
     = Ok [dequeue_row 7 5 sample_request (sample_row ''a'')]"
  "count_if (running sample_request) (hm_values (workflows sample_queue)) = 0"
  "count_if (recent_start sample_request (wrap_i64 (timestamp_millis 5000000 - 10)))
     (hm_values (workflows sample_queue)) = 0"
  by code_simp+

lemma sample_request_fields:
  "dq_max_tasks sample_request = 1" "dq_global_concurrency sample_request = Some 3"
  "dq_rate_limit_max sample_request = Some 2"
  by (simp_all add: sample_request_def)

theorem dequeue_claims_witness:
  "map_of (workflows (snd (dequeue_workflows 5000000 (\<lambda>_. 7) sample_request sample_queue))) ''a''
     = Some (dequeue_row 7 5 sample_request (sample_row ''a''))
   \<and> map_of (workflows (snd (dequeue_workflows 5000000 (\<lambda>_. 7) sample_request sample_queue))) ''b''
     = map_of (workflows sample_queue) ''b''"
  using dequeue_claims [OF sample_queue_facts(1,2)]
  by (simp add: sample_row_def workflow_status_new_def)

theorem dequeue_limits_witness:
  "int (length [dequeue_row 7 5 sample_request (sample_row ''a'')]) \<le> max 0 1
   \<and> count_if (running sample_request)
       (hm_values (workflows (snd (dequeue_workflows 5000000 (\<lambda>_. 7) sample_request sample_queue)))) \<le> 3"
proof -
  have "pred_option (\<lambda>lim. is_i64 (lim - count_if (running sample_request)
      (hm_values (workflows sample_queue)))) (dq_global_concurrency sample_request)"
    "pred_option (\<lambda>lim. is_i64 (lim - count_if (recent_start sample_request
      (wrap_i64 (timestamp_millis 5000000 - 10))) (hm_values (workflows sample_queue))))
      (dq_rate_limit_max sample_request)"
    by (simp_all add: sample_queue_facts(3,4) sample_request_fields is_i64_def)
  from dequeue_limits [OF sample_queue_facts(1,2) this] show ?thesis
    by (simp add: sample_queue_facts(3) sample_request_fields)
qed

theorem dequeue_order_witness:
  "dispatch_key (the (map_of (workflows sample_queue) ''a'')) \<le> dispatch_key (sample_row ''b'')"
proof -
  have "sample_row ''b'' \<in> set (hm_values (workflows sample_queue))"
    "claimable sample_request sample_queue (sample_row ''b'')"
    by code_simp+
  with dequeue_order [OF sample_queue_facts(1,2)] show ?thesis
    by (simp add: sample_row_def workflow_status_new_def)
qed

theorem dequeue_no_double_claim_witness:
  "distinct (concat (fst (dequeue_run
     [(5000000, (\<lambda>_. 7), sample_request), (6000000, (\<lambda>_. 8), sample_request)] sample_queue)))"
  using dequeue_no_double_claim [OF sample_queue_facts(1)] by blast

end
