(* ===== verification/Memory_Schedules.thy ===== *)
theory Memory_Schedules
  imports Memory_State
begin

text \<open>
  Persistent cron schedules in the in-memory provider.  Validation of the cron
  spec and of the timezone, done by external crates, is a pair of parameters.
\<close>

section \<open>Definitions\<close>

definition create_schedule :: "workflow_schedule \<Rightarrow> inner \<Rightarrow> unit result \<times> inner" where
  "create_schedule s g =
     (if contains_key (schedules g) (ws_schedule_name s)
      then (Err (app (''schedule `'' @ ws_schedule_name s @ ''` already exists'')), g)
      else (Ok (), g\<lparr>schedules := AList.update (ws_schedule_name s) s (schedules g)\<rparr>))"

definition apply_update :: "schedule_update \<Rightarrow> workflow_schedule \<Rightarrow> workflow_schedule" where
  "apply_update u s =
     (let s1 = (case su_schedule u of Some cron \<Rightarrow> s\<lparr>ws_schedule := cron\<rparr> | None \<Rightarrow> s);
          s2 = (case su_context u of
                  Some c \<Rightarrow> s1\<lparr>ws_context := opt_filter (\<lambda>v. \<not> is_null v) c\<rparr> | None \<Rightarrow> s1);
          s3 = (case su_automatic_backfill u of Some on \<Rightarrow> s2\<lparr>ws_automatic_backfill := on\<rparr> | None \<Rightarrow> s2);
          s4 = (case su_cron_timezone u of Some tz \<Rightarrow> s3\<lparr>ws_cron_timezone := tz\<rparr> | None \<Rightarrow> s3)
      in (case su_queue_name u of Some q \<Rightarrow> s4\<lparr>ws_queue_name := q\<rparr> | None \<Rightarrow> s4))"

definition update_schedule :: "(string \<Rightarrow> unit result) \<Rightarrow> (string \<Rightarrow> unit result) \<Rightarrow> string
  \<Rightarrow> schedule_update \<Rightarrow> inner \<Rightarrow> unit result \<times> inner" where
  "update_schedule parse_cron parse_timezone nm u g =
     (case schedule_update_validate parse_cron parse_timezone nm u of
        Inl e \<Rightarrow> (Err e, g)
      | Inr _ \<Rightarrow> (case map_of (schedules g) nm of
          None \<Rightarrow> (Err (app (''schedule `'' @ nm @ ''` not found'')), g)
        | Some s \<Rightarrow> (Ok (), g\<lparr>schedules := AList.update nm (apply_update u s) (schedules g)\<rparr>)))"

definition apply_schedules :: "workflow_schedule list \<Rightarrow> inner \<Rightarrow> unit result \<times> inner" where
  "apply_schedules ss g =
     (Ok (), fold (\<lambda>s g. g\<lparr>schedules := AList.update (ws_schedule_name s) s (schedules g)\<rparr>) ss g)"

definition list_schedules :: "schedule_filter \<Rightarrow> inner \<Rightarrow> workflow_schedule list result" where
  "list_schedules f g = Ok (sort_key ws_schedule_name
     (filter (\<lambda>s. sf_name_prefixes f = []
          \<or> list_ex (\<lambda>p. starts_with (ws_schedule_name s) p) (sf_name_prefixes f))
       (filter (\<lambda>s. sf_workflow_names f = [] \<or> ws_workflow_name s \<in> set (sf_workflow_names f))
         (filter (\<lambda>s. sf_statuses f = [] \<or> ws_status s \<in> set (sf_statuses f))
           (hm_values (schedules g))))))"

definition set_schedule_status :: "string \<Rightarrow> schedule_status \<Rightarrow> inner \<Rightarrow> bool result \<times> inner" where
  "set_schedule_status nm status g = (case map_of (schedules g) nm of
       Some s \<Rightarrow> (Ok True, g\<lparr>schedules := AList.update nm (s\<lparr>ws_status := status\<rparr>) (schedules g)\<rparr>)
     | None \<Rightarrow> (Ok False, g))"

definition set_schedule_last_fired ::
  "(int \<Rightarrow> datetime option) \<Rightarrow> string \<Rightarrow> int \<Rightarrow> inner \<Rightarrow> unit result \<times> inner" where
  "set_schedule_last_fired from_ts nm at_ms g = (case map_of (schedules g) nm of
       Some s \<Rightarrow> (Ok (), g\<lparr>schedules := AList.update nm (s\<lparr>ws_last_fired_at := from_ts at_ms\<rparr>) (schedules g)\<rparr>)
     | None \<Rightarrow> (Ok (), g))"

definition delete_schedule :: "string \<Rightarrow> inner \<Rightarrow> bool result \<times> inner" where
  "delete_schedule nm g =
     (Ok (contains_key (schedules g) nm), g\<lparr>schedules := AList.delete nm (schedules g)\<rparr>)"

section \<open>Lemmas\<close>

lemma apply_update_name [simp]: "ws_schedule_name (apply_update u s) = ws_schedule_name s"
  by (simp add: apply_update_def Let_def split: option.split)

lemma schedule_name: "mem_inv g \<Longrightarrow> map_of (schedules g) nm = Some s \<Longrightarrow> ws_schedule_name s = nm"
  using keyed_by_lookup [of ws_schedule_name "schedules g" nm s] by simp

lemma create_schedule_inv [inv_intros]: "mem_inv g \<Longrightarrow> mem_inv (snd (create_schedule s g))"
  by (simp add: create_schedule_def)

lemma update_schedule_inv [inv_intros]: "mem_inv g \<Longrightarrow> mem_inv (snd (update_schedule pc pt nm u g))"
  by (auto simp: update_schedule_def schedule_name split: sum.splits option.splits)

lemma apply_schedules_inv [inv_intros]: "mem_inv g \<Longrightarrow> mem_inv (snd (apply_schedules ss g))"
proof -
  have "mem_inv g \<Longrightarrow> mem_inv (fold (\<lambda>s g. g\<lparr>schedules :=
      AList.update (ws_schedule_name s) s (schedules g)\<rparr>) ss g)"
    by (induction ss arbitrary: g) simp_all
  then show "mem_inv g \<Longrightarrow> mem_inv (snd (apply_schedules ss g))" by (simp add: apply_schedules_def)
qed

lemma set_schedule_status_inv [inv_intros]: "mem_inv g \<Longrightarrow> mem_inv (snd (set_schedule_status nm st g))"
  by (auto simp: set_schedule_status_def schedule_name split: option.splits)

lemma set_schedule_last_fired_inv [inv_intros]:
  "mem_inv g \<Longrightarrow> mem_inv (snd (set_schedule_last_fired from_ts nm t g))"
  by (auto simp: set_schedule_last_fired_def schedule_name split: option.splits)

lemma delete_schedule_inv [inv_intros]: "mem_inv g \<Longrightarrow> mem_inv (snd (delete_schedule nm g))"
  by (simp add: delete_schedule_def)

lemma apply_schedules_lookup:
  "map_of (schedules (snd (apply_schedules ss g))) nm =
     (case List.find (\<lambda>s. ws_schedule_name s = nm) (rev ss) of
        Some s \<Rightarrow> Some s | None \<Rightarrow> map_of (schedules g) nm)"
proof (induction ss arbitrary: g)
  case (Cons s ss)
  let ?g = "g\<lparr>schedules := AList.update (ws_schedule_name s) s (schedules g)\<rparr>"
  have app: "List.find P (xs @ [x]) = (case List.find P xs of Some y \<Rightarrow> Some y
      | None \<Rightarrow> if P x then Some x else None)" for P and xs :: "workflow_schedule list" and x
    by (induction xs) simp_all
  have "snd (apply_schedules (s # ss) g) = snd (apply_schedules ss ?g)" by (simp add: apply_schedules_def)
  then show ?case using Cons.IH [of ?g] by (auto simp: app split: option.split)
qed (simp add: apply_schedules_def)

end
