(* ===== verification/Memory_Query.thy ===== *)
theory Memory_Query
  imports Memory_Workflows
begin

text \<open>
  The read side of the in-memory provider: the filtered, ordered and paged
  workflow listing, and the two aggregate queries.  A \<open>BTreeMap\<close> of group
  dimensions is its list of entries in key order.
\<close>

section \<open>Definitions\<close>

definition fork_sources :: "inner \<Rightarrow> string list" where
  "fork_sources g = List.map_filter wf_forked_from (hm_values (workflows g))"

definition in_list_or_empty :: "string list \<Rightarrow> string \<Rightarrow> bool" where
  "in_list_or_empty xs s \<longleftrightarrow> xs = [] \<or> s \<in> set xs"

definition opt_in_list_or_empty :: "string list \<Rightarrow> string option \<Rightarrow> bool" where
  "opt_in_list_or_empty xs s \<longleftrightarrow> xs = [] \<or> is_some_and s (\<lambda>q. q \<in> set xs)"

definition matches_filter :: "list_filter \<Rightarrow> string list \<Rightarrow> workflow_status \<Rightarrow> bool" where
  "matches_filter f sources w \<longleftrightarrow>
     in_list_or_empty (lf_workflow_ids f) (wf_id w)
     \<and> (lf_workflow_id_prefix f = [] \<or> list_ex (starts_with (wf_id w)) (lf_workflow_id_prefix f))
     \<and> in_list_or_empty (lf_name f) (wf_name w)
     \<and> is_none_or (lf_attributes f) (attributes_contain (wf_attributes w))
     \<and> in_list_or_empty (lf_status f) (wf_status w)
     \<and> opt_in_list_or_empty (lf_queue_name f) (wf_queue_name w)
     \<and> in_list_or_empty (lf_app_version f) (wf_app_version w)
     \<and> in_list_or_empty (lf_executor_ids f) (wf_executor_id w)
     \<and> opt_in_list_or_empty (lf_authenticated_users f) (wf_authenticated_user w)
     \<and> opt_in_list_or_empty (lf_forked_from f) (wf_forked_from w)
     \<and> opt_in_list_or_empty (lf_parent_workflow_ids f) (wf_parent_workflow_id w)
     \<and> is_none_or (lf_was_forked_from f) (\<lambda>b. (wf_id w \<in> set sources) = b)
     \<and> is_none_or (lf_start_time_ms f) (\<lambda>t. timestamp_millis (wf_created_at w) \<ge> t)
     \<and> is_none_or (lf_end_time_ms f) (\<lambda>t. timestamp_millis (wf_created_at w) \<le> t)
     \<and> is_none_or (lf_completed_after_ms f) (\<lambda>t. is_some_and (wf_completed_at_ms w) (\<lambda>c. c \<ge> t))
     \<and> is_none_or (lf_completed_before_ms f) (\<lambda>t. is_some_and (wf_completed_at_ms w) (\<lambda>c. c \<le> t))
     \<and> is_none_or (lf_dequeued_after_ms f) (\<lambda>t. is_some_and (wf_started_at_ms w) (\<lambda>s. s \<ge> t))
     \<and> is_none_or (lf_dequeued_before_ms f) (\<lambda>t. is_some_and (wf_started_at_ms w) (\<lambda>s. s \<le> t))
     \<and> is_none_or (lf_has_parent f) (\<lambda>hp. (wf_parent_workflow_id w \<noteq> None) = hp)
     \<and> (\<not> lf_queues_only f \<or> wf_queue_name w \<noteq> None)"

definition strip_heavy :: "list_filter \<Rightarrow> workflow_status \<Rightarrow> workflow_status" where
  "strip_heavy f w =
     (let w1 = (if lf_load_input f then w else w\<lparr>wf_input := JNull\<rparr>) in
      if lf_load_output f then w1 else w1\<lparr>wf_output := None\<rparr>)"

definition page :: "int option \<Rightarrow> int option \<Rightarrow> 'a list \<Rightarrow> 'a list" where
  "page offset limit rows =
     (let rest = (case offset of None \<Rightarrow> rows | Some off \<Rightarrow> drop (min (nat (max off 0)) (length rows)) rows) in
      case limit of None \<Rightarrow> rest | Some n \<Rightarrow> take (nat (max n 0)) rest)"

definition listed_rows :: "list_filter \<Rightarrow> inner \<Rightarrow> workflow_status list" where
  "listed_rows f g =
     (let sources = (if lf_was_forked_from f = None then [] else fork_sources g);
          rows = sort_key wf_created_at (filter (matches_filter f sources) (hm_values (workflows g)))
      in if lf_sort_desc f then rev rows else rows)"

definition list_workflows :: "list_filter \<Rightarrow> inner \<Rightarrow> workflow_status list result" where
  "list_workflows f g =
     Ok (map (strip_heavy f) (page (lf_offset f) (lf_limit f) (listed_rows f g)))"

text \<open>Integer division of Rust truncates towards zero; the divisor here is positive.\<close>

definition trunc_div :: "int \<Rightarrow> int \<Rightarrow> int" where
  "trunc_div a b = (if 0 \<le> a then a div b else - ((- a) div b))"

record agg_acc =
  acc_count :: int
  acc_min_created :: "int option"
  acc_max_queue_wait :: "int option"
  acc_max_total_latency :: "int option"

definition agg_acc_default :: agg_acc where
  "agg_acc_default = \<lparr>acc_count = 0, acc_min_created = None, acc_max_queue_wait = None,
     acc_max_total_latency = None\<rparr>"

definition opt_max :: "int option \<Rightarrow> int \<Rightarrow> int option" where
  "opt_max m x = Some (case m of None \<Rightarrow> x | Some y \<Rightarrow> max y x)"

definition opt_min :: "int option \<Rightarrow> int \<Rightarrow> int option" where
  "opt_min m x = Some (case m of None \<Rightarrow> x | Some y \<Rightarrow> min y x)"

definition wq_matches :: "workflow_aggregate_query \<Rightarrow> workflow_status \<Rightarrow> bool" where
  "wq_matches q w \<longleftrightarrow> (let created = timestamp_millis (wf_created_at w) in
     in_list_or_empty (wq_status q) (wf_status w) \<and> in_list_or_empty (wq_name q) (wf_name w)
     \<and> in_list_or_empty (wq_app_version q) (wf_app_version w)
     \<and> in_list_or_empty (wq_executor_ids q) (wf_executor_id w)
     \<and> (wq_queue_names q = [] \<or> list_ex (\<lambda>n. wf_queue_name w = Some n) (wq_queue_names q))
     \<and> \<not> is_some_and (wq_workflow_id_prefix q) (\<lambda>p. \<not> starts_with (wf_id w) p)
     \<and> \<not> is_some_and (wq_start_time_ms q) (\<lambda>t. created < t)
     \<and> \<not> is_some_and (wq_end_time_ms q) (\<lambda>t. created > t)
     \<and> \<not> is_some_and (wq_completed_after_ms q) (\<lambda>t. is_none_or (wf_completed_at_ms w) (\<lambda>c. c < t))
     \<and> \<not> is_some_and (wq_completed_before_ms q) (\<lambda>t. is_none_or (wf_completed_at_ms w) (\<lambda>c. c > t))
     \<and> \<not> is_some_and (wq_dequeued_after_ms q) (\<lambda>t. is_none_or (wf_started_at_ms w) (\<lambda>d. d < t))
     \<and> \<not> is_some_and (wq_dequeued_before_ms q) (\<lambda>t. is_none_or (wf_started_at_ms w) (\<lambda>d. d > t)))"

definition dim_val :: "workflow_status \<Rightarrow> string \<Rightarrow> string option" where
  "dim_val w d = (if d = ''status'' then Some (wf_status w)
     else if d = ''name'' then Some (wf_name w)
     else if d = ''queue_name'' then wf_queue_name w
     else if d = ''executor_id'' then Some (wf_executor_id w)
     else if d = ''application_version'' then Some (wf_app_version w) else None)"

definition wq_key :: "workflow_aggregate_query \<Rightarrow> workflow_status \<Rightarrow> (string \<times> string option) list" where
  "wq_key q w = map (\<lambda>(d, _). (d, dim_val w d)) (enabled_columns q)
     @ (case opt_filter (\<lambda>b. b > 0) (wq_time_bucket_ms q) of None \<Rightarrow> []
        | Some bucket \<Rightarrow> [(''time_bucket'',
            Some (show_int (trunc_div (timestamp_millis (wf_created_at w)) bucket * bucket)))])"

definition wq_accumulate :: "workflow_status \<Rightarrow> agg_acc \<Rightarrow> agg_acc" where
  "wq_accumulate w a = (let created = timestamp_millis (wf_created_at w) in
     \<lparr>acc_count = acc_count a + 1, acc_min_created = opt_min (acc_min_created a) created,
      acc_max_queue_wait = (case wf_started_at_ms w of None \<Rightarrow> acc_max_queue_wait a
        | Some s \<Rightarrow> opt_max (acc_max_queue_wait a) (wrap_i64 (s - created))),
      acc_max_total_latency = (case wf_completed_at_ms w of None \<Rightarrow> acc_max_total_latency a
        | Some c \<Rightarrow> opt_max (acc_max_total_latency a) (wrap_i64 (c - created)))\<rparr>)"

definition wq_step :: "workflow_aggregate_query \<Rightarrow> workflow_status
  \<Rightarrow> ((string \<times> string option) list, agg_acc) hashmap \<Rightarrow> ((string \<times> string option) list, agg_acc) hashmap" where
  "wq_step q w accs = (if \<not> wq_matches q w then accs
     else AList.update (wq_key q w)
       (wq_accumulate w (unwrap_or agg_acc_default (map_of accs (wq_key q w)))) accs)"

definition wq_result :: "workflow_aggregate_query \<Rightarrow> (string \<times> string option) list \<times> agg_acc \<Rightarrow> workflow_aggregate" where
  "wq_result q ka = (case ka of (k, a) \<Rightarrow> \<lparr>wa_group = sort_key fst k,
     wa_count = then_some (wq_select_count q) (acc_count a),
     wa_min_created_at = (if wq_select_min_created_at q then acc_min_created a else None),
     wa_max_queue_wait_ms = (if wq_select_max_queue_wait_ms q then acc_max_queue_wait a else None),
     wa_max_total_latency_ms = (if wq_select_max_total_latency_ms q then acc_max_total_latency a else None)\<rparr>)"

definition truncate_opt :: "int option \<Rightarrow> 'a list \<Rightarrow> 'a list" where
  "truncate_opt limit xs = (case limit of None \<Rightarrow> xs | Some n \<Rightarrow> take (nat (max n 0)) xs)"

definition get_workflow_aggregates :: "workflow_aggregate_query \<Rightarrow> inner \<Rightarrow> workflow_aggregate list result" where
  "get_workflow_aggregates q g =
     (let accs = fold (wq_step q) (hm_values (workflows g)) [];
          out = sort_key wa_group (map (wq_result q) accs)
      in Ok (truncate_opt (wq_limit q) out))"

definition sq_matches :: "step_aggregate_query \<Rightarrow> (string \<times> int) \<times> step_row \<Rightarrow> bool" where
  "sq_matches q p = (case p of ((wid, _), row) \<Rightarrow>
     (sq_status q = [] \<or> list_ex (\<lambda>s. s = ''SUCCESS'') (sq_status q))
     \<and> in_list_or_empty (sq_function_name q) (sr_name row)
     \<and> \<not> is_some_and (sq_workflow_id_prefix q) (\<lambda>pre. \<not> starts_with wid pre)
     \<and> \<not> is_some_and (sq_completed_after_ms q) (\<lambda>t. is_none_or (sr_completed_at_ms row) (\<lambda>c. c < t))
     \<and> \<not> is_some_and (sq_completed_before_ms q) (\<lambda>t. is_none_or (sr_completed_at_ms row) (\<lambda>c. c > t)))"

definition sq_key :: "step_aggregate_query \<Rightarrow> step_row \<Rightarrow> (string \<times> string option) list" where
  "sq_key q row = map (\<lambda>(d, _). (d, if d = ''function_name'' then Some (sr_name row)
        else if d = ''status'' then Some ''SUCCESS'' else None)) (group_exprs q)
     @ (case opt_filter (\<lambda>b. b > 0) (sq_time_bucket_ms q) of None \<Rightarrow> []
        | Some bucket \<Rightarrow> [(''time_bucket'',
            map_option (\<lambda>c. show_int (trunc_div c bucket * bucket)) (sr_completed_at_ms row))])"

definition sq_step :: "step_aggregate_query \<Rightarrow> (string \<times> int) \<times> step_row
  \<Rightarrow> ((string \<times> string option) list, int \<times> int option) hashmap
  \<Rightarrow> ((string \<times> string option) list, int \<times> int option) hashmap" where
  "sq_step q p acc = (if \<not> sq_matches q p then acc
     else (let row = snd p; key = sq_key q row; (n, longest) = unwrap_or (0, None) (map_of acc key) in
       AList.update key (n + 1, case (sr_started_at_ms row, sr_completed_at_ms row) of
           (Some start, Some end_) \<Rightarrow> opt_max longest (wrap_i64 (end_ - start))
         | _ \<Rightarrow> longest) acc))"

definition get_step_aggregates :: "step_aggregate_query \<Rightarrow> inner \<Rightarrow> step_aggregate list result" where
  "get_step_aggregates q g =
     (let acc = fold (sq_step q) (steps g) [];
          out = sort_key sa_group (map (\<lambda>(k, (n, longest)). \<lparr>sa_group = sort_key fst k,
            sa_count = then_some (sq_select_count q) n,
            sa_max_duration_ms = (if sq_select_max_duration_ms q then longest else None)\<rparr>) acc)
      in Ok (truncate_opt (sq_limit q) out))"

text \<open>Whether a row belongs to the listing.\<close>

definition row_matches :: "list_filter \<Rightarrow> inner \<Rightarrow> workflow_status \<Rightarrow> bool" where
  "row_matches f g = matches_filter f (if lf_was_forked_from f = None then [] else fork_sources g)"

section \<open>Listing\<close>

lemma strip_heavy_simps [simp]:
  "wf_id (strip_heavy f w) = wf_id w" "wf_status (strip_heavy f w) = wf_status w"
  "wf_completed_at_ms (strip_heavy f w) = wf_completed_at_ms w"
  "wf_created_at (strip_heavy f w) = wf_created_at w"
  "wf_parent_workflow_id (strip_heavy f w) = wf_parent_workflow_id w"
  by (simp_all add: strip_heavy_def Let_def)

lemma set_page: "set (page off n xs) \<subseteq> set xs"
  by (auto simp: page_def Let_def split: option.splits dest: in_set_takeD in_set_dropD)

lemma page_None [simp]: "page None None xs = xs"
  by (simp add: page_def)

lemma page_limit: "page None (Some n) xs = take (nat (max n 0)) xs"
  by (simp add: page_def)

lemma mset_listed_rows: "mset (listed_rows f g) = mset (filter (row_matches f g) (hm_values (workflows g)))"
  by (simp add: listed_rows_def row_matches_def Let_def)

lemma set_listed_rows: "set (listed_rows f g) = set (filter (row_matches f g) (hm_values (workflows g)))"
  by (rule mset_eq_setD [OF mset_listed_rows])

lemma list_workflows_sound:
  assumes "list_workflows f g = Ok ws" "w \<in> set ws"
  shows "\<exists>v \<in> set (hm_values (workflows g)). w = strip_heavy f v \<and> row_matches f g v"
proof -
  obtain v where v: "v \<in> set (page (lf_offset f) (lf_limit f) (listed_rows f g))" "w = strip_heavy f v"
    using assms by (auto simp: list_workflows_def)
  then have "v \<in> set (listed_rows f g)" by (meson set_page subsetD)
  then show ?thesis using v(2) by (auto simp: set_listed_rows)
qed

lemma concat_pages: "concat (map (\<lambda>k. take n (drop (k * n) xs)) [0..<m]) = take (m * n) xs"
proof (induction m)
  case (Suc m)
  have "take (m * n) xs @ take n (drop (m * n) xs) = take (m * n + n) xs" by (simp add: take_add)
  then show ?case using Suc by (simp add: add.commute)
qed simp

lemma page_of: "page (Some (int i)) (Some (int n)) xs = take n (drop i xs)"
  by (cases "i \<le> length xs") (simp_all add: page_def min_def)

section \<open>Aggregates\<close>

lemma wq_fold_lookup:
  "map_of (fold (wq_step q) ws accs) k =
     (let hits = filter (\<lambda>w. wq_matches q w \<and> wq_key q w = k) ws in
      if hits = [] then map_of accs k
      else Some (fold wq_accumulate hits (unwrap_or agg_acc_default (map_of accs k))))"
  by (induction ws arbitrary: accs) (auto simp: wq_step_def Let_def)

lemma wq_fold_distinct: "distinct (map fst accs) \<Longrightarrow> distinct (map fst (fold (wq_step q) ws accs))"
  by (induction ws arbitrary: accs) (auto simp: wq_step_def)

lemma fold_accumulate_count: "acc_count (fold wq_accumulate ws a) = acc_count a + int (length ws)"
  by (induction ws arbitrary: a) (auto simp: wq_accumulate_def Let_def)

lemma fold_accumulate_min:
  "acc_min_created (fold wq_accumulate ws a) = (if ws = [] then acc_min_created a
     else Some (Min (set (map (timestamp_millis \<circ> wf_created_at) ws) \<union> set_option (acc_min_created a))))"
proof (induction ws arbitrary: a)
  case (Cons w ws)
  show ?case
    using Cons.IH [of "wq_accumulate w a"]
    by (cases "acc_min_created a"; cases "ws = []")
       (auto simp: wq_accumulate_def Let_def opt_min_def insert_commute Min_insert2 min.commute)
qed simp

lemma wq_accs:
  fixes q :: workflow_aggregate_query
  assumes "(k, a) \<in> set (fold (wq_step q) ws [])"
  shows "a = fold wq_accumulate (filter (\<lambda>w. wq_matches q w \<and> wq_key q w = k) ws) agg_acc_default
    \<and> filter (\<lambda>w. wq_matches q w \<and> wq_key q w = k) ws \<noteq> []"
proof -
  have "map_of (fold (wq_step q) ws []) k = Some a"
    using assms wq_fold_distinct [of "[]" q ws] by simp
  then show ?thesis by (auto simp: wq_fold_lookup Let_def split: if_splits)
qed

lemma wq_keys: "fst ` set (fold (wq_step q) ws []) = wq_key q ` {w \<in> set ws. wq_matches q w}"
proof (rule set_eqI)
  fix k
  have "k \<in> fst ` set (fold (wq_step q) ws []) \<longleftrightarrow> map_of (fold (wq_step q) ws []) k \<noteq> None"
    by (simp add: map_of_eq_None_iff)
  also have "\<dots> \<longleftrightarrow> filter (\<lambda>w. wq_matches q w \<and> wq_key q w = k) ws \<noteq> []"
    by (simp add: wq_fold_lookup Let_def)
  also have "\<dots> \<longleftrightarrow> k \<in> wq_key q ` {w \<in> set ws. wq_matches q w}"
    by (auto simp: filter_empty_conv)
  finally show "k \<in> fst ` set (fold (wq_step q) ws []) \<longleftrightarrow> k \<in> wq_key q ` {w \<in> set ws. wq_matches q w}" .
qed

section \<open>Properties\<close>

text \<open>
  The listing.  Without paging it holds exactly the rows that match the
  filter, in order of creation (reversed on request), and reading it page by
  page, whatever the page size, yields the same rows in the same order with none
  lost or repeated.
\<close>

theorem listing_complete_and_paged:
  assumes "0 < n" "list_workflows (f\<lparr>lf_offset := None, lf_limit := None\<rparr>) g = Ok rows"
    and "length rows \<le> m * n"
  shows "mset (map wf_id rows) = mset (map wf_id (filter (row_matches f g) (hm_values (workflows g))))
    \<and> sorted (map wf_created_at (if lf_sort_desc f then rev rows else rows))
    \<and> concat (map (\<lambda>k. case list_workflows (f\<lparr>lf_offset := Some (int (k * n)), lf_limit := Some (int n)\<rparr>) g
          of Inr ws \<Rightarrow> ws | Inl _ \<Rightarrow> []) [0..<m]) = rows"
proof -
  have m: "matches_filter (f\<lparr>lf_offset := x, lf_limit := y\<rparr>) = matches_filter f" for x y
    by (simp add: matches_filter_def fun_eq_iff)
  have cong: "listed_rows (f\<lparr>lf_offset := x, lf_limit := y\<rparr>) g = listed_rows f g"
    "strip_heavy (f\<lparr>lf_offset := x, lf_limit := y\<rparr>) = strip_heavy f" for x y
    by (simp_all add: listed_rows_def m strip_heavy_def fun_eq_iff)
  have rows: "rows = map (strip_heavy f) (listed_rows f g)"
    using assms(2) by (simp add: list_workflows_def cong)
  have "mset (map wf_id rows) = image_mset wf_id (mset (listed_rows f g))"
    by (simp add: rows image_mset.compositionality o_def)
  moreover have "sorted (map wf_created_at (if lf_sort_desc f then rev rows else rows))"
    by (simp add: rows listed_rows_def Let_def o_def rev_map [symmetric])
  moreover have "concat (map (\<lambda>k. map (strip_heavy f) (take n (drop (k * n) (listed_rows f g)))) [0..<m]) = rows"
    using assms(3) arg_cong [OF concat_pages [of n "listed_rows f g" m], of "map (strip_heavy f)"]
    by (simp add: rows map_concat o_def)
  ultimately show ?thesis
    by (simp add: list_workflows_def cong page_of mset_listed_rows del: of_nat_mult)
qed

text \<open>
  The aggregates are those of a group-by.  With no limit, the result has
  one entry per value that the grouping key takes on the matching
  workflows, in group order, whose count is the number of matching workflows
  with that key and whose earliest creation time is their minimum.
\<close>

theorem aggregates_group_by:
  assumes "get_workflow_aggregates q g = Ok out" "wq_limit q = None"
    and "wq_select_count q" "wq_select_min_created_at q"
  shows "sorted (map wa_group out) \<and> (\<exists>ks. distinct ks
    \<and> set ks = wq_key q ` {w \<in> set (hm_values (workflows g)). wq_matches q w}
    \<and> mset (map (\<lambda>a. (wa_group a, wa_count a, wa_min_created_at a)) out)
      = mset (map (\<lambda>k. let hits = filter (\<lambda>w. wq_matches q w \<and> wq_key q w = k) (hm_values (workflows g)) in
          (sort_key fst k, Some (int (length hits)),
           Some (Min (set (map (timestamp_millis \<circ> wf_created_at) hits))))) ks))"
proof -
  let ?ws = "hm_values (workflows g)"
  let ?accs = "fold (wq_step q) ?ws []"
  have out: "out = sort_key wa_group (map (wq_result q) ?accs)"
    using assms(1,2) by (simp add: get_workflow_aggregates_def truncate_opt_def Let_def)
  have "(wa_group (wq_result q p), wa_count (wq_result q p), wa_min_created_at (wq_result q p)) =
      (let hits = filter (\<lambda>w. wq_matches q w \<and> wq_key q w = fst p) ?ws in
        (sort_key fst (fst p), Some (int (length hits)),
         Some (Min (set (map (timestamp_millis \<circ> wf_created_at) hits)))))" if p: "p \<in> set ?accs" for p
    using wq_accs [of "fst p" "snd p" q ?ws, simplified, OF p] assms(3,4)
    by (simp add: case_prod_unfold wq_result_def fold_accumulate_count fold_accumulate_min agg_acc_default_def Let_def)
  then have "map (\<lambda>a. (wa_group a, wa_count a, wa_min_created_at a)) (map (wq_result q) ?accs)
      = map (\<lambda>k. let hits = filter (\<lambda>w. wq_matches q w \<and> wq_key q w = k) ?ws in
          (sort_key fst k, Some (int (length hits)),
           Some (Min (set (map (timestamp_millis \<circ> wf_created_at) hits))))) (map fst ?accs)"
    by simp
  moreover have "mset (map (\<lambda>a. (wa_group a, wa_count a, wa_min_created_at a)) out)
      = mset (map (\<lambda>a. (wa_group a, wa_count a, wa_min_created_at a)) (map (wq_result q) ?accs))"
    by (simp add: out image_mset.compositionality)
  moreover have "distinct (map fst ?accs)" by (rule wq_fold_distinct) simp
  moreover have "set (map fst ?accs) = wq_key q ` {w \<in> set ?ws. wq_matches q w}" by (simp add: wq_keys)
  moreover have "sorted (map wa_group out)" by (simp add: out)
  ultimately show ?thesis by (metis (no_types, lifting))
qed

section \<open>Witnesses\<close>

definition sample_rows :: inner where
  "sample_rows = inner_default\<lparr>workflows := [
     (''b'', workflow_status_new 9000000 ''b'' ''wf'' JNull STATUS_PENDING ''x'' ''v''),
     (''a'', workflow_status_new 5000000 ''a'' ''wf'' JNull STATUS_SUCCESS ''x'' ''v'')]\<rparr>"

definition sample_query :: workflow_aggregate_query where
  "sample_query = \<lparr>wq_by_status = False, wq_by_name = True, wq_by_queue_name = False,
     wq_by_executor_id = False, wq_by_app_version = False, wq_select_count = True,
     wq_select_min_created_at = True, wq_select_max_queue_wait_ms = False,
     wq_select_max_total_latency_ms = False, wq_time_bucket_ms = None, wq_status = [], wq_name = [],
     wq_app_version = [], wq_executor_ids = [], wq_queue_names = [], wq_workflow_id_prefix = None,
     wq_start_time_ms = None, wq_end_time_ms = None, wq_completed_after_ms = None,
     wq_completed_before_ms = None, wq_dequeued_after_ms = None, wq_dequeued_before_ms = None,
     wq_limit = None\<rparr>"

theorem listing_complete_and_paged_witness:
  "concat (map (\<lambda>k. case list_workflows (list_filter_default\<lparr>lf_offset := Some (int (k * 1)),
       lf_limit := Some (int 1)\<rparr>) sample_rows of Inr ws \<Rightarrow> ws | Inl _ \<Rightarrow> []) [0..<2])
   = map snd (rev (workflows sample_rows))"
proof -
  have "list_workflows (list_filter_default\<lparr>lf_offset := None, lf_limit := None\<rparr>) sample_rows
      = Ok (map snd (rev (workflows sample_rows)))"
    "length (map snd (rev (workflows sample_rows))) \<le> 2 * 1" by code_simp+
  from listing_complete_and_paged [OF _ this] show ?thesis by simp
qed

theorem aggregates_group_by_witness:
  "sorted (map wa_group [\<lparr>wa_group = [(''name'', Some ''wf'')], wa_count = Some 2,
     wa_min_created_at = Some 5, wa_max_queue_wait_ms = None, wa_max_total_latency_ms = None\<rparr>])"
proof -
  have "get_workflow_aggregates sample_query sample_rows = Ok [\<lparr>wa_group = [(''name'', Some ''wf'')],
     wa_count = Some 2, wa_min_created_at = Some 5, wa_max_queue_wait_ms = None,
     wa_max_total_latency_ms = None\<rparr>]"
    "wq_limit sample_query = None" "wq_select_count sample_query" "wq_select_min_created_at sample_query"
    by code_simp+
  from aggregates_group_by [OF this] show ?thesis by (rule conjunct1)
qed

end
