(* ===== verification/Memory_Export.thy ===== *)
theory Memory_Export
  imports Memory_Query
begin

text \<open>
  Export and import of a workflow's durable state in the portable form that
  the SDKs exchange: one column-keyed JSON object per row.  Walking the children
  of an exported workflow does not remember where it has been, so it may not
  end on a cyclic parent link; it is a partial function, \<open>None\<close> being
  the walk that never returns.
\<close>

section \<open>Definitions\<close>

definition ms_to_dt :: "(int \<Rightarrow> datetime option) \<Rightarrow> datetime \<Rightarrow> int option \<Rightarrow> datetime" where
  "ms_to_dt from_ts now ms = unwrap_or now (Option.bind ms from_ts)"

definition payload_str :: "codec \<Rightarrow> json \<Rightarrow> json" where
  "payload_str C v = JString (json_to_string C v)"

definition status_to_map :: "codec \<Rightarrow> workflow_status \<Rightarrow> jmap" where
  "status_to_map C w = [
     (''workflow_uuid'', JString (wf_id w)),
     (''status'', JString (wf_status w)),
     (''name'', JString (wf_name w)),
     (''authenticated_user'', j_opt_str (wf_authenticated_user w)),
     (''assumed_role'', j_opt_str (wf_assumed_role w)),
     (''authenticated_roles'', j_opt_str (encode_roles C (wf_authenticated_roles w))),
     (''output'', case wf_output w of None \<Rightarrow> JNull | Some v \<Rightarrow> payload_str C v),
     (''error'', j_opt_str (map_option (\<lambda>message.
        encode_stored_error C Json_Format message (wf_error_info w)) (wf_error w))),
     (''executor_id'', JString (wf_executor_id w)),
     (''created_at'', JInt (timestamp_millis (wf_created_at w))),
     (''updated_at'', JInt (timestamp_millis (wf_updated_at w))),
     (''application_version'', JString (wf_app_version w)),
     (''application_id'', JNull),
     (''class_name'', j_opt_str (wf_class_name w)),
     (''config_name'', j_opt_str (wf_config_name w)),
     (''recovery_attempts'', JInt (wf_recovery_attempts w)),
     (''queue_name'', j_opt_str (wf_queue_name w)),
     (''workflow_timeout_ms'', j_opt_int (wf_timeout_ms w)),
     (''workflow_deadline_epoch_ms'', j_opt_int (wf_deadline_ms w)),
     (''started_at_epoch_ms'', j_opt_int (wf_started_at_ms w)),
     (''deduplication_id'', j_opt_str (wf_dedup_id w)),
     (''inputs'', payload_str C (wf_input w)),
     (''priority'', JInt (wf_priority w)),
     (''queue_partition_key'', j_opt_str (wf_queue_partition_key w)),
     (''forked_from'', j_opt_str (wf_forked_from w)),
     (''parent_workflow_id'', j_opt_str (wf_parent_workflow_id w)),
     (''delay_until_epoch_ms'', j_opt_int (wf_delay_until_ms w)),
     (''completed_at'', j_opt_int (wf_completed_at_ms w)),
     (''serialization'', JNull)]"

definition parse_opt :: "codec \<Rightarrow> string option \<Rightarrow> json option" where
  "parse_opt C t = Option.bind t (\<lambda>s. case json_from_str C s of Inr v \<Rightarrow> Some v | Inl _ \<Rightarrow> None)"

definition map_to_status :: "codec \<Rightarrow> (int \<Rightarrow> datetime option) \<Rightarrow> datetime \<times> datetime \<Rightarrow> jmap \<Rightarrow> workflow_status" where
  "map_to_status C from_ts now s =
     (let (err, info) = decode_error_opt C (col_str s ''serialization'') (col_str s ''error'') in
      \<lparr>wf_id = unwrap_or [] (col_str s ''workflow_uuid''),
       wf_name = unwrap_or [] (col_str s ''name''),
       wf_status = unwrap_or [] (col_str s ''status''),
       wf_input = unwrap_or JNull (parse_opt C (col_str s ''inputs'')),
       wf_output = parse_opt C (col_str s ''output''),
       wf_error = err,
       wf_error_info = info,
       wf_executor_id = unwrap_or [] (col_str s ''executor_id''),
       wf_app_version = unwrap_or [] (col_str s ''application_version''),
       wf_queue_name = col_str s ''queue_name'',
       wf_queue_partition_key = col_str s ''queue_partition_key'',
       wf_priority = wrap_i32 (unwrap_or 0 (col_i64 s ''priority'')),
       wf_dedup_id = col_str s ''deduplication_id'',
       wf_recovery_attempts = wrap_i32 (unwrap_or 0 (col_i64 s ''recovery_attempts'')),
       wf_parent_workflow_id = col_str s ''parent_workflow_id'',
       wf_timeout_ms = col_i64 s ''workflow_timeout_ms'',
       wf_deadline_ms = col_i64 s ''workflow_deadline_epoch_ms'',
       wf_started_at_ms = col_i64 s ''started_at_epoch_ms'',
       wf_rate_limited = False,
       wf_delay_until_ms = col_i64 s ''delay_until_epoch_ms'',
       wf_completed_at_ms = col_i64 s ''completed_at'',
       wf_forked_from = col_str s ''forked_from'',
       wf_authenticated_user = col_str s ''authenticated_user'',
       wf_assumed_role = col_str s ''assumed_role'',
       wf_authenticated_roles = decode_roles C (col_str s ''authenticated_roles''),
       wf_class_name = col_str s ''class_name'',
       wf_config_name = col_str s ''config_name'',
       wf_created_at = ms_to_dt from_ts (fst now) (col_i64 s ''created_at''),
       wf_updated_at = ms_to_dt from_ts (snd now) (col_i64 s ''updated_at''),
       wf_attributes = None\<rparr>)"

definition step_to_map :: "codec \<Rightarrow> string \<Rightarrow> int \<Rightarrow> step_row \<Rightarrow> jmap" where
  "step_to_map C w seq r = [
     (''workflow_uuid'', JString w), (''function_id'', JInt seq), (''function_name'', JString (sr_name r)),
     (''output'', case sr_output r of None \<Rightarrow> JNull | Some v \<Rightarrow> payload_str C v),
     (''error'', j_opt_str (sr_error r)), (''child_workflow_id'', j_opt_str (sr_child_workflow_id r)),
     (''started_at_epoch_ms'', j_opt_int (sr_started_at_ms r)),
     (''completed_at_epoch_ms'', j_opt_int (sr_completed_at_ms r))]"

definition event_to_map :: "codec \<Rightarrow> string \<Rightarrow> string \<Rightarrow> json \<Rightarrow> jmap" where
  "event_to_map C w key v =
     [(''workflow_uuid'', JString w), (''key'', JString key), (''value'', payload_str C v)]"

definition stream_to_map :: "codec \<Rightarrow> string \<Rightarrow> string \<Rightarrow> int \<Rightarrow> json option \<Rightarrow> jmap" where
  "stream_to_map C w key offset entry =
     [(''workflow_uuid'', JString w), (''key'', JString key),
      (''value'', case entry of Some v \<Rightarrow> payload_str C v | None \<Rightarrow> JString STREAM_CLOSED_SENTINEL),
      (''offset'', JInt offset), (''function_id'', JNull)]"

definition children_sorted :: "inner \<Rightarrow> string \<Rightarrow> string list" where
  "children_sorted g parent = sort (map wf_id (filter (\<lambda>w. wf_parent_workflow_id w = Some parent)
     (hm_values (workflows g))))"

text \<open>The stack is a list whose last element is popped; ids accumulate in order.\<close>

partial_function (option) export_walk :: "inner \<Rightarrow> string list \<Rightarrow> string list \<Rightarrow> string list option" where
  "export_walk g stack ids =
     (if stack = [] then Some ids
      else (let cs = children_sorted g (last stack) in export_walk g (butlast stack @ cs) (ids @ cs)))"

declare export_walk.simps [code]

definition export_one :: "codec \<Rightarrow> inner \<Rightarrow> string \<Rightarrow> workflow_status \<Rightarrow> exported_workflow" where
  "export_one C g i w = \<lparr>
     xw_workflow_status = AList.update ''was_forked_from'' (JBool (wf_id w \<in> set (fork_sources g)))
       (status_to_map C w),
     xw_operation_outputs = map (\<lambda>(seq, r). step_to_map C i seq r) (steps_of i g),
     xw_workflow_events = map (\<lambda>(k, v). event_to_map C i k v) (sort_key fst
       (map (\<lambda>((_, k), v). (k, v)) (filter (\<lambda>((wid, _), _). wid = i) (events g)))),
     xw_workflow_events_history = [],
     xw_streams = concat (map (\<lambda>(key, entries).
         map (\<lambda>(offset, entry). stream_to_map C i key (int offset) entry) (enumerate 0 entries))
       (sort_key fst (map (\<lambda>((_, k), es). (k, es)) (filter (\<lambda>((wid, _), _). wid = i) (streams g)))))\<rparr>"

fun export_each :: "codec \<Rightarrow> inner \<Rightarrow> string list \<Rightarrow> exported_workflow list result" where
  "export_each C g [] = Ok []"
| "export_each C g (i # ids) = (case map_of (workflows g) i of
       None \<Rightarrow> Err (NonExistentWorkflow i)
     | Some w \<Rightarrow> result_bind (export_each C g ids) (\<lambda>xs. Ok (export_one C g i w # xs)))"

definition export_workflow :: "codec \<Rightarrow> string \<Rightarrow> bool \<Rightarrow> inner \<Rightarrow> exported_workflow list result option" where
  "export_workflow C i export_children g =
     map_option (export_each C g) (if export_children then export_walk g [i] [i] else Some [i])"

definition import_step :: "codec \<Rightarrow> string \<Rightarrow> jmap \<Rightarrow> (string \<times> int, step_row) hashmap \<Rightarrow> (string \<times> int, step_row) hashmap" where
  "import_step C i op m = AList.update (i, wrap_i32 (unwrap_or 0 (col_i64 op ''function_id'')))
     \<lparr>sr_name = unwrap_or [] (col_str op ''function_name''),
      sr_output = parse_opt C (col_str op ''output''),
      sr_error = map_option (\<lambda>stored. let (message, info) = decode_error C (col_str op ''serialization'') stored in
          encode_stored_error C Json_Format message info) (col_str op ''error''),
      sr_child_workflow_id = col_str op ''child_workflow_id'',
      sr_started_at_ms = col_i64 op ''started_at_epoch_ms'',
      sr_completed_at_ms = col_i64 op ''completed_at_epoch_ms''\<rparr> m"

definition import_event :: "codec \<Rightarrow> string \<Rightarrow> jmap \<Rightarrow> (string \<times> string, json) hashmap \<Rightarrow> (string \<times> string, json) hashmap" where
  "import_event C i ev m = AList.update (i, unwrap_or [] (col_str ev ''key''))
     (unwrap_or JNull (parse_opt C (col_str ev ''value''))) m"

definition stream_entry :: "codec \<Rightarrow> jmap \<Rightarrow> string \<times> nat \<times> json option" where
  "stream_entry C st = (unwrap_or [] (col_str st ''key''), as_usize (unwrap_or 0 (col_i64 st ''offset'')),
     case col_str st ''value'' of
       Some v \<Rightarrow> if v = STREAM_CLOSED_SENTINEL then None else parse_opt C (Some v)
     | None \<Rightarrow> None)"

definition group_by_key :: "(string \<times> nat \<times> json option) list \<Rightarrow> (string, (nat \<times> json option) list) hashmap" where
  "group_by_key xs = fold (\<lambda>(k, x) m. AList.update k (unwrap_or [] (map_of m k) @ [x]) m) xs []"

definition fill_buffer :: "(nat \<times> json option) list \<Rightarrow> json option list" where
  "fill_buffer rows =
     (let len = fold max (map (\<lambda>(off, _). off + 1) rows) 0 in
      fold (\<lambda>(off, e) buf. buf[off := e]) rows (replicate len None))"

definition import_one :: "codec \<Rightarrow> (int \<Rightarrow> datetime option) \<Rightarrow> (string \<Rightarrow> datetime \<times> datetime)
  \<Rightarrow> exported_workflow \<Rightarrow> inner \<Rightarrow> inner" where
  "import_one C from_ts clock x g =
     (let i = unwrap_or [] (col_str (xw_workflow_status x) ''workflow_uuid'') in
      g\<lparr>workflows := AList.update i (map_to_status C from_ts (clock i) (xw_workflow_status x)) (workflows g),
        steps := fold (import_step C i) (xw_operation_outputs x) (steps g),
        events := fold (import_event C i) (xw_workflow_events x) (events g),
        streams := fold (\<lambda>(key, rows). AList.update (i, key) (fill_buffer rows))
          (group_by_key (map (stream_entry C) (xw_streams x))) (streams g)\<rparr>)"

definition import_conflict :: "exported_workflow \<Rightarrow> inner \<Rightarrow> bool" where
  "import_conflict x g = is_some_and (col_str (xw_workflow_status x) ''workflow_uuid'')
     (contains_key (workflows g))"

definition import_workflow :: "codec \<Rightarrow> (int \<Rightarrow> datetime option) \<Rightarrow> (string \<Rightarrow> datetime \<times> datetime)
  \<Rightarrow> exported_workflow list \<Rightarrow> inner \<Rightarrow> unit result \<times> inner" where
  "import_workflow C from_ts clock xs g = (case List.find (\<lambda>x. import_conflict x g) xs of
       Some x \<Rightarrow> (Err (app (''workflow '' @ unwrap_or [] (col_str (xw_workflow_status x) ''workflow_uuid'')
           @ '' already exists'')), g)
     | None \<Rightarrow> (Ok (), fold (import_one C from_ts clock) xs g))"

text \<open>What the portable form keeps of a row: the rate-limit mark and the attributes are not
  part of it, and instants keep their milliseconds.\<close>

definition trunc_ms :: "datetime \<Rightarrow> datetime" where
  "trunc_ms t = 1000000 * timestamp_millis t"

definition portable_row :: "workflow_status \<Rightarrow> workflow_status" where
  "portable_row w = w\<lparr>wf_rate_limited := False, wf_attributes := None,
     wf_created_at := trunc_ms (wf_created_at w), wf_updated_at := trunc_ms (wf_updated_at w)\<rparr>"

text \<open>The values of a workflow that the text codec must carry, and the bounds of its integers.\<close>

definition payload_ok :: "codec \<Rightarrow> json \<Rightarrow> bool" where
  "payload_ok C v \<longleftrightarrow> json_from_str C (json_to_string C v) = Inr v
     \<and> json_to_string C v \<noteq> STREAM_CLOSED_SENTINEL"

definition error_ok :: "codec \<Rightarrow> workflow_status \<Rightarrow> bool" where
  "error_ok C w = (case (wf_error w, wf_error_info w) of
       (None, None) \<Rightarrow> True
     | (Some m, None) \<Rightarrow> \<not> starts_with m PREFIX
     | (Some m, Some info) \<Rightarrow> pe_name info = NAME \<and> pe_message info = m
         \<and> env_from_str C (env_to_string C info) = Some info
     | (None, Some _) \<Rightarrow> False)"

definition row_ok :: "codec \<Rightarrow> (int \<Rightarrow> datetime option) \<Rightarrow> workflow_status \<Rightarrow> bool" where
  "row_ok C from_ts w \<longleftrightarrow> payload_ok C (wf_input w) \<and> pred_option (payload_ok C) (wf_output w)
     \<and> error_ok C w
     \<and> (wf_authenticated_roles w = [] \<or> json_from_str C (json_to_string C
          (JArray (map JString (wf_authenticated_roles w)))) = Inr (JArray (map JString (wf_authenticated_roles w))))
     \<and> is_i32 (wf_priority w) \<and> is_i32 (wf_recovery_attempts w)
     \<and> pred_option is_i64 (wf_timeout_ms w) \<and> pred_option is_i64 (wf_deadline_ms w)
     \<and> pred_option is_i64 (wf_started_at_ms w) \<and> pred_option is_i64 (wf_delay_until_ms w)
     \<and> pred_option is_i64 (wf_completed_at_ms w)
     \<and> list_all (\<lambda>t. is_i64 (timestamp_millis t) \<and> from_ts (timestamp_millis t) = Some (trunc_ms t))
         [wf_created_at w, wf_updated_at w]"

definition step_ok :: "codec \<Rightarrow> int \<Rightarrow> step_row \<Rightarrow> bool" where
  "step_ok C seq r \<longleftrightarrow> is_i32 seq \<and> pred_option (payload_ok C) (sr_output r)
     \<and> pred_option (\<lambda>e. case strip_prefix e PREFIX of None \<Rightarrow> True
          | Some t \<Rightarrow> pred_option (\<lambda>env. pe_name env = NAME \<longrightarrow> env_to_string C env = t) (env_from_str C t)) (sr_error r)
     \<and> pred_option is_i64 (sr_started_at_ms r) \<and> pred_option is_i64 (sr_completed_at_ms r)"

definition stream_ok :: "codec \<Rightarrow> json option list \<Rightarrow> bool" where
  "stream_ok C es \<longleftrightarrow> es \<noteq> [] \<and> int (length es) < 2 ^ 63 \<and> list_all (pred_option (payload_ok C)) es"

definition exportable :: "codec \<Rightarrow> (int \<Rightarrow> datetime option) \<Rightarrow> string \<Rightarrow> workflow_status \<Rightarrow> inner \<Rightarrow> bool" where
  "exportable C from_ts i w g \<longleftrightarrow> row_ok C from_ts w
     \<and> list_all (\<lambda>((wid, seq), r). wid = i \<longrightarrow> step_ok C seq r) (steps g)
     \<and> list_all (\<lambda>((wid, k), v). wid = i \<longrightarrow> payload_ok C v) (events g)
     \<and> list_all (\<lambda>((wid, k), es). wid = i \<longrightarrow> stream_ok C es) (streams g)"

definition absent :: "string \<Rightarrow> inner \<Rightarrow> bool" where
  "absent i g \<longleftrightarrow> list_all (\<lambda>(w, _). w \<noteq> i) (workflows g) \<and> list_all (\<lambda>((w, _), _). w \<noteq> i) (steps g)
     \<and> list_all (\<lambda>((w, _), _). w \<noteq> i) (events g) \<and> list_all (\<lambda>((w, _), _). w \<noteq> i) (streams g)"

section \<open>Columns\<close>

lemma col_simps [simp]:
  "col_str ((k, v) # m) k' = (if k' = k then as_str v else col_str m k')"
  "col_i64 ((k, v) # m) k' = (if k' = k then as_i64 v else col_i64 m k')"
  "col_str [] k' = None" "col_i64 [] k' = None"
  by (simp_all add: col_str_def col_i64_def)

lemma col_update [simp]:
  "k' \<noteq> k \<Longrightarrow> col_str (AList.update k v m) k' = col_str m k'"
  "k' \<noteq> k \<Longrightarrow> col_i64 (AList.update k v m) k' = col_i64 m k'"
  by (simp_all add: col_str_def col_i64_def)

lemma parse_payload [simp]:
  "payload_ok C v \<Longrightarrow> parse_opt C (Some (json_to_string C v)) = Some v"
  "parse_opt C None = None"
  by (simp_all add: parse_opt_def payload_ok_def)

lemma as_str_payload [simp]: "as_str (payload_str C v) = Some (json_to_string C v)"
  by (simp add: payload_str_def)

lemma parse_output:
  "pred_option (payload_ok C) x \<Longrightarrow>
   parse_opt C (as_str (case x of None \<Rightarrow> JNull | Some v \<Rightarrow> payload_str C v)) = x"
  by (cases x) simp_all

lemma roles_roundtrip:
  assumes "roles = [] \<or> json_from_str C (json_to_string C (JArray (map JString roles))) = Inr (JArray (map JString roles))"
  shows "decode_roles C (encode_roles C roles) = roles"
  using assms by (auto simp: decode_roles_def encode_roles_def list_all_iff o_def)

lemma error_roundtrip:
  assumes "error_ok C w"
  shows "decode_error_opt C None (map_option (\<lambda>m. encode_stored_error C Json_Format m (wf_error_info w)) (wf_error w))
    = (wf_error w, wf_error_info w)"
  using assms
  by (cases "wf_error w"; cases "wf_error_info w")
     (auto simp: error_ok_def decode_error_opt_def encode_stored_error_def decode_error_def without_prefix)

lemma is_i32_i64: "is_i32 x \<Longrightarrow> is_i64 x"
  by (simp add: is_i32_def is_i64_def)

lemma status_roundtrip:
  assumes "row_ok C from_ts w"
  shows "map_to_status C from_ts now (AList.update ''was_forked_from'' b (status_to_map C w)) = portable_row w"
  using assms error_roundtrip [of C w]
  by (simp add: row_ok_def map_to_status_def status_to_map_def ms_to_dt_def parse_output roles_roundtrip
      is_i32_i64 portable_row_def)

section \<open>Steps, events and streams\<close>

lemma step_roundtrip:
  assumes "step_ok C seq r"
  shows "import_step C i (step_to_map C i seq r) m = AList.update (i, seq) r m"
proof -
  have "map_option (\<lambda>stored. let (message, info) = decode_error C None stored in
      encode_stored_error C Json_Format message info) (sr_error r) = sr_error r"
  proof (cases "sr_error r")
    case (Some e)
    show ?thesis
    proof (cases "strip_prefix e PREFIX")
      case (Some t)
      then have "e = PREFIX @ t" by (auto simp: strip_prefix_def starts_with_def split: if_splits)
           (metis append_take_drop_id)
      then show ?thesis using assms Some \<open>sr_error r = Some e\<close>
        by (cases "env_from_str C t") (auto simp: step_ok_def decode_error_def encode_stored_error_def)
    qed (use Some in \<open>simp add: decode_error_def encode_stored_error_def\<close>)
  qed simp
  moreover have eta: "\<lparr>sr_name = sr_name r, sr_output = sr_output r, sr_error = sr_error r,
      sr_child_workflow_id = sr_child_workflow_id r, sr_started_at_ms = sr_started_at_ms r,
      sr_completed_at_ms = sr_completed_at_ms r\<rparr> = r" by (cases r) simp
  ultimately show ?thesis
    using assms by (simp add: step_ok_def import_step_def step_to_map_def parse_output is_i32_i64 eta)
qed

lemma fold_import_steps:
  assumes "\<forall>(seq, r) \<in> set L. step_ok C seq r"
  shows "fold (import_step C i) (map (\<lambda>(seq, r). step_to_map C i seq r) L) m
    = fold (\<lambda>(q, v). AList.update (i, q) v) L m"
  using assms by (induction L arbitrary: m) (auto simp: step_roundtrip)

lemma fold_import_events:
  assumes "\<forall>(k, v) \<in> set L. payload_ok C v"
  shows "fold (import_event C i) (map (\<lambda>(k, v). event_to_map C i k v) L) m
    = fold (\<lambda>(q, v). AList.update (i, q) v) L m"
  using assms by (induction L arbitrary: m) (auto simp: import_event_def event_to_map_def)

lemma stream_entry_roundtrip:
  assumes "pred_option (payload_ok C) e" "int off < 2 ^ 63"
  shows "stream_entry C (stream_to_map C i key (int off) e) = (key, off, e)"
proof -
  have "is_i64 (int off)" "as_usize (int off) = off" using assms(2) by (simp_all add: is_i64_def as_usize_def)
  then show ?thesis
    using assms(1) by (cases e) (simp_all add: stream_entry_def stream_to_map_def payload_ok_def parse_opt_def)
qed

lemma group_by_key_fold:
  "map_of (fold (\<lambda>(k, x) m. AList.update k (unwrap_or [] (map_of m k) @ [x]) m) xs m) k =
     (let hits = filter (\<lambda>p. fst p = k) xs in
      if hits = [] then map_of m k else Some (unwrap_or [] (map_of m k) @ map snd hits))"
  by (induction xs arbitrary: m) (auto simp: Let_def)

lemma group_by_key_distinct: "distinct (map fst (group_by_key xs))"
proof -
  have "distinct (map fst m) \<Longrightarrow>
    distinct (map fst (fold (\<lambda>(k, x) m. AList.update k (unwrap_or [] (map_of m k) @ [x]) m) xs m))" for m
    by (induction xs arbitrary: m) auto
  from this [of "[]"] show ?thesis by (simp add: group_by_key_def)
qed

lemma fill_enumerate_fold:
  "n + length es \<le> length buf \<Longrightarrow>
   fold (\<lambda>(off, e) buf. buf[off := e]) (enumerate n es) buf = take n buf @ es @ drop (n + length es) buf"
proof (induction es arbitrary: n buf)
  case (Cons e es)
  then have "fold (\<lambda>(off, e) buf. buf[off := e]) (enumerate (Suc n) es) (buf[n := e])
      = take (Suc n) (buf[n := e]) @ es @ drop (Suc n + length es) (buf[n := e])"
    by simp
  also have "take (Suc n) (buf[n := e]) = take n buf @ [e]"
    using Cons.prems by (simp add: take_Suc_conv_app_nth)
  finally show ?case using Cons.prems by simp
qed simp

lemma fold_max_enumerate:
  "fold max (map (\<lambda>(off, _). off + 1) (enumerate n es)) a = (if es = [] then a else max a (n + length es))"
  by (induction es arbitrary: n a) auto

lemma fill_enumerate: "fill_buffer (enumerate 0 es) = es"
  using fold_max_enumerate [of 0 es 0] fill_enumerate_fold [of 0 es "replicate (length es) None"]
  by (cases "es = []") (simp_all add: fill_buffer_def Let_def)

lemma fold_group_update:
  "fold (\<lambda>(key, rows). AList.update (i, key) (fill_buffer rows)) gs m
     = fold (\<lambda>(q, v). AList.update (i, q) v) (map (\<lambda>(k, rows). (k, fill_buffer rows)) gs) m"
  by (induction gs arbitrary: m) auto

definition stream_rows :: "(string \<times> json option list) list \<Rightarrow> (string \<times> nat \<times> json option) list" where
  "stream_rows S = concat (map (\<lambda>(k, es). map (\<lambda>(off, e). (k, off, e)) (enumerate 0 es)) S)"

lemma stream_rows_filter:
  assumes "distinct (map fst S)"
  shows "filter (\<lambda>p. fst p = k) (stream_rows S) =
    (case map_of S k of None \<Rightarrow> [] | Some es \<Rightarrow> map (\<lambda>(off, e). (k, off, e)) (enumerate 0 es))"
  using assms
proof (induction S)
  case (Cons p S)
  obtain k' es where p: "p = (k', es)" by (cases p)
  have "k' \<notin> fst ` set S" using Cons.prems p by simp
  then have "map_of S k' = None" by (simp add: map_of_eq_None_iff)
  then show ?case using Cons by (auto simp: p stream_rows_def filter_map o_def case_prod_unfold)
qed (simp add: stream_rows_def)

lemma enumerate_Nil_iff [simp]: "enumerate n xs = [] \<longleftrightarrow> xs = []"
  by (cases xs) simp_all

lemma group_stream_rows_lookup:
  assumes "distinct (map fst S)" "\<forall>(k, es) \<in> set S. es \<noteq> []"
  shows "map_of (map (\<lambda>(k, rows). (k, fill_buffer rows)) (group_by_key (stream_rows S))) k = map_of S k"
proof -
  have "map_of (group_by_key (stream_rows S)) k = map_option (enumerate 0) (map_of S k)"
    using assms stream_rows_filter [OF assms(1), of k]
    by (cases "map_of S k") (auto simp: group_by_key_def group_by_key_fold Let_def o_def dest!: map_of_SomeD)
  moreover have "map_of (map (\<lambda>(k, rows). (k, fill_buffer rows)) gs) k = map_option fill_buffer (map_of gs k)" for gs
    by (induction gs) auto
  ultimately show ?thesis by (simp add: option.map_comp o_def fill_enumerate option.map_ident)
qed

lemma export_streams_rows:
  assumes "\<forall>(k, es) \<in> set S. stream_ok C es"
  shows "map (stream_entry C) (concat (map (\<lambda>(key, entries).
       map (\<lambda>(offset, entry). stream_to_map C i key (int offset) entry) (enumerate 0 entries)) S)) = stream_rows S"
  using assms
proof (induction S)
  case (Cons p S)
  obtain k es where p: "p = (k, es)" by (cases p)
  have "stream_entry C (stream_to_map C i k (int off) e) = (k, off, e)" if "(off, e) \<in> set (enumerate 0 es)" for off e
    using that Cons.prems
    by (intro stream_entry_roundtrip) (auto simp: p stream_ok_def list_all_iff in_set_enumerate_eq)
  then have "map (stream_entry C) (map (\<lambda>(off, e). stream_to_map C i k (int off) e) (enumerate 0 es))
      = map (\<lambda>(off, e). (k, off, e)) (enumerate 0 es)" by auto
  then show ?case using Cons by (simp add: p stream_rows_def)
qed (simp add: stream_rows_def)

section \<open>A workflow's own rows\<close>

definition own :: "string \<Rightarrow> (string \<times> 'k :: linorder, 'v) hashmap \<Rightarrow> ('k \<times> 'v) list" where
  "own i m = sort_key fst (map (\<lambda>((_, k), v). (k, v)) (filter (\<lambda>((wid, _), _). wid = i) m))"

lemma own_distinct: "distinct (map fst m) \<Longrightarrow> distinct (map fst (own i m))"
proof -
  assume d: "distinct (map fst m)"
  have "distinct (map fst (map (\<lambda>((_, k), v). (k, v)) (filter (\<lambda>((wid, _), _). wid = i) m)))"
    using d by (induction m) (auto simp: image_iff)
  then show ?thesis by (simp add: own_def distinct_map inj_on_def)
qed

lemma set_own: "(k, v) \<in> set (own i m) \<longleftrightarrow> ((i, k), v) \<in> set m"
  by (force simp: own_def)

lemma own_lookup:
  assumes "distinct (map fst m)"
  shows "map_of (own i m) k = map_of m (i, k)"
proof (cases "map_of m (i, k)")
  case None
  then have "k \<notin> fst ` set (own i m)" by (force simp: map_of_eq_None_iff set_own)
  then have "map_of (own i m) k = None" by (simp add: map_of_eq_None_iff)
  then show ?thesis using None by simp
next
  case (Some v)
  then have "(k, v) \<in> set (own i m)" by (simp add: set_own map_of_SomeD)
  then show ?thesis using Some own_distinct [OF assms] by simp
qed

lemma fold_own_lookup:
  assumes "distinct (map fst m)" "\<forall>k. map_of h (i, k) = None"
  shows "map_of (fold (\<lambda>(q, v). AList.update (i, q) v) (own i m) h) (w, k)
    = (if w = i then map_of m (i, k) else map_of h (w, k))"
  using assms by (simp add: fold_update_lookup own_distinct own_lookup split: option.split)

lemma absent_lookups:
  assumes "absent i h"
  shows "map_of (workflows h) i = None" "map_of (steps h) (i, q) = None"
    "map_of (events h) (i, k) = None" "map_of (streams h) (i, k') = None"
  using assms by (auto simp: absent_def list_all_iff map_of_eq_None_iff)

lemma export_one_own:
  "xw_operation_outputs (export_one C g i w) = map (\<lambda>(seq, r). step_to_map C i seq r) (own i (steps g))"
  "xw_workflow_events (export_one C g i w) = map (\<lambda>(k, v). event_to_map C i k v) (own i (events g))"
  "xw_streams (export_one C g i w) = concat (map (\<lambda>(key, entries).
     map (\<lambda>(offset, entry). stream_to_map C i key (int offset) entry) (enumerate 0 entries)) (own i (streams g)))"
  by (simp_all add: export_one_def own_def steps_of_def)

lemma export_one_id: "wf_id w = i \<Longrightarrow> col_str (xw_workflow_status (export_one C g i w)) ''workflow_uuid'' = Some i"
  by (simp add: export_one_def status_to_map_def)

lemma map_to_status_id [simp]:
  "wf_id (map_to_status C from_ts now s) = unwrap_or [] (col_str s ''workflow_uuid'')"
  by (simp add: map_to_status_def case_prod_unfold Let_def)

lemma import_one_inv: "mem_inv h \<Longrightarrow> mem_inv (import_one C from_ts clock x h)"
proof -
  assume h: "mem_inv h"
  have "distinct (map fst m) \<Longrightarrow> distinct (map fst (fold (import_step C i) ops m))" for i ops m
    by (induction ops arbitrary: m) (auto simp: import_step_def)
  moreover have "distinct (map fst m) \<Longrightarrow> distinct (map fst (fold (import_event C i) evs m))" for i evs m
    by (induction evs arbitrary: m) (auto simp: import_event_def)
  ultimately show ?thesis
    using h by (simp add: import_one_def Let_def fold_group_update distinct_fold_update
        mem_inv_def del: mem_invD)
qed

lemma import_workflow_inv [inv_intros]: "mem_inv h \<Longrightarrow> mem_inv (snd (import_workflow C from_ts clock xs h))"
proof -
  have "mem_inv h \<Longrightarrow> mem_inv (fold (import_one C from_ts clock) xs h)"
    by (induction xs arbitrary: h) (auto intro: import_one_inv)
  then show "mem_inv h \<Longrightarrow> mem_inv (snd (import_workflow C from_ts clock xs h))"
    by (simp add: import_workflow_def split: option.split)
qed

section \<open>Properties\<close>

text \<open>What an import of an export restores.\<close>

lemma export_restored:
  assumes "mem_inv g" "map_of (workflows g) i = Some w" "exportable C from_ts i w g" "absent i h"
  shows "\<exists>xs h'. export_workflow C i False g = Some (Ok xs)
    \<and> import_workflow C from_ts clock xs h = (Ok (), h')
    \<and> map_of (workflows h') i = Some (portable_row w)
    \<and> (\<forall>q. map_of (steps h') (i, q) = map_of (steps g) (i, q))
    \<and> (\<forall>k. map_of (events h') (i, k) = map_of (events g) (i, k))
    \<and> (\<forall>k. map_of (streams h') (i, k) = map_of (streams g) (i, k))
    \<and> (\<forall>j q k. j \<noteq> i \<longrightarrow> map_of (workflows h') j = map_of (workflows h) j
         \<and> map_of (steps h') (j, q) = map_of (steps h) (j, q)
         \<and> map_of (events h') (j, k) = map_of (events h) (j, k)
         \<and> map_of (streams h') (j, k) = map_of (streams h) (j, k))"
proof -
  let ?x = "export_one C g i w"
  let ?h = "import_one C from_ts clock ?x h"
  have id: "wf_id w = i" using assms(1,2) by (rule row_id)
  note abs = absent_lookups [OF assms(4)]
  have "\<not> import_conflict ?x h"
    using abs(1) by (simp add: import_conflict_def export_one_id id contains_key_def)
  then have imp: "import_workflow C from_ts clock [?x] h = (Ok (), ?h)"
    by (simp add: import_workflow_def)
  have exp: "export_workflow C i False g = Some (Ok [?x])"
    using assms(2) by (simp add: export_workflow_def)
  have oks: "\<forall>(seq, r) \<in> set (own i (steps g)). step_ok C seq r"
      "\<forall>(k, v) \<in> set (own i (events g)). payload_ok C v"
      "\<forall>(k, es) \<in> set (own i (streams g)). stream_ok C es"
    using assms(3) by (auto simp: exportable_def list_all_iff set_own)
  have uuid: "unwrap_or [] (col_str (xw_workflow_status ?x) ''workflow_uuid'') = i"
    by (simp add: export_one_id id)
  have wfs: "workflows ?h = AList.update i (portable_row w) (workflows h)"
    using status_roundtrip [of C from_ts w] assms(3)
    by (simp add: import_one_def Let_def uuid exportable_def) (simp add: export_one_def)
  have sts: "steps ?h = fold (\<lambda>(q, v). AList.update (i, q) v) (own i (steps g)) (steps h)"
    using oks(1) by (simp add: import_one_def Let_def uuid export_one_own fold_import_steps)
  have evs: "events ?h = fold (\<lambda>(q, v). AList.update (i, q) v) (own i (events g)) (events h)"
    using oks(2) by (simp add: import_one_def Let_def uuid export_one_own fold_import_events)
  have strs: "map_of (streams ?h) (j, k) = (if j = i then map_of (streams g) (i, k) else map_of (streams h) (j, k))"
    for j k
  proof -
    let ?S = "own i (streams g)"
    let ?G = "map (\<lambda>(k, rows). (k, fill_buffer rows)) (group_by_key (stream_rows ?S))"
    have d: "distinct (map fst ?S)" using assms(1) by (simp add: own_distinct)
    have "\<forall>(k, es) \<in> set ?S. es \<noteq> []" using oks(3) by (auto simp: stream_ok_def)
    from group_stream_rows_lookup [OF d this]
    have "map_of ?G k = map_of (streams g) (i, k)" using assms(1) by (simp add: own_lookup)
    moreover have "distinct (map fst ?G)"
      using group_by_key_distinct [of "stream_rows ?S"] by (simp add: case_prod_unfold o_def)
    ultimately show ?thesis
      using abs(4) by (simp add: import_one_def Let_def uuid export_one_own export_streams_rows [OF oks(3)]
          fold_group_update fold_update_lookup split: option.split)
  qed
  show ?thesis
    using exp imp abs(2,3) assms(1) strs
    by (intro exI [of _ "[?x]"] exI [of _ ?h]) (simp add: wfs sts evs fold_own_lookup)
qed

text \<open>
  C27: an import restores what the portable form carries.  A workflow exported on its
  own, without its children, and imported into a store that does not hold it
  has there the same steps, events and streams and the portable form of its
  row: every field of it, but the attributes and the rate-limit mark are dropped and
  the instants of its creation and last update are cut to milliseconds.  No
  other workflow of the target changes.  Relied on: the text codec carries the
  workflow's payloads, its error texts are in canonical form, its integers are in range,
  and the clock conversion is exact on its instants.
\<close>

theorem export_import_roundtrip:
  assumes "mem_inv g" "map_of (workflows g) i = Some w" "exportable C from_ts i w g" "absent i h"
  shows "\<exists>xs h'. export_workflow C i False g = Some (Ok xs)
    \<and> import_workflow C from_ts clock xs h = (Ok (), h')
    \<and> map_of (workflows h') i = Some (portable_row w)
    \<and> (\<forall>q. map_of (steps h') (i, q) = map_of (steps g) (i, q))
    \<and> (\<forall>k. map_of (events h') (i, k) = map_of (events g) (i, k))
    \<and> (\<forall>k. map_of (streams h') (i, k) = map_of (streams g) (i, k))
    \<and> (\<forall>j q k. j \<noteq> i \<longrightarrow> map_of (workflows h') j = map_of (workflows h) j
         \<and> map_of (steps h') (j, q) = map_of (steps h) (j, q)
         \<and> map_of (events h') (j, k) = map_of (events h) (j, k)
         \<and> map_of (streams h') (j, k) = map_of (streams h) (j, k))"
  using assms by (rule export_restored)

text \<open>
  An import never overwrites.  If any workflow of the batch already exists
  the whole import is refused and the store is unchanged; otherwise every workflow
  that was in the store keeps its row, steps, events and streams.
\<close>

theorem import_never_overwrites:
  assumes "import_workflow C from_ts clock xs h = (r, h')" "map_of (workflows h) j = Some w"
    and "\<forall>x \<in> set xs. col_str (xw_workflow_status x) ''workflow_uuid'' \<noteq> None"
  shows "(r \<noteq> Ok () \<longrightarrow> h' = h) \<and> map_of (workflows h') j = Some w
    \<and> (\<forall>q. map_of (steps h') (j, q) = map_of (steps h) (j, q))
    \<and> (\<forall>k. map_of (events h') (j, k) = map_of (events h) (j, k))
    \<and> (\<forall>k. map_of (streams h') (j, k) = map_of (streams h) (j, k))"
proof (cases "List.find (\<lambda>x. import_conflict x h) xs")
  case None
  have frame: "map_of (workflows (import_one C from_ts clock x g)) j = map_of (workflows g) j
      \<and> (\<forall>q. map_of (steps (import_one C from_ts clock x g)) (j, q) = map_of (steps g) (j, q))
      \<and> (\<forall>k. map_of (events (import_one C from_ts clock x g)) (j, k) = map_of (events g) (j, k))
      \<and> (\<forall>k. map_of (streams (import_one C from_ts clock x g)) (j, k) = map_of (streams g) (j, k))"
    if "col_str (xw_workflow_status x) ''workflow_uuid'' = Some i" "i \<noteq> j" for x g i
  proof -
    have "map_of (fold (import_step C i) ops m) (j, q) = map_of m (j, q)" for ops m q
      using that(2) by (induction ops arbitrary: m) (auto simp: import_step_def)
    moreover have "map_of (fold (import_event C i) evs m) (j, k) = map_of m (j, k)" for evs m k
      using that(2) by (induction evs arbitrary: m) (auto simp: import_event_def)
    moreover have "map_of (fold (\<lambda>(key, rows). AList.update (i, key) (fill_buffer rows)) gs m) (j, k)
        = map_of m (j, k)" for gs and m :: "(string \<times> string, json option list) hashmap" and k
      using that(2) by (induction gs arbitrary: m) auto
    ultimately show ?thesis using that by (simp add: import_one_def Let_def)
  qed
  have other: "\<exists>i. col_str (xw_workflow_status x) ''workflow_uuid'' = Some i \<and> i \<noteq> j" if "x \<in> set xs" for x
    using that None assms(2,3) by (fastforce simp: find_None_iff import_conflict_def contains_key_def)
  have "map_of (workflows (fold (import_one C from_ts clock) ys g)) j = map_of (workflows g) j
      \<and> (\<forall>q. map_of (steps (fold (import_one C from_ts clock) ys g)) (j, q) = map_of (steps g) (j, q))
      \<and> (\<forall>k. map_of (events (fold (import_one C from_ts clock) ys g)) (j, k) = map_of (events g) (j, k))
      \<and> (\<forall>k. map_of (streams (fold (import_one C from_ts clock) ys g)) (j, k) = map_of (streams g) (j, k))"
    if "set ys \<subseteq> set xs" for ys g
    using that
  proof (induction ys arbitrary: g)
    case (Cons y ys)
    obtain i where "col_str (xw_workflow_status y) ''workflow_uuid'' = Some i" "i \<noteq> j"
      using other [of y] Cons.prems by auto
    from frame [OF this, of g] show ?case using Cons by simp
  qed simp
  from this [of xs h] show ?thesis using assms(1,2) None by (auto simp: import_workflow_def)
next
  case (Some x)
  then show ?thesis using assms(1,2) by (simp add: import_workflow_def)
qed

section \<open>Witnesses\<close>

definition sample_export :: inner where
  "sample_export = inner_default\<lparr>
     workflows := [(''a'', workflow_status_new 5000001 ''a'' ''wf'' (JInt 7) STATUS_PENDING ''x'' ''v'')],
     steps := [((''a'', 0), step_row_default\<lparr>sr_name := ''one'', sr_output := Some (JInt 7)\<rparr>)],
     events := [((''a'', ''k''), JInt 7)],
     streams := [((''a'', ''s''), [Some (JInt 7), None])]\<rparr>"

definition sample_from_ts :: "int \<Rightarrow> datetime option" where
  "sample_from_ts ms = Some (1000000 * ms)"

lemma sample_exportable:
  "exportable plain_codec sample_from_ts ''a''
      (workflow_status_new 5000001 ''a'' ''wf'' (JInt 7) STATUS_PENDING ''x'' ''v'') sample_export"
    by (simp add: exportable_def sample_export_def inner_default_def row_ok_def workflow_status_new_def
        payload_ok_def plain_codec_def sample_codec_def STREAM_CLOSED_SENTINEL_def error_ok_def is_i32_def
        is_i64_def sample_from_ts_def trunc_ms_def step_ok_def step_row_default_def stream_ok_def
        timestamp_millis_def)

theorem export_import_roundtrip_witness:
  "\<exists>xs h'. export_workflow plain_codec ''a'' False sample_export = Some (Ok xs)
    \<and> import_workflow plain_codec sample_from_ts (\<lambda>_. (0, 0)) xs inner_default = (Ok (), h')
    \<and> map_of (streams h') (''a'', ''s'') = map_of (streams sample_export) (''a'', ''s'')"
proof -
  have "mem_inv sample_export" "absent ''a'' inner_default"
    "map_of (workflows sample_export) ''a''
      = Some (workflow_status_new 5000001 ''a'' ''wf'' (JInt 7) STATUS_PENDING ''x'' ''v'')"
    by code_simp+
  moreover note sample_exportable
  ultimately show ?thesis
    using export_import_roundtrip [of sample_export "''a''" _ plain_codec sample_from_ts inner_default "\<lambda>_. (0, 0)"]
    by blast
qed

theorem import_never_overwrites_witness:
  "snd (import_workflow plain_codec sample_from_ts (\<lambda>_. (0, 0))
     [export_one plain_codec sample_export ''a'' (workflow_status_new 0 ''a'' ''wf'' JNull STATUS_PENDING ''x'' ''v'')]
     sample_export) = sample_export"
proof -
  let ?r = "import_workflow plain_codec sample_from_ts (\<lambda>_. (0, 0))
     [export_one plain_codec sample_export ''a'' (workflow_status_new 0 ''a'' ''wf'' JNull STATUS_PENDING ''x'' ''v'')]
     sample_export"
  have "?r = (fst ?r, snd ?r)" by simp
  moreover have "map_of (workflows sample_export) ''a''
      = Some (workflow_status_new 5000001 ''a'' ''wf'' (JInt 7) STATUS_PENDING ''x'' ''v'')" by code_simp
  moreover have "fst ?r \<noteq> Ok ()" by code_simp
  ultimately show ?thesis
    using import_never_overwrites [of plain_codec sample_from_ts "\<lambda>_. (0, 0)" _ sample_export "fst ?r" "snd ?r"]
    by (force simp: export_one_def status_to_map_def)
qed

end
