(* ===== verification/Memory_Machine.thy ===== *)
theory Memory_Machine
  imports Memory_Messages Memory_Queue Memory_Schedules Memory_Export
begin

text \<open>
  The in-memory provider as a state machine: every operation that changes the
  store as a value, its effect, and the states that a sequence of operations
  reaches.  The invariants that hold of the store over its whole life are proved
  here by induction over the reachable states.  A condition on the operations,
  where an invariant needs one, is what the engine observes when it calls them.
\<close>

section \<open>Definitions\<close>

datatype mem_op =
    Op_insert workflow_status
  | Op_set_status datetime string string "json option" "string option"
  | Op_record_step datetime string int string json "string option" "int option" "string option"
  | Op_insert_child workflow_status string int bool
  | Op_record_child string int string string
  | Op_record_patch string int string
  | Op_dequeue datetime "string \<Rightarrow> datetime" dequeue_request
  | Op_transition_delayed "string \<Rightarrow> datetime" int
  | Op_insert_notification datetime string string string json "string option"
  | Op_insert_notifications datetime "nat \<Rightarrow> string" "notification_insert list"
  | Op_send datetime datetime "nat \<Rightarrow> string" string int string "notification_insert list"
  | Op_consume datetime string string int string
  | Op_upsert_event string string json
  | Op_write_stream string string "json option" int
  | Op_write_stream_from_workflow datetime string int string string "json option"
  | Op_cancel datetime "string list" cancel_options
  | Op_resume datetime string
  | Op_resume_many datetime "string list"
  | Op_enqueue_existing datetime string string
  | Op_delete "string list" bool
  | Op_set_delay datetime string int
  | Op_set_attributes datetime string "jmap option"
  | Op_fork datetime fork_params "int option"
  | Op_claim datetime recovery_claim_request
  | Op_create_schedule workflow_schedule
  | Op_update_schedule "string \<Rightarrow> unit result" "string \<Rightarrow> unit result" string schedule_update
  | Op_apply_schedules "workflow_schedule list"
  | Op_set_schedule_status string schedule_status
  | Op_set_last_fired "int \<Rightarrow> datetime option" string int
  | Op_delete_schedule string
  | Op_create_version datetime string string
  | Op_set_latest_version datetime string
  | Op_upsert_queue workflow_queue bool
  | Op_import "int \<Rightarrow> datetime option" "string \<Rightarrow> datetime \<times> datetime" "exported_workflow list"

fun mem_exec :: "codec \<Rightarrow> mem_op \<Rightarrow> inner \<Rightarrow> inner" where
  "mem_exec C (Op_insert w) g = snd (insert_workflow_status w g)"
| "mem_exec C (Op_set_status now i st out err) g = snd (set_workflow_status C now i st out err g)"
| "mem_exec C (Op_record_step now w q nm v err st ex) g = snd (record_step_result C now w q nm v err st ex g)"
| "mem_exec C (Op_insert_child c p q ret) g = snd (insert_child_workflow c p q ret g)"
| "mem_exec C (Op_record_child p q nm c) g = snd (record_child_workflow p q nm c g)"
| "mem_exec C (Op_record_patch w q nm) g = snd (record_patch w q nm g)"
| "mem_exec C (Op_dequeue now clock req) g = snd (dequeue_workflows now clock req g)"
| "mem_exec C (Op_transition_delayed clock t) g = snd (transition_delayed_workflows clock t g)"
| "mem_exec C (Op_insert_notification now u d t m k) g = snd (insert_notification now u d t m k g)"
| "mem_exec C (Op_insert_notifications now u rows) g = snd (insert_notifications now u rows g)"
| "mem_exec C (Op_send now now' u w q nm rows) g = snd (send_from_workflow now now' u w q nm rows g)"
| "mem_exec C (Op_consume now w t q nm) g = snd (consume_notification C now w t q nm g)"
| "mem_exec C (Op_upsert_event w k v) g = snd (upsert_event w k v g)"
| "mem_exec C (Op_write_stream w k v f) g = snd (write_stream w k v f g)"
| "mem_exec C (Op_write_stream_from_workflow now w q nm k v) g = snd (write_stream_from_workflow now w q nm k v g)"
| "mem_exec C (Op_cancel now ids opts) g = snd (cancel_workflows_with_options now ids opts g)"
| "mem_exec C (Op_resume now i) g = snd (resume_workflow now i g)"
| "mem_exec C (Op_resume_many now ids) g = snd (resume_workflows now ids g)"
| "mem_exec C (Op_enqueue_existing now i q) g = snd (enqueue_existing now i q g)"
| "mem_exec C (Op_delete ids ch) g = snd (delete_workflows ids ch g)"
| "mem_exec C (Op_set_delay now i t) g = snd (set_workflow_delay now i t g)"
| "mem_exec C (Op_set_attributes now i a) g = snd (set_workflow_attributes now i a g)"
| "mem_exec C (Op_fork now p t) g = snd (fork_workflow_with_timeout now p t g)"
| "mem_exec C (Op_claim now req) g = snd (claim_for_recovery now req g)"
| "mem_exec C (Op_create_schedule s) g = snd (create_schedule s g)"
| "mem_exec C (Op_update_schedule pc pt nm u) g = snd (update_schedule pc pt nm u g)"
| "mem_exec C (Op_apply_schedules ss) g = snd (apply_schedules ss g)"
| "mem_exec C (Op_set_schedule_status nm st) g = snd (set_schedule_status nm st g)"
| "mem_exec C (Op_set_last_fired f nm t) g = snd (set_schedule_last_fired f nm t g)"
| "mem_exec C (Op_delete_schedule nm) g = snd (delete_schedule nm g)"
| "mem_exec C (Op_create_version now u nm) g = snd (create_application_version now u nm g)"
| "mem_exec C (Op_set_latest_version now nm) g = snd (set_latest_application_version now nm g)"
| "mem_exec C (Op_upsert_queue q u) g = snd (upsert_queue q u g)"
| "mem_exec C (Op_import f clock xs) g = snd (import_workflow C f clock xs g)"

fun mem_run :: "codec \<Rightarrow> mem_op list \<Rightarrow> inner \<Rightarrow> inner" where
  "mem_run C [] g = g"
| "mem_run C (op # ops) g = mem_run C ops (mem_exec C op g)"

text \<open>States reached from \<open>g0\<close> by operations that the discipline \<open>ok\<close> admits where they are made.\<close>

inductive reachable :: "codec \<Rightarrow> (mem_op \<Rightarrow> inner \<Rightarrow> bool) \<Rightarrow> inner \<Rightarrow> inner \<Rightarrow> bool"
  for C :: codec and ok :: "mem_op \<Rightarrow> inner \<Rightarrow> bool" and g0 :: inner where
  start: "reachable C ok g0 g0"
| step: "reachable C ok g0 g \<Longrightarrow> ok op g \<Longrightarrow> reachable C ok g0 (mem_exec C op g)"

fun run_ok :: "codec \<Rightarrow> (mem_op \<Rightarrow> inner \<Rightarrow> bool) \<Rightarrow> mem_op list \<Rightarrow> inner \<Rightarrow> bool" where
  "run_ok C ok [] g = True"
| "run_ok C ok (op # ops) g = (ok op g \<and> run_ok C ok ops (mem_exec C op g))"

inductive_cases reachable_cases: "reachable C ok g0 g"

section \<open>Machine lemmas\<close>

lemmas op_simps = mem_exec.simps

lemma mem_exec_inv: "mem_inv g \<Longrightarrow> mem_inv (mem_exec C op g)"
  by (cases op) (simp_all add: inv_intros)

lemma reachable_invariant:
  assumes "reachable C ok g0 g" "I g0" "\<And>g op. I g \<Longrightarrow> ok op g \<Longrightarrow> I (mem_exec C op g)"
  shows "I g"
  using assms by (induction rule: reachable.induct) auto

lemma reachable_run:
  assumes "reachable C ok g0 g" "run_ok C ok ops g"
  shows "reachable C ok g0 (mem_run C ops g)"
  using assms by (induction ops arbitrary: g) (auto intro: reachable.step)

lemma reachable_mem_inv: "reachable C ok g0 g \<Longrightarrow> mem_inv g0 \<Longrightarrow> mem_inv g"
  using reachable_invariant [of C ok g0 g mem_inv] mem_exec_inv by blast

section \<open>What an operation may do to a row\<close>

text \<open>
  A relation between a row before and after an operation that every row
  transition of the provider respects.  The operations that only move existing
  rows along then respect it as a whole.
\<close>

definition rows_rel :: "(workflow_status \<Rightarrow> workflow_status \<Rightarrow> bool) \<Rightarrow> inner \<Rightarrow> inner \<Rightarrow> bool" where
  "rows_rel R g g' \<longleftrightarrow> (\<forall>i. rel_option R (map_of (workflows g) i) (map_of (workflows g') i))"

fun moves_rows :: "mem_op \<Rightarrow> bool" where
  "moves_rows (Op_insert w) = False"
| "moves_rows (Op_set_status now i st out err) = False"
| "moves_rows (Op_insert_child c p q ret) = False"
| "moves_rows (Op_enqueue_existing now i q) = False"
| "moves_rows (Op_delete ids ch) = False"
| "moves_rows (Op_fork now p t) = False"
| "moves_rows (Op_import f clock xs) = False"
| "moves_rows op = True"

locale row_relation =
  fixes R :: "workflow_status \<Rightarrow> workflow_status \<Rightarrow> bool"
  assumes R_refl [simp]: "R v v"
    and R_trans: "R u v \<Longrightarrow> R v w \<Longrightarrow> R u w"
    and R_executor: "R v (v\<lparr>wf_executor_id := ex\<rparr>)"
    and R_cancel: "R v (cancel_row now v)"
    and R_resume: "resumable v \<Longrightarrow> R v (resume_row now v)"
    and R_dequeue: "wf_status v = STATUS_ENQUEUED \<Longrightarrow> R v (dequeue_row now now_ms req v)"
    and R_release: "due now_ms v \<Longrightarrow> R v (release_row now v)"
    and R_claim: "claim_matches creq v \<Longrightarrow> R v (snd (claim_row now creq v))"
    and R_delay: "wf_status v = STATUS_DELAYED \<Longrightarrow> R v (v\<lparr>wf_delay_until_ms := d, wf_updated_at := now\<rparr>)"
    and R_attributes: "R v (v\<lparr>wf_attributes := a, wf_updated_at := now\<rparr>)"
begin

lemma rows_refl [simp]: "rows_rel R g g"
  by (simp add: rows_rel_def option.rel_refl)

lemma rows_same [simp]: "workflows g' = workflows g \<Longrightarrow> rows_rel R g g'"
  by (simp add: rows_rel_def option.rel_refl)

lemma rows_trans: "rows_rel R g1 g2 \<Longrightarrow> rows_rel R g2 g3 \<Longrightarrow> rows_rel R g1 g3"
proof -
  assume a: "rows_rel R g1 g2" "rows_rel R g2 g3"
  have "rel_option R (map_of (workflows g1) i) (map_of (workflows g3) i)" for i
    using a [unfolded rows_rel_def, rule_format, of i] R_trans
    by (cases "map_of (workflows g2) i"; cases "map_of (workflows g1) i"; cases "map_of (workflows g3) i") auto
  then show "rows_rel R g1 g3" by (simp add: rows_rel_def)
qed

lemma rows_update:
  "map_of (workflows g) k = Some v \<Longrightarrow> R v v' \<Longrightarrow>
   rows_rel R g (g\<lparr>workflows := AList.update k v' (workflows g)\<rparr>)"
  by (simp add: rows_rel_def option.rel_refl)

lemma rows_modify: "(\<And>v. R v (f v)) \<Longrightarrow> rows_rel R g (modify_row i f g)"
  by (cases "map_of (workflows g) i") (simp_all add: modify_row_def rows_update)

lemma rows_fold_modify: "(\<And>v. R v (f v)) \<Longrightarrow> rows_rel R g (fold (\<lambda>i. modify_row i f) ids g)"
proof (induction ids arbitrary: g)
  case (Cons i ids)
  then show ?case using rows_trans [OF rows_modify Cons.IH] by simp
qed simp

lemma rows_refresh: "rows_rel R g (refresh_executor w ex g)"
  by (auto simp: refresh_executor_def rows_update R_executor split: option.splits)

lemma rows_record: "rows_rel R g (snd (record_step_result C now w q nm v err st ex g))"
proof -
  have "rows_rel R g (refresh_executor w ex (g\<lparr>steps := s\<rparr>))" for s
    by (rule rows_trans [OF rows_same rows_refresh]) simp
  then show ?thesis by (auto simp: record_step_result_def Let_def split: option.splits)
qed

lemma rows_resume_each: "rows_rel R g (snd (resume_each now ids g))"
proof (induction ids arbitrary: g)
  case (Cons i ids)
  show ?case
  proof (cases "map_of (workflows g) i")
    case (Some v)
    show ?thesis
    proof (cases "resumable v")
      case True
      let ?g = "g\<lparr>workflows := AList.update i (resume_row now v) (workflows g)\<rparr>"
      have "rows_rel R g ?g" using Some True by (simp add: rows_update R_resume)
      then have "rows_rel R g (snd (resume_each now ids ?g))" using Cons.IH rows_trans by blast
      then show ?thesis using Some True by (simp add: case_prod_unfold Let_def)
    qed (use Some Cons.IH in simp)
  qed (use Cons.IH in simp)
qed simp

lemma rows_claim_each:
  assumes "\<forall>i \<in> set ids. \<exists>v. map_of (workflows g) i = Some v \<and> wf_status v = STATUS_ENQUEUED" "distinct ids"
  shows "rows_rel R g (snd (claim_each clock now_ms req ids g))"
  using assms
proof (induction ids arbitrary: g)
  case (Cons i ids)
  then obtain v where v: "map_of (workflows g) i = Some v" "wf_status v = STATUS_ENQUEUED" by auto
  let ?g = "g\<lparr>workflows := AList.update i (dequeue_row (clock i) now_ms req v) (workflows g)\<rparr>"
  have "rows_rel R g ?g" using v by (simp add: rows_update R_dequeue)
  moreover have "rows_rel R ?g (snd (claim_each clock now_ms req ids ?g))"
    using Cons.prems by (intro Cons.IH) auto
  ultimately have "rows_rel R g (snd (claim_each clock now_ms req ids ?g))" by (rule rows_trans)
  then show ?case using v by (simp add: case_prod_unfold Let_def)
qed simp

lemma rows_dequeue:
  assumes "mem_inv g"
  shows "rows_rel R g (snd (dequeue_workflows now clock req g))"
proof -
  have "\<exists>v. map_of (workflows g) i = Some v \<and> wf_status v = STATUS_ENQUEUED"
    if "i \<in> set (selected (timestamp_millis now) req g)" for i
    using selected_rows [OF assms that] by (auto simp: claimable_def)
  then show ?thesis
    using assms by (simp add: dequeue_workflows_eq Let_def rows_claim_each distinct_selected)
qed

lemma rows_transition: "rows_rel R g (snd (transition_delayed_workflows clock now_ms g))"
proof -
  have "map_of (map (\<lambda>(i, w). (i, if due now_ms w then release_row (clock i) w else w)) ws) i =
      map_option (\<lambda>w. if due now_ms w then release_row (clock i) w else w) (map_of ws i)" for ws i
    by (induction ws) auto
  then show ?thesis
    by (auto simp: rows_rel_def transition_delayed_workflows_def option.rel_map R_release
        intro!: option.rel_refl)
qed

lemma rows_claim: "rows_rel R g (snd (claim_for_recovery now req g))"
  by (auto simp: claim_for_recovery_cases rows_update R_claim split: option.splits)

theorem moves_rows_rel:
  assumes "mem_inv g" "moves_rows op"
  shows "rows_rel R g (mem_exec C op g)"
proof (cases op)
  case (Op_send now now' u w q nm rows)
  have "workflows (snd (send_from_workflow now now' u w q nm rows g)) = workflows g"
    using push_notifications_simps(1) [of now u rows g]
    by (auto simp: send_from_workflow_def checkpoint_simps split: sum.splits option.splits prod.splits)
  then show ?thesis by (simp add: Op_send)
next
  case (Op_consume now w t q nm)
  have "workflows (snd (consume_notification C now w t q nm g)) = workflows g"
    by (auto simp: consume_notification_def checkpoint_simps split: sum.splits option.splits prod.splits)
  then show ?thesis by (simp add: Op_consume)
next
  case (Op_write_stream_from_workflow now w q nm k v)
  have "workflows (snd (write_stream_from_workflow now w q nm k v g)) = workflows g"
    using append_stream_simps(1) [of w k v g]
    by (auto simp: write_stream_from_workflow_def checkpoint_simps split: sum.splits option.splits prod.splits)
  then show ?thesis by (simp add: Op_write_stream_from_workflow)
next
  case (Op_resume now i)
  then show ?thesis by (auto simp: resume_workflow_def rows_update R_resume split: option.splits)
next
  case (Op_resume_many now ids)
  then show ?thesis using rows_resume_each [of g now ids]
    by (simp add: resume_workflows_def case_prod_unfold Let_def)
next
  case (Op_set_delay now i t)
  then show ?thesis by (auto simp: set_workflow_delay_def rows_update R_delay split: option.splits)
next
  case (Op_set_attributes now i a)
  then show ?thesis by (auto simp: set_workflow_attributes_def rows_update R_attributes split: option.splits)
next
  case (Op_cancel now ids opts)
  then show ?thesis by (simp add: cancel_workflows_with_options_def rows_fold_modify R_cancel)
next
  case (Op_apply_schedules ss)
  have "workflows (fold (\<lambda>s g. g\<lparr>schedules := AList.update (ws_schedule_name s) s (schedules g)\<rparr>) ss g) = workflows g"
    by (induction ss arbitrary: g) simp_all
  then show ?thesis by (simp add: Op_apply_schedules apply_schedules_def)
qed (use assms in \<open>simp_all add: rows_record rows_dequeue rows_transition rows_claim
      record_child_workflow_def record_patch_def insert_notification_def insert_notifications_def
      push_notifications_simps upsert_event_def write_stream_def append_stream_simps create_schedule_def
      update_schedule_def set_schedule_status_def set_schedule_last_fired_def delete_schedule_def
      create_application_version_def set_latest_application_version_def upsert_queue_def
      split: sum.split option.split\<close>)

end

end
