(* ===== verification/Memory_Life.thy ===== *)
theory Memory_Life
  imports Memory_Machine
begin

text \<open>
  What stays true of the store over any sequence of operations: the
  representation invariant, at most one holder of a deduplication slot, the
  permanence of a recorded checkpoint and the finality of a recorded outcome.
\<close>

section \<open>Definitions\<close>

text \<open>The deduplication slot a row holds.\<close>

definition slot_of :: "workflow_status \<Rightarrow> (string \<times> string) option" where
  "slot_of w = (case (wf_queue_name w, wf_dedup_id w) of (Some q, Some d) \<Rightarrow> Some (q, d) | _ \<Rightarrow> None)"

definition slots_unique :: "inner \<Rightarrow> bool" where
  "slots_unique g \<longleftrightarrow> list_all (\<lambda>(i, v). list_all (\<lambda>(j, w).
     slot_of v \<noteq> None \<and> slot_of v = slot_of w \<longrightarrow> i = j) (workflows g)) (workflows g)"

text \<open>The engine moves a row to another queue only after it gave up its slot, and an
  import of live deduplicated rows is left to the operator.\<close>

fun slot_discipline :: "mem_op \<Rightarrow> inner \<Rightarrow> bool" where
  "slot_discipline (Op_enqueue_existing now i q) g =
     is_none_or (map_of (workflows g) i) (\<lambda>w. wf_dedup_id w = None)"
| "slot_discipline (Op_import f clock xs) g = list_all (\<lambda>x. col_str (xw_workflow_status x) ''deduplication_id'' = None) xs"
| "slot_discipline op g = True"

text \<open>The history of a workflow is left alone: it is not deleted, and its id is not the
  target of a fork or an import.\<close>

fun keeps_history :: "string \<Rightarrow> mem_op \<Rightarrow> inner \<Rightarrow> bool" where
  "keeps_history w (Op_delete ids ch) g = (w \<notin> set (targets_of ids ch g))"
| "keeps_history w (Op_fork now p t) g = (fp_new_id p \<noteq> w)"
| "keeps_history w (Op_import f clock xs) g =
     list_all (\<lambda>x. unwrap_or [] (col_str (xw_workflow_status x) ''workflow_uuid'') \<noteq> w) xs"
| "keeps_history w op g = True"

text \<open>Outcomes are reported with a terminal status, and a completed row is not put back on a queue.\<close>

fun keeps_outcome :: "string \<Rightarrow> mem_op \<Rightarrow> inner \<Rightarrow> bool" where
  "keeps_outcome w (Op_set_status now i st out err) g = (i = w \<longrightarrow> is_terminal st)"
| "keeps_outcome w (Op_enqueue_existing now i q) g = (i \<noteq> w)"
| "keeps_outcome w op g = keeps_history w op g"

definition completed :: "workflow_status \<Rightarrow> bool" where
  "completed w \<longleftrightarrow> wf_status w = STATUS_SUCCESS \<or> wf_status w = STATUS_ERROR"

definition slot_kept :: "workflow_status \<Rightarrow> workflow_status \<Rightarrow> bool" where
  "slot_kept v v' \<longleftrightarrow> slot_of v' = None \<or> slot_of v' = slot_of v"

definition outcome_kept :: "workflow_status \<Rightarrow> workflow_status \<Rightarrow> bool" where
  "outcome_kept v v' \<longleftrightarrow> (completed v \<longrightarrow> wf_status v' = wf_status v \<and> wf_output v' = wf_output v
     \<and> wf_error v' = wf_error v \<and> wf_error_info v' = wf_error_info v)"

section \<open>Row transitions\<close>

lemma slot_kept_row:
  "wf_queue_name v' = wf_queue_name v \<Longrightarrow> wf_dedup_id v' = wf_dedup_id v \<Longrightarrow> slot_kept v v'"
  "wf_dedup_id v' = None \<Longrightarrow> slot_kept v v'"
  by (simp_all add: slot_kept_def slot_of_def split: option.split)

interpretation slots: row_relation slot_kept
proof unfold_locales
  show "slot_kept v (cancel_row now v)" for v now
    by (auto simp: cancel_row_def intro: slot_kept_row)
  show "slot_kept v (snd (claim_row now creq v))" for v now creq
    by (auto simp: claim_row_def Let_def intro: slot_kept_row)
  show "slot_kept u v \<Longrightarrow> slot_kept v w \<Longrightarrow> slot_kept u w" for u v w
    by (auto simp: slot_kept_def)
qed (auto intro: slot_kept_row simp: resume_row_def dequeue_row_def release_row_def)

interpretation outcomes: row_relation outcome_kept
  by unfold_locales (auto simp: outcome_kept_def completed_def cancel_row_def resumable_def dequeue_row_def
      release_row_def due_def claim_row_def claim_matches_def Let_def)

section \<open>Slots\<close>

lemma slots_unique_iff:
  assumes "mem_inv g"
  shows "slots_unique g \<longleftrightarrow> (\<forall>i j v w. map_of (workflows g) i = Some v \<and> map_of (workflows g) j = Some w
    \<and> slot_of v \<noteq> None \<and> slot_of v = slot_of w \<longrightarrow> i = j)"
proof -
  have "(i, v) \<in> set (workflows g) \<longleftrightarrow> map_of (workflows g) i = Some v" for i v
    using assms keyed_by_distinct [OF mem_invD(1) [OF assms]] by simp
  then show ?thesis by (simp add: slots_unique_def list_all_iff split_paired_Ball_Sigma) blast
qed

lemma slots_shrink:
  assumes "mem_inv g" "mem_inv g'" "slots_unique g"
    and "\<And>i v'. map_of (workflows g') i = Some v' \<Longrightarrow>
      slot_of v' = None \<or> (\<exists>v. map_of (workflows g) i = Some v \<and> slot_of v' = slot_of v)"
  shows "slots_unique g'"
proof -
  have "i = j" if r: "map_of (workflows g') i = Some v'" "map_of (workflows g') j = Some w'"
    "slot_of v' \<noteq> None" "slot_of v' = slot_of w'" for i j v' w'
  proof -
    obtain v where "map_of (workflows g) i = Some v" "slot_of v' = slot_of v" using assms(4) [OF r(1)] r(3) by auto
    moreover obtain w where "map_of (workflows g) j = Some w" "slot_of w' = slot_of w"
      using assms(4) [OF r(2)] r(3,4) by auto
    ultimately show ?thesis using assms(1,3) r(3,4) by (simp add: slots_unique_iff)
  qed
  then show ?thesis unfolding slots_unique_iff [OF assms(2)] by blast
qed

lemma slots_rows_rel:
  assumes "mem_inv g" "mem_inv g'" "slots_unique g" "rows_rel slot_kept g g'"
  shows "slots_unique g'"
proof (rule slots_shrink [OF assms(1-3)])
  fix i v' assume "map_of (workflows g') i = Some v'"
  then show "slot_of v' = None \<or> (\<exists>v. map_of (workflows g) i = Some v \<and> slot_of v' = slot_of v)"
    using assms(4) [unfolded rows_rel_def, rule_format, of i]
    by (cases "map_of (workflows g) i") (auto simp: slot_kept_def)
qed

lemma slots_add:
  assumes "mem_inv g" "slots_unique g" "map_of (workflows g) (wf_id w) = None"
    and "\<And>i v. map_of (workflows g) i = Some v \<Longrightarrow> slot_of v = slot_of w \<Longrightarrow> slot_of w = None"
    and "workflows g' = AList.update (wf_id w) w (workflows g)" "mem_inv g'"
  shows "slots_unique g'"
proof -
  have fresh: "slot_of v \<noteq> slot_of w" if "map_of (workflows g) i = Some v" "slot_of w \<noteq> None" for i v
    using assms(4) [of i v] that by auto
  have "i = j" if "map_of (workflows g') i = Some u" "map_of (workflows g') j = Some v"
    "slot_of u \<noteq> None" "slot_of u = slot_of v" for i j u v
  proof (cases "i = wf_id w \<or> j = wf_id w")
    case True
    then show ?thesis using that fresh [of i u] fresh [of j v] by (auto simp: assms(5) split: if_splits)
  next
    case False
    then show ?thesis using that assms(2) unfolding slots_unique_iff [OF assms(1)] by (simp add: assms(5))
  qed
  then show ?thesis unfolding slots_unique_iff [OF assms(6)] by blast
qed

lemma dedup_free:
  assumes "mem_inv g" "dedup_holder (wf_queue_name w) (wf_dedup_id w) g = None"
    and "map_of (workflows g) i = Some v" "slot_of v = slot_of w"
  shows "slot_of w = None"
proof -
  have "v \<in> set (hm_values (workflows g))" using assms(1,3) row_id by (simp add: in_values_iff)
  then show ?thesis
    using assms(2,4) by (auto simp: dedup_holder_def slot_of_def find_None_iff split: option.splits)
qed

lemma insert_child_rows:
  assumes "workflows (snd (insert_child_workflow c p q ret g)) \<noteq> workflows g"
  shows "map_of (workflows g) (wf_id c) = None \<and> dedup_holder (wf_queue_name c) (wf_dedup_id c) g = None
    \<and> workflows (snd (insert_child_workflow c p q ret g)) = AList.update (wf_id c) c (workflows g)"
  using assms by (auto simp: insert_child_workflow_def Let_def split: option.splits sum.splits if_splits)

lemma slots_exec:
  assumes "mem_inv g" "slots_unique g" "slot_discipline op g"
  shows "slots_unique (mem_exec C op g)"
proof -
  have inv: "mem_inv (mem_exec C op g)" using assms(1) by (rule mem_exec_inv)
  show ?thesis
  proof (cases "moves_rows op")
    case True
    then show ?thesis using slots_rows_rel [OF assms(1) inv assms(2)] slots.moves_rows_rel assms(1) by blast
  next
    case False
    then show ?thesis
    proof (cases op)
      case (Op_insert w)
      show ?thesis
      proof (cases "map_of (workflows g) (wf_id w) = None \<and> snd (insert_workflow_status w g) \<noteq> g")
        case True
        have "slot_of w = None" if "map_of (workflows g) i = Some v" "slot_of v = slot_of w" for i v
        proof -
          have "v \<in> set (hm_values (workflows g))" "wf_id v \<noteq> wf_id w"
            using that(1) True assms(1) row_id by (auto simp: in_values_iff)
          then show ?thesis using True that(2)
            by (auto simp: insert_workflow_status_def slot_of_def holds_slot_def list_ex_iff split: option.splits if_splits)
        qed
        moreover have "workflows (mem_exec C op g) = AList.update (wf_id w) w (workflows g)"
          using True by (auto simp: Op_insert insert_workflow_status_def put_row_def Let_def split: if_splits option.splits)
        ultimately show ?thesis using slots_add [OF assms(1,2)] True inv by blast
      next
        case False
        then have "snd (insert_workflow_status w g) = g"
          by (auto simp: insert_workflow_status_def Let_def split: option.splits)
        then show ?thesis using assms(2) by (simp add: Op_insert)
      qed
    next
      case (Op_insert_child c p q ret)
      show ?thesis
      proof (cases "workflows (mem_exec C op g) = workflows g")
        case True
        then show ?thesis using assms(2) by (simp add: slots_unique_def)
      next
        case False
        then have new: "map_of (workflows g) (wf_id c) = None" "dedup_holder (wf_queue_name c) (wf_dedup_id c) g = None"
            "workflows (mem_exec C op g) = AList.update (wf_id c) c (workflows g)"
          using insert_child_rows [of c p q ret g] by (simp_all add: Op_insert_child)
        then show ?thesis using slots_add [OF assms(1,2) new(1) _ new(3) inv] dedup_free [OF assms(1) new(2)] by blast
      qed
    next
      case (Op_set_status now i st out err)
      then show ?thesis
        by (intro slots_rows_rel [OF assms(1) inv assms(2)])
           (auto simp: set_workflow_status_def slot_kept_def slot_of_def apply_status_def Let_def
             split: option.splits prod.splits intro!: slots.rows_update)
    next
      case (Op_enqueue_existing now i q)
      then show ?thesis using assms(3)
        by (intro slots_rows_rel [OF assms(1) inv assms(2)])
           (auto simp: enqueue_existing_def modify_row_def slot_kept_def slot_of_def
             split: option.splits intro!: slots.rows_update)
    next
      case (Op_delete ids ch)
      then show ?thesis
        by (intro slots_shrink [OF assms(1) inv assms(2)])
           (auto simp: delete_workflows_def delete_fold_lookups split: if_splits)
    next
      case (Op_fork now p t)
      then show ?thesis
        by (intro slots_shrink [OF assms(1) inv assms(2)])
           (auto simp: fork_workflow_with_timeout_def Let_def slot_of_def forked_row_def workflow_status_new_def
             split: if_splits option.splits)
    next
      case (Op_import f clock xs)
      have one: "slot_of (map_to_status C f now (xw_workflow_status x)) = None" if "x \<in> set xs" for x now
        using assms(3) that by (auto simp: Op_import list_all_iff slot_of_def map_to_status_def case_prod_unfold
            Let_def split: option.split)
      have "slot_of v' = None \<or> (\<exists>v. map_of (workflows h) i = Some v \<and> slot_of v' = slot_of v)"
        if "set ys \<subseteq> set xs" "map_of (workflows (fold (import_one C f clock) ys h)) i = Some v'" for ys h i v'
        using that
      proof (induction ys arbitrary: h)
        case (Cons y ys)
        have "slot_of (map_to_status C f t (xw_workflow_status y)) = None" for t using one Cons.prems(1) by simp
        then show ?case using Cons.IH [of "import_one C f clock y h"] Cons.prems
          by (auto simp: import_one_def Let_def split: if_splits)
      qed auto
      from this [of xs g] show ?thesis
        using assms(2) by (intro slots_shrink [OF assms(1) inv assms(2)])
          (auto simp: Op_import import_workflow_def split: option.splits)
    qed simp_all
  qed
qed

section \<open>Checkpoints\<close>

lemma fold_update_other:
  "(\<And>x. x \<in> set xs \<Longrightarrow> f x \<noteq> k) \<Longrightarrow> map_of (fold (\<lambda>x. AList.update (f x) (h x)) xs m) k = map_of m k"
  by (induction xs arbitrary: m) auto

lemma import_fold_steps:
  assumes "\<forall>x \<in> set xs. unwrap_or [] (col_str (xw_workflow_status x) ''workflow_uuid'') \<noteq> w"
  shows "map_of (steps (fold (import_one C f clock) xs g)) (w, q) = map_of (steps g) (w, q)"
  using assms
proof (induction xs arbitrary: g)
  case (Cons x xs)
  have "map_of (fold (import_step C i) rows m) (w, q) = map_of m (w, q)" if "i \<noteq> w" for i rows m
    using that by (induction rows arbitrary: m) (auto simp: import_step_def Let_def)
  then show ?case using Cons by (simp add: import_one_def Let_def)
qed simp

lemma insert_child_steps:
  "steps (snd (insert_child_workflow c p q ret g)) = steps g
   \<or> map_of (steps g) (p, q) = None
     \<and> (\<exists>row. steps (snd (insert_child_workflow c p q ret g)) = AList.update (p, q) row (steps g))"
  unfolding insert_child_workflow_def Let_def by (auto split: option.splits sum.splits)

lemma step_exec:
  assumes "keeps_history w op g" "map_of (steps g) (w, q) = Some r"
  shows "map_of (steps (mem_exec C op g)) (w, q) = Some r"
proof (cases op)
  case (Op_send now now' u w' q' nm rows)
  then show ?thesis
    using assms(2) push_notifications_simps(2) [of now u rows g]
    by (auto simp: send_from_workflow_def checkpoint_simps split: sum.splits option.splits prod.splits)
next
  case (Op_consume now w' t q' nm)
  then show ?thesis using assms(2)
    by (auto simp: consume_notification_def checkpoint_simps split: sum.splits option.splits prod.splits)
next
  case (Op_write_stream_from_workflow now w' q' nm k v)
  then show ?thesis
    using assms(2) append_stream_simps(2) [of w' k v g]
    by (auto simp: write_stream_from_workflow_def checkpoint_simps split: sum.splits option.splits prod.splits)
next
  case (Op_import f clock xs)
  then show ?thesis using assms import_fold_steps [of xs w C f clock g q]
    by (simp add: import_workflow_def list_all_iff split: option.split)
next
  case (Op_fork now p t)
  then show ?thesis using assms
    by (auto simp: fork_workflow_with_timeout_def Let_def case_prod_unfold fold_update_other split: option.split)
next
  case (Op_cancel now ids opts)
  have "steps (fold (\<lambda>i. modify_row i (cancel_row now)) xs g) = steps g" for xs
    by (induction xs arbitrary: g) (simp_all add: modify_row_def split: option.split)
  then show ?thesis using assms(2) by (simp add: Op_cancel cancel_workflows_with_options_def)
next
  case (Op_apply_schedules ss)
  have "steps (fold (\<lambda>s g. g\<lparr>schedules := AList.update (ws_schedule_name s) s (schedules g)\<rparr>) ss g) = steps g"
    by (induction ss arbitrary: g) simp_all
  then show ?thesis using assms(2) by (simp add: Op_apply_schedules apply_schedules_def)
next
  case (Op_resume_many now ids)
  have "steps (snd (resume_each now xs g)) = steps g" for xs
    by (induction xs arbitrary: g) (simp_all add: case_prod_unfold Let_def split: option.split)
  then show ?thesis using assms(2) by (simp add: Op_resume_many resume_workflows_def case_prod_unfold Let_def)
next
  case (Op_dequeue now clock req)
  have "steps (snd (claim_each clock t req ids h)) = steps h" for t ids h
    by (induction ids arbitrary: h) (simp_all add: case_prod_unfold Let_def split: option.split)
  then show ?thesis using assms(2) by (simp add: Op_dequeue dequeue_workflows_eq Let_def)
next
  case (Op_insert_child c p q' ret)
  show ?thesis
    using insert_child_steps [of c p q' ret g] assms(2) by (auto simp: Op_insert_child)
next
  case (Op_insert w')
  then show ?thesis using assms(2) by (simp add: insert_workflow_status_def put_row_def Let_def split: option.split)
next
  case (Op_record_step now w' q' nm v err st ex)
  then show ?thesis using assms(2) by (auto simp: record_step_result_def Let_def split: option.split)
next
  case (Op_record_child p q' nm c)
  then show ?thesis using assms(2) by (auto simp: record_child_workflow_def contains_key_def)
next
  case (Op_record_patch w' q' nm)
  then show ?thesis using assms(2) by (auto simp: record_patch_def contains_key_def)
next
  case (Op_claim now req)
  then show ?thesis using assms(2) by (simp add: claim_for_recovery_cases split: option.split)
qed (use assms in \<open>simp_all add: set_workflow_status_def
      transition_delayed_workflows_def insert_notification_def insert_notifications_def push_notifications_simps
      upsert_event_def write_stream_def append_stream_simps resume_workflow_def enqueue_existing_def
      modify_row_def delete_workflows_def delete_fold_lookups set_workflow_delay_def set_workflow_attributes_def
      create_schedule_def update_schedule_def set_schedule_status_def
      set_schedule_last_fired_def delete_schedule_def create_application_version_def
      set_latest_application_version_def upsert_queue_def
      split: option.split sum.split\<close>)

section \<open>Outcomes\<close>

lemma import_fold_rows:
  assumes "\<forall>x \<in> set xs. unwrap_or [] (col_str (xw_workflow_status x) ''workflow_uuid'') \<noteq> w"
  shows "map_of (workflows (fold (import_one C f clock) xs g)) w = map_of (workflows g) w"
  using assms by (induction xs arbitrary: g) (auto simp: import_one_def Let_def)

lemma completed_blocks_write: "completed v \<Longrightarrow> is_terminal st \<Longrightarrow> \<not> status_write_allowed (wf_status v) st"
  by (auto simp: completed_def is_terminal_def status_write_allowed_def)

lemma outcome_exec:
  assumes "mem_inv g" "keeps_outcome w op g" "map_of (workflows g) w = Some v" "completed v"
  shows "\<exists>v'. map_of (workflows (mem_exec C op g)) w = Some v' \<and> outcome_kept v v'"
proof (cases "moves_rows op")
  case True
  then show ?thesis
    using outcomes.moves_rows_rel [OF assms(1), of op C] assms(3)
    by (auto simp: rows_rel_def option_rel_Some1 dest!: spec [of _ w])
next
  case False
  then show ?thesis
  proof (cases op)
    case (Op_insert w')
    then show ?thesis using assms(3)
      by (auto simp: insert_workflow_status_def put_row_def Let_def split: option.split)
  next
    case (Op_insert_child c p q ret)
    then show ?thesis using insert_child_rows [of c p q ret g] assms(3)
      by (cases "workflows (mem_exec C op g) = workflows g") auto
  next
    case (Op_set_status now i st out err)
    then show ?thesis using assms completed_blocks_write
      by (auto simp: set_workflow_status_def split: option.split)
  next
    case (Op_enqueue_existing now i q)
    then show ?thesis using assms by (auto simp: enqueue_existing_def modify_row_def split: option.split)
  next
    case (Op_delete ids ch)
    then show ?thesis using assms by (simp add: delete_workflows_def delete_fold_lookups)
  next
    case (Op_fork now p t)
    then show ?thesis using assms by (simp add: fork_workflow_with_timeout_def Let_def split: option.split)
  next
    case (Op_import f clock xs)
    then show ?thesis using assms import_fold_rows [of xs w C f clock g]
      by (simp add: import_workflow_def list_all_iff split: option.split)
  qed simp_all
qed

section \<open>Streams\<close>

lemma stream_prefix_append:
  assumes "map_of (streams g) (w, k) = Some es"
  shows "\<exists>fs. map_of (streams (snd (append_stream w' k' v g))) (w, k) = Some (es @ fs) \<and> (None \<in> set es \<longrightarrow> fs = [])"
  using assms by (auto simp: append_stream_def Let_def list_ex_iff)

lemma import_fold_streams:
  assumes "\<forall>x \<in> set xs. unwrap_or [] (col_str (xw_workflow_status x) ''workflow_uuid'') \<noteq> w"
  shows "map_of (streams (fold (import_one C f clock) xs g)) (w, k) = map_of (streams g) (w, k)"
  using assms
proof (induction xs arbitrary: g)
  case (Cons x xs)
  have "map_of (fold (\<lambda>(key, rows). AList.update (i, key) (fill_buffer rows)) ps m) (w, k) = map_of m (w, k)"
    if "i \<noteq> w" for i ps m
    using that by (induction ps arbitrary: m) auto
  then show ?case using Cons by (simp add: import_one_def Let_def)
qed simp

lemma stream_exec:
  assumes "keeps_history w op g" "map_of (streams g) (w, k) = Some es"
  shows "\<exists>fs. map_of (streams (mem_exec C op g)) (w, k) = Some (es @ fs) \<and> (None \<in> set es \<longrightarrow> fs = [])"
proof (cases op)
  case (Op_write_stream w' k' v f)
  then show ?thesis using stream_prefix_append [OF assms(2), of w' k' v] by (simp add: write_stream_def)
next
  case (Op_write_stream_from_workflow now w' q nm k' v)
  obtain r g' where a: "append_stream w' k' v g = (r, g')" by fastforce
  then have "\<exists>fs. map_of (streams g') (w, k) = Some (es @ fs) \<and> (None \<in> set es \<longrightarrow> fs = [])"
    using stream_prefix_append [OF assms(2), of w' k' v] by simp
  then show ?thesis using a assms(2)
    by (simp add: Op_write_stream_from_workflow write_stream_from_workflow_def checkpoint_simps
        split: sum.split option.split)
next
  case (Op_send now now' u w' q' nm rows)
  then show ?thesis
    using assms(2) push_notifications_simps(3) [of now u rows g]
    by (auto simp: send_from_workflow_def checkpoint_simps split: sum.splits option.splits prod.splits)
next
  case (Op_consume now w' t q' nm)
  then show ?thesis using assms(2)
    by (auto simp: consume_notification_def checkpoint_simps split: sum.splits option.splits prod.splits)
next
  case (Op_import f clock xs)
  then show ?thesis using assms import_fold_streams [of xs w C f clock g k]
    by (simp add: import_workflow_def list_all_iff split: option.split)
next
  case (Op_cancel now ids opts)
  have "streams (fold (\<lambda>i. modify_row i (cancel_row now)) xs g) = streams g" for xs
    by (induction xs arbitrary: g) (simp_all add: modify_row_def split: option.split)
  then show ?thesis using assms(2) by (simp add: Op_cancel cancel_workflows_with_options_def)
next
  case (Op_apply_schedules ss)
  have "streams (fold (\<lambda>s g. g\<lparr>schedules := AList.update (ws_schedule_name s) s (schedules g)\<rparr>) ss g) = streams g"
    by (induction ss arbitrary: g) simp_all
  then show ?thesis using assms(2) by (simp add: Op_apply_schedules apply_schedules_def)
next
  case (Op_resume_many now ids)
  have "streams (snd (resume_each now xs g)) = streams g" for xs
    by (induction xs arbitrary: g) (simp_all add: case_prod_unfold Let_def split: option.split)
  then show ?thesis using assms(2) by (simp add: Op_resume_many resume_workflows_def case_prod_unfold Let_def)
next
  case (Op_dequeue now clock req)
  have "streams (snd (claim_each clock t req ids h)) = streams h" for t ids h
    by (induction ids arbitrary: h) (simp_all add: case_prod_unfold Let_def split: option.split)
  then show ?thesis using assms(2) by (simp add: Op_dequeue dequeue_workflows_eq Let_def)
next
  case (Op_insert_child c p q' ret)
  have "streams (snd (insert_child_workflow c p q' ret g)) = streams g"
    unfolding insert_child_workflow_def Let_def by (auto split: option.splits sum.splits)
  then show ?thesis using assms(2) by (simp add: Op_insert_child)
next
  case (Op_insert w')
  then show ?thesis using assms(2) by (simp add: insert_workflow_status_def put_row_def Let_def split: option.split)
next
  case (Op_claim now req)
  then show ?thesis using assms(2) by (simp add: claim_for_recovery_cases split: option.split)
qed (use assms in \<open>simp_all add: set_workflow_status_def fork_workflow_with_timeout_def Let_def
      record_step_result_def record_child_workflow_def record_patch_def
      transition_delayed_workflows_def insert_notification_def insert_notifications_def push_notifications_simps
      upsert_event_def resume_workflow_def enqueue_existing_def
      modify_row_def delete_workflows_def delete_fold_lookups set_workflow_delay_def set_workflow_attributes_def
      create_schedule_def update_schedule_def set_schedule_status_def
      set_schedule_last_fired_def delete_schedule_def create_application_version_def
      set_latest_application_version_def upsert_queue_def
      split: option.split sum.split\<close>)

section \<open>Properties\<close>

text \<open>
  C32: the tables stay tables.  In every state that any sequence of provider
  operations reaches from an empty store, no table holds two entries for one key
  and every workflow, schedule, version and queue is stored under its own key.
\<close>

theorem store_invariant:
  assumes "reachable C (\<lambda>_ _. True) inner_default g"
  shows "mem_inv g"
  using reachable_mem_inv [OF assms] by simp

text \<open>
  C26: a deduplication id is held once, as long as the slot discipline is kept.  In
  every state reached from an empty store by operations that neither move a row
  that holds a deduplication id to a queue with \<open>enqueue_existing\<close> nor import rows
  with one, two rows with the same queue and the same deduplication id are the
  same row: inserts and child inserts refuse a taken slot, and every other
  transition keeps or frees it.  The two excluded operations do not check the
  slot, and without the discipline the statement is false
  (\<open>slot_discipline_needed\<close>).
\<close>

theorem dedup_slot_unique:
  assumes "reachable C slot_discipline inner_default g"
    and "map_of (workflows g) i = Some v" "map_of (workflows g) j = Some w"
    and "wf_queue_name v = Some q" "wf_dedup_id v = Some d"
    and "wf_queue_name w = Some q" "wf_dedup_id w = Some d"
  shows "i = j"
proof -
  have "mem_inv g \<and> slots_unique g"
    using assms(1) by (rule reachable_invariant)
      (auto simp: slots_exec mem_exec_inv, simp add: slots_unique_def inner_default_def)
  then show ?thesis using assms(2-) slots_unique_iff [of g] by (auto simp: slot_of_def)
qed

text \<open>
  C23: a checkpoint is permanent.  Once a step of a workflow is recorded, no
  sequence of operations changes what is recorded at that position, unless the
  workflow itself is deleted or its id is the target of a fork or an import; so
  every later read of it, by any executor, is the same.
\<close>

theorem checkpoint_permanent:
  assumes "reachable C (keeps_history w) g0 g" "map_of (steps g0) (w, q) = Some r"
  shows "map_of (steps g) (w, q) = Some r \<and> get_step_result C w q g = get_step_result C w q g0"
proof -
  have "map_of (steps g) (w, q) = Some r"
    using assms by (rule reachable_invariant) (rule step_exec)
  then show ?thesis using assms(2) by (simp add: get_step_result_def)
qed

text \<open>
  C24: an outcome is final.  Once a workflow succeeded or failed, no sequence of
  operations (claims, cancels, resumes, dequeues, releases, late outcome reports
  among them) changes its status, output or error, as long as its id is not
  deleted, overwritten by a fork or an import, or put back on a queue.
\<close>

theorem outcome_final:
  assumes "reachable C (keeps_outcome w) g0 g" "mem_inv g0"
    and "map_of (workflows g0) w = Some v" "wf_status v = STATUS_SUCCESS \<or> wf_status v = STATUS_ERROR"
  shows "\<exists>v'. map_of (workflows g) w = Some v' \<and> wf_status v' = wf_status v \<and> wf_output v' = wf_output v
    \<and> wf_error v' = wf_error v \<and> wf_error_info v' = wf_error_info v"
proof -
  have c: "completed v" using assms(4) by (simp add: completed_def)
  let ?I = "\<lambda>g. mem_inv g \<and> (\<exists>v'. map_of (workflows g) w = Some v' \<and> outcome_kept v v' \<and> completed v')"
  have kept: "outcome_kept u v' \<Longrightarrow> completed u \<Longrightarrow> completed v'" for u v'
    by (auto simp: outcome_kept_def completed_def)
  have "?I g"
    using assms(1)
  proof (rule reachable_invariant)
    show "?I g0" using assms(2,3) c outcomes.R_refl by blast
  next
    fix g op assume "?I g" "keeps_outcome w op g"
    then show "?I (mem_exec C op g)"
      using outcome_exec [of g w op _ C] mem_exec_inv outcomes.R_trans kept by metis
  qed
  then show ?thesis using c by (auto simp: outcome_kept_def)
qed

text \<open>
  A stream only grows, and not once it is closed.  Over any sequence of
  operations that does not delete the workflow or overwrite it by an import,
  the entries of a stream stay a prefix of its later entries, and a stream with
  its close sentinel written takes no further entry.
\<close>

theorem stream_append_only:
  assumes "reachable C (keeps_history w) g0 g" "map_of (streams g0) (w, k) = Some es"
  shows "\<exists>fs. map_of (streams g) (w, k) = Some (es @ fs) \<and> (None \<in> set es \<longrightarrow> fs = [])"
  using assms(1)
proof (rule reachable_invariant)
  show "\<exists>fs. map_of (streams g0) (w, k) = Some (es @ fs) \<and> (None \<in> set es \<longrightarrow> fs = [])" using assms(2) by simp
next
  fix g op
  assume "\<exists>fs. map_of (streams g) (w, k) = Some (es @ fs) \<and> (None \<in> set es \<longrightarrow> fs = [])" "keeps_history w op g"
  then show "\<exists>fs. map_of (streams (mem_exec C op g)) (w, k) = Some (es @ fs) \<and> (None \<in> set es \<longrightarrow> fs = [])"
    using stream_exec by fastforce
qed

section \<open>Witnesses\<close>

definition sample_ops :: "mem_op list" where
  "sample_ops = [
     Op_insert ((workflow_status_new 0 ''a'' ''wf'' JNull STATUS_PENDING ''x'' ''v'')
       \<lparr>wf_queue_name := Some ''q'', wf_dedup_id := Some ''d''\<rparr>),
     Op_insert ((workflow_status_new 0 ''b'' ''wf'' JNull STATUS_PENDING ''x'' ''v'')
       \<lparr>wf_queue_name := Some ''q'', wf_dedup_id := Some ''d''\<rparr>),
     Op_record_step 1 ''a'' 0 ''one'' (JInt 1) None None None,
     Op_write_stream ''a'' ''s'' (Some (JInt 1)) 0,
     Op_write_stream ''a'' ''s'' None 0,
     Op_set_status 2 ''a'' STATUS_SUCCESS (Some (JInt 1)) None]"

definition sample_late_ops :: "mem_op list" where
  "sample_late_ops = [
     Op_record_step 5 ''a'' 0 ''two'' (JInt 9) None None None,
     Op_write_stream ''a'' ''s'' (Some (JInt 3)) 0,
     Op_set_status 6 ''a'' STATUS_ERROR None (Some ''late''),
     Op_cancel 7 [''a''] \<lparr>co_cancel_children = True\<rparr>]"

lemma sample_run_reaches:
  "run_ok plain_codec slot_discipline sample_ops inner_default"
  "run_ok plain_codec (keeps_history ''a'') sample_late_ops (mem_run plain_codec sample_ops inner_default)"
  "run_ok plain_codec (keeps_outcome ''a'') sample_late_ops (mem_run plain_codec sample_ops inner_default)"
  by code_simp+

theorem store_invariant_witness: "mem_inv (mem_run plain_codec sample_ops inner_default)"
  by (rule store_invariant [of plain_codec]) (rule reachable_run [OF reachable.start], code_simp)

theorem dedup_slot_unique_witness:
  "map_of (workflows (mem_run plain_codec (take 2 sample_ops) inner_default)) ''b'' = None"
proof -
  let ?g = "mem_run plain_codec (take 2 sample_ops) inner_default"
  have "reachable plain_codec slot_discipline inner_default ?g"
    by (rule reachable_run [OF reachable.start]) code_simp
  moreover have "map_of (workflows ?g) ''a'' = Some ((workflow_status_new 0 ''a'' ''wf'' JNull STATUS_PENDING ''x'' ''v'')
       \<lparr>wf_queue_name := Some ''q'', wf_dedup_id := Some ''d''\<rparr>)" by code_simp
  moreover have "is_none_or (map_of (workflows ?g) ''b'') (\<lambda>w. wf_queue_name w = Some ''q'' \<and> wf_dedup_id w = Some ''d'')" by code_simp
  ultimately show ?thesis
    using dedup_slot_unique [of plain_codec ?g "''a''"
        "(workflow_status_new 0 ''a'' ''wf'' JNull STATUS_PENDING ''x'' ''v'')
           \<lparr>wf_queue_name := Some ''q'', wf_dedup_id := Some ''d''\<rparr>"
        "''b''" "the (map_of (workflows ?g) ''b'')" "''q''" "''d''"]
    by (cases "map_of (workflows ?g) ''b''") auto
qed

text \<open>The discipline is needed: a row moved onto a queue keeps a deduplication id that is held there.\<close>

lemma slot_discipline_needed:
  "\<exists>g v w. reachable plain_codec (\<lambda>_ _. True) inner_default g \<and> map_of (workflows g) ''a'' = Some v \<and> map_of (workflows g) ''b'' = Some w
    \<and> slot_of v = Some (''q'', ''d'') \<and> slot_of w = Some (''q'', ''d'')"
proof -
  let ?row = "\<lambda>i q. (workflow_status_new 0 i ''wf'' JNull STATUS_PENDING ''x'' ''v'')\<lparr>wf_queue_name := Some q, wf_dedup_id := Some ''d''\<rparr>"
  let ?g = "mem_run plain_codec [Op_insert (?row ''a'' ''q''), Op_insert (?row ''b'' ''r''), Op_enqueue_existing 1 ''b'' ''q''] inner_default"
  have "reachable plain_codec (\<lambda>_ _. True) inner_default ?g" by (rule reachable_run [OF reachable.start]) code_simp
  moreover have "map_option slot_of (map_of (workflows ?g) ''a'') = Some (Some (''q'', ''d''))" by code_simp
  moreover have "map_option slot_of (map_of (workflows ?g) ''b'') = Some (Some (''q'', ''d''))" by code_simp
  ultimately show ?thesis by (intro exI [of _ ?g]) auto
qed

theorem checkpoint_permanent_witness:
  "\<exists>r. map_of (steps (mem_run plain_codec sample_late_ops (mem_run plain_codec sample_ops inner_default))) (''a'', 0)
     = Some r \<and> sr_name r = ''one'' \<and> sr_output r = Some (JInt 1)"
proof -
  let ?g = "mem_run plain_codec sample_ops inner_default"
  have "map_of (steps ?g) (''a'', 0) = Some (checkpoint_row 1 ''one'' (JInt 1) None None)" by code_simp
  from checkpoint_permanent [OF reachable_run [OF reachable.start sample_run_reaches(2)] this]
  show ?thesis by simp
qed

theorem outcome_final_witness:
  "\<exists>v. map_of (workflows (mem_run plain_codec sample_late_ops (mem_run plain_codec sample_ops inner_default))) ''a''
     = Some v \<and> wf_status v = STATUS_SUCCESS \<and> wf_output v = Some (JInt 1)"
proof -
  let ?g = "mem_run plain_codec sample_ops inner_default"
  have inv: "mem_inv ?g" by code_simp
  have "is_some_and (map_of (workflows ?g) ''a'') (\<lambda>v. wf_status v = STATUS_SUCCESS \<and> wf_output v = Some (JInt 1))"
    by code_simp
  then obtain v where v: "map_of (workflows ?g) ''a'' = Some v" "wf_status v = STATUS_SUCCESS"
      "wf_output v = Some (JInt 1)" by (auto simp: is_some_and_iff)
  then show ?thesis
    using outcome_final [OF reachable_run [OF reachable.start sample_run_reaches(3)] inv v(1)] by auto
qed

theorem stream_append_only_witness:
  "map_of (streams (mem_run plain_codec sample_late_ops (mem_run plain_codec sample_ops inner_default))) (''a'', ''s'')
     = Some [Some (JInt 1), None]"
proof -
  let ?g = "mem_run plain_codec sample_ops inner_default"
  have "map_of (streams ?g) (''a'', ''s'') = Some [Some (JInt 1), None]" by code_simp
  from stream_append_only [OF reachable_run [OF reachable.start sample_run_reaches(2)] this]
  show ?thesis by simp
qed

end
