(* ===== verification/Provider_Api.thy ===== *)
theory Provider_Api
  imports Provider_Types Execution
begin

text \<open>
  The interface of a state backend (\<open>trait StateProvider\<close> in
  \<open>src/provider.rs\<close>) as a record of its methods over an abstract store,
  and the methods that the trait defines by composing others.  A method that
  reads the clock takes the instant it reads, one that makes message ids takes
  the ids.  The record holds the methods that the durable context, the
  engine and the default methods call.
\<close>

section \<open>Definitions\<close>

record 's state_provider =
  p_serializer :: serializer
  p_get_workflow_status :: "string \<Rightarrow> 's \<Rightarrow> workflow_status option result"
  p_get_step_result :: "string \<Rightarrow> int \<Rightarrow> 's \<Rightarrow> recorded_step option result"
  p_record_step_result :: "datetime \<Rightarrow> string \<Rightarrow> int \<Rightarrow> string \<Rightarrow> json \<Rightarrow> string option \<Rightarrow> int option
    \<Rightarrow> string option \<Rightarrow> 's \<Rightarrow> step_outcome result \<times> 's"
  p_insert_notification :: "datetime \<Rightarrow> string \<Rightarrow> string \<Rightarrow> string \<Rightarrow> json \<Rightarrow> string option \<Rightarrow> 's \<Rightarrow> unit result \<times> 's"
  p_insert_notifications :: "datetime \<Rightarrow> (nat \<Rightarrow> string) \<Rightarrow> notification_insert list \<Rightarrow> 's \<Rightarrow> unit result \<times> 's"
  p_send_from_workflow :: "datetime \<Rightarrow> datetime \<Rightarrow> (nat \<Rightarrow> string) \<Rightarrow> string \<Rightarrow> int \<Rightarrow> string
    \<Rightarrow> notification_insert list \<Rightarrow> 's \<Rightarrow> unit result \<times> 's"
  p_consume_notification :: "datetime \<Rightarrow> string \<Rightarrow> string \<Rightarrow> int \<Rightarrow> string \<Rightarrow> 's \<Rightarrow> json option result \<times> 's"
  p_upsert_event :: "string \<Rightarrow> string \<Rightarrow> json \<Rightarrow> 's \<Rightarrow> unit result \<times> 's"
  p_get_event_value :: "string \<Rightarrow> string \<Rightarrow> 's \<Rightarrow> json option result"
  p_list_workflows :: "list_filter \<Rightarrow> 's \<Rightarrow> workflow_status list result"
  p_cancel_workflows :: "datetime \<Rightarrow> string list \<Rightarrow> 's \<Rightarrow> unit result \<times> 's"
  p_delete_workflows :: "string list \<Rightarrow> bool \<Rightarrow> 's \<Rightarrow> unit result \<times> 's"
  p_nth_newest_completed_at :: "int \<Rightarrow> 's \<Rightarrow> int option result"
  p_set_workflow_attributes :: "datetime \<Rightarrow> string \<Rightarrow> jmap option \<Rightarrow> 's \<Rightarrow> unit result \<times> 's"
  p_check_child_workflow :: "string \<Rightarrow> int \<Rightarrow> 's \<Rightarrow> (string \<times> string) option result"
  p_get_workflow_steps :: "string \<Rightarrow> 's \<Rightarrow> step_info list result"
  p_get_step_name :: "string \<Rightarrow> int \<Rightarrow> 's \<Rightarrow> string option result"
  p_record_patch :: "string \<Rightarrow> int \<Rightarrow> string \<Rightarrow> 's \<Rightarrow> unit result \<times> 's"
  p_write_stream :: "string \<Rightarrow> string \<Rightarrow> json option \<Rightarrow> int \<Rightarrow> 's \<Rightarrow> unit result \<times> 's"
  p_write_stream_from_workflow :: "datetime \<Rightarrow> string \<Rightarrow> int \<Rightarrow> string \<Rightarrow> string \<Rightarrow> json option \<Rightarrow> 's \<Rightarrow> unit result \<times> 's"
  p_read_stream :: "string \<Rightarrow> string \<Rightarrow> int \<Rightarrow> 's \<Rightarrow> (json list \<times> bool) result"
  p_insert_workflow_status :: "workflow_status \<Rightarrow> 's \<Rightarrow> (workflow_status \<times> bool) result \<times> 's"
  p_get_deduplicated_workflow :: "string \<Rightarrow> string \<Rightarrow> 's \<Rightarrow> string option result"
  p_set_workflow_status :: "datetime \<Rightarrow> string \<Rightarrow> string \<Rightarrow> json option \<Rightarrow> string option \<Rightarrow> 's \<Rightarrow> bool result \<times> 's"
  p_claim_for_recovery :: "datetime \<Rightarrow> recovery_claim_request \<Rightarrow> 's \<Rightarrow> recovery_claim result \<times> 's"
  p_insert_child_workflow :: "workflow_status \<Rightarrow> string \<Rightarrow> int \<Rightarrow> bool \<Rightarrow> 's \<Rightarrow> child_insert option result \<times> 's"
  p_record_child_workflow :: "string \<Rightarrow> int \<Rightarrow> string \<Rightarrow> string \<Rightarrow> 's \<Rightarrow> unit result \<times> 's"
  p_dequeue_workflows :: "datetime \<Rightarrow> (string \<Rightarrow> datetime) \<Rightarrow> dequeue_request \<Rightarrow> 's \<Rightarrow> workflow_status list result \<times> 's"
  p_queue_partitions :: "string \<Rightarrow> 's \<Rightarrow> string list result"
  p_transition_delayed_workflows :: "(string \<Rightarrow> datetime) \<Rightarrow> epoch_ms \<Rightarrow> 's \<Rightarrow> nat result \<times> 's"

definition GC_BATCH :: int where "GC_BATCH = 10000"

definition step_already_recorded :: "'s state_provider \<Rightarrow> string \<Rightarrow> int \<Rightarrow> string \<Rightarrow> 's \<Rightarrow> bool result" where
  "step_already_recorded P w seq nm s = (case p_get_step_result P w seq s of
       Inl e \<Rightarrow> Err e
     | Inr None \<Rightarrow> Ok False
     | Inr (Some r) \<Rightarrow> if rs_name r = nm then Ok True else Err (UnexpectedStep w seq nm (rs_name r)))"

text \<open>\<open>fresh i\<close> is the id made for the \<open>i\<close>-th row; the clock is read once per row.\<close>

fun insert_each :: "'s state_provider \<Rightarrow> (nat \<Rightarrow> datetime) \<Rightarrow> (nat \<Rightarrow> string) \<Rightarrow> nat \<Rightarrow> notification_insert list
  \<Rightarrow> 's \<Rightarrow> unit result \<times> 's" where
  "insert_each P clock fresh i [] s = (Ok (), s)"
| "insert_each P clock fresh i (r # rs) s =
     (case p_insert_notification P (clock i) (fresh i) (nx_destination_id r) (nx_topic r) (nx_message r)
        (nx_idempotency_key r) s of
        (Inl e, s') \<Rightarrow> (Err e, s')
      | (Inr _, s') \<Rightarrow> insert_each P clock fresh (Suc i) rs s')"

definition insert_notifications_default ::
  "'s state_provider \<Rightarrow> (nat \<Rightarrow> datetime) \<Rightarrow> (nat \<Rightarrow> string) \<Rightarrow> notification_insert list \<Rightarrow> 's \<Rightarrow> unit result \<times> 's" where
  "insert_notifications_default P clock fresh rows s = insert_each P clock fresh 0 rows s"

definition send_from_workflow_default :: "'s state_provider \<Rightarrow> datetime \<Rightarrow> datetime \<Rightarrow> (nat \<Rightarrow> string) \<Rightarrow> string
  \<Rightarrow> int \<Rightarrow> string \<Rightarrow> notification_insert list \<Rightarrow> 's \<Rightarrow> unit result \<times> 's" where
  "send_from_workflow_default P now now' fresh w seq nm rows s =
     (case step_already_recorded P w seq nm s of
        Inl e \<Rightarrow> (Err e, s)
      | Inr True \<Rightarrow> (Ok (), s)
      | Inr False \<Rightarrow> (case p_insert_notifications P now fresh rows s of
          (Inl e, s') \<Rightarrow> (Err e, s')
        | (Inr _, s') \<Rightarrow> (case p_record_step_result P now' w seq nm JNull None None None s' of
            (Inl e, s'') \<Rightarrow> (Err e, s'')
          | (Inr _, s'') \<Rightarrow> (Ok (), s''))))"

definition write_stream_from_workflow_default :: "'s state_provider \<Rightarrow> datetime \<Rightarrow> string \<Rightarrow> int \<Rightarrow> string \<Rightarrow> string
  \<Rightarrow> json option \<Rightarrow> 's \<Rightarrow> unit result \<times> 's" where
  "write_stream_from_workflow_default P now w seq nm key v s =
     (case step_already_recorded P w seq nm s of
        Inl e \<Rightarrow> (Err e, s)
      | Inr True \<Rightarrow> (Ok (), s)
      | Inr False \<Rightarrow> (case p_write_stream P w key v seq s of
          (Inl e, s') \<Rightarrow> (Err e, s')
        | (Inr _, s') \<Rightarrow> (case p_record_step_result P now w seq nm JNull None None None s' of
            (Inl e, s'') \<Rightarrow> (Err e, s'')
          | (Inr _, s'') \<Rightarrow> (Ok (), s''))))"

text \<open>Rows not seen before, in order, with the set of ids after them (\<open>targets.insert(..).then_some\<close>).\<close>

fun new_targets :: "workflow_status list \<Rightarrow> string list \<Rightarrow> string list \<times> string list" where
  "new_targets [] targets = ([], targets)"
| "new_targets (r # rs) targets =
     (if wf_id r \<in> set targets then new_targets rs targets
      else let (fs, ts) = new_targets rs (targets @ [wf_id r]) in (wf_id r # fs, ts))"

partial_function (option) gather_targets ::
  "'s state_provider \<Rightarrow> 's \<Rightarrow> string list \<Rightarrow> string list \<Rightarrow> string list result option" where
  "gather_targets P s frontier targets =
     (if frontier = [] then Some (Ok targets)
      else case p_list_workflows P (list_filter_default\<lparr>lf_parent_workflow_ids := frontier,
             lf_load_input := False, lf_load_output := False\<rparr>) s of
        Inl e \<Rightarrow> Some (Err e)
      | Inr children \<Rightarrow> gather_targets P s (fst (new_targets children targets)) (snd (new_targets children targets)))"

text \<open>The rows are read between two calls of the provider; nothing changes meanwhile
  in this sequential reading.\<close>

definition cancel_workflows_with_options_default ::
  "'s state_provider \<Rightarrow> datetime \<Rightarrow> string list \<Rightarrow> cancel_options \<Rightarrow> 's \<Rightarrow> (unit result \<times> 's) option" where
  "cancel_workflows_with_options_default P now ids options s =
     (if \<not> co_cancel_children options \<or> ids = [] then Some (p_cancel_workflows P now ids s)
      else Option.bind (gather_targets P s (remdups ids) (remdups ids)) (\<lambda>r. Some (case r of
        Inl e \<Rightarrow> (Err e, s) | Inr targets \<Rightarrow> p_cancel_workflows P now targets s)))"

definition terminal_statuses :: "string list" where
  "terminal_statuses = [STATUS_SUCCESS, STATUS_ERROR, STATUS_CANCELLED, STATUS_MAX_RECOVERY_ATTEMPTS_EXCEEDED]"

text \<open>\<open>select_nth_unstable_by\<close> with the descending order puts the element of rank
  \<open>idx\<close> of the descending sort at that index.\<close>

definition nth_newest_of :: "(list_filter \<Rightarrow> 's \<Rightarrow> workflow_status list result) \<Rightarrow> int \<Rightarrow> 's \<Rightarrow> int option result" where
  "nth_newest_of listing threshold s =
     (if threshold \<le> 0 then Ok None
      else case listing (list_filter_default\<lparr>lf_status := terminal_statuses,
             lf_load_input := False, lf_load_output := False\<rparr>) s of
        Inl e \<Rightarrow> Err e
      | Inr rows \<Rightarrow>
         (let finish = List.map_filter wf_completed_at_ms rows; idx = nat (threshold - 1) in
          if idx \<ge> length finish then Ok None
          else Ok (Some (rev (sort finish) ! idx))))"

definition nth_newest_completed_at_default :: "'s state_provider \<Rightarrow> int \<Rightarrow> 's \<Rightarrow> int option result" where
  "nth_newest_completed_at_default P = nth_newest_of (p_list_workflows P)"

definition resolve_gc_cutoff :: "'s state_provider \<Rightarrow> int option \<Rightarrow> int option \<Rightarrow> 's \<Rightarrow> int option result" where
  "resolve_gc_cutoff P cutoff_epoch_ms rows_threshold s = (case rows_threshold of
       None \<Rightarrow> Ok cutoff_epoch_ms
     | Some t \<Rightarrow>
        if t \<le> 0 then Err (app (''rows_threshold must be positive, got '' @ show_int t))
        else (case p_nth_newest_completed_at P t s of
            Inl e \<Rightarrow> Err e
          | Inr None \<Rightarrow> Ok cutoff_epoch_ms
          | Inr (Some rows_cutoff) \<Rightarrow>
             if is_none_or cutoff_epoch_ms (\<lambda>c. rows_cutoff > c) then Ok (Some rows_cutoff)
             else Ok cutoff_epoch_ms))"

partial_function (option) gc_loop ::
  "'s state_provider \<Rightarrow> list_filter \<Rightarrow> int \<Rightarrow> 's \<Rightarrow> (int result \<times> 's) option" where
  "gc_loop P f swept s = (case p_list_workflows P f s of
       Inl e \<Rightarrow> Some (Err e, s)
     | Inr rows \<Rightarrow>
        (case p_delete_workflows P (map wf_id rows) False s of
           (Inl e, s') \<Rightarrow> Some (Err e, s')
         | (Inr _, s') \<Rightarrow>
            if int (length rows) < GC_BATCH then Some (Ok (swept + int (length rows)), s')
            else gc_loop P f (swept + int (length rows)) s'))"

text \<open>\<open>cutoff - 1\<close> wraps in a release build at the least \<open>i64\<close>.\<close>

definition gc_filter :: "int \<Rightarrow> list_filter" where
  "gc_filter cutoff = list_filter_default\<lparr>lf_status := terminal_statuses,
     lf_completed_before_ms := Some (wrap_i64 (cutoff - 1)), lf_limit := Some GC_BATCH,
     lf_load_input := False, lf_load_output := False\<rparr>"

definition garbage_collect_default ::
  "'s state_provider \<Rightarrow> int option \<Rightarrow> int option \<Rightarrow> 's \<Rightarrow> (int result \<times> 's) option" where
  "garbage_collect_default P cutoff_epoch_ms rows_threshold s =
     (case resolve_gc_cutoff P cutoff_epoch_ms rows_threshold s of
        Inl e \<Rightarrow> Some (Err e, s)
      | Inr None \<Rightarrow> Some (Ok 0, s)
      | Inr (Some cutoff) \<Rightarrow> gc_loop P (gc_filter cutoff) 0 s)"

definition get_workflow_steps_with_options_default ::
  "'s state_provider \<Rightarrow> string \<Rightarrow> step_list_options \<Rightarrow> 's \<Rightarrow> step_info list result" where
  "get_workflow_steps_with_options_default P w opts s = (case p_get_workflow_steps P w s of
       Inl e \<Rightarrow> Err e
     | Inr infos \<Rightarrow>
        (let rest = drop (nat (max 0 (unwrap_or 0 (so_offset opts)))) infos;
             window = (case opt_filter (\<lambda>n. 0 \<le> n) (so_limit opts) of None \<Rightarrow> rest | Some n \<Rightarrow> take (nat n) rest)
         in Ok (map (\<lambda>i. if so_load_output opts then i else i\<lparr>si_output := None\<rparr>) window)))"

text \<open>The values of a user type: its conversions to and from a JSON value, with the message of a failure.\<close>

record 'a serde =
  sd_to_value :: "'a \<Rightarrow> string + json"
  sd_from_value :: "json \<Rightarrow> string + 'a"

definition from_value :: "'a serde \<Rightarrow> json \<Rightarrow> 'a result" where
  "from_value T v = (case sd_from_value T v of Inl m \<Rightarrow> Err (Serde m) | Inr a \<Rightarrow> Ok a)"

definition to_value :: "'a serde \<Rightarrow> 'a \<Rightarrow> json result" where
  "to_value T a = (case sd_to_value T a of Inl m \<Rightarrow> Err (Serde m) | Inr v \<Rightarrow> Ok v)"

fun from_values :: "'a serde \<Rightarrow> json list \<Rightarrow> 'a list result" where
  "from_values T [] = Ok []"
| "from_values T (v # vs) = result_bind (from_value T v) (\<lambda>a. result_bind (from_values T vs) (\<lambda>as. Ok (a # as)))"

definition snapshot_stream :: "'s state_provider \<Rightarrow> 'a serde \<Rightarrow> string \<Rightarrow> string \<Rightarrow> int \<Rightarrow> 's
  \<Rightarrow> ('a list \<times> bool) result" where
  "snapshot_stream P T w key from_offset s =
     (case map_err observation_error (p_read_stream P w key from_offset s) of
        Inl e \<Rightarrow> Err e
      | Inr (vs, sealed) \<Rightarrow> result_bind (from_values T vs) (\<lambda>as. Ok (as, sealed)))"

text \<open>
  The drain loop.  Each backend read sees the store at the time of that read:
  \<open>view k\<close> is the store the \<open>k\<close>-th read sees.  A loop that goes on forever
  is the value \<open>None\<close>.
\<close>

partial_function (option) drain_stream_from ::
  "'s state_provider \<Rightarrow> 'a serde \<Rightarrow> string \<Rightarrow> string \<Rightarrow> (nat \<Rightarrow> 's) \<Rightarrow> nat \<Rightarrow> 'a list \<Rightarrow> int \<Rightarrow> bool
   \<Rightarrow> ('a list \<times> bool) result option" where
  "drain_stream_from P T w key view k acc offset final_read =
     (case map_err observation_error (p_read_stream P w key offset (view k)) of
        Inl e \<Rightarrow> Some (Err e)
      | Inr (vs, sealed) \<Rightarrow>
         (case from_values T vs of
            Inl e \<Rightarrow> Some (Err e)
          | Inr as \<Rightarrow>
             if sealed \<or> final_read then Some (Ok (acc @ as, True))
             else (case map_err observation_error (p_get_workflow_status P w (view (Suc k))) of
                 Inl e \<Rightarrow> Some (Err e)
               | Inr None \<Rightarrow> Some (Err (NonExistentWorkflow w))
               | Inr (Some row) \<Rightarrow> drain_stream_from P T w key view (Suc (Suc k)) (acc @ as)
                    (wrap_i32 (offset + int (length vs)))
                    (wf_status row \<noteq> STATUS_PENDING \<and> wf_status row \<noteq> STATUS_ENQUEUED))))"

definition drain_stream :: "'s state_provider \<Rightarrow> 'a serde \<Rightarrow> string \<Rightarrow> string \<Rightarrow> (nat \<Rightarrow> 's)
  \<Rightarrow> ('a list \<times> bool) result option" where
  "drain_stream P T w key view = drain_stream_from P T w key view 0 [] 0 False"

end
