(* ===== verification/Memory_Provider.thy ===== *)
theory Memory_Provider
  imports Provider_Api Memory_Query Memory_Messages Memory_Queue
begin

text \<open>
  The in-memory provider as an instance of the backend interface, the methods it
  takes over from the trait (retention and garbage collection), and the default
  compositions run on it.
\<close>

section \<open>Definitions\<close>

definition memory_provider :: "codec \<Rightarrow> (int \<Rightarrow> datetime option) \<Rightarrow> inner state_provider" where
  "memory_provider C from_ts = \<lparr>
     p_serializer = Json_Format,
     p_get_workflow_status = get_workflow_status,
     p_get_step_result = get_step_result C,
     p_record_step_result = record_step_result C,
     p_insert_notification = insert_notification,
     p_insert_notifications = insert_notifications,
     p_send_from_workflow = send_from_workflow,
     p_consume_notification = consume_notification C,
     p_upsert_event = upsert_event,
     p_get_event_value = get_event_value,
     p_list_workflows = list_workflows,
     p_cancel_workflows = cancel_workflows,
     p_delete_workflows = delete_workflows,
     p_nth_newest_completed_at = nth_newest_of list_workflows,
     p_set_workflow_attributes = set_workflow_attributes,
     p_check_child_workflow = check_child_workflow,
     p_get_workflow_steps = get_workflow_steps C from_ts,
     p_get_step_name = get_step_name,
     p_record_patch = record_patch,
     p_write_stream = write_stream,
     p_write_stream_from_workflow = write_stream_from_workflow,
     p_read_stream = read_stream,
     p_insert_workflow_status = insert_workflow_status,
     p_get_deduplicated_workflow = get_deduplicated_workflow,
     p_set_workflow_status = set_workflow_status C,
     p_claim_for_recovery = claim_for_recovery,
     p_insert_child_workflow = insert_child_workflow,
     p_record_child_workflow = record_child_workflow,
     p_dequeue_workflows = dequeue_workflows,
     p_queue_partitions = queue_partitions,
     p_transition_delayed_workflows = transition_delayed_workflows\<rparr>"

definition garbage_collect ::
  "codec \<Rightarrow> (int \<Rightarrow> datetime option) \<Rightarrow> int option \<Rightarrow> int option \<Rightarrow> inner \<Rightarrow> (int result \<times> inner) option" where
  "garbage_collect C from_ts cutoff rows g = garbage_collect_default (memory_provider C from_ts) cutoff rows g"

section \<open>Lemmas\<close>

lemma memory_provider_simps [simp]:
  "p_serializer (memory_provider C f) = Json_Format"
  "p_get_workflow_status (memory_provider C f) = get_workflow_status"
  "p_get_step_result (memory_provider C f) = get_step_result C"
  "p_record_step_result (memory_provider C f) = record_step_result C"
  "p_insert_notification (memory_provider C f) = insert_notification"
  "p_insert_notifications (memory_provider C f) = insert_notifications"
  "p_send_from_workflow (memory_provider C f) = send_from_workflow"
  "p_consume_notification (memory_provider C f) = consume_notification C"
  "p_upsert_event (memory_provider C f) = upsert_event"
  "p_get_event_value (memory_provider C f) = get_event_value"
  "p_list_workflows (memory_provider C f) = list_workflows"
  "p_cancel_workflows (memory_provider C f) = cancel_workflows"
  "p_delete_workflows (memory_provider C f) = delete_workflows"
  "p_set_workflow_attributes (memory_provider C f) = set_workflow_attributes"
  "p_check_child_workflow (memory_provider C f) = check_child_workflow"
  "p_get_workflow_steps (memory_provider C f) = get_workflow_steps C f"
  "p_get_step_name (memory_provider C f) = get_step_name"
  "p_record_patch (memory_provider C f) = record_patch"
  "p_write_stream (memory_provider C f) = write_stream"
  "p_write_stream_from_workflow (memory_provider C f) = write_stream_from_workflow"
  "p_read_stream (memory_provider C f) = read_stream"
  "p_insert_workflow_status (memory_provider C f) = insert_workflow_status"
  "p_get_deduplicated_workflow (memory_provider C f) = get_deduplicated_workflow"
  "p_set_workflow_status (memory_provider C f) = set_workflow_status C"
  "p_claim_for_recovery (memory_provider C f) = claim_for_recovery"
  "p_insert_child_workflow (memory_provider C f) = insert_child_workflow"
  "p_record_child_workflow (memory_provider C f) = record_child_workflow"
  "p_dequeue_workflows (memory_provider C f) = dequeue_workflows"
  "p_queue_partitions (memory_provider C f) = queue_partitions"
  "p_transition_delayed_workflows (memory_provider C f) = transition_delayed_workflows"
  by (simp_all add: memory_provider_def)

text \<open>What a sweep with a cutoff may remove: rows that ended, strictly before it.\<close>

definition collectable :: "int \<Rightarrow> workflow_status \<Rightarrow> bool" where
  "collectable cutoff w \<longleftrightarrow> wf_status w \<in> set terminal_statuses
     \<and> is_some_and (wf_completed_at_ms w) (\<lambda>c. c < cutoff)"

definition swept :: "int \<Rightarrow> inner \<Rightarrow> string \<Rightarrow> bool" where
  "swept cutoff g i = is_some_and (map_of (workflows g) i) (collectable cutoff)"

lemma gc_matches:
  assumes "is_i64 (cutoff - 1)"
  shows "matches_filter (gc_filter cutoff) src w = collectable cutoff w"
  using assms by (auto simp: matches_filter_def gc_filter_def list_filter_default_def in_list_or_empty_def
      opt_in_list_or_empty_def collectable_def terminal_statuses_def is_some_and_iff)

lemma gc_listing:
  assumes "is_i64 (cutoff - 1)"
  shows "list_workflows (gc_filter cutoff) g = Ok (map (strip_heavy (gc_filter cutoff))
    (take 10000 (listed_rows (gc_filter cutoff) g)))"
  by (simp add: list_workflows_def gc_filter_def list_filter_default_def page_limit GC_BATCH_def)

lemma gc_rows:
  assumes "is_i64 (cutoff - 1)"
  shows "set (listed_rows (gc_filter cutoff) g) = {w \<in> set (hm_values (workflows g)). collectable cutoff w}"
    "length (listed_rows (gc_filter cutoff) g) = length (filter (collectable cutoff) (hm_values (workflows g)))"
proof -
  have m: "filter (row_matches (gc_filter cutoff) g) (hm_values (workflows g))
      = filter (collectable cutoff) (hm_values (workflows g))"
    using gc_matches [OF assms] by (simp add: row_matches_def cong: filter_cong)
  show "set (listed_rows (gc_filter cutoff) g) = {w \<in> set (hm_values (workflows g)). collectable cutoff w}"
    unfolding set_listed_rows m by auto
  show "length (listed_rows (gc_filter cutoff) g) = length (filter (collectable cutoff) (hm_values (workflows g)))"
    using mset_listed_rows [of "gc_filter cutoff" g] unfolding m by (rule mset_eq_length)
qed

lemma ids_of_rows: "mem_inv g \<Longrightarrow> map wf_id (hm_values (workflows g)) = map fst (workflows g)"
  by (auto simp: hm_values_def mem_inv_def keyed_by_def list_all_iff simp del: mem_invD)

lemma delete_fold_workflows: "workflows (fold delete_one ids g) = filter (\<lambda>p. fst p \<notin> set ids) (workflows g)"
proof (induction ids arbitrary: g)
  case (Cons i ids)
  have "workflows (delete_one i g) = filter (\<lambda>p. fst p \<noteq> i) (workflows g)"
    by (auto simp: delete_one_def AList.delete_eq intro: filter_cong)
  then show ?case using Cons [of "delete_one i g"] by (simp add: conj_commute)
qed simp

lemma delete_fold_values:
  assumes "mem_inv g"
  shows "hm_values (workflows (fold delete_one ids g)) = filter (\<lambda>w. wf_id w \<notin> set ids) (hm_values (workflows g))"
proof -
  have "\<forall>p \<in> set (workflows g). wf_id (snd p) = fst p"
    using assms by (auto simp: mem_inv_def keyed_by_def list_all_iff simp del: mem_invD)
  then show ?thesis
    unfolding delete_fold_workflows hm_values_def filter_map by (intro arg_cong [of _ _ "map snd"] filter_cong) auto
qed

lemma gc_count_after:
  fixes k :: nat
  assumes "mem_inv g" "is_i64 (cutoff - 1)"
  defines "rows \<equiv> listed_rows (gc_filter cutoff) g"
  defines "ids \<equiv> map wf_id (take k rows)"
  shows "length (filter (collectable cutoff) (hm_values (workflows (fold delete_one ids g)))) = length rows - k"
proof -
  let ?vals = "hm_values (workflows g)"
  have m: "mset rows = mset (filter (collectable cutoff) ?vals)"
    using mset_listed_rows [of "gc_filter cutoff" g] gc_matches [OF assms(2)]
    unfolding rows_def row_matches_def by (simp cong: filter_cong)
  have "distinct (map wf_id ?vals)" using assms(1) keyed_by_distinct [OF mem_invD(1) [OF assms(1)]] by (simp add: ids_of_rows)
  then have "distinct (map wf_id (filter (collectable cutoff) ?vals))" by (rule distinct_map_filter)
  then have d: "distinct (map wf_id rows)"
    using m by (metis mset_eq_imp_distinct_iff mset_map)
  have "map wf_id rows = ids @ map wf_id (drop k rows)"
    unfolding ids_def by (metis append_take_drop_id map_append)
  then have split: "\<forall>w \<in> set (take k rows). wf_id w \<in> set ids" "\<forall>w \<in> set (drop k rows). wf_id w \<notin> set ids"
    using d by (auto simp: ids_def)
  have "filter (\<lambda>w. wf_id w \<notin> set ids) rows = drop k rows"
    using split by (metis (mono_tags, lifting) append_Nil append_take_drop_id filter_False filter_True filter_append)
  moreover have "mset (filter (collectable cutoff) (filter (\<lambda>w. wf_id w \<notin> set ids) ?vals))
      = mset (filter (\<lambda>w. wf_id w \<notin> set ids) rows)"
    by (simp add: m mset_filter filter_filter_mset conj_commute)
  ultimately show ?thesis
    unfolding delete_fold_values [OF assms(1)] using mset_eq_length by fastforce
qed

lemma gc_loop_sweeps:
  assumes "mem_inv g" "is_i64 (cutoff - 1)"
  shows "\<exists>g'. gc_loop (memory_provider C f) (gc_filter cutoff) t g
      = Some (Ok (t + int (length (filter (collectable cutoff) (hm_values (workflows g))))), g')
    \<and> (\<forall>i. map_of (workflows g') i = (if swept cutoff g i then None else map_of (workflows g) i))
    \<and> (\<forall>i q. map_of (steps g') (i, q) = (if swept cutoff g i then None else map_of (steps g) (i, q)))
    \<and> (\<forall>i k. map_of (streams g') (i, k) = (if swept cutoff g i then None else map_of (streams g) (i, k)))"
  using assms
proof (induction "length (filter (collectable cutoff) (hm_values (workflows g)))" arbitrary: g t rule: less_induct)
  case less
  note inv = less.prems(1)
  let ?rows = "listed_rows (gc_filter cutoff) g"
  let ?ids = "map wf_id (take 10000 ?rows)"
  let ?g = "fold delete_one ?ids g"
  have ids: "map wf_id (map (strip_heavy (gc_filter cutoff)) xs) = map wf_id xs" for xs by simp
  have in_ids: "i \<in> set (map wf_id ?rows) \<longleftrightarrow> swept cutoff g i" for i
    using inv row_id [OF inv] unfolding gc_rows(1) [OF less.prems(2)] set_map
    by (auto simp: swept_def is_some_and_iff in_values_iff image_iff)
  have del: "delete_workflows ?ids False g = (Ok (), ?g)" by (simp add: delete_workflows_def targets_of_def)
  have unfold_loop: "gc_loop (memory_provider C f) (gc_filter cutoff) t g =
      (if int (length (take 10000 ?rows)) < GC_BATCH then Some (Ok (t + int (length (take 10000 ?rows))), ?g)
       else gc_loop (memory_provider C f) (gc_filter cutoff) (t + int (length (take 10000 ?rows))) ?g)"
    by (subst gc_loop.simps) (simp add: gc_listing [OF less.prems(2)] del ids del: map_map)
  show ?case
  proof (cases "length ?rows < 10000")
    case True
    then have "take 10000 ?rows = ?rows" by simp
    then show ?thesis
      using True unfold_loop in_ids gc_rows(2) [OF less.prems(2), of g]
      by (simp add: GC_BATCH_def delete_fold_lookups)
  next
    case False
    have len: "length (filter (collectable cutoff) (hm_values (workflows ?g))) = length ?rows - 10000"
      using gc_count_after [OF inv less.prems(2)] by simp
    then have smaller: "length (filter (collectable cutoff) (hm_values (workflows ?g)))
        < length (filter (collectable cutoff) (hm_values (workflows g)))"
      using False gc_rows(2) [OF less.prems(2), of g] by simp
    have inv': "mem_inv ?g" using inv by (rule delete_fold_inv)
    have sw: "swept cutoff ?g i \<longleftrightarrow> swept cutoff g i \<and> i \<notin> set ?ids" for i
      by (simp add: swept_def delete_fold_lookups)
    have gone: "i \<in> set ?ids \<Longrightarrow> swept cutoff g i" for i
      using in_ids [of i] by (auto dest: in_set_takeD)
    have step: "gc_loop (memory_provider C f) (gc_filter cutoff) t g
        = gc_loop (memory_provider C f) (gc_filter cutoff) (t + 10000) ?g"
      using unfold_loop False by (simp add: GC_BATCH_def min_def)
    obtain g' where g': "gc_loop (memory_provider C f) (gc_filter cutoff) (t + 10000) ?g
        = Some (Ok (t + 10000 + int (length (filter (collectable cutoff) (hm_values (workflows ?g))))), g')"
      "\<forall>i. map_of (workflows g') i = (if swept cutoff ?g i then None else map_of (workflows ?g) i)"
      "\<forall>i q. map_of (steps g') (i, q) = (if swept cutoff ?g i then None else map_of (steps ?g) (i, q))"
      "\<forall>i k. map_of (streams g') (i, k) = (if swept cutoff ?g i then None else map_of (streams ?g) (i, k))"
      using less.hyps [OF smaller inv' less.prems(2), of "t + 10000"] by blast
    have "int (length (filter (collectable cutoff) (hm_values (workflows g))))
        = 10000 + int (length (filter (collectable cutoff) (hm_values (workflows ?g))))"
      using len False gc_rows(2) [OF less.prems(2), of g] by simp
    then show ?thesis
      using g' step gone by (intro exI [of _ g']) (auto simp: sw delete_fold_lookups add.assoc)
  qed
qed

lemma gc_loop_inv:
  assumes "gc_loop (memory_provider C f) flt n g = Some (r, g')" "mem_inv g"
  shows "mem_inv g'"
proof -
  let ?Q = "\<lambda>(((P, flt :: list_filter), n :: int), g) (y :: int result \<times> inner). P = memory_provider C f \<longrightarrow> mem_inv g \<longrightarrow> mem_inv (snd y)"
  have "?Q (((memory_provider C f, flt), n), g) (r, g')"
  proof (rule gc_loop.raw_induct [where Pa = ?Q, OF _ assms(1)], clarsimp, goal_cases)
    case (1 loop flt n g r g')
    obtain rows where rows: "list_workflows flt g = Ok rows" by (simp add: list_workflows_def)
    obtain d g1 where d: "delete_workflows (map wf_id rows) False g = (d, g1)" by fastforce
    have "mem_inv g1" using delete_workflows_inv [OF 1(3), of "map wf_id rows" False] by (simp add: d)
    then show ?case using 1(1) [of "memory_provider C f" flt "n + int (length rows)" g1] 1(2) by (auto simp: rows d split: sum.splits if_splits)
  qed
  then show ?thesis using assms(2) by simp
qed

section \<open>The row-count bound\<close>

definition finished :: "workflow_status \<Rightarrow> bool" where
  "finished w \<longleftrightarrow> wf_status w \<in> set terminal_statuses \<and> wf_completed_at_ms w \<noteq> None"

lemma nth_desc_bound:
  fixes xs :: "int list"
  assumes "k < length xs"
  shows "Suc k \<le> length (filter (\<lambda>x. rev (sort xs) ! k \<le> x) xs)"
proof -
  let ?ys = "rev (sort xs)"
  have "sorted_wrt (\<ge>) ?ys" by (simp add: sorted_wrt_rev)
  then have "\<forall>x \<in> set (take (Suc k) ?ys). ?ys ! k \<le> x"
    using assms by (fastforce simp: in_set_conv_nth sorted_wrt_iff_nth_less le_less less_Suc_eq_le)
  then have "filter (\<lambda>x. ?ys ! k \<le> x) (take (Suc k) ?ys) = take (Suc k) ?ys" by (rule filter_True)
  then have "Suc k \<le> length (filter (\<lambda>x. ?ys ! k \<le> x) (take (Suc k) ?ys @ drop (Suc k) ?ys))"
    using assms by (simp del: append_take_drop_id)
  moreover have "mset (filter (\<lambda>x. ?ys ! k \<le> x) ?ys) = mset (filter (\<lambda>x. ?ys ! k \<le> x) xs)" by simp
  ultimately show ?thesis using mset_eq_length by (metis append_take_drop_id)
qed

lemma completed_list:
  "list_workflows (list_filter_default\<lparr>lf_status := terminal_statuses, lf_load_input := False,
     lf_load_output := False\<rparr>) g = Ok rows \<Longrightarrow>
   mset (List.map_filter wf_completed_at_ms rows)
     = mset (map (the \<circ> wf_completed_at_ms) (filter finished (hm_values (workflows g))))"
proof -
  let ?f = "list_filter_default\<lparr>lf_status := terminal_statuses, lf_load_input := False, lf_load_output := False\<rparr>"
  assume "list_workflows ?f g = Ok rows"
  then have rows: "rows = map (strip_heavy ?f) (listed_rows ?f g)"
    by (simp add: list_workflows_def list_filter_default_def)
  have mf: "List.map_filter wf_completed_at_ms (map (strip_heavy ?f) ws)
      = map (the \<circ> wf_completed_at_ms) (filter (\<lambda>w. wf_completed_at_ms w \<noteq> None) ws)" for ws
    by (induction ws) (auto simp: map_filter_simps)
  have "filter (\<lambda>w. wf_completed_at_ms w \<noteq> None) (filter (row_matches ?f g) (hm_values (workflows g)))
      = filter finished (hm_values (workflows g))"
    by (auto simp: row_matches_def matches_filter_def list_filter_default_def in_list_or_empty_def
        opt_in_list_or_empty_def finished_def terminal_statuses_def intro!: filter_cong)
  moreover have "mset (filter (\<lambda>w. wf_completed_at_ms w \<noteq> None) (listed_rows ?f g))
      = mset (filter (\<lambda>w. wf_completed_at_ms w \<noteq> None) (filter (row_matches ?f g) (hm_values (workflows g))))"
    by (simp only: mset_filter mset_listed_rows)
  ultimately show ?thesis unfolding rows mf mset_map by simp
qed

lemma finished_survivors:
  assumes "mem_inv g"
  shows "length (filter (\<lambda>w. finished w \<and> \<not> collectable n w) (hm_values (workflows g)))
    = card {i. is_some_and (map_of (workflows g) i) finished \<and> \<not> swept n g i}"
proof -
  let ?xs = "filter (\<lambda>w. finished w \<and> \<not> collectable n w) (hm_values (workflows g))"
  have "distinct (map wf_id (hm_values (workflows g)))"
    using assms keyed_by_distinct [OF mem_invD(1) [OF assms]] by (simp add: ids_of_rows)
  then have "distinct (map wf_id ?xs)" by (rule distinct_map_filter)
  then have "length ?xs = card (wf_id ` set ?xs)" using distinct_card [of "map wf_id ?xs"] by simp
  also have "wf_id ` set ?xs = {i. is_some_and (map_of (workflows g) i) finished \<and> \<not> swept n g i}"
  proof (intro set_eqI iffI)
    fix i assume "i \<in> wf_id ` set ?xs"
    then show "i \<in> {i. is_some_and (map_of (workflows g) i) finished \<and> \<not> swept n g i}"
      by (auto simp: in_values_iff [OF assms] swept_def)
  next
    fix i assume i: "i \<in> {i. is_some_and (map_of (workflows g) i) finished \<and> \<not> swept n g i}"
    then obtain w where w: "map_of (workflows g) i = Some w" by (auto simp: is_some_and_iff)
    then show "i \<in> wf_id ` set ?xs"
      using i row_id [OF assms w] by (intro image_eqI [of _ _ w]) (auto simp: in_values_iff [OF assms] swept_def)
  qed
  finally show ?thesis .
qed

lemma kept_count:
  assumes "i < length xs" "mset xs = mset (map (the \<circ> wf_completed_at_ms) (filter finished ws))"
  shows "Suc i \<le> length (filter (\<lambda>w. finished w \<and> \<not> collectable (rev (sort xs) ! i) w) ws)"
proof -
  let ?n = "rev (sort xs) ! i"
  have "Suc i \<le> length (filter (\<lambda>x. ?n \<le> x) xs)" using nth_desc_bound [OF assms(1)] .
  also have "\<dots> = length (filter (\<lambda>x. ?n \<le> x) (map (the \<circ> wf_completed_at_ms) (filter finished ws)))"
    using assms(2) by (metis mset_eq_length mset_filter)
  also have "\<dots> = length (filter (\<lambda>w. finished w \<and> \<not> collectable ?n w) ws)"
  proof -
    have "filter (\<lambda>w. ?n \<le> the (wf_completed_at_ms w)) (filter finished ws)
        = filter (\<lambda>w. finished w \<and> \<not> collectable ?n w) ws"
      by (auto simp: finished_def collectable_def is_some_and_iff intro!: filter_cong)
    then show ?thesis by (simp add: filter_map comp_def)
  qed
  finally show ?thesis .
qed

lemma nth_newest_memory:
  "p_nth_newest_completed_at (memory_provider C f) t g = nth_newest_completed_at_default (memory_provider C f) t g"
  by (simp add: nth_newest_completed_at_default_def) (simp add: memory_provider_def)

section \<open>Default compositions\<close>

lemma step_already_recorded_memory:
  "step_already_recorded (memory_provider C f) w seq nm g = (case recorded_at g w seq nm of
     Inl e \<Rightarrow> Err e | Inr None \<Rightarrow> Ok False | Inr (Some _) \<Rightarrow> Ok True)"
  by (simp add: step_already_recorded_def get_step_result_def recorded_at_def split: option.split)

lemma null_checkpoint:
  assumes "map_of (steps g) (w, seq) = None"
  shows "record_step_result C now w seq nm JNull None None None g
    = (Ok (Output JNull), checkpoint now w seq nm JNull g)"
  using assms by (simp add: record_step_result_def Let_def refresh_executor_def checkpoint_def checkpoint_row_def
      step_row_default_def)

section \<open>Properties\<close>

text \<open>
  C28: retention removes exactly what the cutoff selects.  A sweep always
  finishes; it counts and removes the workflows that ended strictly before the
  resolved cutoff, with their checkpoints and streams, and leaves every other
  row, checkpoint and stream as it was, however many batches it takes.
\<close>

theorem gc_sweeps_exactly:
  assumes "mem_inv g" "resolve_gc_cutoff (memory_provider C f) cutoff_ms rows g = Ok (Some cutoff)"
    and "is_i64 (cutoff - 1)"
  shows "\<exists>g'. garbage_collect C f cutoff_ms rows g
      = Some (Ok (int (length (filter (collectable cutoff) (hm_values (workflows g))))), g')
    \<and> (\<forall>i. map_of (workflows g') i = (if swept cutoff g i then None else map_of (workflows g) i))
    \<and> (\<forall>i q. map_of (steps g') (i, q) = (if swept cutoff g i then None else map_of (steps g) (i, q)))
    \<and> (\<forall>i k. map_of (streams g') (i, k) = (if swept cutoff g i then None else map_of (streams g) (i, k)))"
  using gc_loop_sweeps [OF assms(1,3), of C f 0] assms(2)
  by (simp add: garbage_collect_def garbage_collect_default_def)

text \<open>
  The row bound keeps the newest.  A sweep bounded by a row count alone
  always finishes and leaves at least that many finished workflows, or all of
  them when there are fewer.
\<close>

theorem gc_keeps_newest:
  assumes "mem_inv g" "0 < t"
    and "\<forall>w \<in> set (hm_values (workflows g)). is_none_or (wf_completed_at_ms w) (\<lambda>c. is_i64 (c - 1))"
  shows "\<exists>n g'. garbage_collect C f None (Some t) g = Some (Ok n, g')
    \<and> min (nat t) (card {i. is_some_and (map_of (workflows g) i) finished})
        \<le> card {i. is_some_and (map_of (workflows g') i) finished}"
proof -
  let ?f = "list_filter_default\<lparr>lf_status := terminal_statuses, lf_load_input := False, lf_load_output := False\<rparr>"
  obtain rows where rows: "list_workflows ?f g = Ok rows" by (simp add: list_workflows_def)
  let ?done = "List.map_filter wf_completed_at_ms rows"
  let ?i = "nat (t - 1)"
  note perm = completed_list [OF rows]
  have nth: "p_nth_newest_completed_at (memory_provider C f) t g
      = Ok (if ?i \<ge> length ?done then None else Some (rev (sort ?done) ! ?i))"
    using assms(2) rows by (simp add: nth_newest_memory nth_newest_completed_at_default_def nth_newest_of_def Let_def)
  show ?thesis
  proof (cases "?i \<ge> length ?done")
    case True
    then have "garbage_collect C f None (Some t) g = Some (Ok 0, g)"
      using assms(2) nth by (simp add: garbage_collect_def garbage_collect_default_def resolve_gc_cutoff_def)
    then show ?thesis by auto
  next
    case False
    let ?n = "rev (sort ?done) ! ?i"
    have cut: "resolve_gc_cutoff (memory_provider C f) None (Some t) g = Ok (Some ?n)"
      using assms(2) nth False by (simp add: resolve_gc_cutoff_def)
    have "?n \<in> set ?done" using False by (metis length_rev length_sort not_le nth_mem set_rev set_sort)
    then obtain w where "w \<in> set (hm_values (workflows g))" "wf_completed_at_ms w = Some ?n"
      using mset_eq_setD [OF perm] by (auto simp: finished_def)
    then have "is_i64 (?n - 1)" using assms(3) by force
    from gc_loop_sweeps [OF assms(1) this, of C f 0] cut obtain n g' where
      run: "garbage_collect C f None (Some t) g = Some (Ok n, g')"
      and g': "\<forall>i. map_of (workflows g') i = (if swept ?n g i then None else map_of (workflows g) i)"
      by (auto simp: garbage_collect_def garbage_collect_default_def)
    have "Suc ?i \<le> card {i. is_some_and (map_of (workflows g) i) finished \<and> \<not> swept ?n g i}"
      using kept_count [OF _ perm, of ?i] False finished_survivors [OF assms(1), of ?n] by simp
    moreover have "{i. is_some_and (map_of (workflows g) i) finished \<and> \<not> swept ?n g i}
        = {i. is_some_and (map_of (workflows g') i) finished}"
      using g' by (auto simp: is_some_and_iff)
    moreover have "Suc ?i = nat t" using assms(2) by simp
    ultimately have "nat t \<le> card {i. is_some_and (map_of (workflows g') i) finished}" by simp
    then show ?thesis using run by (intro exI [of _ n] exI [of _ g']) linarith
  qed
qed

text \<open>
  The override agrees with the contract.  The provider's own
  \<open>send_from_workflow\<close>, one critical section, does exactly what the trait's
  default composition of a read, a batch insert and a checkpoint does when
  nothing runs in between: same result, same store.
\<close>

theorem send_override_refines_default:
  "send_from_workflow now now' fresh w seq nm rows g
     = send_from_workflow_default (memory_provider C f) now now' fresh w seq nm rows g"
proof -
  have "map_of (steps (snd (push_notifications now fresh rows g))) (w, seq) = map_of (steps g) (w, seq)"
    by (simp add: push_notifications_simps)
  then show ?thesis
    by (auto simp: send_from_workflow_def send_from_workflow_default_def step_already_recorded_memory
        insert_notifications_def null_checkpoint split: sum.split option.split prod.split)
qed

text \<open>
  Likewise, the provider's own append to a stream, with its checkpoint, is
  the default composition run without interruption.
\<close>

theorem stream_override_refines_default:
  "write_stream_from_workflow now w seq nm key v g
     = write_stream_from_workflow_default (memory_provider C f) now w seq nm key v g"
proof -
  have "map_of (steps (snd (append_stream w key v g))) (w, seq) = map_of (steps g) (w, seq)"
    by (simp add: append_stream_simps)
  then show ?thesis
    by (auto simp: write_stream_from_workflow_def write_stream_from_workflow_default_def
        step_already_recorded_memory write_stream_def null_checkpoint split: sum.split option.split prod.split)
qed

section \<open>Witnesses\<close>

definition sample_finished :: "string \<Rightarrow> int \<Rightarrow> workflow_status" where
  "sample_finished i t = (workflow_status_new 0 i ''wf'' JNull STATUS_SUCCESS ''x'' ''v'')
     \<lparr>wf_completed_at_ms := Some t\<rparr>"

definition sample_archive :: inner where
  "sample_archive = inner_default\<lparr>workflows := [(''a'', sample_finished ''a'' 10), (''b'', sample_finished ''b'' 20),
     (''c'', workflow_status_new 0 ''c'' ''wf'' JNull STATUS_PENDING ''x'' ''v'')]\<rparr>"

theorem gc_sweeps_exactly_witness:
  "\<exists>g'. garbage_collect plain_codec (\<lambda>_. None) (Some 15) None sample_archive = Some (Ok 1, g')
     \<and> map_of (workflows g') ''a'' = None \<and> map_of (workflows g') ''b'' = Some (sample_finished ''b'' 20)"
proof -
  have "mem_inv sample_archive" by code_simp
  moreover have "resolve_gc_cutoff (memory_provider plain_codec (\<lambda>_. None)) (Some 15) None sample_archive = Ok (Some 15)"
    by (simp add: resolve_gc_cutoff_def)
  moreover have "is_i64 (15 - 1)" by (simp add: is_i64_def)
  moreover have "length (filter (collectable 15) (hm_values (workflows sample_archive))) = 1"
    "swept 15 sample_archive ''a''" "\<not> swept 15 sample_archive ''b''"
    "map_of (workflows sample_archive) ''b'' = Some (sample_finished ''b'' 20)" by code_simp+
  ultimately show ?thesis
    using gc_sweeps_exactly [of sample_archive plain_codec "\<lambda>_. None" "Some 15" None 15] by auto
qed

theorem gc_keeps_newest_witness:
  "\<exists>n g'. garbage_collect plain_codec (\<lambda>_. None) None (Some 1) sample_archive = Some (Ok n, g')
     \<and> min (nat 1) (card {i. is_some_and (map_of (workflows sample_archive) i) finished})
        \<le> card {i. is_some_and (map_of (workflows g') i) finished}"
proof (rule gc_keeps_newest)
  show "mem_inv sample_archive" by code_simp
  show "\<forall>w \<in> set (hm_values (workflows sample_archive)). is_none_or (wf_completed_at_ms w) (\<lambda>c. is_i64 (c - 1))"
    by (simp add: sample_archive_def inner_default_def hm_values_def sample_finished_def workflow_status_new_def is_i64_def)
qed simp

end
