(* ===== verification/Replay.thy ===== *)
theory Replay
  imports Provider_Types Execution
begin

text \<open>
  The verdict of a replay verification (\<open>src/replay.rs\<close>): the cell a
  verification run books what it saw in, and the report made of it.  The
  mutex around the cell is held for each booking, so a booking is a function on
  the cell.  A \<open>BTreeSet\<close> of positions is a set, the \<open>BTreeMap\<close> of
  reserved positions an association list.
\<close>

section \<open>Definitions\<close>

record replay_report =
  rr_workflow_id :: string
  rr_workflow_name :: string
  rr_recorded :: nat
  rr_matched :: nat
  rr_complete :: bool
  rr_divergence :: "divergence option"

definition passes :: "replay_report \<Rightarrow> bool" where
  "passes r \<longleftrightarrow> rr_divergence r = None"

definition into_result :: "replay_report \<Rightarrow> unit result" where
  "into_result r = (case rr_divergence r of None \<Rightarrow> Ok ()
     | Some d \<Rightarrow> Err (ReplayDiverged (rr_workflow_id r) d))"

record history =
  h_id :: string
  h_name :: string
  h_status :: string
  h_recorded :: "step_info list"

text \<open>How the re-run ended: what it returned, or the payload of its panic.\<close>

datatype 'a run_outcome = Returned "'a result" | Panicked panic_payload

record seen =
  sn_divergence :: "divergence option"
  sn_stopped_at :: "(int \<times> string) option"
  sn_served :: "int set"
  sn_reserved :: "(int, string) hashmap"

record verification =
  vf_complete :: bool
  vf_seen :: seen

definition seen_default :: seen where
  "seen_default = \<lparr>sn_divergence = None, sn_stopped_at = None, sn_served = {}, sn_reserved = []\<rparr>"

definition accounts_for :: "seen \<Rightarrow> step_info \<Rightarrow> bool" where
  "accounts_for s op \<longleftrightarrow> si_step_id op \<in> sn_served s \<or> map_of (sn_reserved s) (si_step_id op) = Some (si_name op)"

definition verification_new :: "bool \<Rightarrow> verification" where
  "verification_new whole = \<lparr>vf_complete = whole, vf_seen = seen_default\<rparr>"

definition saw :: "divergence \<Rightarrow> verification \<Rightarrow> verification" where
  "saw d v = (let s = vf_seen v in v\<lparr>vf_seen :=
     s\<lparr>sn_divergence := (case sn_divergence s of None \<Rightarrow> Some d | Some d' \<Rightarrow> Some d')\<rparr>\<rparr>)"

definition stopped :: "int \<Rightarrow> string \<Rightarrow> verification \<Rightarrow> verification" where
  "stopped seq operation v = (let s = vf_seen v in v\<lparr>vf_seen :=
     s\<lparr>sn_stopped_at := (case sn_stopped_at s of None \<Rightarrow> Some (seq, operation) | Some p \<Rightarrow> Some p)\<rparr>\<rparr>)"

definition served_record :: "int \<Rightarrow> verification \<Rightarrow> verification" where
  "served_record seq v = (let s = vf_seen v in v\<lparr>vf_seen := s\<lparr>sn_served := insert seq (sn_served s)\<rparr>\<rparr>)"

definition reserved_record :: "int \<Rightarrow> string \<Rightarrow> verification \<Rightarrow> verification" where
  "reserved_record seq operation v = (let s = vf_seen v in v\<lparr>vf_seen :=
     s\<lparr>sn_reserved := AList.update seq operation (sn_reserved s)\<rparr>\<rparr>)"

definition failed :: "string \<Rightarrow> 'a run_outcome \<Rightarrow> divergence option" where
  "failed status outcome =
     (if status = STATUS_ERROR then None
      else case outcome of
        Panicked payload \<Rightarrow> Some (Failed (''workflow panicked: '' @ panic_message payload))
      | Returned r \<Rightarrow> (case r of Inl e \<Rightarrow> Some (Failed (error_to_string e)) | Inr _ \<Rightarrow> None))"

definition unaccounted :: "step_info list \<Rightarrow> seen \<Rightarrow> divergence option" where
  "unaccounted recorded s = (case List.find (\<lambda>op. \<not> accounts_for s op) recorded of
       None \<Rightarrow> None
     | Some op \<Rightarrow> Some (case map_of (sn_reserved s) (si_step_id op) of
         Some expected \<Rightarrow> Mismatch (si_step_id op) expected (si_name op)
       | None \<Rightarrow> Missing (si_step_id op) (si_name op)))"

definition report :: "history \<Rightarrow> 'a run_outcome \<Rightarrow> verification \<Rightarrow> replay_report" where
  "report history outcome v =
     (let s = vf_seen v;
          own_failure = (if sn_stopped_at s \<noteq> None then None else failed (h_status history) outcome);
          d = (case sn_divergence s of Some d \<Rightarrow> Some d | None \<Rightarrow>
                (case own_failure of Some d \<Rightarrow> Some d | None \<Rightarrow> unaccounted (h_recorded history) s))
      in \<lparr>rr_workflow_id = h_id history, rr_workflow_name = h_name history,
          rr_recorded = length (h_recorded history),
          rr_matched = length (filter (accounts_for s) (h_recorded history)),
          rr_complete = vf_complete v, rr_divergence = d\<rparr>)"

text \<open>The bookings a verification receives, as data, and a run of several of them.\<close>

datatype booking = Saw divergence | Stopped int string | Served int | Reserved int string

fun book :: "booking \<Rightarrow> verification \<Rightarrow> verification" where
  "book (Saw d) v = saw d v"
| "book (Stopped q nm) v = stopped q nm v"
| "book (Served q) v = served_record q v"
| "book (Reserved q nm) v = reserved_record q nm v"

fun first_saw :: "booking list \<Rightarrow> divergence option" where
  "first_saw [] = None"
| "first_saw (b # bs) = (case b of Saw d \<Rightarrow> Some d | _ \<Rightarrow> first_saw bs)"

definition ended_well :: "string \<Rightarrow> 'a run_outcome \<Rightarrow> bool" where
  "ended_well status outcome = (if status = STATUS_ERROR then True
     else case outcome of Panicked p \<Rightarrow> False | Returned r \<Rightarrow> (case r of Inl e \<Rightarrow> False | Inr x \<Rightarrow> True))"

section \<open>Lemmas\<close>

lemma booking_simps [simp]:
  "vf_complete (saw d v) = vf_complete v" "vf_complete (stopped q nm v) = vf_complete v"
  "vf_complete (served_record q v) = vf_complete v" "vf_complete (reserved_record q nm v) = vf_complete v"
  "sn_served (vf_seen (served_record q v)) = insert q (sn_served (vf_seen v))"
  "sn_divergence (vf_seen (served_record q v)) = sn_divergence (vf_seen v)"
  "sn_stopped_at (vf_seen (served_record q v)) = sn_stopped_at (vf_seen v)"
  "sn_reserved (vf_seen (served_record q v)) = sn_reserved (vf_seen v)"
  by (simp_all add: saw_def stopped_def served_record_def reserved_record_def Let_def)

lemma book_divergence:
  "sn_divergence (vf_seen (fold book bs v)) =
     (case sn_divergence (vf_seen v) of Some d \<Rightarrow> Some d | None \<Rightarrow> first_saw bs)"
proof (induction bs arbitrary: v)
  case (Cons b bs)
  then show ?case
    by (cases b) (simp_all add: saw_def stopped_def served_record_def reserved_record_def Let_def split: option.split)
qed (simp split: option.split)

lemma book_stopped:
  "sn_stopped_at (vf_seen (fold book bs v)) = None \<longleftrightarrow>
     sn_stopped_at (vf_seen v) = None \<and> (\<forall>b \<in> set bs. \<forall>q nm. b \<noteq> Stopped q nm)"
proof (induction bs arbitrary: v)
  case (Cons b bs)
  then show ?case
    by (cases b) (auto simp: saw_def stopped_def served_record_def reserved_record_def Let_def split: option.split)
qed simp

lemma book_served:
  "q \<in> sn_served (vf_seen (fold book bs v)) \<longleftrightarrow> q \<in> sn_served (vf_seen v) \<or> Served q \<in> set bs"
proof (induction bs arbitrary: v)
  case (Cons b bs)
  then show ?case
    by (cases b) (auto simp: saw_def stopped_def served_record_def reserved_record_def Let_def)
qed simp

lemma failed_iff: "failed status outcome = None \<longleftrightarrow> ended_well status outcome"
  by (simp add: failed_def ended_well_def split: run_outcome.split sum.split)

lemma unaccounted_None: "unaccounted recorded s = None \<longleftrightarrow> (\<forall>op \<in> set recorded. accounts_for s op)"
  using find_None_iff [of "\<lambda>op. \<not> accounts_for s op" recorded]
  by (cases "List.find (\<lambda>op. \<not> accounts_for s op) recorded") (auto simp: unaccounted_def)

lemma passes_report_iff:
  "passes (report h outcome v) \<longleftrightarrow> sn_divergence (vf_seen v) = None
     \<and> (sn_stopped_at (vf_seen v) \<noteq> None \<or> ended_well (h_status h) outcome)
     \<and> (\<forall>op \<in> set (h_recorded h). accounts_for (vf_seen v) op)"
  unfolding passes_def report_def Let_def failed_iff [symmetric] unaccounted_None [symmetric]
  by (simp split: option.split)

lemma find_split:
  "List.find P xs = Some x \<Longrightarrow> \<exists>ys zs. xs = ys @ x # zs \<and> P x \<and> (\<forall>y \<in> set ys. \<not> P y)"
proof (induction xs)
  case (Cons a xs)
  then show ?case
  proof (cases "P a")
    case True
    then show ?thesis using Cons.prems by (intro exI [of _ "[]"] exI [of _ xs]) simp
  next
    case False
    then obtain ys zs where "xs = ys @ x # zs" "P x" "\<forall>y \<in> set ys. \<not> P y" using Cons by auto
    then show ?thesis using False by (intro exI [of _ "a # ys"] exI [of _ zs]) simp
  qed
qed simp

section \<open>Properties\<close>

text \<open>
  What a passing report means.  Whatever a verification run booked, its
  report passes exactly when no disagreement was booked, the re-run ended well
  (or was stopped by the verifier at the end of an unfinished history, or the
  recorded run had failed too), and every recorded operation was served or lies
  in a position reserved for exactly that operation; then the counts agree.
\<close>

theorem report_passes_iff:
  "passes (report h outcome (fold book bs (verification_new c))) \<longleftrightarrow>
     first_saw bs = None
     \<and> ((\<exists>q nm. Stopped q nm \<in> set bs) \<or> ended_well (h_status h) outcome)
     \<and> rr_matched (report h outcome (fold book bs (verification_new c)))
         = rr_recorded (report h outcome (fold book bs (verification_new c)))"
proof -
  let ?v = "fold book bs (verification_new c)"
  have "length (filter (accounts_for (vf_seen ?v)) (h_recorded h)) = length (h_recorded h)
      \<longleftrightarrow> (\<forall>op \<in> set (h_recorded h). accounts_for (vf_seen ?v) op)"
    by (metis filter_True length_filter_less less_irrefl)
  moreover have "sn_stopped_at (vf_seen ?v) \<noteq> None \<longleftrightarrow> (\<exists>q nm. Stopped q nm \<in> set bs)"
    using book_stopped [of bs "verification_new c"] by (auto simp: verification_new_def seen_default_def)
  moreover have "sn_divergence (vf_seen ?v) = first_saw bs"
    by (simp add: book_divergence verification_new_def seen_default_def)
  moreover have "rr_matched (report h outcome ?v) = length (filter (accounts_for (vf_seen ?v)) (h_recorded h))"
    "rr_recorded (report h outcome ?v) = length (h_recorded h)"
    by (simp_all add: report_def Let_def)
  ultimately show ?thesis unfolding passes_report_iff by simp
qed

text \<open>
  The divergence reported is the first one.  If the run booked a
  disagreement, the report carries the first it booked, whatever else happened;
  if the run ended well and only left recorded operations unaccounted for, the
  report names the earliest of them in the history.
\<close>

theorem report_first_divergence:
  assumes "report h outcome (fold book bs (verification_new c)) = r" "rr_divergence r = Some d"
  shows "(\<exists>d'. first_saw bs = Some d' \<and> d = d')
    \<or> (first_saw bs = None \<and> (\<forall>q nm. Stopped q nm \<notin> set bs)
        \<and> \<not> ended_well (h_status h) outcome \<and> (\<exists>e. d = Failed e))
    \<or> (first_saw bs = None \<and> (\<exists>ys op zs. h_recorded h = ys @ op # zs
        \<and> (\<forall>y \<in> set ys. accounts_for (vf_seen (fold book bs (verification_new c))) y)
        \<and> Served (si_step_id op) \<notin> set bs
        \<and> (d = Missing (si_step_id op) (si_name op)
           \<or> (\<exists>x. x \<noteq> si_name op \<and> d = Mismatch (si_step_id op) x (si_name op)))))"
proof (cases "first_saw bs")
  case (Some d')
  then show ?thesis using assms
    by (auto simp: report_def Let_def book_divergence verification_new_def seen_default_def)
next
  case None
  let ?v = "fold book bs (verification_new c)"
  let ?s = "vf_seen ?v"
  have nodiv: "sn_divergence ?s = None"
    using None by (simp add: book_divergence verification_new_def seen_default_def)
  show ?thesis
  proof (cases "sn_stopped_at ?s = None \<and> \<not> ended_well (h_status h) outcome")
    case True
    then have "\<exists>e. d = Failed e"
      using assms nodiv by (auto simp: report_def Let_def failed_def ended_well_def split: run_outcome.splits sum.splits if_splits)
    moreover have "\<forall>q nm. Stopped q nm \<notin> set bs"
      using True book_stopped [of bs "verification_new c"] by blast
    ultimately show ?thesis using None True by blast
  next
    case False
    then have "unaccounted (h_recorded h) ?s = Some d"
      using assms nodiv by (auto simp: report_def Let_def failed_iff [symmetric] split: option.splits if_splits)
    then obtain op where op: "List.find (\<lambda>op. \<not> accounts_for ?s op) (h_recorded h) = Some op"
        and d: "d = (case map_of (sn_reserved ?s) (si_step_id op) of
         Some expected \<Rightarrow> Mismatch (si_step_id op) expected (si_name op)
       | None \<Rightarrow> Missing (si_step_id op) (si_name op))"
      by (auto simp: unaccounted_def split: option.splits)
    obtain ys zs where yz: "h_recorded h = ys @ op # zs" "\<not> accounts_for ?s op" "\<forall>y \<in> set ys. accounts_for ?s y"
      using find_split [OF op] by auto
    have "Served (si_step_id op) \<notin> set bs"
      using yz(2) book_served [of "si_step_id op" bs "verification_new c"] by (auto simp: accounts_for_def)
    moreover have "d = Missing (si_step_id op) (si_name op)
        \<or> (\<exists>x. x \<noteq> si_name op \<and> d = Mismatch (si_step_id op) x (si_name op))"
      using d yz(2) by (auto simp: accounts_for_def split: option.splits)
    ultimately show ?thesis using None yz by blast
  qed
qed

section \<open>Witnesses\<close>

definition sample_op :: "int \<Rightarrow> string \<Rightarrow> step_info" where
  "sample_op q nm = \<lparr>si_step_id = q, si_name = nm, si_output = None, si_error = None,
     si_child_workflow_id = None, si_started_at = None, si_completed_at = None\<rparr>"

definition sample_history :: history where
  "sample_history = \<lparr>h_id = ''w'', h_name = ''wf'', h_status = STATUS_SUCCESS,
     h_recorded = [sample_op 0 ''one'', sample_op 1 ''two'']\<rparr>"

theorem report_first_divergence_witness:
  "rr_divergence (report sample_history (Returned (Ok ())) (fold book [Served 0] (verification_new True)))
     = Some (Missing 1 ''two'')"
proof -
  have "rr_divergence (report sample_history (Returned (Ok ())) (fold book [Served 0] (verification_new True)))
      = Some (Missing 1 ''two'')" by code_simp
  from report_first_divergence [OF refl this] show ?thesis
    using \<open>rr_divergence _ = _\<close> by blast
qed

end
