(* ===== verification/Context.thy ===== *)
theory Context
  imports Provider_Api Replay
begin

text \<open>
  The durable context (\<open>src/context.rs\<close>): what a workflow body calls.  A
  durable call claims a position, is checked when it is polled, consults the
  record at its position, and only then does its work and records the outcome.

  A call is a function from a world to what it returned (or the payload of its
  panic) and the world it leaves.  The world holds the cells that clones of a
  context share (the position counter, the execution, the verification), the
  task-local scopes, the store behind the provider, and the source of clock
  readings and fresh ids, which the model reads in order.  A suspension of the
  task is a point where others act: the body of a step is an arbitrary action,
  so it may stand for anything that happens while it runs.  \<open>w_waits\<close> lists
  the timers a call asked for, \<open>w_spawned\<close> the rows of the runs it dispatched.  Tracing spans have no state.
\<close>

section \<open>Definitions\<close>

record 's world =
  w_seq :: int
  w_execution :: execution
  w_verify :: "verification option"
  w_current :: "nat option"
  w_in_body :: bool
  w_clock :: "nat \<Rightarrow> datetime"
  w_reads :: nat
  w_fresh :: "nat \<Rightarrow> string"
  w_ids :: nat
  w_waits :: "int list"
  w_step_retries :: nat
  w_spawned :: "workflow_status list"
  w_store :: 's

text \<open>The immutable part.  The last four fields stand for external code: the text codec, the
  conversions of instants and strings, and the greatest instant of \<open>chrono\<close>.\<close>

record 's durable_context =
  cx_workflow_id :: string
  cx_provider :: "'s state_provider"
  cx_executor_id :: string
  cx_codec :: codec
  cx_instants :: "datetime serde"
  cx_strings :: "string serde"
  cx_max_utc :: datetime

type_synonym ('s, 'a) act = "'s world \<Rightarrow> 'a run_outcome \<times> 's world"

definition ret :: "'a result \<Rightarrow> ('s, 'a) act" where
  "ret r w = (Returned r, w)"

text \<open>The \<open>?\<close> operator: an error returns early, a panic unwinds.\<close>

definition and_then :: "('s, 'a) act \<Rightarrow> ('a \<Rightarrow> ('s, 'b) act) \<Rightarrow> ('s, 'b) act" where
  "and_then m k w = (case m w of
       (Returned (Inr a), w') \<Rightarrow> k a w'
     | (Returned (Inl e), w') \<Rightarrow> (Returned (Inl e), w')
     | (Panicked p, w') \<Rightarrow> (Panicked p, w'))"

definition read_clock :: "('s, datetime) act" where
  "read_clock w = (Returned (Ok (w_clock w (w_reads w))), w\<lparr>w_reads := Suc (w_reads w)\<rparr>)"

text \<open>A provider call whose error goes through the execution: a read, and a call that changes
  the store and may read the clock twice and make \<open>n\<close> ids.\<close>

definition observed :: "('s \<Rightarrow> 'a result) \<Rightarrow> ('s, 'a) act" where
  "observed f w = (let (r, ex) = storage (f (w_store w)) (w_execution w) in (Returned r, w\<lparr>w_execution := ex\<rparr>))"

definition stored :: "nat \<Rightarrow> (datetime \<Rightarrow> datetime \<Rightarrow> (nat \<Rightarrow> string) \<Rightarrow> 's \<Rightarrow> 'a result \<times> 's) \<Rightarrow> ('s, 'a) act" where
  "stored n f w =
     (let (r, s) = f (w_clock w (w_reads w)) (w_clock w (Suc (w_reads w))) (\<lambda>i. w_fresh w (w_ids w + i)) (w_store w);
          (r', ex) = storage r (w_execution w)
      in (Returned r', w\<lparr>w_reads := w_reads w + 2, w_ids := w_ids w + n, w_store := s, w_execution := ex\<rparr>))"

subsection \<open>Positions and scopes\<close>

definition check_call :: "string \<Rightarrow> error \<Rightarrow> 's world \<Rightarrow> unit result" where
  "check_call operation body_err w =
     result_bind (check_placement (w_current w) (w_execution w) operation) (\<lambda>_.
     result_bind (check (w_execution w)) (\<lambda>_. if w_in_body w then Err body_err else Ok ()))"

definition check_call_poll :: "string \<Rightarrow> 's world \<Rightarrow> unit result" where
  "check_call_poll operation w = check_call operation (DurableCallCrossedBody operation) w"

definition refuse_inside_body :: "'s durable_context \<Rightarrow> string \<Rightarrow> 's world \<Rightarrow> unit result" where
  "refuse_inside_body ctx operation w = check_call operation (NestedDurableCall (cx_workflow_id ctx) operation) w"

definition next_seq :: "'s world \<Rightarrow> int \<times> 's world" where
  "next_seq w = (w_seq w, w\<lparr>w_seq := wrap_i32 (w_seq w + 1)\<rparr>)"

definition claim_position :: "'s durable_context \<Rightarrow> string \<Rightarrow> ('s, int) act" where
  "claim_position ctx operation w = (case refuse_inside_body ctx operation w of
       Inl e \<Rightarrow> (Returned (Err e), w)
     | Inr _ \<Rightarrow> (let (seq, w') = next_seq w in (Returned (Ok seq), w')))"

definition poll_in_execution :: "string \<Rightarrow> ('s, 'a) act \<Rightarrow> ('s, 'a) act" where
  "poll_in_execution operation running w = (case check_call_poll operation w of
       Inl e \<Rightarrow> (Returned (Err e), w) | Inr _ \<Rightarrow> running w)"

text \<open>A call that is built and awaited at once: a refusal claims nothing and reports why.\<close>

definition pending_step :: "'s durable_context \<Rightarrow> string \<Rightarrow> (int \<Rightarrow> ('s, 'a) act) \<Rightarrow> ('s, 'a) act" where
  "pending_step ctx operation running =
     and_then (claim_position ctx operation) (\<lambda>seq. poll_in_execution operation (running seq))"

definition in_body :: "('s, 'a) act \<Rightarrow> ('s, 'a) act" where
  "in_body body w = (let (r, w') = body (w\<lparr>w_in_body := True\<rparr>) in (r, w'\<lparr>w_in_body := w_in_body w\<rparr>))"

subsection \<open>Verification\<close>

definition booked :: "(verification \<Rightarrow> verification) \<Rightarrow> 's world \<Rightarrow> 's world" where
  "booked f w = w\<lparr>w_verify := map_option f (w_verify w)\<rparr>"

definition check_recorded :: "'s durable_context \<Rightarrow> int \<Rightarrow> string \<Rightarrow> string \<Rightarrow> ('s, unit) act" where
  "check_recorded ctx seq expected recorded w =
     (if recorded \<noteq> expected
      then (Returned (Err (UnexpectedStep (cx_workflow_id ctx) seq expected recorded)),
            booked (saw (Mismatch seq expected recorded)) w)
      else (Returned (Ok ()), booked (served_record seq) w))"

definition refuse_live_work :: "'s durable_context \<Rightarrow> int \<Rightarrow> string \<Rightarrow> ('s, unit) act" where
  "refuse_live_work ctx seq operation w = (case w_verify w of
       None \<Rightarrow> (Returned (Ok ()), w)
     | Some v \<Rightarrow>
        if vf_complete v
        then (Returned (Err (ReplayDiverged (cx_workflow_id ctx) (Extra seq operation))), booked (saw (Extra seq operation)) w)
        else (Returned (Err (app (''replay verification of workflow `'' @ cx_workflow_id ctx
                @ ''` reached the end of the recorded history at step '' @ show_int seq))),
              booked (stopped seq operation) w))"

definition verifying :: "'s world \<Rightarrow> bool" where
  "verifying w \<longleftrightarrow> w_verify w \<noteq> None"

subsection \<open>The record at a position\<close>

definition recorded_value :: "'s durable_context \<Rightarrow> 'a serde \<Rightarrow> step_outcome \<Rightarrow> ('s, 'a) act" where
  "recorded_value ctx T outcome w = (case outcome of
       Output v \<Rightarrow> (Returned (from_value T v), w)
     | Failure message info \<Rightarrow>
        (let (r, ex) = storage (try_from_parts (cx_codec ctx) message info) (w_execution w) in
         (Returned (case r of Inl e \<Rightarrow> Err e | Inr e \<Rightarrow> Err e), w\<lparr>w_execution := ex\<rparr>)))"

definition serve_recorded :: "'s durable_context \<Rightarrow> 'a serde \<Rightarrow> int \<Rightarrow> string \<Rightarrow> ('s, 'a option) act" where
  "serve_recorded ctx T seq expected =
     and_then (observed (p_get_step_result (cx_provider ctx) (cx_workflow_id ctx) seq)) (\<lambda>found. case found of
       Some rec \<Rightarrow> and_then (check_recorded ctx seq expected (rs_name rec)) (\<lambda>_.
         and_then (recorded_value ctx T (rs_outcome rec)) (\<lambda>v. ret (Ok (Some v))))
     | None \<Rightarrow> and_then (refuse_live_work ctx seq expected) (\<lambda>_. ret (Ok None)))"

definition replay_or_guard :: "'s durable_context \<Rightarrow> 'a serde \<Rightarrow> int \<Rightarrow> string \<Rightarrow> ('s, 'a option) act" where
  "replay_or_guard ctx T seq expected =
     and_then (serve_recorded ctx T seq expected) (\<lambda>found. case found of
       Some v \<Rightarrow> ret (Ok (Some v))
     | None \<Rightarrow> and_then (observed (p_get_workflow_status (cx_provider ctx) (cx_workflow_id ctx))) (\<lambda>status.
         if is_some_and status (\<lambda>row. wf_status row = STATUS_CANCELLED)
         then ret (Err (Cancelled (cx_workflow_id ctx))) else ret (Ok None)))"

definition record_outcome :: "'s durable_context \<Rightarrow> int \<Rightarrow> string \<Rightarrow> json \<Rightarrow> string option \<Rightarrow> int option
  \<Rightarrow> ('s, step_outcome) act" where
  "record_outcome ctx seq nm v err started =
     stored 0 (\<lambda>now now' fresh. p_record_step_result (cx_provider ctx) now (cx_workflow_id ctx) seq nm v err started
       (Some (cx_executor_id ctx)))"

definition write_step_outcome :: "'s durable_context \<Rightarrow> 'a serde \<Rightarrow> int \<Rightarrow> string \<Rightarrow> json \<Rightarrow> string option
  \<Rightarrow> int option \<Rightarrow> ('s, 'a) act" where
  "write_step_outcome ctx T seq nm v err started =
     and_then (record_outcome ctx seq nm v err started) (recorded_value ctx T)"

definition record_failure :: "'s durable_context \<Rightarrow> 'a serde \<Rightarrow> int \<Rightarrow> string \<Rightarrow> error \<Rightarrow> int option \<Rightarrow> ('s, 'a) act" where
  "record_failure ctx T seq nm err started =
     and_then (\<lambda>w. (Returned (check (w_execution w)), w)) (\<lambda>_.
     and_then (observed (\<lambda>_. encode_error (cx_codec ctx) (p_serializer (cx_provider ctx)) err)) (\<lambda>encoded.
     write_step_outcome ctx T seq nm JNull (Some encoded) started))"

definition checkpoint_step :: "'s durable_context \<Rightarrow> 'a serde \<Rightarrow> int \<Rightarrow> string \<Rightarrow> 'a \<Rightarrow> int option \<Rightarrow> ('s, 'a) act" where
  "checkpoint_step ctx T seq nm a started =
     and_then (\<lambda>w. (Returned (check (w_execution w)), w)) (\<lambda>_. case to_value T a of
       Inl e \<Rightarrow> record_failure ctx T seq nm e started
     | Inr v \<Rightarrow> write_step_outcome ctx T seq nm v None started)"

subsection \<open>Steps\<close>

record step_ctx =
  sx_workflow_id :: string
  sx_step_id :: int
  sx_attempt :: nat
  sx_max_attempts :: nat

type_synonym ('s, 'a) body = "step_ctx \<Rightarrow> ('s, 'a) act"

definition run_step_catching :: "string \<Rightarrow> ('s, 'a) act \<Rightarrow> ('s, 'a) act" where
  "run_step_catching nm body w = (case body w of
       (Returned r, w') \<Rightarrow> (Returned r, w')
     | (Panicked p, w') \<Rightarrow> (Returned (Err (app (''step `'' @ nm @ ''` panicked: '' @ panic_message p))), w'))"

text \<open>Recording what the body of a step ended with; a cancellation of this workflow is not recorded.\<close>

definition settle_step :: "'s durable_context \<Rightarrow> 'a serde \<Rightarrow> int \<Rightarrow> string \<Rightarrow> int \<Rightarrow> ('s, 'a) act \<Rightarrow> ('s, 'a) act" where
  "settle_step ctx T seq nm started run w = (case run w of
       (Returned (Inr v), w') \<Rightarrow> checkpoint_step ctx T seq nm v (Some started) w'
     | (Returned (Inl e), w') \<Rightarrow> if is_cancellation_for e (cx_workflow_id ctx) then (Returned (Err e), w')
          else record_failure ctx T seq nm e (Some started) w'
     | (Panicked p, w') \<Rightarrow> (Panicked p, w'))"

definition step_at :: "'s durable_context \<Rightarrow> 'a serde \<Rightarrow> string \<Rightarrow> ('s, 'a) act \<Rightarrow> int \<Rightarrow> ('s, 'a) act" where
  "step_at ctx T nm run seq =
     and_then (replay_or_guard ctx T seq nm) (\<lambda>found. case found of
       Some v \<Rightarrow> ret (Ok v)
     | None \<Rightarrow> and_then read_clock (\<lambda>t. settle_step ctx T seq nm (timestamp_millis t) run))"

definition step :: "'s durable_context \<Rightarrow> 'a serde \<Rightarrow> string \<Rightarrow> ('s, 'a) body \<Rightarrow> ('s, 'a) act" where
  "step ctx T nm f = pending_step ctx ''step'' (\<lambda>seq. step_at ctx T nm
     (run_step_catching nm (in_body (f \<lparr>sx_workflow_id = cx_workflow_id ctx, sx_step_id = seq, sx_attempt = 0,
        sx_max_attempts = 1\<rparr>))) seq)"

record step_options =
  sp_name :: string
  sp_max_retries :: nat
  sp_backoff_factor :: rat
  sp_base_interval :: int
  sp_max_interval :: int
  sp_retry_if :: "(error \<Rightarrow> bool) option"

definition step_options_new :: "string \<Rightarrow> step_options" where
  "step_options_new nm = \<lparr>sp_name = nm, sp_max_retries = 0, sp_backoff_factor = 2,
     sp_base_interval = 100000000, sp_max_interval = 5000000000, sp_retry_if = None\<rparr>"

text \<open>
  The wait before the next attempt, in seconds: \<open>Duration::from_secs_f64\<close>
  panics (here \<open>None\<close>) on a negative value and on one of \<open>2^64\<close> seconds or
  more, before the cap is applied.  The factors are exact here, where the code
  rounds to an \<open>f64\<close>.
\<close>

definition backoff_delay :: "step_options \<Rightarrow> nat \<Rightarrow> rat option" where
  "backoff_delay opts attempt =
     (let backoff = (of_int (sp_base_interval opts) / 1000000000)
            * power_int (sp_backoff_factor opts) (wrap_i32 (int attempt)) in
      if backoff < 0 \<or> backoff \<ge> 2 ^ 64 then None
      else Some (min backoff (of_int (sp_max_interval opts) / 1000000000)))"

text \<open>
  \<open>left\<close> counts the retries that remain; the attempt number is what was used of
  them.  The placement of the call is checked when it is made and first polled
  (\<open>pending_step\<close>); that the code checks it again at every later poll, after a
  backoff too, is \<open>poll_in_execution\<close> and not repeated here.
\<close>

fun retry_loop :: "'s durable_context \<Rightarrow> int \<Rightarrow> step_options \<Rightarrow> ('s, 'a) body \<Rightarrow> nat \<Rightarrow> ('s, 'a) act" where
  "retry_loop ctx seq opts f left w =
     (let attempt = sp_max_retries opts - left in
      case run_step_catching (sp_name opts) (in_body (f \<lparr>sx_workflow_id = cx_workflow_id ctx, sx_step_id = seq,
             sx_attempt = attempt, sx_max_attempts = sp_max_retries opts + 1\<rparr>)) w of
        (Returned (Inr v), w') \<Rightarrow> (Returned (Ok v), w')
      | (Panicked p, w') \<Rightarrow> (Panicked p, w')
      | (Returned (Inl e), w') \<Rightarrow>
         if (case e of RecoveryRequired _ \<Rightarrow> True | ObservationFailed _ \<Rightarrow> True | _ \<Rightarrow> False)
         then (let (e', ex) = body_error e (w_execution w') in (Returned (Err e'), w'\<lparr>w_execution := ex\<rparr>))
         else if is_cancellation_for e (cx_workflow_id ctx) then (Returned (Err e), w')
         else if is_scope_violation e then (Returned (Err e), w')
         else if \<not> is_none_or (sp_retry_if opts) (\<lambda>p. p e) then (Returned (Err e), w')
         else (case left of
             0 \<Rightarrow> (Returned (Err e), w')
           | Suc rest \<Rightarrow> (case backoff_delay opts attempt of
               None \<Rightarrow> (Panicked (Panic_String ''cannot convert float seconds to Duration''), w')
             | Some d \<Rightarrow> retry_loop ctx seq opts f rest (w'\<lparr>w_step_retries := Suc (w_step_retries w'),
                 w_waits := w_waits w' @ [\<lfloor>d * 1000000000\<rfloor>]\<rparr>))))"

declare retry_loop.simps [simp del]

definition run_with_retries :: "'s durable_context \<Rightarrow> int \<Rightarrow> step_options \<Rightarrow> ('s, 'a) body \<Rightarrow> ('s, 'a) act" where
  "run_with_retries ctx seq opts f = retry_loop ctx seq opts f (sp_max_retries opts)"

definition step_with :: "'s durable_context \<Rightarrow> 'a serde \<Rightarrow> step_options \<Rightarrow> ('s, 'a) body \<Rightarrow> ('s, 'a) act" where
  "step_with ctx T opts f = pending_step ctx ''step'' (\<lambda>seq. step_at ctx T (sp_name opts)
     (run_with_retries ctx seq opts f) seq)"

subsection \<open>Values, timers and patches\<close>

definition durable_value_at :: "'s durable_context \<Rightarrow> 'a serde \<Rightarrow> int \<Rightarrow> string \<Rightarrow> ('s, 'a) act \<Rightarrow> ('s, 'a) act" where
  "durable_value_at ctx T seq nm produce =
     and_then (serve_recorded ctx T seq nm) (\<lambda>found. case found of
       Some v \<Rightarrow> ret (Ok v)
     | None \<Rightarrow> and_then produce (\<lambda>v. checkpoint_step ctx T seq nm v None))"

definition durable_value :: "'s durable_context \<Rightarrow> 'a serde \<Rightarrow> string \<Rightarrow> ('s, 'a) act \<Rightarrow> ('s, 'a) act" where
  "durable_value ctx T nm produce = pending_step ctx nm (\<lambda>seq. durable_value_at ctx T seq nm produce)"

definition now_value :: "'s durable_context \<Rightarrow> ('s, datetime) act" where
  "now_value ctx = durable_value ctx (cx_instants ctx) ''DBOS.now'' read_clock"

definition uuid_value :: "'s durable_context \<Rightarrow> ('s, string) act" where
  "uuid_value ctx = durable_value ctx (cx_strings ctx) ''DBOS.uuid''
     (\<lambda>w. (Returned (Ok (w_fresh w (w_ids w))), w\<lparr>w_ids := Suc (w_ids w)\<rparr>))"

text \<open>
  A duration is in nanoseconds.  \<open>chrono::Duration::from_std\<close> refuses more than
  \<open>i64::MAX\<close> milliseconds, which counts as zero; adding the rest to the clock
  panics past the greatest instant.
\<close>

definition from_std :: "int \<Rightarrow> int" where
  "from_std dur = (if dur > (2 ^ 63 - 1) * 1000000 then 0 else dur)"

definition wake_instant :: "'s durable_context \<Rightarrow> int \<Rightarrow> ('s, datetime) act" where
  "wake_instant ctx dur = and_then read_clock (\<lambda>t w.
     if t + from_std dur > cx_max_utc ctx then (Panicked (Panic_Str ''`DateTime + TimeDelta` overflowed''), w)
     else (Returned (Ok (t + from_std dur)), w))"

definition sleep :: "'s durable_context \<Rightarrow> int \<Rightarrow> ('s, unit) act" where
  "sleep ctx dur = pending_step ctx ''sleep'' (\<lambda>seq.
     and_then (durable_value_at ctx (cx_instants ctx) seq ''DBOS.sleep'' (wake_instant ctx dur)) (\<lambda>wake_at.
     and_then read_clock (\<lambda>now w. (Returned (Ok ()),
       if wake_at > now \<and> \<not> verifying w then w\<lparr>w_waits := w_waits w @ [wake_at - now]\<rparr> else w))))"

definition PATCH_PREFIX :: string where "PATCH_PREFIX = ''DBOS.patch-''"

definition patch :: "'s durable_context \<Rightarrow> string \<Rightarrow> ('s, bool) act" where
  "patch ctx nm w = (case refuse_inside_body ctx ''patch'' w of
       Inl e \<Rightarrow> (Returned (Err e), w)
     | Inr _ \<Rightarrow> poll_in_execution ''patch'' (\<lambda>w.
        (let seq = w_seq w; marker = PATCH_PREFIX @ nm in
         and_then (observed (p_get_step_name (cx_provider ctx) (cx_workflow_id ctx) seq)) (\<lambda>found. case found of
            None \<Rightarrow> and_then (refuse_live_work ctx seq marker) (\<lambda>_.
              and_then (stored 0 (\<lambda>now now' fresh. p_record_patch (cx_provider ctx) (cx_workflow_id ctx) seq marker)) (\<lambda>_ w.
                (Returned (Ok True), snd (next_seq w))))
          | Some recorded \<Rightarrow> if recorded = marker
              then (\<lambda>w. (Returned (Ok True), snd (next_seq (booked (served_record seq) w))))
              else ret (Ok False)) w)) w)"

definition deprecate_patch :: "'s durable_context \<Rightarrow> string \<Rightarrow> ('s, unit) act" where
  "deprecate_patch ctx nm w = (case refuse_inside_body ctx ''deprecate_patch'' w of
       Inl e \<Rightarrow> (Returned (Err e), w)
     | Inr _ \<Rightarrow> poll_in_execution ''deprecate_patch'' (\<lambda>w.
        (let seq = w_seq w in
         and_then (observed (p_get_step_name (cx_provider ctx) (cx_workflow_id ctx) seq)) (\<lambda>found w.
           (Returned (Ok ()), if found = Some (PATCH_PREFIX @ nm)
              then snd (next_seq (booked (served_record seq) w)) else w)) w)) w)"

subsection \<open>Messages, events and streams\<close>

text \<open>The conversion of a \<open>Value\<close> to itself.\<close>

definition json_serde :: "json serde" where
  "json_serde = \<lparr>sd_to_value = Inr, sd_from_value = Inr\<rparr>"

text \<open>A call whose effect carries its own checkpoint: nothing is done at a recorded position.\<close>

definition effect_at :: "'s durable_context \<Rightarrow> string \<Rightarrow> (int \<Rightarrow> ('s, unit) act) \<Rightarrow> int \<Rightarrow> ('s, unit) act" where
  "effect_at ctx nm effect seq =
     and_then (replay_or_guard ctx json_serde seq nm) (\<lambda>found. case found of
       Some _ \<Rightarrow> ret (Ok ()) | None \<Rightarrow> effect seq)"

definition send :: "'s durable_context \<Rightarrow> 'a serde \<Rightarrow> string \<Rightarrow> 'a \<Rightarrow> string \<Rightarrow> ('s, unit) act" where
  "send ctx T destination message topic = (case to_value T message of
       Inl e \<Rightarrow> ret (Err e)
     | Inr encoded \<Rightarrow> pending_step ctx ''send'' (effect_at ctx ''DBOS.send'' (\<lambda>seq.
         stored 1 (\<lambda>now now' fresh. p_send_from_workflow (cx_provider ctx) now now' fresh (cx_workflow_id ctx) seq
           ''DBOS.send'' [\<lparr>nx_destination_id = destination, nx_topic = topic, nx_message = encoded,
             nx_idempotency_key = None\<rparr>]))))"

text \<open>\<open>prepare_bulk\<close>: keys are sorted, and a key equal to the one before it is a duplicate.\<close>

fun repeated :: "string list \<Rightarrow> string list" where
  "repeated (x # y # zs) = (if x = y then x # repeated (y # zs) else repeated (y # zs))"
| "repeated _ = []"

fun join :: "string list \<Rightarrow> string" where
  "join [] = []" | "join [s] = s" | "join (s # t # ts) = s @ '', '' @ join (t # ts)"

record 'a send_message =
  sm_destination_id :: string
  sm_topic :: string
  sm_message :: 'a
  sm_idempotency_key :: "string option"

fun prepare_rows :: "'a serde \<Rightarrow> 'a send_message list \<Rightarrow> notification_insert list result" where
  "prepare_rows T [] = Ok []"
| "prepare_rows T (m # ms) = result_bind (to_value T (sm_message m)) (\<lambda>v. result_bind (prepare_rows T ms) (\<lambda>rows.
     Ok (\<lparr>nx_destination_id = sm_destination_id m, nx_topic = sm_topic m, nx_message = v,
       nx_idempotency_key = sm_idempotency_key m\<rparr> # rows)))"

definition prepare_bulk :: "'a serde \<Rightarrow> 'a send_message list \<Rightarrow> notification_insert list result" where
  "prepare_bulk T messages =
     (let duplicates = vec_dedup (repeated (sort (List.map_filter sm_idempotency_key messages))) in
      if duplicates \<noteq> [] then Err (app (''send_bulk received duplicate idempotency keys: '' @ join duplicates))
      else prepare_rows T messages)"

definition send_bulk :: "'s durable_context \<Rightarrow> 'a serde \<Rightarrow> 'a send_message list \<Rightarrow> ('s, unit) act" where
  "send_bulk ctx T messages = (case prepare_bulk T messages of
       Inl e \<Rightarrow> ret (Err e)
     | Inr rows \<Rightarrow> pending_step ctx ''send_bulk'' (effect_at ctx ''DBOS.send_bulk'' (\<lambda>seq.
         stored (length rows) (\<lambda>now now' fresh. p_send_from_workflow (cx_provider ctx) now now' fresh
           (cx_workflow_id ctx) seq ''DBOS.send_bulk'' rows))))"

definition ctx_set_workflow_attributes :: "'s durable_context \<Rightarrow> string \<Rightarrow> jmap option \<Rightarrow> ('s, unit) act" where
  "ctx_set_workflow_attributes ctx i attributes = pending_step ctx ''set_workflow_attributes''
     (effect_at ctx ''DBOS.updateWorkflowAttributes'' (\<lambda>seq.
       and_then (stored 0 (\<lambda>now now' fresh. p_set_workflow_attributes (cx_provider ctx) now i attributes)) (\<lambda>_.
       and_then (record_outcome ctx seq ''DBOS.updateWorkflowAttributes'' JNull None None) (\<lambda>_. ret (Ok ())))))"

definition set_event :: "'s durable_context \<Rightarrow> 'a serde \<Rightarrow> string \<Rightarrow> 'a \<Rightarrow> ('s, unit) act" where
  "set_event ctx T key v = (case to_value T v of
       Inl e \<Rightarrow> ret (Err e)
     | Inr encoded \<Rightarrow> pending_step ctx ''set_event'' (effect_at ctx ''DBOS.setEvent'' (\<lambda>seq.
         and_then (stored 0 (\<lambda>now now' fresh. p_upsert_event (cx_provider ctx) (cx_workflow_id ctx) key encoded)) (\<lambda>_.
         and_then (record_outcome ctx seq ''DBOS.setEvent'' JNull None None) (\<lambda>_. ret (Ok ()))))))"

definition ctx_write_stream :: "'s durable_context \<Rightarrow> 'a serde \<Rightarrow> string \<Rightarrow> 'a \<Rightarrow> ('s, unit) act" where
  "ctx_write_stream ctx T key v = (case to_value T v of
       Inl e \<Rightarrow> ret (Err e)
     | Inr encoded \<Rightarrow> pending_step ctx ''write_stream'' (effect_at ctx ''DBOS.writeStream'' (\<lambda>seq.
         stored 0 (\<lambda>now now' fresh. p_write_stream_from_workflow (cx_provider ctx) now (cx_workflow_id ctx) seq
           ''DBOS.writeStream'' key (Some encoded)))))"

definition close_stream :: "'s durable_context \<Rightarrow> string \<Rightarrow> ('s, unit) act" where
  "close_stream ctx key = pending_step ctx ''close_stream'' (effect_at ctx ''DBOS.closeStream'' (\<lambda>seq.
     stored 0 (\<lambda>now now' fresh. p_write_stream_from_workflow (cx_provider ctx) now (cx_workflow_id ctx) seq
       ''DBOS.closeStream'' key None)))"

subsection \<open>Waits\<close>

text \<open>
  The polling loop behind \<open>recv\<close> and \<open>get_event\<close>: try, fix the deadline on the
  first miss, give up at the deadline, else wait and try again.  \<open>wait k\<close> is
  what happened in the store and to the execution during the \<open>k\<close>-th wait; a
  polled call is checked again when it wakes.  Waiting forever is \<open>None\<close>.
\<close>

partial_function (option) wait_loop :: "'s durable_context \<Rightarrow> string \<Rightarrow> string \<Rightarrow> ('s, 'b option) act \<Rightarrow> int \<Rightarrow> int \<Rightarrow> int
  \<Rightarrow> (nat \<Rightarrow> 's world \<Rightarrow> 's world) \<Rightarrow> nat \<Rightarrow> datetime option \<Rightarrow> 's world \<Rightarrow> ('b option run_outcome \<times> 's world) option" where
  "wait_loop ctx operation nm attempt seq deadline_seq timeout wait k deadline w =
     (case attempt w of
        (Panicked p, w1) \<Rightarrow> Some (Panicked p, w1)
      | (Returned (Inl e), w1) \<Rightarrow> Some (Returned (Inl e), w1)
      | (Returned (Inr (Some b)), w1) \<Rightarrow> Some (Returned (Inr (Some b)), w1)
      | (Returned (Inr None), w1) \<Rightarrow>
         (case (case deadline of Some d \<Rightarrow> (Returned (Inr d), w1)
              | None \<Rightarrow> durable_value_at ctx (cx_instants ctx) deadline_seq ''DBOS.sleep'' (wake_instant ctx timeout) w1) of
            (Panicked p, w2) \<Rightarrow> Some (Panicked p, w2)
          | (Returned (Inl e), w2) \<Rightarrow> Some (Returned (Inl e), w2)
          | (Returned (Inr d), w2) \<Rightarrow>
             if w_clock w2 (w_reads w2) \<ge> d
             then Some (and_then (record_outcome ctx seq nm JNull None None) (\<lambda>_. ret (Ok None))
                    (w2\<lparr>w_reads := Suc (w_reads w2)\<rparr>))
             else (case check_call_poll operation (wait k (w2\<lparr>w_reads := Suc (w_reads w2)\<rparr>)) of
                 Inl e \<Rightarrow> Some (Returned (Err e), wait k (w2\<lparr>w_reads := Suc (w_reads w2)\<rparr>))
               | Inr _ \<Rightarrow> wait_loop ctx operation nm attempt seq deadline_seq timeout wait (Suc k) (Some d)
                   (wait k (w2\<lparr>w_reads := Suc (w_reads w2)\<rparr>)))))"

definition pending_wait :: "'s durable_context \<Rightarrow> 'b option serde \<Rightarrow> string \<Rightarrow> string \<Rightarrow> (int \<Rightarrow> ('s, 'b option option) act) \<Rightarrow> int
  \<Rightarrow> (nat \<Rightarrow> 's world \<Rightarrow> 's world) \<Rightarrow> 's world \<Rightarrow> ('b option run_outcome \<times> 's world) option" where
  "pending_wait ctx T operation nm attempt timeout wait w = (case claim_position ctx operation w of
       (Panicked p, w1) \<Rightarrow> Some (Panicked p, w1)
     | (Returned (Inl e), w1) \<Rightarrow> Some (Returned (Inl e), w1)
     | (Returned (Inr seq), w1) \<Rightarrow>
        (let (deadline_seq, w2) = next_seq w1 in
         case check_call_poll operation w2 of
           Inl e \<Rightarrow> Some (Returned (Err e), w2)
         | Inr _ \<Rightarrow>
            (case replay_or_guard ctx T seq nm (booked (reserved_record deadline_seq ''DBOS.sleep'') w2) of
               (Panicked p, w3) \<Rightarrow> Some (Panicked p, w3)
             | (Returned (Inl e), w3) \<Rightarrow> Some (Returned (Inl e), w3)
             | (Returned (Inr (Some v)), w3) \<Rightarrow> Some (Returned (Inr v), w3)
             | (Returned (Inr None), w3) \<Rightarrow>
                map_option (\<lambda>(r, w'). (case r of Panicked p \<Rightarrow> Panicked p | Returned (Inl e) \<Rightarrow> Returned (Inl e)
                    | Returned (Inr found) \<Rightarrow> Returned (Inr (Option.bind found (\<lambda>v. v))), w'))
                  (wait_loop ctx operation nm (attempt seq) seq deadline_seq timeout wait 0 None w3))))"

text \<open>\<open>T\<close> converts the \<open>Option<T>\<close> that the call returns.\<close>

definition recv :: "'s durable_context \<Rightarrow> 'b option serde \<Rightarrow> string \<Rightarrow> int \<Rightarrow> (nat \<Rightarrow> 's world \<Rightarrow> 's world) \<Rightarrow> 's world
  \<Rightarrow> ('b option run_outcome \<times> 's world) option" where
  "recv ctx T topic timeout = pending_wait ctx T ''recv'' ''DBOS.recv'' (\<lambda>seq.
     and_then (stored 0 (\<lambda>now now' fresh. p_consume_notification (cx_provider ctx) now (cx_workflow_id ctx) topic seq ''DBOS.recv''))
       (\<lambda>msg. case msg of None \<Rightarrow> ret (Ok None)
          | Some m \<Rightarrow> and_then (recorded_value ctx T (Output m)) (\<lambda>v. ret (Ok (Some v))))) timeout"

definition get_event :: "'s durable_context \<Rightarrow> 'b serde \<Rightarrow> 'b option serde \<Rightarrow> string \<Rightarrow> string \<Rightarrow> int
  \<Rightarrow> (nat \<Rightarrow> 's world \<Rightarrow> 's world) \<Rightarrow> 's world \<Rightarrow> ('b option run_outcome \<times> 's world) option" where
  "get_event ctx U T target key timeout = pending_wait ctx T ''get_event'' ''DBOS.getEvent'' (\<lambda>seq.
     and_then (observed (p_get_event_value (cx_provider ctx) target key)) (\<lambda>v. case v of None \<Rightarrow> ret (Ok None)
        | Some value \<Rightarrow> and_then (record_outcome ctx seq ''DBOS.getEvent'' value None None) (\<lambda>outcome.
            and_then (recorded_value ctx U outcome) (\<lambda>b. ret (Ok (Some (Some b))))))) timeout"

end
