(* ===== verification/Durable.thy ===== *)
theory Durable
  imports Context Memory_Provider
begin

text \<open>
  Why a durable workflow can be run again.  The interface a durable call needs
  of its provider is the locale \<open>durable_provider\<close>; inside it, every durable
  call is shown to leave at its position a record that reproduces what it
  returned, and to do nothing at a recorded position but return that.  The
  interpretation is the in-memory provider.  A workflow function is a program:
  a call and, for each result of it, what the function does next.
\<close>

section \<open>Definitions\<close>

datatype 's call =
    Call_step string "('s, json) body"
  | Call_step_with step_options "('s, json) body"
  | Call_now
  | Call_uuid
  | Call_sleep int
  | Call_send string json string
  | Call_send_bulk "json send_message list"
  | Call_set_event string json
  | Call_write_stream string json
  | Call_close_stream string
  | Call_set_attributes string "jmap option"

fun run_call :: "'s durable_context \<Rightarrow> 's call \<Rightarrow> ('s, json) act" where
  "run_call ctx (Call_step nm f) = step ctx json_serde nm f"
| "run_call ctx (Call_step_with opts f) = step_with ctx json_serde opts f"
| "run_call ctx Call_now = and_then (now_value ctx) (\<lambda>t. ret (to_value (cx_instants ctx) t))"
| "run_call ctx Call_uuid = and_then (uuid_value ctx) (\<lambda>s. ret (to_value (cx_strings ctx) s))"
| "run_call ctx (Call_sleep dur) = and_then (sleep ctx dur) (\<lambda>_. ret (Ok JNull))"
| "run_call ctx (Call_send d m t) = and_then (send ctx json_serde d m t) (\<lambda>_. ret (Ok JNull))"
| "run_call ctx (Call_send_bulk ms) = and_then (send_bulk ctx json_serde ms) (\<lambda>_. ret (Ok JNull))"
| "run_call ctx (Call_set_event k v) = and_then (set_event ctx json_serde k v) (\<lambda>_. ret (Ok JNull))"
| "run_call ctx (Call_write_stream k v) = and_then (ctx_write_stream ctx json_serde k v) (\<lambda>_. ret (Ok JNull))"
| "run_call ctx (Call_close_stream k) = and_then (close_stream ctx k) (\<lambda>_. ret (Ok JNull))"
| "run_call ctx (Call_set_attributes i a) = and_then (ctx_set_workflow_attributes ctx i a) (\<lambda>_. ret (Ok JNull))"

datatype 's program = Finish "json result" | Perform "'s call" "json result \<Rightarrow> 's program"

primrec run_program :: "'s durable_context \<Rightarrow> 's program \<Rightarrow> 's world \<Rightarrow> json result list \<times> json run_outcome \<times> 's world" where
  "run_program ctx (Finish r) w = ([], Returned r, w)"
| "run_program ctx (Perform c k) w = (case run_call ctx c w of
       (Panicked p, w') \<Rightarrow> ([], Panicked p, w')
     | (Returned r, w') \<Rightarrow> (let (rs, out, w'') = run_program ctx (k r) w' in (r # rs, out, w'')))"

text \<open>A call without what its body does.\<close>

definition no_body :: "('s, json) body" where
  "no_body sx w = (Panicked Panic_Other, w)"

fun bodiless :: "'s call \<Rightarrow> 's call" where
  "bodiless (Call_step nm f) = Call_step nm no_body"
| "bodiless (Call_step_with opts f) = Call_step_with opts no_body"
| "bodiless c = c"

primrec without_bodies :: "'s program \<Rightarrow> 's program" where
  "without_bodies (Finish r) = Finish r"
| "without_bodies (Perform c k) = Perform (bodiless c) (\<lambda>r. without_bodies (k r))"

section \<open>Reasoning about actions\<close>

text \<open>Where a durable call may be made: in the execution of its context, outside any body.\<close>

definition placed :: "'s world \<Rightarrow> bool" where
  "placed w \<longleftrightarrow> w_current w = Some (ex_token (w_execution w)) \<and> \<not> w_in_body w"

definition latch :: "'s world \<Rightarrow> error option" where
  "latch w = ex_failure (w_execution w)"

text \<open>What an action leaves of the shared cells.\<close>

definition frame :: "'s world \<Rightarrow> 's world \<Rightarrow> bool" where
  "frame w w' \<longleftrightarrow> w_seq w' = w_seq w \<and> w_verify w' = w_verify w \<and> w_current w' = w_current w
     \<and> w_in_body w' = w_in_body w \<and> ex_token (w_execution w') = ex_token (w_execution w)"

text \<open>What a record reproduces: the result of the call, and the failure its decoding latches.\<close>

definition replay_value :: "codec \<Rightarrow> 'a serde \<Rightarrow> step_outcome \<Rightarrow> 'a result \<times> error option" where
  "replay_value C T oc = (case oc of
       Output v \<Rightarrow> (from_value T v, None)
     | Failure m i \<Rightarrow> (case try_from_parts C m i of
         Inr e \<Rightarrow> (Err e, None)
       | Inl e \<Rightarrow> if is_storage_failure e then (Err (RecoveryRequired (unwrapped e)), Some (unwrapped e))
            else (Err e, None)))"

definition map_value :: "('a \<Rightarrow> 'b result) \<Rightarrow> 'a result \<times> error option \<Rightarrow> 'b result \<times> error option" where
  "map_value g v = (case fst v of Inl e \<Rightarrow> (Err e, snd v) | Inr a \<Rightarrow> (g a, snd v))"

lemma frame_refl [simp]: "frame w w"
  by (simp add: frame_def)

lemma frame_trans: "frame w w' \<Longrightarrow> frame w' w'' \<Longrightarrow> frame w w''"
  by (simp add: frame_def)

lemma frame_placed: "frame w w' \<Longrightarrow> placed w' = placed w"
  by (simp add: frame_def placed_def)

lemma frame_updates [simp]:
  "frame w (w'\<lparr>w_reads := n\<rparr>) = frame w w'" "frame w (w'\<lparr>w_ids := n\<rparr>) = frame w w'"
  "frame w (w'\<lparr>w_waits := ts\<rparr>) = frame w w'" "frame w (w'\<lparr>w_step_retries := n\<rparr>) = frame w w'"
  "frame w (w'\<lparr>w_store := s\<rparr>) = frame w w'" "frame w (w'\<lparr>w_spawned := ss\<rparr>) = frame w w'"
  by (simp_all add: frame_def)

lemma and_then_ret [simp]: "and_then (ret (Inr a)) k w = k a w" "and_then (ret (Inl e)) k w = (Returned (Inl e), w)"
  by (simp_all add: and_then_def ret_def)

lemma and_then_error [simp]: "and_then (ret (Inl e)) k = ret (Inl e)"
  by (simp add: fun_eq_iff) (simp add: ret_def)

lemma and_then_Returned:
  "m w = (Returned (Inr a), w') \<Longrightarrow> and_then m k w = k a w'"
  "m w = (Returned (Inl e), w') \<Longrightarrow> and_then m k w = (Returned (Inl e), w')"
  "m w = (Panicked p, w') \<Longrightarrow> and_then m k w = (Panicked p, w')"
  by (simp_all add: and_then_def)

lemma and_then_cases:
  assumes "and_then m k w = (o', w'')"
  obtains (ok) a w' where "m w = (Returned (Inr a), w')" "k a w' = (o', w'')"
    | (err) e where "m w = (Returned (Inl e), w'')" "o' = Returned (Inl e)"
    | (panic) p where "m w = (Panicked p, w'')" "o' = Panicked p"
  using assms by (auto simp: and_then_def split: prod.splits run_outcome.splits sum.splits)

lemma and_then_assoc: "and_then (and_then m k) h = and_then m (\<lambda>a. and_then (k a) h)"
  by (auto simp: and_then_def fun_eq_iff split: prod.split run_outcome.split sum.split)

lemma storage_Ok [simp]: "storage (Inr a) ex = (Inr a, ex)"
  by (simp add: storage_def)

lemma observed_Ok [simp]: "f (w_store w) = Inr a \<Longrightarrow> observed f w = (Returned (Inr a), w)"
  by (simp add: observed_def)

lemma storage_Err: "ex_failure ex = None \<Longrightarrow> storage (Inl e) ex =
   (if is_storage_failure e then (Err (RecoveryRequired (unwrapped e)), ex\<lparr>ex_failure := Some (unwrapped e)\<rparr>)
    else (Err e, ex))"
  by (simp add: storage_def record_error_cases interrupt_fresh unwrapped_def Let_def)

lemma storage_token [simp]: "ex_token (snd (storage r ex)) = ex_token ex"
  by (cases r) (simp_all add: storage_def record_error_cases interrupt_def Let_def case_prod_unfold)

lemma recorded_value_eq:
  assumes "latch w = None"
  shows "recorded_value ctx T oc w = (Returned (fst (replay_value (cx_codec ctx) T oc)),
    w\<lparr>w_execution := (w_execution w)\<lparr>ex_failure := snd (replay_value (cx_codec ctx) T oc)\<rparr>\<rparr>)"
proof -
  have same: "w_execution w\<lparr>ex_failure := None\<rparr> = w_execution w" using assms by (simp add: latch_def)
  then show ?thesis using assms
    by (auto simp: recorded_value_def replay_value_def latch_def storage_Err same split: step_outcome.split sum.split)
qed

lemma replay_value_latch_error:
  "snd (replay_value C T oc) = Some f \<Longrightarrow> fst (replay_value C T oc) = Err (RecoveryRequired f)"
  by (auto simp: replay_value_def split: step_outcome.splits sum.splits if_splits)

section \<open>The interface of a durable provider\<close>

text \<open>A provider call at a position that commits its effect and a checkpoint together, or fails and records nothing.\<close>

definition commits :: "('s \<Rightarrow> string \<Rightarrow> int \<Rightarrow> recorded_step option) \<Rightarrow> string \<Rightarrow> int \<Rightarrow> string \<Rightarrow> ('s \<Rightarrow> unit result \<times> 's) \<Rightarrow> bool" where
  "commits lookup i q nm f \<longleftrightarrow> (\<forall>s. lookup s i q = None \<longrightarrow> (case f s of
       (Inr _, s') \<Rightarrow> lookup s' i q = Some \<lparr>rs_name = nm, rs_outcome = Output JNull\<rparr> \<and> (\<forall>q'. q' \<noteq> q \<longrightarrow> lookup s' i q' = lookup s i q')
     | (Inl e, s') \<Rightarrow> \<forall>q'. lookup s' i q' = lookup s i q'))"

text \<open>An action that keeps the shared cells and every record of the workflow; so must the body of a step.\<close>

definition tame :: "('s \<Rightarrow> string \<Rightarrow> int \<Rightarrow> recorded_step option) \<Rightarrow> string \<Rightarrow> ('s, 'a) act \<Rightarrow> bool" where
  "tame lookup i m \<longleftrightarrow> (\<forall>w. frame w (snd (m w)) \<and> lookup (w_store (snd (m w))) i = lookup (w_store w) i)"

definition tame_body :: "('s \<Rightarrow> string \<Rightarrow> int \<Rightarrow> recorded_step option) \<Rightarrow> string \<Rightarrow> ('s, 'a) body \<Rightarrow> bool" where
  "tame_body lookup i f \<longleftrightarrow> (\<forall>sx. tame lookup i (f sx))"

text \<open>
  A call at a claimed position is durable: run at an empty position outside a
  verification, it touches no other record, and a record it leaves bears its
  name and reproduces what it returned; run at a recorded position, it changes
  nothing and returns what the record reproduces.
\<close>

definition leaves :: "('s \<Rightarrow> string \<Rightarrow> int \<Rightarrow> recorded_step option) \<Rightarrow> string \<Rightarrow> string
  \<Rightarrow> (step_outcome \<Rightarrow> 'a result \<times> error option) \<Rightarrow> int \<Rightarrow> 's world \<Rightarrow> 'a run_outcome \<times> 's world \<Rightarrow> bool" where
  "leaves lookup i nm val q w r \<longleftrightarrow> frame w (snd r)
     \<and> (\<forall>q'. q' \<noteq> q \<longrightarrow> lookup (w_store (snd r)) i q' = lookup (w_store w) i q')
     \<and> (\<forall>rec. lookup (w_store (snd r)) i q = Some rec \<longrightarrow> rs_name rec = nm
          \<and> fst r = Returned (fst (val (rs_outcome rec))) \<and> latch (snd r) = snd (val (rs_outcome rec)))"

definition settles :: "('s \<Rightarrow> string \<Rightarrow> int \<Rightarrow> recorded_step option) \<Rightarrow> string \<Rightarrow> string
  \<Rightarrow> (step_outcome \<Rightarrow> 'a result \<times> error option) \<Rightarrow> int \<Rightarrow> ('s, 'a) act \<Rightarrow> bool" where
  "settles lookup i nm val q m \<longleftrightarrow> (\<forall>w. w_verify w = None \<and> latch w = None \<and> lookup (w_store w) i q = None
     \<longrightarrow> leaves lookup i nm val q w (m w))"

definition serves :: "('s \<Rightarrow> string \<Rightarrow> int \<Rightarrow> recorded_step option) \<Rightarrow> string \<Rightarrow> string
  \<Rightarrow> (step_outcome \<Rightarrow> 'a result \<times> error option) \<Rightarrow> int \<Rightarrow> ('s, 'a) act \<Rightarrow> bool" where
  "serves lookup i nm val q m \<longleftrightarrow> (\<forall>w rec. latch w = None \<and> lookup (w_store w) i q = Some rec \<and> rs_name rec = nm \<longrightarrow>
     (\<exists>w'. m w = (Returned (fst (val (rs_outcome rec))), w') \<and> frame (booked (served_record q) w) w'
        \<and> w_store w' = w_store w \<and> latch w' = snd (val (rs_outcome rec))))"

definition quiet :: "('a \<Rightarrow> 'b result) \<Rightarrow> ('a \<Rightarrow> ('s, 'b) act) \<Rightarrow> bool" where
  "quiet g post \<longleftrightarrow> (\<forall>a w. \<exists>w'. post a w = (Returned (g a), w') \<and> frame w w' \<and> w_store w' = w_store w
     \<and> w_execution w' = w_execution w)"

lemma quiet_ret [simp]: "quiet g (\<lambda>a. ret (g a))"
  by (simp add: quiet_def ret_def)

lemma leaves_nothing:
  "frame w w' \<Longrightarrow> lookup (w_store w') i = lookup (w_store w) i \<Longrightarrow> lookup (w_store w) i q = None
   \<Longrightarrow> leaves lookup i nm val q w (o', w')"
  by (simp add: leaves_def)

lemma leaves_later:
  "frame w w1 \<Longrightarrow> lookup (w_store w1) i = lookup (w_store w) i \<Longrightarrow> leaves lookup i nm val q w1 r
   \<Longrightarrow> leaves lookup i nm val q w r"
  by (auto simp: leaves_def intro: frame_trans)

lemma leaves_post:
  assumes "leaves lookup i nm val q w (m w)" "quiet g post"
  shows "leaves lookup i nm (map_value g \<circ> val) q w (and_then m post w)"
proof (cases "and_then m post w")
  case (Pair o' w')
  then show ?thesis
  proof (cases rule: and_then_cases)
    case (ok a w1)
    obtain w2 where "post a w1 = (Returned (g a), w2)" "frame w1 w2" "w_store w2 = w_store w1"
        "w_execution w2 = w_execution w1" using assms(2) by (auto simp: quiet_def)
    with ok have "o' = Returned (g a)" and w': "frame w1 w'" "w_store w' = w_store w1" "latch w' = latch w1"
      by (auto simp: latch_def)
    then show ?thesis using assms(1) ok(1) Pair frame_trans [of w w1 w']
      by (auto simp: leaves_def map_value_def split: sum.split)
  qed (use assms(1) Pair in \<open>auto simp: leaves_def map_value_def split: sum.split\<close>)
qed

lemma settles_post:
  "settles lookup i nm val q m \<Longrightarrow> quiet g post \<Longrightarrow> settles lookup i nm (map_value g \<circ> val) q (and_then m post)"
  unfolding settles_def by (blast intro: leaves_post)

lemma serves_post:
  assumes "serves lookup i nm val q m" "quiet g post"
  shows "serves lookup i nm (map_value g \<circ> val) q (and_then m post)"
  unfolding serves_def
proof (intro allI impI, elim conjE)
  fix w rec
  assume w: "latch w = None" "lookup (w_store w) i q = Some rec" "rs_name rec = nm"
  then obtain w1 where w1: "m w = (Returned (fst (val (rs_outcome rec))), w1)" "frame (booked (served_record q) w) w1"
      "w_store w1 = w_store w" "latch w1 = snd (val (rs_outcome rec))"
    using assms(1) by (auto simp: serves_def)
  show "\<exists>w'. and_then m post w = (Returned (fst ((map_value g \<circ> val) (rs_outcome rec))), w')
      \<and> frame (booked (served_record q) w) w' \<and> w_store w' = w_store w \<and> latch w' = snd ((map_value g \<circ> val) (rs_outcome rec))"
  proof (cases "fst (val (rs_outcome rec))")
    case (Inl e)
    then show ?thesis using w1 by (auto simp: and_then_Returned map_value_def)
  next
    case (Inr a)
    obtain w2 where "post a w1 = (Returned (g a), w2)" "frame w1 w2" "w_store w2 = w_store w1"
        "w_execution w2 = w_execution w1" using assms(2) by (auto simp: quiet_def)
    then show ?thesis using w1 Inr frame_trans by (auto simp: and_then_Returned map_value_def latch_def)
  qed
qed

subsection \<open>What bodies and producers keep\<close>

lemma tame_simps:
  "tame lookup i m \<Longrightarrow> m w = (o', w') \<Longrightarrow> frame w w' \<and> lookup (w_store w') i = lookup (w_store w) i"
  unfolding tame_def by (metis snd_conv)

lemma tame_read_clock: "tame lookup i read_clock"
  by (simp add: tame_def read_clock_def)

lemma tame_wake_instant: "tame lookup i (wake_instant ctx dur)"
  by (auto simp: tame_def wake_instant_def and_then_def read_clock_def)

lemma tame_attempt:
  assumes "tame_body lookup i f"
  shows "tame lookup i (run_step_catching nm (in_body (f sx)))"
  unfolding tame_def
proof
  fix w :: "'a world"
  obtain r w' where r: "f sx (w\<lparr>w_in_body := True\<rparr>) = (r, w')" by fastforce
  then have "frame (w\<lparr>w_in_body := True\<rparr>) w' \<and> lookup (w_store w') i = lookup (w_store w) i"
    using assms tame_simps [of lookup i "f sx" "w\<lparr>w_in_body := True\<rparr>"] by (simp add: tame_body_def)
  then show "frame w (snd (run_step_catching nm (in_body (f sx)) w))
      \<and> lookup (w_store (snd (run_step_catching nm (in_body (f sx)) w))) i = lookup (w_store w) i"
    using r by (cases r) (simp_all add: run_step_catching_def in_body_def frame_def)
qed

lemma body_error_token [simp]: "ex_token (snd (body_error e ex)) = ex_token ex"
  by (cases e) (simp_all add: body_error_def interrupt_def Let_def)

lemma frame_execution: "ex_token ex = ex_token (w_execution w') \<Longrightarrow> frame w (w'\<lparr>w_execution := ex\<rparr>) = frame w w'"
  by (simp add: frame_def)

lemma tame_retry_loop:
  assumes "tame_body lookup i f"
  shows "tame lookup i (retry_loop ctx q opts f left)"
proof -
  have "frame w (snd (retry_loop ctx q opts f left w))
      \<and> lookup (w_store (snd (retry_loop ctx q opts f left w))) i = lookup (w_store w) i" for w
  proof (induction left arbitrary: w)
    case (0 w)
    obtain r w1 where r: "run_step_catching (sp_name opts) (in_body (f \<lparr>sx_workflow_id = cx_workflow_id ctx, sx_step_id = q,
        sx_attempt = sp_max_retries opts - 0, sx_max_attempts = sp_max_retries opts + 1\<rparr>)) w = (r, w1)" by fastforce
    show ?case using tame_simps [OF tame_attempt [OF assms] r] r
      by (subst (1 2) retry_loop.simps) (auto simp: Let_def case_prod_unfold frame_execution
          split: run_outcome.split sum.split)
  next
    case (Suc left w)
    obtain r w1 where r: "run_step_catching (sp_name opts) (in_body (f \<lparr>sx_workflow_id = cx_workflow_id ctx, sx_step_id = q,
        sx_attempt = sp_max_retries opts - Suc left, sx_max_attempts = sp_max_retries opts + 1\<rparr>)) w = (r, w1)" by fastforce
    have again: "frame w (snd (retry_loop ctx q opts f left (w1\<lparr>w_step_retries := n, w_waits := ts\<rparr>)))
        \<and> lookup (w_store (snd (retry_loop ctx q opts f left (w1\<lparr>w_step_retries := n, w_waits := ts\<rparr>)))) i = lookup (w_store w) i" for n ts
      using Suc [of "w1\<lparr>w_step_retries := n, w_waits := ts\<rparr>"] tame_simps [OF tame_attempt [OF assms] r]
      by (auto intro: frame_trans [of w "w1\<lparr>w_step_retries := n, w_waits := ts\<rparr>"])
    show ?case using tame_simps [OF tame_attempt [OF assms] r] r again
      by (subst (1 2) retry_loop.simps) (auto simp: Let_def case_prod_unfold frame_execution
          split: run_outcome.split sum.split option.split)
  qed
  then show ?thesis by (simp add: tame_def)
qed

subsection \<open>The durable calls over a provider\<close>

text \<open>The value of an effect: nothing, unless its record is a failure.\<close>

definition effect_value :: "codec \<Rightarrow> step_outcome \<Rightarrow> unit result \<times> error option" where
  "effect_value C oc = map_value (\<lambda>_. Inr ()) (replay_value C json_serde oc)"

lemma effect_value_output [simp]: "effect_value C (Output v) = (Inr (), None)"
  by (simp add: effect_value_def map_value_def replay_value_def json_serde_def from_value_def)

lemma stored_cases:
  obtains (stored) a w' where "fst (f (w_clock w (w_reads w)) (w_clock w (Suc (w_reads w))) (\<lambda>i. w_fresh w (w_ids w + i)) (w_store w)) = Inr a"
      "stored n f w = (Returned (Inr a), w')"
      "w_store w' = snd (f (w_clock w (w_reads w)) (w_clock w (Suc (w_reads w))) (\<lambda>i. w_fresh w (w_ids w + i)) (w_store w))"
      "frame w w'" "latch w' = latch w"
    | (failed) e e' w' where "fst (f (w_clock w (w_reads w)) (w_clock w (Suc (w_reads w))) (\<lambda>i. w_fresh w (w_ids w + i)) (w_store w)) = Inl e"
      "stored n f w = (Returned (Inl e'), w')"
      "w_store w' = snd (f (w_clock w (w_reads w)) (w_clock w (Suc (w_reads w))) (\<lambda>i. w_fresh w (w_ids w + i)) (w_store w))"
      "frame w w'"
proof (cases "fst (f (w_clock w (w_reads w)) (w_clock w (Suc (w_reads w))) (\<lambda>i. w_fresh w (w_ids w + i)) (w_store w))")
  case (Inl e)
  let ?r = "fst (f (w_clock w (w_reads w)) (w_clock w (Suc (w_reads w))) (\<lambda>i. w_fresh w (w_ids w + i)) (w_store w))"
  obtain e' where "fst (storage ?r (w_execution w)) = Inl e'"
    using Inl by (cases "record_error e (w_execution w)") (auto simp: storage_def)
  with Inl show thesis using storage_token [of ?r "w_execution w"]
    by (intro failed [of e e' "snd (stored n f w)"])
      (auto simp: stored_def Let_def case_prod_unfold frame_execution prod_eq_iff)
next
  case (Inr a)
  then show thesis
    by (intro stored [of a "snd (stored n f w)"])
      (auto simp: stored_def Let_def case_prod_unfold frame_execution latch_def prod_eq_iff)
qed

locale durable_provider = checkpoint_store lookup "p_record_step_result P" outcome
  for P :: "'s state_provider" and lookup :: "'s \<Rightarrow> string \<Rightarrow> int \<Rightarrow> recorded_step option"
    and outcome :: "json \<Rightarrow> string option \<Rightarrow> step_outcome" +
  assumes outcome_output: "outcome val None = Output val"
    and get_result: "p_get_step_result P i q s = Inr (lookup s i q)"
    and get_status: "\<exists>r. p_get_workflow_status P i s = Inr r"
    and send_commits: "commits lookup i q nm (p_send_from_workflow P now now' fresh i q nm rows)"
    and stream_commits: "commits lookup i q nm (p_write_stream_from_workflow P now i q nm key v)"
    and event_keeps: "lookup (snd (p_upsert_event P i key val s)) = lookup s"
    and attributes_keep: "lookup (snd (p_set_workflow_attributes P now i a s)) = lookup s"
begin

lemma serve_recorded_empty:
  assumes "cx_provider ctx = P" "lookup (w_store w) (cx_workflow_id ctx) q = None" "w_verify w = None"
  shows "serve_recorded ctx T q nm w = (Returned (Inr None), w)"
  using assms by (simp add: serve_recorded_def and_then_def get_result refuse_live_work_def ret_def)

lemma serve_recorded_found:
  assumes "cx_provider ctx = P" "lookup (w_store w) (cx_workflow_id ctx) q = Some rec" "rs_name rec = nm" "latch w = None"
  shows "\<exists>w'. serve_recorded ctx T q nm w
      = (Returned (map_sum id Some (fst (replay_value (cx_codec ctx) T (rs_outcome rec)))), w')
    \<and> frame (booked (served_record q) w) w' \<and> w_store w' = w_store w
    \<and> latch w' = snd (replay_value (cx_codec ctx) T (rs_outcome rec))"
proof -
  have "latch (booked (served_record q) w) = None" using assms(4) by (simp add: booked_def latch_def)
  from recorded_value_eq [OF this, of ctx T "rs_outcome rec"] show ?thesis using assms
    by (auto simp: serve_recorded_def and_then_def get_result check_recorded_def ret_def frame_def booked_def latch_def
        split: sum.split)
qed

lemma replay_or_guard_empty:
  assumes "cx_provider ctx = P" "lookup (w_store w) (cx_workflow_id ctx) q = None" "w_verify w = None"
  shows "replay_or_guard ctx T q nm w \<in> {(Returned (Inr None), w), (Returned (Inl (Cancelled (cx_workflow_id ctx))), w)}"
proof -
  obtain r where "p_get_workflow_status P (cx_workflow_id ctx) (w_store w) = Inr r" using get_status by blast
  then show ?thesis using assms serve_recorded_empty [OF assms, of T nm]
    by (simp add: replay_or_guard_def and_then_def ret_def)
qed

lemma replay_or_guard_found:
  assumes "cx_provider ctx = P" "lookup (w_store w) (cx_workflow_id ctx) q = Some rec" "rs_name rec = nm" "latch w = None"
  shows "\<exists>w'. replay_or_guard ctx T q nm w
      = (Returned (map_sum id Some (fst (replay_value (cx_codec ctx) T (rs_outcome rec)))), w')
    \<and> frame (booked (served_record q) w) w' \<and> w_store w' = w_store w
    \<and> latch w' = snd (replay_value (cx_codec ctx) T (rs_outcome rec))"
  using serve_recorded_found [OF assms, of T]
  by (cases "fst (replay_value (cx_codec ctx) T (rs_outcome rec))") (auto simp: replay_or_guard_def and_then_def ret_def)

lemma record_outcome_empty:
  assumes "cx_provider ctx = P" "lookup (w_store w) (cx_workflow_id ctx) q = None"
  shows "\<exists>w'. record_outcome ctx q nm v err st w = (Returned (Inr (outcome v err)), w') \<and> frame w w' \<and> latch w' = latch w
    \<and> lookup (w_store w') (cx_workflow_id ctx) q = Some \<lparr>rs_name = nm, rs_outcome = outcome v err\<rparr>
    \<and> (\<forall>q'. q' \<noteq> q \<longrightarrow> lookup (w_store w') (cx_workflow_id ctx) q' = lookup (w_store w) (cx_workflow_id ctx) q')"
  using assms put_empty [OF assms(2)] put_lookup [OF assms(2)] put_frame [of "cx_workflow_id ctx" _ "cx_workflow_id ctx" q]
  by (simp add: record_outcome_def stored_def Let_def case_prod_unfold latch_def frame_execution)

lemma write_leaves:
  assumes "cx_provider ctx = P" "lookup (w_store w) (cx_workflow_id ctx) q = None" "latch w = None"
  shows "leaves lookup (cx_workflow_id ctx) nm (replay_value (cx_codec ctx) T) q w (write_step_outcome ctx T q nm v err st w)"
proof -
  obtain w' where w': "record_outcome ctx q nm v err st w = (Returned (Inr (outcome v err)), w')" "frame w w'" "latch w' = None"
    "lookup (w_store w') (cx_workflow_id ctx) q = Some \<lparr>rs_name = nm, rs_outcome = outcome v err\<rparr>"
    "\<forall>q'. q' \<noteq> q \<longrightarrow> lookup (w_store w') (cx_workflow_id ctx) q' = lookup (w_store w) (cx_workflow_id ctx) q'"
    using record_outcome_empty [OF assms(1,2)] assms(3) by metis
  then show ?thesis
    by (simp add: leaves_def write_step_outcome_def and_then_Returned recorded_value_eq frame_execution) (simp add: latch_def)
qed

lemma checked_leaves:
  assumes "lookup (w_store w) (cx_workflow_id ctx) q = None"
    and "latch w = None \<Longrightarrow> leaves lookup (cx_workflow_id ctx) nm val q w (k () w)"
  shows "leaves lookup (cx_workflow_id ctx) nm val q w (and_then (\<lambda>w. (Returned (check (w_execution w)), w)) k w)"
  using assms by (auto simp: and_then_def check_def latch_def leaves_nothing split: option.split)

lemma observed_leaves:
  assumes "lookup (w_store w) (cx_workflow_id ctx) q = None"
    and "\<And>a. f (w_store w) = Inr a \<Longrightarrow> leaves lookup (cx_workflow_id ctx) nm val q w (k a w)"
  shows "leaves lookup (cx_workflow_id ctx) nm val q w (and_then (observed f) k w)"
proof (cases "f (w_store w)")
  case (Inl e)
  obtain e' ex where e: "storage (f (w_store w)) (w_execution w) = (Inl e', ex)"
    using Inl by (cases "record_error e (w_execution w)") (auto simp: storage_def)
  then have "ex_token ex = ex_token (w_execution w)" using storage_token [of "f (w_store w)" "w_execution w"] by simp
  then show ?thesis using Inl e assms(1) leaves_nothing [of w "w\<lparr>w_execution := ex\<rparr>"]
    by (simp add: and_then_def observed_def frame_execution)
qed (use assms(2) in \<open>simp add: and_then_def\<close>)

lemma record_failure_leaves:
  assumes "cx_provider ctx = P" "lookup (w_store w) (cx_workflow_id ctx) q = None"
  shows "leaves lookup (cx_workflow_id ctx) nm (replay_value (cx_codec ctx) T) q w (record_failure ctx T q nm e st w)"
  unfolding record_failure_def using assms by (intro checked_leaves observed_leaves write_leaves)

lemma checkpoint_step_leaves:
  assumes "cx_provider ctx = P" "lookup (w_store w) (cx_workflow_id ctx) q = None"
  shows "leaves lookup (cx_workflow_id ctx) nm (replay_value (cx_codec ctx) T) q w (checkpoint_step ctx T q nm a st w)"
  unfolding checkpoint_step_def using assms
  by (intro checked_leaves) (auto split: sum.split intro: write_leaves record_failure_leaves)

lemma step_at_serves:
  assumes "cx_provider ctx = P"
  shows "serves lookup (cx_workflow_id ctx) nm (replay_value (cx_codec ctx) T) q (step_at ctx T nm run q)"
proof (unfold serves_def, intro allI impI, elim conjE)
  fix w and rec :: recorded_step
  let ?v = "replay_value (cx_codec ctx) T (rs_outcome rec)"
  assume "latch w = None" "lookup (w_store w) (cx_workflow_id ctx) q = Some rec" "rs_name rec = nm"
  from replay_or_guard_found [OF assms this(2,3,1), of T]
  show "\<exists>w'. step_at ctx T nm run q w = (Returned (fst ?v), w') \<and> frame (booked (served_record q) w) w'
      \<and> w_store w' = w_store w \<and> latch w' = snd ?v"
    by (cases "fst ?v") (auto simp: step_at_def and_then_def ret_def)
qed

lemma step_at_settles:
  assumes P: "cx_provider ctx = P" and run: "tame lookup (cx_workflow_id ctx) run"
  shows "settles lookup (cx_workflow_id ctx) nm (replay_value (cx_codec ctx) T) q (step_at ctx T nm run q)"
proof (unfold settles_def, intro allI impI, elim conjE)
  fix w
  assume w: "w_verify w = None" "latch w = None" "lookup (w_store w) (cx_workflow_id ctx) q = None"
  let ?w = "w\<lparr>w_reads := Suc (w_reads w)\<rparr>"
  obtain r w' where r: "run ?w = (r, w')" by fastforce
  have kept: "frame w w'" "lookup (w_store w') (cx_workflow_id ctx) = lookup (w_store w) (cx_workflow_id ctx)"
    using tame_simps [OF run r] by (auto simp: frame_def)
  then have empty: "lookup (w_store w') (cx_workflow_id ctx) q = None" using w(3) by simp
  have "leaves lookup (cx_workflow_id ctx) nm (replay_value (cx_codec ctx) T) q w (settle_step ctx T q nm t run ?w)" for t
    using r kept w(3) leaves_later [OF kept checkpoint_step_leaves [OF P empty]]
      leaves_later [OF kept record_failure_leaves [OF P empty]]
    by (auto simp: settle_step_def leaves_nothing split: run_outcome.split sum.split)
  then show "leaves lookup (cx_workflow_id ctx) nm (replay_value (cx_codec ctx) T) q w (step_at ctx T nm run q w)"
    using replay_or_guard_empty [OF P w(3,1), of T nm] w(3)
    by (auto simp: step_at_def and_then_def read_clock_def leaves_nothing)
qed

lemma durable_value_at_serves:
  assumes "cx_provider ctx = P"
  shows "serves lookup (cx_workflow_id ctx) nm (replay_value (cx_codec ctx) T) q (durable_value_at ctx T q nm produce)"
proof (unfold serves_def, intro allI impI, elim conjE)
  fix w and rec :: recorded_step
  let ?v = "replay_value (cx_codec ctx) T (rs_outcome rec)"
  assume "latch w = None" "lookup (w_store w) (cx_workflow_id ctx) q = Some rec" "rs_name rec = nm"
  from serve_recorded_found [OF assms this(2,3,1), of T]
  show "\<exists>w'. durable_value_at ctx T q nm produce w = (Returned (fst ?v), w') \<and> frame (booked (served_record q) w) w'
      \<and> w_store w' = w_store w \<and> latch w' = snd ?v"
    by (cases "fst ?v") (auto simp: durable_value_at_def and_then_def ret_def)
qed

lemma durable_value_at_settles:
  assumes P: "cx_provider ctx = P" and produce: "tame lookup (cx_workflow_id ctx) produce"
  shows "settles lookup (cx_workflow_id ctx) nm (replay_value (cx_codec ctx) T) q (durable_value_at ctx T q nm produce)"
proof (unfold settles_def, intro allI impI, elim conjE)
  fix w
  assume w: "w_verify w = None" "latch w = None" "lookup (w_store w) (cx_workflow_id ctx) q = None"
  obtain r w' where r: "produce w = (r, w')" by fastforce
  note kept = tame_simps [OF produce r, THEN conjunct1] tame_simps [OF produce r, THEN conjunct2]
  have empty: "lookup (w_store w') (cx_workflow_id ctx) q = None" using kept(2) w(3) by simp
  show "leaves lookup (cx_workflow_id ctx) nm (replay_value (cx_codec ctx) T) q w (durable_value_at ctx T q nm produce w)"
    using r kept w(3) leaves_later [OF kept checkpoint_step_leaves [OF P empty]] serve_recorded_empty [OF P w(3,1), of T nm]
    by (auto simp: durable_value_at_def and_then_def leaves_nothing split: run_outcome.split sum.split)
qed

lemma effect_at_serves:
  assumes "cx_provider ctx = P"
  shows "serves lookup (cx_workflow_id ctx) nm (effect_value (cx_codec ctx)) q (effect_at ctx nm effect q)"
proof (unfold serves_def, intro allI impI, elim conjE)
  fix w and rec :: recorded_step
  let ?v = "effect_value (cx_codec ctx) (rs_outcome rec)"
  assume "latch w = None" "lookup (w_store w) (cx_workflow_id ctx) q = Some rec" "rs_name rec = nm"
  from replay_or_guard_found [OF assms this(2,3,1), of json_serde]
  show "\<exists>w'. effect_at ctx nm effect q w = (Returned (fst ?v), w') \<and> frame (booked (served_record q) w) w'
      \<and> w_store w' = w_store w \<and> latch w' = snd ?v"
    by (cases "fst (replay_value (cx_codec ctx) json_serde (rs_outcome rec))")
      (auto simp: effect_at_def and_then_def ret_def effect_value_def map_value_def)
qed

lemma effect_at_settles:
  assumes P: "cx_provider ctx = P"
    and effect: "\<And>w. latch w = None \<Longrightarrow> lookup (w_store w) (cx_workflow_id ctx) q = None \<Longrightarrow>
      leaves lookup (cx_workflow_id ctx) nm (effect_value (cx_codec ctx)) q w (effect q w)"
  shows "settles lookup (cx_workflow_id ctx) nm (effect_value (cx_codec ctx)) q (effect_at ctx nm effect q)"
proof (unfold settles_def, intro allI impI, elim conjE)
  fix w
  assume w: "w_verify w = None" "latch w = None" "lookup (w_store w) (cx_workflow_id ctx) q = None"
  show "leaves lookup (cx_workflow_id ctx) nm (effect_value (cx_codec ctx)) q w (effect_at ctx nm effect q w)"
    using replay_or_guard_empty [OF P w(3,1), of json_serde nm] effect [OF w(2,3)] w(3)
    by (auto simp: effect_at_def and_then_def leaves_nothing)
qed

lemma stored_commits:
  assumes "\<And>now now' fresh. commits lookup i q nm (f now now' fresh)" "latch w = None" "lookup (w_store w) i q = None"
  shows "leaves lookup i nm (effect_value C) q w (stored n f w)"
proof -
  let ?f = "f (w_clock w (w_reads w)) (w_clock w (Suc (w_reads w))) (\<lambda>i. w_fresh w (w_ids w + i))"
  have "case ?f (w_store w) of
      (Inr _, s') \<Rightarrow> lookup s' i q = Some \<lparr>rs_name = nm, rs_outcome = Output JNull\<rparr> \<and> (\<forall>q'. q' \<noteq> q \<longrightarrow> lookup s' i q' = lookup (w_store w) i q')
    | (Inl e, s') \<Rightarrow> \<forall>q'. lookup s' i q' = lookup (w_store w) i q'"
    using assms(1) [unfolded commits_def, rule_format, OF assms(3)] .
  then show ?thesis using assms(2,3)
    by (cases rule: stored_cases [of f w n]) (auto simp: leaves_def split: prod.splits)
qed

lemma kept_then_recorded:
  assumes P: "cx_provider ctx = P" and keeps: "\<And>now now' fresh s. lookup (snd (f now now' fresh s)) (cx_workflow_id ctx) = lookup s (cx_workflow_id ctx)"
    and w: "latch w = None" "lookup (w_store w) (cx_workflow_id ctx) q = None"
  shows "leaves lookup (cx_workflow_id ctx) nm (effect_value (cx_codec ctx)) q w
    (and_then (stored n f) (\<lambda>_ :: 'b. and_then (record_outcome ctx q nm JNull None None) (\<lambda>_. ret (Inr ()))) w)"
proof (cases rule: stored_cases [of f w n])
  case (stored a w')
  then have kept: "lookup (w_store w') (cx_workflow_id ctx) = lookup (w_store w) (cx_workflow_id ctx)" using keeps by simp
  with w(2) have "lookup (w_store w') (cx_workflow_id ctx) q = None" by simp
  from record_outcome_empty [OF P this, of nm JNull None None] obtain w'' where
    "record_outcome ctx q nm JNull None None w' = (Returned (Inr (Output JNull)), w'')" "frame w' w''" "latch w'' = latch w'"
    "lookup (w_store w'') (cx_workflow_id ctx) q = Some \<lparr>rs_name = nm, rs_outcome = Output JNull\<rparr>"
    "\<forall>q'. q' \<noteq> q \<longrightarrow> lookup (w_store w'') (cx_workflow_id ctx) q' = lookup (w_store w') (cx_workflow_id ctx) q'"
    by (auto simp: outcome_output)
  then show ?thesis using stored w kept by (auto simp: leaves_def and_then_def ret_def intro: frame_trans)
next
  case (failed e e' w')
  then show ?thesis using w keeps by (simp add: and_then_def leaves_nothing)
qed

end

section \<open>Calls\<close>

text \<open>A call by its parts: why it may be refused before it claims a position, the name and the value of
  its record, and what it does at its position.\<close>

fun call_refusal :: "'s call \<Rightarrow> error option" where
  "call_refusal (Call_send_bulk ms) = (case prepare_bulk json_serde ms of Inl e \<Rightarrow> Some e | Inr _ \<Rightarrow> None)"
| "call_refusal c = None"

fun call_operation :: "'s call \<Rightarrow> string" where
  "call_operation (Call_step nm f) = ''step''"
| "call_operation (Call_step_with opts f) = ''step''"
| "call_operation Call_now = ''DBOS.now''"
| "call_operation Call_uuid = ''DBOS.uuid''"
| "call_operation (Call_sleep dur) = ''sleep''"
| "call_operation (Call_send d m t) = ''send''"
| "call_operation (Call_send_bulk ms) = ''send_bulk''"
| "call_operation (Call_set_event k v) = ''set_event''"
| "call_operation (Call_write_stream k v) = ''write_stream''"
| "call_operation (Call_close_stream k) = ''close_stream''"
| "call_operation (Call_set_attributes i a) = ''set_workflow_attributes''"

fun call_name :: "'s call \<Rightarrow> string" where
  "call_name (Call_step nm f) = nm"
| "call_name (Call_step_with opts f) = sp_name opts"
| "call_name Call_now = ''DBOS.now''"
| "call_name Call_uuid = ''DBOS.uuid''"
| "call_name (Call_sleep dur) = ''DBOS.sleep''"
| "call_name (Call_send d m t) = ''DBOS.send''"
| "call_name (Call_send_bulk ms) = ''DBOS.send_bulk''"
| "call_name (Call_set_event k v) = ''DBOS.setEvent''"
| "call_name (Call_write_stream k v) = ''DBOS.writeStream''"
| "call_name (Call_close_stream k) = ''DBOS.closeStream''"
| "call_name (Call_set_attributes i a) = ''DBOS.updateWorkflowAttributes''"

fun call_value :: "'s durable_context \<Rightarrow> 's call \<Rightarrow> step_outcome \<Rightarrow> json result \<times> error option" where
  "call_value ctx (Call_step nm f) = replay_value (cx_codec ctx) json_serde"
| "call_value ctx (Call_step_with opts f) = replay_value (cx_codec ctx) json_serde"
| "call_value ctx Call_now = map_value (to_value (cx_instants ctx)) \<circ> replay_value (cx_codec ctx) (cx_instants ctx)"
| "call_value ctx Call_uuid = map_value (to_value (cx_strings ctx)) \<circ> replay_value (cx_codec ctx) (cx_strings ctx)"
| "call_value ctx (Call_sleep dur) = map_value (\<lambda>_. Inr JNull) \<circ> replay_value (cx_codec ctx) (cx_instants ctx)"
| "call_value ctx c = map_value (\<lambda>_. Inr JNull) \<circ> effect_value (cx_codec ctx)"

fun call_at :: "'s durable_context \<Rightarrow> 's call \<Rightarrow> int \<Rightarrow> ('s, json) act" where
  "call_at ctx (Call_step nm f) q = step_at ctx json_serde nm (run_step_catching nm (in_body (f
     \<lparr>sx_workflow_id = cx_workflow_id ctx, sx_step_id = q, sx_attempt = 0, sx_max_attempts = 1\<rparr>))) q"
| "call_at ctx (Call_step_with opts f) q = step_at ctx json_serde (sp_name opts) (run_with_retries ctx q opts f) q"
| "call_at ctx Call_now q = and_then (durable_value_at ctx (cx_instants ctx) q ''DBOS.now'' read_clock)
     (\<lambda>t. ret (to_value (cx_instants ctx) t))"
| "call_at ctx Call_uuid q = and_then (durable_value_at ctx (cx_strings ctx) q ''DBOS.uuid''
     (\<lambda>w. (Returned (Inr (w_fresh w (w_ids w))), w\<lparr>w_ids := Suc (w_ids w)\<rparr>))) (\<lambda>t. ret (to_value (cx_strings ctx) t))"
| "call_at ctx (Call_sleep dur) q = and_then (durable_value_at ctx (cx_instants ctx) q ''DBOS.sleep'' (wake_instant ctx dur)) (\<lambda>wake_at.
     and_then read_clock (\<lambda>now. and_then (\<lambda>w. (Returned (Inr ()),
       if wake_at > now \<and> \<not> verifying w then w\<lparr>w_waits := w_waits w @ [wake_at - now]\<rparr> else w)) (\<lambda>_. ret (Inr JNull))))"
| "call_at ctx (Call_send d m t) q = and_then (effect_at ctx ''DBOS.send'' (\<lambda>q.
     stored 1 (\<lambda>now now' fresh. p_send_from_workflow (cx_provider ctx) now now' fresh (cx_workflow_id ctx) q ''DBOS.send''
       [\<lparr>nx_destination_id = d, nx_topic = t, nx_message = m, nx_idempotency_key = None\<rparr>])) q) (\<lambda>_. ret (Inr JNull))"
| "call_at ctx (Call_send_bulk ms) q = and_then (effect_at ctx ''DBOS.send_bulk'' (\<lambda>q.
     case prepare_bulk json_serde ms of Inl e \<Rightarrow> ret (Inl e) | Inr rows \<Rightarrow>
       stored (length rows) (\<lambda>now now' fresh. p_send_from_workflow (cx_provider ctx) now now' fresh (cx_workflow_id ctx) q
         ''DBOS.send_bulk'' rows)) q) (\<lambda>_. ret (Inr JNull))"
| "call_at ctx (Call_set_event k v) q = and_then (effect_at ctx ''DBOS.setEvent'' (\<lambda>q.
     and_then (stored 0 (\<lambda>now now' fresh. p_upsert_event (cx_provider ctx) (cx_workflow_id ctx) k v)) (\<lambda>_.
     and_then (record_outcome ctx q ''DBOS.setEvent'' JNull None None) (\<lambda>_. ret (Inr ())))) q) (\<lambda>_. ret (Inr JNull))"
| "call_at ctx (Call_write_stream k v) q = and_then (effect_at ctx ''DBOS.writeStream'' (\<lambda>q.
     stored 0 (\<lambda>now now' fresh. p_write_stream_from_workflow (cx_provider ctx) now (cx_workflow_id ctx) q
       ''DBOS.writeStream'' k (Some v))) q) (\<lambda>_. ret (Inr JNull))"
| "call_at ctx (Call_close_stream k) q = and_then (effect_at ctx ''DBOS.closeStream'' (\<lambda>q.
     stored 0 (\<lambda>now now' fresh. p_write_stream_from_workflow (cx_provider ctx) now (cx_workflow_id ctx) q
       ''DBOS.closeStream'' k None)) q) (\<lambda>_. ret (Inr JNull))"
| "call_at ctx (Call_set_attributes i a) q = and_then (effect_at ctx ''DBOS.updateWorkflowAttributes'' (\<lambda>q.
     and_then (stored 0 (\<lambda>now now' fresh. p_set_workflow_attributes (cx_provider ctx) now i a)) (\<lambda>_.
     and_then (record_outcome ctx q ''DBOS.updateWorkflowAttributes'' JNull None None) (\<lambda>_. ret (Inr ())))) q)
     (\<lambda>_. ret (Inr JNull))"

fun tame_call :: "('s \<Rightarrow> string \<Rightarrow> int \<Rightarrow> recorded_step option) \<Rightarrow> string \<Rightarrow> 's call \<Rightarrow> bool" where
  "tame_call lookup i (Call_step nm f) = tame_body lookup i f"
| "tame_call lookup i (Call_step_with opts f) = tame_body lookup i f"
| "tame_call lookup i c = True"

lemma quiet_wait: "quiet (\<lambda>_. Inr JNull) (\<lambda>wake_at. and_then read_clock (\<lambda>now. and_then (\<lambda>w. (Returned (Inr ()),
       if wake_at > now \<and> \<not> verifying w then w\<lparr>w_waits := w_waits w @ [wake_at - now]\<rparr> else w)) (\<lambda>_. ret (Inr JNull))))"
  by (simp add: quiet_def and_then_def read_clock_def ret_def)

lemma pending_step_then:
  "and_then (pending_step ctx operation k) h = pending_step ctx operation (\<lambda>q. and_then (k q) h)"
  by (auto simp: pending_step_def and_then_assoc poll_in_execution_def and_then_def fun_eq_iff
      split: prod.split run_outcome.split sum.split)

lemma pending_step_cong: "(\<And>q. k q = k' q) \<Longrightarrow> pending_step ctx operation k = pending_step ctx operation k'"
  by presburger

lemma to_value_json [simp]: "to_value json_serde v = Inr v"
  by (simp add: to_value_def json_serde_def)

lemma run_call_at:
  "run_call ctx c = (case call_refusal c of Some e \<Rightarrow> ret (Inl e) | None \<Rightarrow> pending_step ctx (call_operation c) (call_at ctx c))"
  by (cases c) (auto simp: step_def step_with_def now_value_def uuid_value_def durable_value_def sleep_def send_def send_bulk_def
      set_event_def ctx_write_stream_def close_stream_def ctx_set_workflow_attributes_def pending_step_then and_then_assoc
      intro!: pending_step_cong split: sum.split)

lemma pending_step_placed:
  assumes "placed w" "latch w = None"
  shows "pending_step ctx operation k w = k (w_seq w) (w\<lparr>w_seq := wrap_i32 (w_seq w + 1)\<rparr>)"
  using assms by (simp add: pending_step_def claim_position_def refuse_inside_body_def check_call_def check_placement_def
      check_def placed_def latch_def next_seq_def and_then_def poll_in_execution_def check_call_poll_def)

lemma pending_step_latched:
  assumes "placed w" "latch w = Some f"
  shows "pending_step ctx operation k w = (Returned (Inl (RecoveryRequired f)), w)"
  using assms by (simp add: pending_step_def claim_position_def refuse_inside_body_def check_call_def check_placement_def
      check_def placed_def latch_def and_then_def)

lemma bodiless_parts [simp]:
  "call_refusal (bodiless c) = call_refusal c" "call_name (bodiless c) = call_name c"
  "call_value ctx (bodiless c) = call_value ctx c"
  by (cases c; simp)+

context durable_provider
begin

lemma call_serves:
  assumes "cx_provider ctx = P"
  shows "serves lookup (cx_workflow_id ctx) (call_name c) (call_value ctx c) q (call_at ctx c q)"
proof (cases c)
  case (Call_sleep dur)
  then show ?thesis using assms by (simp add: serves_post [OF durable_value_at_serves quiet_wait])
qed (use assms in \<open>simp_all add: step_at_serves serves_post [OF durable_value_at_serves] serves_post [OF effect_at_serves]\<close>)

lemma call_settles:
  assumes P: "cx_provider ctx = P" and "tame_call lookup (cx_workflow_id ctx) c" "call_refusal c = None"
  shows "settles lookup (cx_workflow_id ctx) (call_name c) (call_value ctx c) q (call_at ctx c q)"
proof (cases c)
  case (Call_sleep dur)
  then show ?thesis using P by (simp add: settles_post [OF durable_value_at_settles quiet_wait] tame_wake_instant)
next
  case Call_uuid
  have "tame lookup (cx_workflow_id ctx) (\<lambda>w. (Returned (Inr (w_fresh w (w_ids w))), w\<lparr>w_ids := Suc (w_ids w)\<rparr>))"
    by (simp add: tame_def)
  with Call_uuid show ?thesis using P by (simp add: settles_post [OF durable_value_at_settles])
qed (use assms(2,3) in \<open>auto simp: step_at_settles [OF P] tame_attempt tame_retry_loop run_with_retries_def tame_read_clock
      settles_post [OF durable_value_at_settles [OF P]] stored_commits send_commits [folded P] stream_commits [folded P]
      kept_then_recorded [OF P] event_keeps [folded P] attributes_keep [folded P]
      intro!: settles_post [OF effect_at_settles [OF P]] split: sum.splits\<close>)

end

section \<open>Programs\<close>

primrec tame_program :: "('s \<Rightarrow> string \<Rightarrow> int \<Rightarrow> recorded_step option) \<Rightarrow> string \<Rightarrow> 's program \<Rightarrow> bool" where
  "tame_program lookup i (Finish r) = True"
| "tame_program lookup i (Perform c k) = (tame_call lookup i c \<and> (\<forall>r. tame_program lookup i (k r)))"

text \<open>A live execution: not a verification, and nothing is recorded at the positions ahead.\<close>

definition live :: "('s \<Rightarrow> string \<Rightarrow> int \<Rightarrow> recorded_step option) \<Rightarrow> string \<Rightarrow> 's world \<Rightarrow> bool" where
  "live lookup i w \<longleftrightarrow> placed w \<and> w_verify w = None \<and> 0 \<le> w_seq w
     \<and> (latch w = None \<longrightarrow> (\<forall>q \<ge> w_seq w. lookup (w_store w) i q = None))"

definition refused :: "'s call \<Rightarrow> 's world \<Rightarrow> bool" where
  "refused c w \<longleftrightarrow> call_refusal c \<noteq> None \<or> latch w \<noteq> None"

definition refusal :: "'s call \<Rightarrow> error option \<Rightarrow> json run_outcome" where
  "refusal c l = Returned (Inl (case call_refusal c of Some e \<Rightarrow> e | None \<Rightarrow> RecoveryRequired (the l)))"

lemma refused_call:
  assumes "placed w" "refused c w"
  shows "run_call ctx c w = (refusal c (latch w), w)"
  using assms by (auto simp: run_call_at refused_def refusal_def ret_def pending_step_latched split: option.split)

lemma upto_append: "i \<le> j \<Longrightarrow> j \<le> k \<Longrightarrow> [i..j - 1] @ [j..k - 1] = [i..k - 1]" for i j k :: int
  by (cases "j = k") (simp_all add: upto_split1)

lemma wrap_next: "0 \<le> q \<Longrightarrow> q < 2 ^ 31 - 1 \<Longrightarrow> wrap_i32 (q + 1) = q + 1"
  by (simp add: wrap_i32_def)

lemma claimed_call:
  assumes "placed w" "\<not> refused c w" "0 \<le> w_seq w" "w_seq w < 2 ^ 31 - 1"
  shows "run_call ctx c w = call_at ctx c (w_seq w) (w\<lparr>w_seq := w_seq w + 1\<rparr>)"
  using assms pending_step_placed [OF assms(1)] wrap_next by (auto simp: run_call_at refused_def)

context durable_provider
begin

lemma live_call:
  assumes P: "cx_provider ctx = P" and w: "live lookup (cx_workflow_id ctx) w" "w_seq w < 2 ^ 31 - 1"
    and c: "tame_call lookup (cx_workflow_id ctx) c" "\<not> refused c w" and run: "run_call ctx c w = (r, w')"
  shows "live lookup (cx_workflow_id ctx) w'" "w_seq w' = w_seq w + 1"
    "q \<noteq> w_seq w \<Longrightarrow> lookup (w_store w') (cx_workflow_id ctx) q = lookup (w_store w) (cx_workflow_id ctx) q"
    "lookup (w_store w') (cx_workflow_id ctx) (w_seq w) = Some rec \<Longrightarrow>
      rs_name rec = call_name c \<and> r = Returned (fst (call_value ctx c (rs_outcome rec))) \<and> latch w' = snd (call_value ctx c (rs_outcome rec))"
proof -
  let ?w = "w\<lparr>w_seq := w_seq w + 1\<rparr>"
  have l: "latch w = None" "call_refusal c = None" "placed w" using c w by (auto simp: refused_def live_def)
  have "leaves lookup (cx_workflow_id ctx) (call_name c) (call_value ctx c) (w_seq w) ?w (call_at ctx c (w_seq w) ?w)"
    using call_settles [OF P c(1) l(2), of "w_seq w"] w l unfolding settles_def by (simp add: live_def latch_def)
  then have lv: "leaves lookup (cx_workflow_id ctx) (call_name c) (call_value ctx c) (w_seq w) ?w (r, w')"
    using run claimed_call [of w c ctx] l w c by (simp add: live_def)
  then show seq: "w_seq w' = w_seq w + 1" by (simp add: leaves_def frame_def)
  from lv show kept: "lookup (w_store w') (cx_workflow_id ctx) q = lookup (w_store w) (cx_workflow_id ctx) q" if "q \<noteq> w_seq w" for q
    using that by (simp add: leaves_def)
  have "w_verify w' = None" "placed w'" using lv w by (auto simp: leaves_def frame_def live_def placed_def)
  with seq kept w l show "live lookup (cx_workflow_id ctx) w'" by (simp add: live_def)
  from lv show "lookup (w_store w') (cx_workflow_id ctx) (w_seq w) = Some rec \<Longrightarrow>
      rs_name rec = call_name c \<and> r = Returned (fst (call_value ctx c (rs_outcome rec))) \<and> latch w' = snd (call_value ctx c (rs_outcome rec))"
    by (simp add: leaves_def)
qed

lemma served_call:
  assumes P: "cx_provider ctx = P" and w: "placed w" "0 \<le> w_seq w" "w_seq w < 2 ^ 31 - 1" and c: "\<not> refused c w"
    and rec: "lookup (w_store w) (cx_workflow_id ctx) (w_seq w) = Some rec" "rs_name rec = call_name c"
  shows "\<exists>w'. run_call ctx c w = (Returned (fst (call_value ctx c (rs_outcome rec))), w') \<and> placed w' \<and> w_seq w' = w_seq w + 1
    \<and> w_store w' = w_store w \<and> latch w' = snd (call_value ctx c (rs_outcome rec))
    \<and> w_verify w' = map_option (served_record (w_seq w)) (w_verify w)"
proof -
  let ?w = "w\<lparr>w_seq := w_seq w + 1\<rparr>"
  have "latch ?w = None" "lookup (w_store ?w) (cx_workflow_id ctx) (w_seq w) = Some rec"
    using c rec by (auto simp: refused_def latch_def)
  then obtain w' where "call_at ctx c (w_seq w) ?w = (Returned (fst (call_value ctx c (rs_outcome rec))), w')"
    "frame (booked (served_record (w_seq w)) ?w) w'" "w_store w' = w_store w" "latch w' = snd (call_value ctx c (rs_outcome rec))"
    using call_serves [OF P, of c "w_seq w"] rec(2) unfolding serves_def by fastforce
  then show ?thesis using claimed_call [OF w(1) c w(2,3)] w(1) by (auto simp: frame_def booked_def placed_def)
qed

lemma live_step:
  assumes P: "cx_provider ctx = P" and w: "live lookup (cx_workflow_id ctx) w" "w_seq w < 2 ^ 31 - 1"
    and c: "tame_call lookup (cx_workflow_id ctx) c" and run: "run_call ctx c w = (r, w1)"
  shows "live lookup (cx_workflow_id ctx) w1 \<and> w_seq w \<le> w_seq w1 \<and> w_seq w1 \<le> w_seq w + 1
    \<and> (\<forall>q < w_seq w. lookup (w_store w1) (cx_workflow_id ctx) q = lookup (w_store w) (cx_workflow_id ctx) q)
    \<and> (refused c w \<or> w_seq w < w_seq w1)"
proof (cases "refused c w")
  case True
  then show ?thesis using refused_call [of w c ctx] run w(1) by (simp add: live_def)
next
  case False
  from live_call [OF P w c False run] show ?thesis by simp
qed

lemma live_program:
  assumes P: "cx_provider ctx = P"
  shows "live lookup (cx_workflow_id ctx) w \<Longrightarrow> tame_program lookup (cx_workflow_id ctx) p
    \<Longrightarrow> run_program ctx p w = (rs, out, w') \<Longrightarrow> w_seq w + int (length rs) < 2 ^ 31 - 1
    \<Longrightarrow> w_seq w \<le> w_seq w' \<and> w_seq w' \<le> w_seq w + int (length rs) + 1
      \<and> (\<forall>q < w_seq w. lookup (w_store w') (cx_workflow_id ctx) q = lookup (w_store w) (cx_workflow_id ctx) q)"
proof (induction p arbitrary: w rs)
  case (Perform c k)
  obtain r w1 where r: "run_call ctx c w = (r, w1)" by fastforce
  have "w_seq w < 2 ^ 31 - 1" "tame_call lookup (cx_workflow_id ctx) c" using Perform.prems by auto
  note step = live_step [OF P Perform.prems(1) this r]
  show ?case
  proof (cases r)
    case (Returned x)
    then obtain rs1 where rs1: "run_program ctx (k x) w1 = (rs1, out, w')" "rs = x # rs1"
      using Perform.prems(3) r by (auto split: prod.splits)
    then show ?thesis using Perform.IH [OF rangeI [of k x], of w1 rs1] step Perform.prems by force
  qed (use step r Perform.prems in auto)
qed simp

text \<open>The world in which a program is run again: the records of \<open>w'\<close> at the positions up to \<open>h\<close>, and nothing said of the rest.\<close>

definition again :: "string \<Rightarrow> 's world \<Rightarrow> 's world \<Rightarrow> int \<Rightarrow> 's world \<Rightarrow> bool" where
  "again i w w' h w2 \<longleftrightarrow> placed w2 \<and> w_seq w2 = w_seq w \<and> latch w2 = latch w \<and> (\<forall>q. w_seq w \<le> q \<and> q < h \<longrightarrow>
     lookup (w_store w') i q \<noteq> None \<and> lookup (w_store w2) i q = lookup (w_store w') i q)"

lemma again_call:
  assumes P: "cx_provider ctx = P" and w: "live lookup (cx_workflow_id ctx) w" "w_seq w < 2 ^ 31 - 1"
    and c: "tame_call lookup (cx_workflow_id ctx) c" "bodiless c2 = bodiless c" and run: "run_call ctx c w = (r, w1)"
    and later: "lookup (w_store w') (cx_workflow_id ctx) (w_seq w) = lookup (w_store w1) (cx_workflow_id ctx) (w_seq w)
      \<or> refused c w"
    and again: "again (cx_workflow_id ctx) w w' h w2" "refused c w \<or> w_seq w < h"
  shows "\<exists>w3. run_call ctx c2 w2 = (r, w3) \<and> again (cx_workflow_id ctx) w1 w' h w3 \<and> w_store w3 = w_store w2
    \<and> w_verify w3 = map_option (\<lambda>v. fold served_record [w_seq w..w_seq w1 - 1] v) (w_verify w2)"
proof (cases "refused c w")
  case True
  have "call_refusal c2 = call_refusal c" using c(2) by (metis bodiless_parts(1))
  then have "run_call ctx c2 w2 = (refusal c (latch w), w2)"
    using True again(1) refused_call [of w2 c2 ctx] by (simp add: again_def refused_def refusal_def)
  moreover have "r = refusal c (latch w)" "w1 = w" using refused_call [of w c ctx] True w(1) run by (auto simp: live_def)
  ultimately show ?thesis using again(1) by (simp add: option.map_ident)
next
  case False
  note call = live_call [OF P w c(1) False run]
  obtain rec where rec: "lookup (w_store w1) (cx_workflow_id ctx) (w_seq w) = Some rec"
    "lookup (w_store w2) (cx_workflow_id ctx) (w_seq w2) = Some rec"
    using again later False by (fastforce simp: again_def)
  have parts: "call_refusal c2 = call_refusal c" "call_name c2 = call_name c" "call_value ctx c2 = call_value ctx c"
    using c(2) by (metis bodiless_parts)+
  have "\<not> refused c2 w2" "placed w2" "0 \<le> w_seq w2" "w_seq w2 < 2 ^ 31 - 1"
    using False parts(1) again(1) w by (auto simp: refused_def again_def live_def)
  from served_call [OF P this(2-4,1) rec(2)] call(4) [OF rec(1)] parts obtain w3 where
    "run_call ctx c2 w2 = (r, w3)" "placed w3" "w_seq w3 = w_seq w2 + 1" "w_store w3 = w_store w2"
    "latch w3 = latch w1" "w_verify w3 = map_option (served_record (w_seq w2)) (w_verify w2)" by auto
  then show ?thesis using again(1) call(2) by (simp add: again_def)
qed

lemma again_program:
  assumes P: "cx_provider ctx = P"
  shows "live lookup (cx_workflow_id ctx) w \<Longrightarrow> tame_program lookup (cx_workflow_id ctx) p
    \<Longrightarrow> run_program ctx p w = (rs, out, w') \<Longrightarrow> w_seq w + int (length rs) < 2 ^ 31 - 1
    \<Longrightarrow> without_bodies p2 = without_bodies p \<Longrightarrow> again (cx_workflow_id ctx) w w' (w_seq w') w2
    \<Longrightarrow> \<exists>w3. run_program ctx p2 w2 = (rs, out, w3) \<and> w_store w3 = w_store w2 \<and> w_seq w3 = w_seq w' \<and> latch w3 = latch w'
      \<and> w_verify w3 = map_option (\<lambda>v. fold served_record [w_seq w..w_seq w' - 1] v) (w_verify w2)"
proof (induction p arbitrary: w rs p2 w2)
  case (Finish r)
  then show ?case by (cases p2) (auto simp: again_def option.map_ident)
next
  case (Perform c k)
  obtain c2 k2 where p2: "p2 = Perform c2 k2" "bodiless c2 = bodiless c" "\<And>r. without_bodies (k2 r) = without_bodies (k r)"
    using Perform.prems(5) by (cases p2) (auto simp: fun_eq_iff)
  obtain r w1 where r: "run_call ctx c w = (r, w1)" by fastforce
  have bound: "w_seq w < 2 ^ 31 - 1" and tame: "tame_call lookup (cx_workflow_id ctx) c" using Perform.prems by auto
  show ?case
  proof (cases r)
    case (Returned x)
    then obtain rs1 where rs1: "run_program ctx (k x) w1 = (rs1, out, w')" "rs = x # rs1"
      using Perform.prems(3) r by (auto split: prod.splits)
    note live = live_step [OF P Perform.prems(1) bound tame r]
    have rest: "w_seq w1 \<le> w_seq w'" "\<forall>q < w_seq w1. lookup (w_store w') (cx_workflow_id ctx) q = lookup (w_store w1) (cx_workflow_id ctx) q"
      using live_program [OF P _ _ rs1(1)] Perform.prems(2,4) live rs1(2) by auto
    then have "lookup (w_store w') (cx_workflow_id ctx) (w_seq w) = lookup (w_store w1) (cx_workflow_id ctx) (w_seq w) \<or> refused c w"
      "refused c w \<or> w_seq w < w_seq w'" using live by auto
    from again_call [OF P Perform.prems(1) bound tame p2(2) r this(1) Perform.prems(6) this(2)] obtain w3 where
      w3: "run_call ctx c2 w2 = (r, w3)" "again (cx_workflow_id ctx) w1 w' (w_seq w') w3" "w_store w3 = w_store w2"
      "w_verify w3 = map_option (\<lambda>v. fold served_record [w_seq w..w_seq w1 - 1] v) (w_verify w2)" by blast
    have "tame_program lookup (cx_workflow_id ctx) (k x)" "w_seq w1 + int (length rs1) < 2 ^ 31 - 1"
      using Perform.prems(2,4) rs1(2) live by auto
    from Perform.IH [OF rangeI live [THEN conjunct1] this(1) rs1(1) this(2) p2(3) w3(2)] obtain w4 where
      "run_program ctx (k2 x) w3 = (rs1, out, w4)" "w_store w4 = w_store w3" "w_seq w4 = w_seq w'" "latch w4 = latch w'"
      "w_verify w4 = map_option (\<lambda>v. fold served_record [w_seq w1..w_seq w' - 1] v) (w_verify w3)" by blast
    moreover have "[w_seq w..w_seq w' - 1] = [w_seq w..w_seq w1 - 1] @ [w_seq w1..w_seq w' - 1]"
      using live rest(1) by (simp add: upto_append)
    ultimately show ?thesis using w3 Returned p2(1) rs1(2) by (simp add: option.map_comp comp_def)
  next
    case (Panicked m)
    then have w1: "w1 = w'" using Perform.prems(3) r by simp
    have "\<not> refused c w" using Panicked r refused_call [of w c ctx] Perform.prems(1) by (auto simp: live_def refusal_def)
    note call = live_call [OF P Perform.prems(1) bound tame this r]
    then obtain rec where "lookup (w_store w1) (cx_workflow_id ctx) (w_seq w) = Some rec"
      using Perform.prems(6) w1 by (fastforce simp: again_def)
    then show ?thesis using call(4) Panicked by blast
  qed
qed

lemma again_prefix:
  assumes P: "cx_provider ctx = P"
  shows "live lookup (cx_workflow_id ctx) w \<Longrightarrow> tame_program lookup (cx_workflow_id ctx) p
    \<Longrightarrow> run_program ctx p w = (rs, out, w') \<Longrightarrow> w_seq w + int (length rs) < 2 ^ 31 - 1
    \<Longrightarrow> without_bodies p2 = without_bodies p \<Longrightarrow> again (cx_workflow_id ctx) w w' h w2 \<Longrightarrow> h \<le> w_seq w'
    \<Longrightarrow> take (nat (h - w_seq w)) (fst (run_program ctx p2 w2)) = take (nat (h - w_seq w)) rs"
proof (induction p arbitrary: w rs p2 w2)
  case (Finish r)
  then show ?case by (cases p2) auto
next
  case (Perform c k)
  obtain c2 k2 where p2: "p2 = Perform c2 k2" "bodiless c2 = bodiless c" "\<And>r. without_bodies (k2 r) = without_bodies (k r)"
    using Perform.prems(5) by (cases p2) (auto simp: fun_eq_iff)
  obtain r w1 where r: "run_call ctx c w = (r, w1)" by fastforce
  have bound: "w_seq w < 2 ^ 31 - 1" and tame: "tame_call lookup (cx_workflow_id ctx) c" using Perform.prems by auto
  note live = live_step [OF P Perform.prems(1) bound tame r]
  show ?case
  proof (cases "w_seq w < h")
    case True
    show ?thesis
    proof (cases r)
      case (Returned x)
      then obtain rs1 where rs1: "run_program ctx (k x) w1 = (rs1, out, w')" "rs = x # rs1"
        using Perform.prems(3) r by (auto split: prod.splits)
      have "lookup (w_store w') (cx_workflow_id ctx) (w_seq w) = lookup (w_store w1) (cx_workflow_id ctx) (w_seq w) \<or> refused c w"
        using live_program [OF P _ _ rs1(1)] Perform.prems(2,4) live rs1(2) by auto
      from again_call [OF P Perform.prems(1) bound tame p2(2) r this Perform.prems(6)] True obtain w3 where
        w3: "run_call ctx c2 w2 = (r, w3)" "again (cx_workflow_id ctx) w1 w' h w3" by blast
      have "tame_program lookup (cx_workflow_id ctx) (k x)" "w_seq w1 + int (length rs1) < 2 ^ 31 - 1"
        using Perform.prems(2,4) rs1(2) live by auto
      note IH = Perform.IH [OF rangeI live [THEN conjunct1] this(1) rs1(1) this(2) p2(3) w3(2) Perform.prems(7)]
      obtain n where n: "nat (h - w_seq w) = Suc n" using True by (cases "nat (h - w_seq w)") auto
      then have "n \<le> nat (h - w_seq w1)" using live by linarith
      then have "take n (fst (run_program ctx (k2 x) w3)) = take n rs1" using IH by (metis min.absorb1 take_take)
      then show ?thesis using n w3(1) Returned p2(1) rs1(2) by (simp add: case_prod_unfold Let_def)
    next
      case (Panicked m)
      then have w1: "w1 = w'" using Perform.prems(3) r by simp
      have "\<not> refused c w" using Panicked r refused_call [of w c ctx] Perform.prems(1) by (auto simp: live_def refusal_def)
      note call = live_call [OF P Perform.prems(1) bound tame this r]
      then obtain rec where "lookup (w_store w1) (cx_workflow_id ctx) (w_seq w) = Some rec"
        using Perform.prems(6) w1 True by (fastforce simp: again_def)
      then show ?thesis using call(4) Panicked by blast
    qed
  qed simp
qed

end

section \<open>The in-memory provider\<close>

lemma mem_send_commits: "commits (lookup_step C) i q nm (send_from_workflow now now' fresh i q nm rows)"
  by (auto simp: commits_def send_from_workflow_def push_notifications_def recorded_at_def checkpoint_simps lookup_step_def
      step_row_default_def split: prod.splits sum.splits option.splits if_splits)

lemma mem_stream_commits: "commits (lookup_step C) i q nm (write_stream_from_workflow now i q nm key v)"
  by (auto simp: commits_def write_stream_from_workflow_def append_stream_def recorded_at_def checkpoint_simps lookup_step_def
      step_row_default_def Let_def split: prod.splits sum.splits option.splits if_splits)

interpretation mem_durable: durable_provider "memory_provider C f" "lookup_step C" "written_outcome C" for C f
proof (intro durable_provider.intro)
  show "checkpoint_store (lookup_step C) (p_record_step_result (memory_provider C f)) (written_outcome C)"
    using mem_steps.checkpoint_store_axioms by simp
  show "durable_provider_axioms (memory_provider C f) (lookup_step C) (written_outcome C)"
    by unfold_locales (auto simp: written_outcome_def get_step_result_eq get_workflow_status_def mem_send_commits
        mem_stream_commits upsert_event_def set_workflow_attributes_def lookup_step_def fun_eq_iff split: option.split)
qed

end
