(* ===== verification/Durable_Replay.thy ===== *)
theory Durable_Replay
  imports Durable
begin

text \<open>
  What the durable context promises of a workflow function: that a run can be
  repeated from its records alone, that a recovered run agrees with the run it
  recovers, that a verification run changes nothing, and that a call made inside
  a body is refused.  The properties are over the in-memory provider where they
  need one, through the interpretation \<open>mem_durable\<close>.
\<close>

lemma without_bodies_twice: "without_bodies (without_bodies p) = without_bodies p"
proof (induction p)
  case (Perform c k)
  then show ?case by (cases c) auto
qed simp

section \<open>Verification runs change nothing\<close>

definition readonly :: "('s, 'a) act \<Rightarrow> bool" where
  "readonly m \<longleftrightarrow> (\<forall>w. verifying w \<longrightarrow> w_store (snd (m w)) = w_store w \<and> verifying (snd (m w)))"

lemma readonlyD: "readonly m \<Longrightarrow> m w = (r, w') \<Longrightarrow> verifying w \<Longrightarrow> w_store w' = w_store w \<and> verifying w'"
  unfolding readonly_def by (metis snd_conv)

lemma readonly_basics [intro, simp]:
  "readonly (ret r)" "readonly read_clock" "readonly (observed f)" "readonly (check_recorded ctx q nm nm')"
  "readonly (recorded_value ctx T oc)" "readonly (claim_position ctx operation)" "readonly (refuse_live_work ctx q nm)"
  by (auto simp: readonly_def ret_def read_clock_def observed_def check_recorded_def recorded_value_def claim_position_def
      refuse_live_work_def next_seq_def booked_def verifying_def Let_def case_prod_unfold
      split: step_outcome.split sum.split option.split)

lemma readonly_then [intro]: "readonly m \<Longrightarrow> (\<And>a. readonly (k a)) \<Longrightarrow> readonly (and_then m k)"
  unfolding readonly_def and_then_def
  by (auto split: prod.splits run_outcome.splits sum.splits)

lemma readonly_poll [intro]: "readonly m \<Longrightarrow> readonly (poll_in_execution operation m)"
  by (auto simp: readonly_def poll_in_execution_def split: sum.split)

lemma readonly_pending [intro]: "(\<And>q. readonly (k q)) \<Longrightarrow> readonly (pending_step ctx operation k)"
  unfolding pending_step_def by (intro readonly_then readonly_poll readonly_basics)

text \<open>A verification stops where the records end: the live branch of a call is not reached.\<close>

lemma serve_recorded_ends:
  assumes "verifying w" "serve_recorded ctx T q nm w = (Returned (Inr None), w')"
  shows False
proof -
  have refuses: "refuse_live_work ctx q nm u \<noteq> (Returned (Inr x), u')" if "verifying u" for u x u'
    using that by (auto simp: refuse_live_work_def verifying_def split: if_splits)
  from assms(2) show False unfolding serve_recorded_def
  proof (cases rule: and_then_cases)
    case (ok found w1)
    have "verifying w1" using readonlyD [OF readonly_basics(3) ok(1) assms(1)] by simp
    with ok(2) refuses show False
      by (cases found) (auto simp: and_then_def ret_def split: prod.splits run_outcome.splits sum.splits)
  qed simp_all
qed

lemma readonly_serve_recorded: "readonly (serve_recorded ctx T q nm)"
  unfolding serve_recorded_def by (rule readonly_then) (auto split: option.split)

lemma readonly_serve:
  assumes "\<And>v. readonly (k (Some v))"
  shows "readonly (and_then (serve_recorded ctx T q nm) k)"
  unfolding readonly_def
proof (intro allI impI)
  fix w :: "'b world"
  assume w: "verifying w"
  obtain r w' where r: "serve_recorded ctx T q nm w = (r, w')" by fastforce
  have "w_store w' = w_store w \<and> verifying w'" by (rule readonlyD [OF readonly_serve_recorded r w])
  moreover have "r \<noteq> Returned (Inr None)" using serve_recorded_ends [OF w] r by blast
  ultimately show "w_store (snd (and_then (serve_recorded ctx T q nm) k w)) = w_store w
      \<and> verifying (snd (and_then (serve_recorded ctx T q nm) k w))"
    using r assms unfolding readonly_def and_then_def
    by (auto split: run_outcome.split sum.split)
qed

lemma readonly_guard:
  assumes "\<And>v. readonly (k (Some v))"
  shows "readonly (and_then (replay_or_guard ctx T q nm) k)"
proof -
  have "and_then (replay_or_guard ctx T q nm) k = and_then (serve_recorded ctx T q nm) (\<lambda>found. and_then (case found of
       Some v \<Rightarrow> ret (Inr (Some v))
     | None \<Rightarrow> and_then (observed (p_get_workflow_status (cx_provider ctx) (cx_workflow_id ctx))) (\<lambda>status.
         if is_some_and status (\<lambda>row. wf_status row = STATUS_CANCELLED)
         then ret (Inl (Cancelled (cx_workflow_id ctx))) else ret (Inr None))) k)"
    by (simp add: replay_or_guard_def and_then_assoc)
  moreover have "and_then (ret (Inr (Some v))) k = k (Some v)" for v by (simp add: fun_eq_iff)
  ultimately show ?thesis using assms by (auto intro!: readonly_serve)
qed

lemma readonly_step_at: "readonly (step_at ctx T nm run q)"
  unfolding step_at_def by (rule readonly_guard) simp

lemma readonly_value_at: "readonly (durable_value_at ctx T q nm produce)"
  unfolding durable_value_at_def by (rule readonly_serve) simp

lemma readonly_effect_at: "readonly (effect_at ctx nm effect q)"
  unfolding effect_at_def by (rule readonly_guard) simp

lemma readonly_wait: "readonly (\<lambda>w. (Returned (Inr ()), if b \<and> \<not> verifying w then w\<lparr>w_waits := ts w\<rparr> else w))"
  by (auto simp: readonly_def)

lemmas readonly_at = readonly_step_at readonly_value_at readonly_effect_at readonly_wait

lemma readonly_call: "readonly (run_call ctx c)"
proof -
  have "readonly (call_at ctx c q)" for q
    by (cases c) (auto intro!: readonly_at readonly_then [OF readonly_value_at] readonly_then [OF readonly_wait])
  then show ?thesis unfolding run_call_at by (auto split: option.split)
qed

lemma readonly_program:
  "verifying w \<Longrightarrow> run_program ctx p w = (rs, out, w') \<Longrightarrow> w_store w' = w_store w \<and> verifying w'"
proof (induction p arbitrary: w rs)
  case (Perform c k)
  obtain r w1 where r: "run_call ctx c w = (r, w1)" by fastforce
  have "w_store w1 = w_store w \<and> verifying w1" by (rule readonlyD [OF readonly_call r Perform.prems(1)])
  with Perform.prems Perform.IH [OF rangeI] r show ?case by (auto split: run_outcome.splits prod.splits)
qed simp

lemma readonly_refuse: "readonly (and_then (refuse_live_work ctx q m) k)"
  by (auto simp: readonly_def and_then_def refuse_live_work_def booked_def verifying_def split: option.split)

lemma readonly_cells:
  "readonly (\<lambda>w. (Returned r, snd (next_seq (booked f w))))"
  "readonly (\<lambda>w. (Returned r, if b then snd (next_seq (booked f w)) else w))"
  by (simp_all add: readonly_def next_seq_def booked_def verifying_def)

lemma readonly_checked:
  "(\<And>q. readonly (m q)) \<Longrightarrow> readonly (\<lambda>w. case refuse_inside_body ctx operation w of
      Inl e \<Rightarrow> (Returned (Inl e), w) | Inr _ \<Rightarrow> poll_in_execution operation (\<lambda>w. m (w_seq w) w) w)"
  by (auto simp: readonly_def poll_in_execution_def split: sum.split)

lemma readonly_patch: "readonly (patch ctx nm)"
  unfolding patch_def Let_def
  by (rule readonly_checked, rule readonly_then)
    (auto intro: readonly_refuse readonly_cells split: option.split)

lemma readonly_deprecate_patch: "readonly (deprecate_patch ctx nm)"
  unfolding deprecate_patch_def Let_def
  by (rule readonly_checked, rule readonly_then) (auto intro: readonly_cells)

lemma readonly_pending_wait:
  assumes "verifying w"
  shows "\<exists>r w'. pending_wait ctx T operation nm attempt timeout wait w = Some (r, w') \<and> w_store w' = w_store w"
proof -
  obtain c w1 where c: "claim_position ctx operation w = (c, w1)" by fastforce
  then have w1: "w_store w1 = w_store w \<and> verifying w1" using readonlyD [OF readonly_basics(6) c assms] by simp
  obtain d w2 where d: "next_seq w1 = (d, w2)" by fastforce
  let ?w = "booked (reserved_record d ''DBOS.sleep'') w2"
  have w2: "w_store w2 = w_store w" "verifying ?w" "w_store ?w = w_store w"
    using d w1 by (auto simp: next_seq_def booked_def verifying_def)
  have guard: "w_store u' = w_store u \<and> r \<noteq> Returned (Inr None)"
    if "replay_or_guard ctx T q nm u = (r, u')" "verifying u" for q r u u'
  proof -
    obtain s v where v: "serve_recorded ctx T q nm u = (s, v)" by fastforce
    have "w_store v = w_store u" "s \<noteq> Returned (Inr None)"
      using readonlyD [OF readonly_serve_recorded v that(2)] serve_recorded_ends [OF that(2)] v by auto
    with that(1) v show ?thesis
      by (auto simp: replay_or_guard_def and_then_def ret_def split: run_outcome.splits sum.splits option.splits)
  qed
  show ?thesis
    using c d w1 w2 by (auto simp: pending_wait_def split: run_outcome.split sum.split prod.split option.split
        dest: guard [OF _ w2(2)])
qed

text \<open>
  C3: a verification run changes nothing.  Whatever the workflow function is,
  whatever its step bodies do and whatever the provider answers, re-running it
  under a verification leaves the store as it was: it serves records, and is
  stopped where they end.  Its waits return instead of polling.
\<close>

theorem verification_changes_nothing:
  assumes "verifying w"
  shows "w_store (snd (snd (run_program ctx p w))) = w_store w
    \<and> w_store (snd (patch ctx nm w)) = w_store w \<and> w_store (snd (deprecate_patch ctx nm w)) = w_store w
    \<and> (\<exists>r w'. recv ctx T topic timeout wait w = Some (r, w') \<and> w_store w' = w_store w)
    \<and> (\<exists>r w'. get_event ctx U V target key timeout wait w = Some (r, w') \<and> w_store w' = w_store w)"
proof (intro conjI)
  show "w_store (snd (snd (run_program ctx p w))) = w_store w"
    using readonly_program [OF assms] by (metis prod.collapse)
qed (use assms in \<open>simp_all add: recv_def get_event_def readonly_pending_wait
    readonly_patch [unfolded readonly_def] readonly_deprecate_patch [unfolded readonly_def]\<close>)

section \<open>Replay and recovery\<close>

text \<open>
  C1: a workflow is a function of its records.  Take a run of a workflow function
  that recorded every position it claimed, with step bodies that write no
  checkpoint of their own workflow.  Run the function again, in any world that
  holds those records and with the step bodies taken out: it receives the same
  result from every call and ends with the same result, no body runs and nothing
  is written, and a verification books every record as served.
\<close>

theorem durable_replay:
  assumes "cx_provider ctx = memory_provider C f" "i = cx_workflow_id ctx"
    and "live (lookup_step C) i w" "tame_program (lookup_step C) i p"
    and "run_program ctx p w = (rs, out, w')" "w_seq w + int (length rs) < 2 ^ 31 - 1"
    and "\<forall>q \<in> {w_seq w..<w_seq w'}. lookup_step C (w_store w') i q \<noteq> None"
    and "placed w2" "w_seq w2 = w_seq w" "latch w2 = latch w"
    and "\<forall>q \<in> {w_seq w..<w_seq w'}. lookup_step C (w_store w2) i q = lookup_step C (w_store w') i q"
  shows "\<exists>w3. run_program ctx (without_bodies p) w2 = (rs, out, w3) \<and> w_store w3 = w_store w2
    \<and> w_seq w3 = w_seq w' \<and> latch w3 = latch w'
    \<and> w_verify w3 = map_option (\<lambda>v. fold served_record [w_seq w..w_seq w' - 1] v) (w_verify w2)"
proof -
  have "mem_durable.again C i w w' (w_seq w') w2" using assms(7-11) by (simp add: mem_durable.again_def)
  then show ?thesis using mem_durable.again_program [OF assms(1), of w p rs out w' "without_bodies p" w2] assms(2-6)
    by (simp add: without_bodies_twice)
qed

text \<open>
  C2: a recovered run agrees with the run it recovers.  Let a workflow function
  run, and let a crash keep the records of its first positions, those below
  \<open>h\<close>.  Run again in a world that holds them, the function, whose step bodies
  may have been replaced meanwhile, receives the same results from the calls that
  those records answer; what it does from there on is a new run.
\<close>

theorem recovery_agrees:
  assumes "cx_provider ctx = memory_provider C f" "i = cx_workflow_id ctx"
    and "live (lookup_step C) i w" "tame_program (lookup_step C) i p"
    and "run_program ctx p w = (rs, out, w')" "w_seq w + int (length rs) < 2 ^ 31 - 1"
    and "h \<le> w_seq w'" "\<forall>q \<in> {w_seq w..<h}. lookup_step C (w_store w') i q \<noteq> None"
    and "placed w2" "w_seq w2 = w_seq w" "latch w2 = latch w"
    and "\<forall>q \<in> {w_seq w..<h}. lookup_step C (w_store w2) i q = lookup_step C (w_store w') i q"
    and "without_bodies p2 = without_bodies p"
  shows "take (nat (h - w_seq w)) (fst (run_program ctx p2 w2)) = take (nat (h - w_seq w)) rs"
proof -
  have "mem_durable.again C i w w' h w2" using assms(7-12) by (simp add: mem_durable.again_def)
  then show ?thesis using mem_durable.again_prefix [OF assms(1), of w p rs out w' p2 h w2] assms(2-7,13) by simp
qed

lemma history_verifies:
  assumes "cx_provider ctx = memory_provider C f" "i = cx_workflow_id ctx"
    and "live (lookup_step C) i w" "tame_program (lookup_step C) i p"
    and "run_program ctx p w = (rs, out, w')" "w_seq w + int (length rs) < 2 ^ 31 - 1"
    and "\<forall>q \<in> {w_seq w..<w_seq w'}. lookup_step C (w_store w') i q \<noteq> None"
    and "placed w2" "w_seq w2 = w_seq w" "latch w2 = latch w"
    and "\<forall>q \<in> {w_seq w..<w_seq w'}. lookup_step C (w_store w2) i q = lookup_step C (w_store w') i q"
    and "w_verify w2 = Some (verification_new whole)"
    and "\<forall>op \<in> set (h_recorded h). si_step_id op \<in> {w_seq w..<w_seq w'}" "ended_well (h_status h) out"
  shows "\<exists>w3 v. run_program ctx p w2 = (rs, out, w3) \<and> w_verify w3 = Some v \<and> w_store w3 = w_store w2 \<and> latch w3 = latch w'
    \<and> passes (report h out v) \<and> rr_matched (report h out v) = rr_recorded (report h out v)"
proof -
  have "mem_durable.again C i w w' (w_seq w') w2" using assms(7-11) by (simp add: mem_durable.again_def)
  then obtain w3 where w3: "run_program ctx p w2 = (rs, out, w3)" "w_store w3 = w_store w2" "latch w3 = latch w'"
    "w_verify w3 = Some (fold served_record [w_seq w..w_seq w' - 1] (verification_new whole))"
    using mem_durable.again_program [OF assms(1), of w p rs out w' p w2] assms(2-6,12) by auto
  let ?v = "fold served_record [w_seq w..w_seq w' - 1] (verification_new whole)"
  have seen: "sn_divergence (vf_seen (fold served_record qs v)) = sn_divergence (vf_seen v)"
    "sn_served (vf_seen (fold served_record qs v)) = sn_served (vf_seen v) \<union> set qs" for qs v
    by (induction qs arbitrary: v) simp_all
  have "\<forall>op \<in> set (h_recorded h). accounts_for (vf_seen ?v) op" using assms(13) by (simp add: accounts_for_def seen)
  then have "passes (report h out ?v) \<and> rr_matched (report h out ?v) = rr_recorded (report h out ?v)"
    using assms(14) unfolding passes_report_iff seen
    by (simp add: verification_new_def seen_default_def report_def Let_def filter_id_conv)
  with w3 show ?thesis by blast
qed

text \<open>
  C5: a history verifies against the code that made it.  Re-run under a fresh
  verification, the function of such a run passes: no divergence is reported and
  every recorded operation of the history is matched, if the history lists
  operations of that run and the run ended as the history says.
\<close>

theorem own_history_passes:
  assumes "cx_provider ctx = memory_provider C f" "i = cx_workflow_id ctx"
    and "live (lookup_step C) i w" "tame_program (lookup_step C) i p"
    and "run_program ctx p w = (rs, out, w')" "w_seq w + int (length rs) < 2 ^ 31 - 1"
    and "\<forall>q \<in> {w_seq w..<w_seq w'}. lookup_step C (w_store w') i q \<noteq> None"
    and "placed w2" "w_seq w2 = w_seq w" "latch w2 = latch w"
    and "\<forall>q \<in> {w_seq w..<w_seq w'}. lookup_step C (w_store w2) i q = lookup_step C (w_store w') i q"
    and "w_verify w2 = Some (verification_new whole)"
    and "\<forall>op \<in> set (h_recorded h). si_step_id op \<in> {w_seq w..<w_seq w'}" "ended_well (h_status h) out"
  shows "\<exists>w3 v. run_program ctx p w2 = (rs, out, w3) \<and> w_verify w3 = Some v
    \<and> passes (report h out v) \<and> rr_matched (report h out v) = rr_recorded (report h out v)"
  using history_verifies [OF assms] by blast

section \<open>Placement\<close>

text \<open>
  C6: a durable call in the wrong place is refused before it claims a position.
  Made from another execution, in an execution whose storage has failed, or
  inside the body of a step, a call returns the error that names the violation
  and leaves the world as it was; one built in the right place but first polled
  inside a body is refused there.
\<close>

theorem misplaced_call_refused:
  assumes "\<not> placed w \<or> latch w \<noteq> None" "call_refusal c = None"
  shows "run_call ctx c w = (Returned (Err (
      if w_current w \<noteq> Some (ex_token (w_execution w))
      then DurableCallOutsideExecution (ex_workflow_id (w_execution w)) (call_operation c)
      else if latch w \<noteq> None then RecoveryRequired (the (latch w))
      else NestedDurableCall (cx_workflow_id ctx) (call_operation c))), w)
    \<and> patch ctx nm w = (Returned (Err (
      if w_current w \<noteq> Some (ex_token (w_execution w))
      then DurableCallOutsideExecution (ex_workflow_id (w_execution w)) ''patch''
      else if latch w \<noteq> None then RecoveryRequired (the (latch w))
      else NestedDurableCall (cx_workflow_id ctx) ''patch'')), w)
    \<and> (w_current w = Some (ex_token (w_execution w)) \<longrightarrow> latch w = None \<longrightarrow>
        poll_in_execution operation m w = (Returned (Err (DurableCallCrossedBody operation)), w))"
  using assms
  by (auto simp: run_call_at pending_step_def claim_position_def refuse_inside_body_def check_call_def check_placement_def
      check_def placed_def latch_def and_then_def patch_def poll_in_execution_def check_call_poll_def split: option.split)

section \<open>Retries\<close>

definition retries_again :: "'s durable_context \<Rightarrow> step_options \<Rightarrow> 'a result \<Rightarrow> bool" where
  "retries_again ctx opts r = (case r of Inr _ \<Rightarrow> False | Inl e \<Rightarrow>
     \<not> (case e of RecoveryRequired _ \<Rightarrow> True | ObservationFailed _ \<Rightarrow> True | _ \<Rightarrow> False)
     \<and> \<not> is_cancellation_for e (cx_workflow_id ctx) \<and> \<not> is_scope_violation e \<and> is_none_or (sp_retry_if opts) (\<lambda>p. p e))"

definition scripted :: "(nat \<Rightarrow> 'a result) \<Rightarrow> ('s, 'a) body" where
  "scripted g sx w = (Returned (g (sx_attempt sx)), w)"

lemma scripted_attempt [simp]:
  "run_step_catching nm (in_body (scripted g sx)) w = (Returned (g (sx_attempt sx)), w)"
  by (simp add: run_step_catching_def in_body_def scripted_def)

lemma retry_loop_again:
  assumes "m < sp_max_retries opts" "retries_again ctx opts (g m)"
  shows "retry_loop ctx q opts (scripted g) (sp_max_retries opts - m) w = (case backoff_delay opts m of
      None \<Rightarrow> (Panicked (Panic_String ''cannot convert float seconds to Duration''), w)
    | Some d \<Rightarrow> retry_loop ctx q opts (scripted g) (sp_max_retries opts - Suc m)
        (w\<lparr>w_step_retries := Suc (w_step_retries w), w_waits := w_waits w @ [\<lfloor>d * 1000000000\<rfloor>]\<rparr>))"
proof -
  obtain e where "g m = Inl e" using assms(2) by (cases "g m") (auto simp: retries_again_def)
  moreover have "sp_max_retries opts - m = Suc (sp_max_retries opts - Suc m)" using assms(1) by simp
  moreover have "sp_max_retries opts - Suc (sp_max_retries opts - Suc m) = m" using assms(1) by simp
  ultimately show ?thesis using assms(2)
    by (subst retry_loop.simps) (simp add: retries_again_def Let_def)
qed

lemma retry_loop_last:
  assumes "n = sp_max_retries opts \<or> \<not> retries_again ctx opts (g n)" "n \<le> sp_max_retries opts"
  shows "retry_loop ctx q opts (scripted g) (sp_max_retries opts - n) w = (case g n of
      Inr v \<Rightarrow> (Returned (Ok v), w)
    | Inl e \<Rightarrow> (Returned (Err (fst (body_error e (w_execution w)))), w\<lparr>w_execution := snd (body_error e (w_execution w))\<rparr>))"
proof (cases "g n")
  case (Inl e)
  have "\<not> (case e of RecoveryRequired _ \<Rightarrow> True | ObservationFailed _ \<Rightarrow> True | _ \<Rightarrow> False)
      \<Longrightarrow> body_error e (w_execution w) = (e, w_execution w)" by (cases e) (simp_all add: body_error_def)
  then show ?thesis using Inl assms
    by (subst retry_loop.simps) (auto simp: retries_again_def Let_def case_prod_unfold)
qed (use assms in \<open>subst retry_loop.simps, simp\<close>)

lemma retry_loop_skip:
  assumes "m \<le> sp_max_retries opts" "\<forall>k < m. retries_again ctx opts (g k) \<and> backoff_delay opts k \<noteq> None"
  shows "retry_loop ctx q opts (scripted g) (sp_max_retries opts) w
    = retry_loop ctx q opts (scripted g) (sp_max_retries opts - m)
        (w\<lparr>w_step_retries := w_step_retries w + m,
           w_waits := w_waits w @ map (\<lambda>k. \<lfloor>the (backoff_delay opts k) * 1000000000\<rfloor>) [0..<m]\<rparr>)"
  using assms
proof (induction m)
  case (Suc m)
  then obtain t where "backoff_delay opts m = Some t" "retries_again ctx opts (g m)" by auto
  with Suc show ?case by (simp add: retry_loop_again)
qed simp

lemma backoff_capped:
  assumes "backoff_delay opts k \<noteq> None"
  shows "\<lfloor>the (backoff_delay opts k) * 1000000000\<rfloor> \<le> sp_max_interval opts"
proof -
  obtain t where t: "backoff_delay opts k = Some t" using assms by auto
  then have "t \<le> of_int (sp_max_interval opts) / 1000000000"
    by (auto simp: backoff_delay_def Let_def split: if_splits)
  then have "t * 1000000000 \<le> of_int (sp_max_interval opts)" by (simp add: field_simps)
  then show ?thesis using t by (simp add: floor_le_iff)
qed

text \<open>
  C7: a retried step returns the first result it may not retry, unless a wait
  cannot be computed.  The body is one whose result depends on the attempt alone
  and that does nothing else.  Let \<open>n\<close> be the first attempt that succeeds, or whose
  error may not be retried, or that is the last the options allow.  If every
  wait before it can be computed, a step with retries makes exactly the
  attempts \<open>0\<close> to \<open>n\<close>, waits for the backoff of each attempt but the last and
  answers with attempt \<open>n\<close>: with its value, with its error, or, where that error
  is an interruption (recovery required, or a failed observation), with what the
  execution latches for it, the only case in which the execution changes.  If
  the backoff of some attempt before \<open>n\<close> is out of the range of a duration, the
  step panics after the first such attempt, having waited for the ones before
  it.  No wait is longer than the maximal interval.
\<close>

theorem retries_return_first_final:
  assumes "n \<le> sp_max_retries opts" "\<forall>m < n. retries_again ctx opts (g m)"
    and "n = sp_max_retries opts \<or> \<not> retries_again ctx opts (g n)"
  shows "\<exists>ts. (\<forall>t \<in> set ts. t \<le> sp_max_interval opts)
    \<and> (let w' = w\<lparr>w_step_retries := w_step_retries w + length ts, w_waits := w_waits w @ ts\<rparr>;
           run = run_with_retries ctx q opts (scripted g) w in
       if \<exists>k < n. backoff_delay opts k = None
       then length ts = (LEAST k. backoff_delay opts k = None)
         \<and> run = (Panicked (Panic_String ''cannot convert float seconds to Duration''), w')
       else length ts = n \<and> run = (case g n of
           Inr v \<Rightarrow> (Returned (Ok v), w')
         | Inl e \<Rightarrow> (Returned (Err (fst (body_error e (w_execution w)))), w'\<lparr>w_execution := snd (body_error e (w_execution w))\<rparr>)))"
proof -
  let ?ts = "\<lambda>m. map (\<lambda>k. \<lfloor>the (backoff_delay opts k) * 1000000000\<rfloor>) [0..<m]"
  show ?thesis
  proof (cases "\<exists>k < n. backoff_delay opts k = None")
    case True
    define j where "j = (LEAST k. backoff_delay opts k = None)"
    obtain k where k: "k < n" "backoff_delay opts k = None" using True by blast
    have j: "backoff_delay opts j = None" "j < n" "\<forall>k < j. backoff_delay opts k \<noteq> None"
      unfolding j_def
      by (rule LeastI, rule k(2), rule le_less_trans [OF Least_le k(1)], rule k(2), blast dest: not_less_Least)
    have "run_with_retries ctx q opts (scripted g) w = (Panicked (Panic_String ''cannot convert float seconds to Duration''),
        w\<lparr>w_step_retries := w_step_retries w + j, w_waits := w_waits w @ ?ts j\<rparr>)"
      unfolding run_with_retries_def
      by (subst retry_loop_skip [of j]) (use j assms(1,2) in \<open>simp_all add: retry_loop_again [of j]\<close>)
    moreover have "\<forall>t \<in> set (?ts j). t \<le> sp_max_interval opts" using j(3) backoff_capped by auto
    ultimately show ?thesis using True
      unfolding j_def [symmetric] by (intro exI [of _ "?ts j"]) (simp only: Let_def if_True length_map length_upt diff_zero simp_thms)
  next
    case False
    then have "\<forall>k < n. retries_again ctx opts (g k) \<and> backoff_delay opts k \<noteq> None" using assms(2) by simp
    then have "run_with_retries ctx q opts (scripted g) w = retry_loop ctx q opts (scripted g) (sp_max_retries opts - n)
        (w\<lparr>w_step_retries := w_step_retries w + n, w_waits := w_waits w @ ?ts n\<rparr>)"
      unfolding run_with_retries_def by (rule retry_loop_skip [OF assms(1)])
    then have "run_with_retries ctx q opts (scripted g) w = (case g n of
          Inr v \<Rightarrow> (Returned (Ok v), w\<lparr>w_step_retries := w_step_retries w + n, w_waits := w_waits w @ ?ts n\<rparr>)
        | Inl e \<Rightarrow> (Returned (Err (fst (body_error e (w_execution w)))), w\<lparr>w_step_retries := w_step_retries w + n,
            w_waits := w_waits w @ ?ts n, w_execution := snd (body_error e (w_execution w))\<rparr>))"
      using assms(1,3) by (simp add: retry_loop_last split: sum.split)
    moreover have "\<forall>t \<in> set (?ts n). t \<le> sp_max_interval opts" using False backoff_capped by auto
    ultimately show ?thesis using False
      by (intro exI [of _ "?ts n"]) (simp only: Let_def if_False length_map length_upt diff_zero simp_thms)
  qed
qed

lemma default_backoff:
  assumes "m < 2 ^ 31"
  shows "backoff_delay ((step_options_new nm)\<lparr>sp_max_retries := r\<rparr>) m = None \<longleftrightarrow> 68 \<le> m"
proof -
  have "wrap_i32 (int m) = int m" using assms by (simp add: wrap_i32_def)
  then have delay: "backoff_delay ((step_options_new nm)\<lparr>sp_max_retries := r\<rparr>) m = None \<longleftrightarrow> (10 * 2 ^ 64 :: rat) \<le> 2 ^ m"
    by (simp add: backoff_delay_def step_options_new_def Let_def not_less)
  show ?thesis
  proof (cases "68 \<le> m")
    case True
    then have "(2 :: rat) ^ 68 \<le> 2 ^ m" by (intro power_increasing) auto
    then show ?thesis using delay True by simp
  next
    case False
    then have "(2 :: rat) ^ m \<le> 2 ^ 67" by (intro power_increasing) auto
    then show ?thesis using delay False by simp
  qed
qed

text \<open>
  The backoff overflows.  With the default interval and factor the 69th wait
  cannot be computed: the conversion to a duration panics before the maximal
  interval is applied, so a step allowed 69 retries or more that keeps failing
  does not return its error but unwinds, outside the guard around its body.
\<close>

theorem default_backoff_overflows:
  assumes "opts = (step_options_new nm)\<lparr>sp_max_retries := r\<rparr>" "68 < r" "\<forall>m \<le> 68. retries_again ctx opts (g m)"
  shows "\<exists>w'. run_with_retries ctx q opts (scripted g) w = (Panicked (Panic_String ''cannot convert float seconds to Duration''), w')
    \<and> w_step_retries w' = w_step_retries w + 68"
proof -
  have r: "sp_max_retries opts = r" using assms(1) by simp
  have "\<forall>k < 68. retries_again ctx opts (g k) \<and> backoff_delay opts k \<noteq> None"
    using assms(1,3) default_backoff by simp
  moreover have "backoff_delay opts 68 = None" using default_backoff [of 68] assms(1) by simp
  ultimately show ?thesis
    using retry_loop_skip [of 68 opts ctx g q w] retry_loop_again [of 68 opts ctx g q] assms(2,3) r
    by (simp add: run_with_retries_def)
qed

section \<open>Timers, waits and patches\<close>

text \<open>
  A sleep survives a restart.  Once the instant to wake at is recorded, a
  sleep at that position, whatever duration the code now asks for, waits only
  for what is left until that instant, not at all if it has passed or if the
  run is a verification, and writes nothing.
\<close>

theorem sleep_resumes:
  assumes "cx_provider ctx = memory_provider C f" "placed w" "latch w = None" "0 \<le> w_seq w" "w_seq w < 2 ^ 31 - 1"
    and "lookup_step C (w_store w) (cx_workflow_id ctx) (w_seq w) = Some \<lparr>rs_name = ''DBOS.sleep'', rs_outcome = Output v\<rparr>"
    and "from_value (cx_instants ctx) v = Ok wake"
  shows "\<exists>w'. sleep ctx dur w = (Returned (Ok ()), w') \<and> w_store w' = w_store w \<and> w_seq w' = w_seq w + 1
    \<and> w_waits w' = w_waits w @ (let left = wake - w_clock w (w_reads w) in if left > 0 \<and> \<not> verifying w then [left] else [])"
proof -
  let ?w = "w\<lparr>w_seq := w_seq w + 1\<rparr>"
  have "wrap_i32 (w_seq w + 1) = w_seq w + 1" using assms(4,5) by (rule wrap_next)
  moreover have "recorded_value ctx (cx_instants ctx) (Output v) u = (Returned (Ok wake), u)" for u
    using assms(7) by (simp add: recorded_value_def)
  moreover have "latch ?w = None" using assms(3) by (simp add: latch_def)
  ultimately show ?thesis using assms(1-3,6)
    by (simp add: sleep_def pending_step_placed durable_value_at_def serve_recorded_def and_then_def observed_def
        get_step_result_eq check_recorded_def ret_def read_clock_def booked_def verifying_def Let_def)
qed

definition timed :: "('s, 'a) act \<Rightarrow> bool" where
  "timed m \<longleftrightarrow> (\<forall>u. w_clock (snd (m u)) = w_clock u \<and> w_reads u \<le> w_reads (snd (m u)))"

lemma timedD: "timed m \<Longrightarrow> m u = (r, u') \<Longrightarrow> w_clock u' = w_clock u \<and> w_reads u \<le> w_reads u'"
  unfolding timed_def by (metis snd_conv)

lemma timed_basics [intro, simp]:
  "timed (ret r)" "timed read_clock" "timed (observed f)" "timed (stored n h)" "timed (check_recorded ctx q nm nm')"
  "timed (recorded_value ctx T oc)" "timed (refuse_live_work ctx q nm)" "timed (claim_position ctx operation)"
  "timed (\<lambda>w. (Returned (check (w_execution w)), w))"
  by (auto simp: timed_def ret_def read_clock_def observed_def stored_def check_recorded_def recorded_value_def
      refuse_live_work_def claim_position_def next_seq_def booked_def Let_def case_prod_unfold
      split: step_outcome.split sum.split option.split)

lemma timed_then [intro]: "timed m \<Longrightarrow> (\<And>a. timed (k a)) \<Longrightarrow> timed (and_then m k)"
  unfolding timed_def and_then_def
  by (auto split: prod.splits run_outcome.splits sum.splits) (metis snd_conv order.trans)+

lemma timed_serve_recorded [intro, simp]: "timed (serve_recorded ctx T q nm)"
  unfolding serve_recorded_def by (rule timed_then) (auto split: option.split)

lemma timed_guard [intro, simp]: "timed (replay_or_guard ctx T q nm)"
  unfolding replay_or_guard_def by (rule timed_then) (auto split: option.split)

lemma timed_write [intro, simp]: "timed (record_outcome ctx q nm v err st)" "timed (write_step_outcome ctx T q nm v err st)"
  "timed (record_failure ctx T q nm e st)" "timed (checkpoint_step ctx T q nm a st)"
proof -
  show "timed (record_outcome ctx q nm v err st)" by (simp add: record_outcome_def)
  then show *: "timed (write_step_outcome ctx T q nm v err st)" for v err
    unfolding write_step_outcome_def by (auto simp: record_outcome_def)
  show **: "timed (record_failure ctx T q nm e st)" for e unfolding record_failure_def by (intro timed_then * timed_basics)
  show "timed (checkpoint_step ctx T q nm a st)"
    unfolding checkpoint_step_def by (intro timed_then) (auto split: sum.split intro: * **)
qed

lemma timed_wake_instant [intro, simp]: "timed (wake_instant ctx dur)"
  by (auto simp: wake_instant_def timed_def and_then_def read_clock_def)

lemma timed_value_at [intro, simp]: "timed produce \<Longrightarrow> timed (durable_value_at ctx T q nm produce)"
  unfolding durable_value_at_def by (rule timed_then) (auto split: option.split)

lemma wait_loop_returns:
  assumes attempt: "timed attempt"
    and wait: "\<And>k u. w_clock (wait k u) = w_clock u \<and> w_reads u \<le> w_reads (wait k u)"
    and clock: "\<forall>m \<ge> n. w_clock w m \<ge> d"
  shows "wait_loop ctx operation nm attempt seq deadline_seq timeout wait k (Some d) w \<noteq> None"
  using clock
proof (induction "n - w_reads w" arbitrary: w k rule: less_induct)
  case less
  obtain r w1 where r: "attempt w = (r, w1)" by fastforce
  have w1: "w_clock w1 = w_clock w" "w_reads w \<le> w_reads w1" using timedD [OF attempt r] by auto
  let ?w = "wait k (w1\<lparr>w_reads := Suc (w_reads w1)\<rparr>)"
  have next_wait: "w_clock ?w = w_clock w" "w_reads w < w_reads ?w"
    using wait [where k = k and u = "w1\<lparr>w_reads := Suc (w_reads w1)\<rparr>"] w1 by auto
  show ?case
  proof (cases "w_clock w1 (w_reads w1) \<ge> d")
    case True
    then show ?thesis using r
      by (subst wait_loop.simps) (auto split: run_outcome.split sum.split option.split)
  next
    case False
    then have "w_reads w < n" using less.prems w1 by (metis leI order.trans)
    with next_wait less.prems less.hyps [of ?w "Suc k"]
    have "wait_loop ctx operation nm attempt seq deadline_seq timeout wait (Suc k) (Some d) ?w \<noteq> None" by simp
    with False show ?thesis using r
      by (subst wait_loop.simps) (auto split: run_outcome.split sum.split option.split)
  qed
qed

lemma pending_wait_returns:
  assumes attempt: "\<And>q. timed (attempt q)"
    and wait: "\<And>k u. w_clock (wait k u) = w_clock u \<and> w_reads u \<le> w_reads (wait k u)"
    and clock: "\<forall>d. \<exists>n. \<forall>m \<ge> n. w_clock w m \<ge> d"
  shows "pending_wait ctx T operation nm attempt timeout wait w \<noteq> None"
proof -
  have known: "wait_loop ctx operation nm (attempt q) q q' timeout wait k (Some d) u \<noteq> None" if u: "w_clock u = w_clock w" for q q' k d u
  proof -
    obtain n where "\<forall>m \<ge> n. w_clock u m \<ge> d" using clock u by metis
    then show ?thesis by (rule wait_loop_returns [OF attempt wait])
  qed
  have first: "wait_loop ctx operation nm (attempt q) q q' timeout wait k None u \<noteq> None" if u: "w_clock u = w_clock w" for q q' k u
  proof -
    obtain r u1 where r: "attempt q u = (r, u1)" by fastforce
    obtain r2 u2 where r2: "durable_value_at ctx (cx_instants ctx) q' ''DBOS.sleep'' (wake_instant ctx timeout) u1 = (r2, u2)" by fastforce
    have "w_clock u2 = w_clock w"
      using u timedD [OF attempt r] timedD [OF timed_value_at [OF timed_wake_instant] r2] by simp
    then have "wait_loop ctx operation nm (attempt q) q q' timeout wait (Suc k) (Some d) (wait k (u2\<lparr>w_reads := Suc (w_reads u2)\<rparr>)) \<noteq> None" for d
      using known wait by simp
    then show ?thesis using r r2
      by (subst wait_loop.simps) (auto split: run_outcome.split sum.split option.split)
  qed
  obtain c w1 where c: "claim_position ctx operation w = (c, w1)" by fastforce
  obtain q' w2 where d: "next_seq w1 = (q', w2)" by fastforce
  let ?w = "booked (reserved_record q' ''DBOS.sleep'') w2"
  have "w_clock ?w = w_clock w" using timedD [OF timed_basics(8) c] d by (auto simp: next_seq_def booked_def)
  then have "w_clock u' = w_clock w" if "replay_or_guard ctx T q nm ?w = (r, u')" for q r u'
    using timedD [OF timed_guard that] by simp
  then have "\<exists>z. wait_loop ctx operation nm (attempt q) q q' timeout wait 0 None u' = Some z"
    if "replay_or_guard ctx T q nm ?w = (Returned (Inr None), u')" for q u' using first that by blast
  with c d show ?thesis
    by (fastforce simp: pending_wait_def split: run_outcome.split sum.split prod.split option.split)
qed

text \<open>
  A wait returns.  A receive or an event wait, on any provider, returns once
  the clock has passed its deadline: if the clock's readings grow without bound
  and other tasks leave the clock alone while it waits, it does not poll forever.
\<close>

theorem waits_return:
  assumes "\<forall>d. \<exists>n. \<forall>m \<ge> n. w_clock w m \<ge> d"
    and "\<forall>k u. w_clock (wait k u) = w_clock u \<and> w_reads u \<le> w_reads (wait k u)"
  shows "recv ctx T topic timeout wait w \<noteq> None \<and> get_event ctx U V target key timeout wait w \<noteq> None"
  unfolding recv_def get_event_def
  using assms by (intro conjI pending_wait_returns timed_then) (auto intro: timed_then split: option.split)

text \<open>
  A patch routes old and new histories.  At a position where nothing is
  recorded yet, \<open>patch\<close> takes the position for its marker and answers yes; where
  its own marker is recorded it answers yes and takes the position again; where
  an older run recorded something else it answers no and takes nothing, so the
  records that follow keep their positions.  \<open>deprecate_patch\<close> steps over a
  marker of the same name and over nothing else.
\<close>

theorem patch_routes:
  assumes "cx_provider ctx = memory_provider C f" "placed w" "latch w = None" "w_verify w = None"
    and "0 \<le> w_seq w" "w_seq w < 2 ^ 31 - 1"
  shows "case map_of (steps (w_store w)) (cx_workflow_id ctx, w_seq w) of
      None \<Rightarrow> \<exists>w'. patch ctx nm w = (Returned (Ok True), w') \<and> w_seq w' = w_seq w + 1
        \<and> get_step_name (cx_workflow_id ctx) (w_seq w) (w_store w') = Ok (Some (PATCH_PREFIX @ nm))
        \<and> deprecate_patch ctx nm w = (Returned (Ok ()), w)
    | Some row \<Rightarrow>
        (let u = if sr_name row = PATCH_PREFIX @ nm then w\<lparr>w_seq := w_seq w + 1\<rparr> else w in
         patch ctx nm w = (Returned (Ok (sr_name row = PATCH_PREFIX @ nm)), u)
         \<and> deprecate_patch ctx nm w = (Returned (Ok ()), u))"
proof -
  have next_pos: "wrap_i32 (w_seq w + 1) = w_seq w + 1" using assms(5,6) by (rule wrap_next)
  have checks: "refuse_inside_body ctx operation w = Inr ()" "check_call_poll operation w = Inr ()" for operation
    using assms(2,3) by (simp_all add: refuse_inside_body_def check_call_poll_def check_call_def check_placement_def
        check_def placed_def latch_def)
  have unchanged: "w\<lparr>w_verify := None, w_seq := n\<rparr> = w\<lparr>w_seq := n\<rparr>" for n using assms(4) by (cases w) simp
  show ?thesis using assms(1,4) next_pos checks
    by (auto simp: patch_def deprecate_patch_def poll_in_execution_def and_then_def get_step_name_def Let_def next_seq_def
        booked_def ret_def refuse_live_work_def stored_def record_patch_def or_insert_def contains_key_def unchanged split: option.split)
qed

section \<open>Witnesses\<close>

definition sample_ctx :: "inner durable_context" where
  "sample_ctx = \<lparr>cx_workflow_id = ''a'', cx_provider = memory_provider plain_codec (\<lambda>t. Some t), cx_executor_id = ''x'',
     cx_codec = plain_codec, cx_instants = \<lparr>sd_to_value = (\<lambda>t. Inr (JInt t)),
       sd_from_value = (\<lambda>v. case v of JInt t \<Rightarrow> Inr t | _ \<Rightarrow> Inl ''instant'')\<rparr>,
     cx_strings = \<lparr>sd_to_value = (\<lambda>t. Inr (JString t)),
       sd_from_value = (\<lambda>v. case v of JString t \<Rightarrow> Inr t | _ \<Rightarrow> Inl ''text'')\<rparr>,
     cx_max_utc = 2 ^ 90\<rparr>"

definition sample_world :: "verification option \<Rightarrow> inner \<Rightarrow> inner world" where
  "sample_world v g = \<lparr>w_seq = 0, w_execution = execution_new 1 ''a'', w_verify = v, w_current = Some 1, w_in_body = False,
     w_clock = (\<lambda>n. int n * 1000), w_reads = 0, w_fresh = (\<lambda>n. replicate n (CHR ''u'')), w_ids = 0, w_waits = [],
     w_step_retries = 0, w_spawned = [], w_store = g\<rparr>"

definition sample_program :: "inner program" where
  "sample_program = Perform (Call_step ''one'' (\<lambda>_. ret (Ok (JInt 7)))) (\<lambda>r.
     Perform (Call_sleep 5000000) (\<lambda>_. Perform (Call_write_stream ''out'' (JInt 1)) (\<lambda>_. Finish r)))"

definition sample_run :: "json result list \<times> json run_outcome \<times> inner world" where
  "sample_run = run_program sample_ctx sample_program (sample_world None inner_default)"

lemma sample_run_facts:
  "w_seq (snd (snd sample_run)) = 3" "fst sample_run = [Ok (JInt 7), Ok JNull, Ok JNull]"
  "fst (snd sample_run) = Returned (Ok (JInt 7))"
  "map (\<lambda>q. lookup_step plain_codec (w_store (snd (snd sample_run))) ''a'' q = None) [0..2] = [False, False, False]"
  by code_simp+

lemma sample_recorded: "q \<in> {0..<3} \<Longrightarrow> lookup_step plain_codec (w_store (snd (snd sample_run))) ''a'' q \<noteq> None"
proof -
  assume "q \<in> {0..<3}"
  then consider "q = 0" | "q = 1" | "q = 2" by fastforce
  then show ?thesis using sample_run_facts(4) by cases (simp_all add: upto_rec1)
qed

lemma sample_world_simps [simp]:
  "w_seq (sample_world v g) = 0" "w_store (sample_world v g) = g" "w_verify (sample_world v g) = v"
  "latch (sample_world v g) = None" "placed (sample_world v g)" "verifying (sample_world v g) = (v \<noteq> None)"
  "w_clock (sample_world v g) = (\<lambda>n. int n * 1000)" "w_reads (sample_world v g) = 0"
  "w_waits (sample_world v g) = []"
  by (simp_all add: sample_world_def latch_def placed_def execution_new_def verifying_def)

lemma sample_ctx_simps [simp]:
  "cx_provider sample_ctx = memory_provider plain_codec (\<lambda>t. Some t)" "cx_workflow_id sample_ctx = ''a''"
  by (simp_all add: sample_ctx_def)

lemma sample_live: "live (lookup_step plain_codec) ''a'' (sample_world None inner_default)"
  by (simp add: live_def lookup_step_def inner_default_def)

lemma sample_tame: "tame_program (lookup_step plain_codec) ''a'' sample_program"
  by (simp add: sample_program_def tame_body_def tame_def ret_def)

lemma sample_run_eq: "run_program sample_ctx sample_program (sample_world None inner_default)
    = ([Ok (JInt 7), Ok JNull, Ok JNull], Returned (Ok (JInt 7)), snd (snd sample_run))"
  using sample_run_facts(2,3) unfolding sample_run_def by (metis prod.collapse)

lemmas sample_facts = sample_live sample_tame sample_run_eq sample_recorded sample_run_facts(1)

theorem durable_replay_witness:
  "\<exists>w3. run_program sample_ctx (without_bodies sample_program) (sample_world None (w_store (snd (snd sample_run))))
    = ([Ok (JInt 7), Ok JNull, Ok JNull], Returned (Ok (JInt 7)), w3) \<and> w_store w3 = w_store (snd (snd sample_run))"
  using durable_replay [OF sample_ctx_simps(1) refl, unfolded sample_ctx_simps, OF sample_live sample_tame sample_run_eq,
      of "sample_world None (w_store (snd (snd sample_run)))"] sample_recorded
  by (auto simp: sample_run_facts(1))

theorem recovery_agrees_witness:
  "take 2 (fst (run_program sample_ctx sample_program (sample_world None (w_store (snd (snd sample_run))))))
    = [Ok (JInt 7), Ok JNull]"
  using recovery_agrees [OF sample_ctx_simps(1) refl, unfolded sample_ctx_simps, OF sample_live sample_tame sample_run_eq,
      of 2 "sample_world None (w_store (snd (snd sample_run)))" sample_program] sample_recorded
  by (auto simp: sample_run_facts(1))

theorem verification_changes_nothing_witness:
  "w_store (snd (snd (run_program sample_ctx sample_program (sample_world (Some (verification_new True)) inner_default)))) = inner_default"
  by (rule trans [OF conjunct1 [OF verification_changes_nothing]]) simp_all

theorem own_history_passes_witness:
  "\<exists>w3 v. run_program sample_ctx sample_program (sample_world (Some (verification_new True)) (w_store (snd (snd sample_run))))
      = ([Ok (JInt 7), Ok JNull, Ok JNull], Returned (Ok (JInt 7)), w3) \<and> w_verify w3 = Some v
    \<and> passes (report sample_history (Returned (Ok (JInt 7))) v)"
  using own_history_passes [OF sample_ctx_simps(1) refl, unfolded sample_ctx_simps, OF sample_live sample_tame sample_run_eq,
      of "sample_world (Some (verification_new True)) (w_store (snd (snd sample_run)))" True sample_history] sample_recorded
  by (auto simp: sample_run_facts(1) sample_history_def sample_op_def ended_well_def)

theorem misplaced_call_refused_witness:
  "run_call sample_ctx Call_now ((sample_world None inner_default)\<lparr>w_in_body := True\<rparr>)
    = (Returned (Err (NestedDurableCall ''a'' ''DBOS.now'')), (sample_world None inner_default)\<lparr>w_in_body := True\<rparr>)"
  by (rule trans [OF conjunct1 [OF misplaced_call_refused]])
    (simp_all add: placed_def latch_def sample_world_def execution_new_def)

definition flaky :: "nat \<Rightarrow> json result" where
  "flaky n = (if n < 2 then Err (app ''later'') else Ok (JInt 7))"

lemma flaky_retries: "retries_again sample_ctx opts (flaky n) \<longleftrightarrow> n < 2 \<and> is_none_or (sp_retry_if opts) (\<lambda>p. p (app ''later''))"
  by (simp add: retries_again_def flaky_def app_def is_cancellation_for_def is_scope_violation_def)

theorem retries_return_first_final_witness:
  "\<exists>ts. run_with_retries sample_ctx 0 ((step_options_new ''s'')\<lparr>sp_max_retries := 5\<rparr>) (scripted flaky) (sample_world None inner_default)
      = (Returned (Ok (JInt 7)), (sample_world None inner_default)\<lparr>w_step_retries := 0 + 2, w_waits := [] @ ts\<rparr>) \<and> length ts = 2"
proof -
  let ?opts = "(step_options_new ''s'')\<lparr>sp_max_retries := 5\<rparr>"
  have start: "w_step_retries (sample_world None inner_default) = 0" "w_waits (sample_world None inner_default) = []"
    by (simp_all add: sample_world_def)
  have "backoff_delay ?opts k \<noteq> None" if "k < 2" for k using default_backoff [of k] that by simp
  then have "\<not> (\<exists>k < 2. backoff_delay ?opts k = None)" by blast
  moreover have "flaky 2 = Inr (JInt 7)" by (simp add: flaky_def)
  moreover have "2 \<le> sp_max_retries ?opts" "\<forall>m < 2. retries_again sample_ctx ?opts (flaky m)"
    "2 = sp_max_retries ?opts \<or> \<not> retries_again sample_ctx ?opts (flaky 2)"
    by (simp_all add: flaky_retries step_options_new_def is_none_or_def)
  ultimately show ?thesis
    using retries_return_first_final [of 2 ?opts sample_ctx flaky "sample_world None inner_default" 0]
    unfolding Let_def start by (simp only: if_False sum.case simp_thms) metis
qed

theorem default_backoff_overflows_witness:
  "\<exists>w'. run_with_retries sample_ctx 0 ((step_options_new ''s'')\<lparr>sp_max_retries := 100\<rparr>) (scripted (\<lambda>_. Err (app ''down'') :: json result))
      (sample_world None inner_default) = (Panicked (Panic_String ''cannot convert float seconds to Duration''), w')"
  using default_backoff_overflows [OF refl, of 100 sample_ctx "''s''" "\<lambda>_. Err (app ''down'')" 0 "sample_world None inner_default"]
  by (auto simp: retries_again_def app_def is_cancellation_for_def is_scope_violation_def step_options_new_def is_none_or_def)

definition sample_asleep :: inner where
  "sample_asleep = inner_default\<lparr>steps := [((''a'', 0), step_row_default\<lparr>sr_name := ''DBOS.sleep'', sr_output := Some (JInt 90)\<rparr>)]\<rparr>"

theorem sleep_resumes_witness:
  "\<exists>w'. sleep sample_ctx 1 (sample_world None sample_asleep) = (Returned (Ok ()), w') \<and> w_waits w' = [90]"
proof -
  have "lookup_step plain_codec sample_asleep ''a'' 0 = Some \<lparr>rs_name = ''DBOS.sleep'', rs_outcome = Output (JInt 90)\<rparr>" by code_simp
  moreover have "from_value (cx_instants sample_ctx) (JInt 90) = Ok 90" by code_simp
  ultimately show ?thesis
    using sleep_resumes [of sample_ctx plain_codec "\<lambda>t. Some t" "sample_world None sample_asleep" "JInt 90" 90 1]
    by auto
qed

theorem waits_return_witness:
  "recv sample_ctx \<lparr>sd_to_value = (\<lambda>_. Inr JNull), sd_from_value = (\<lambda>v. Inr (Some v))\<rparr> ''t'' 5000 (\<lambda>_ u. u) (sample_world None inner_default) \<noteq> None"
proof -
  have "\<forall>m \<ge> nat d. (d :: int) \<le> int m * 1000" for d
    by (auto simp: nat_le_iff)
  then have "\<forall>d :: int. \<exists>n. \<forall>m \<ge> n. d \<le> int m * 1000" by blast
  then show ?thesis by (intro conjunct1 [OF waits_return]) simp_all
qed

theorem patch_routes_witness:
  "\<exists>w'. patch sample_ctx ''p'' (sample_world None inner_default) = (Returned (Ok True), w') \<and> w_seq w' = 1"
  using patch_routes [of sample_ctx plain_codec "\<lambda>t. Some t" "sample_world None inner_default" "''p''"]
  by (simp add: inner_default_def) blast

end
