(* ===== verification/Engine_Start.thy ===== *)
theory Engine_Start
  imports Durable_Replay
begin

text \<open>
  Creating runs (\<open>src/engine.rs\<close>, \<open>start_workflow_impl\<close> of
  \<open>src/context.rs\<close>): the options of a start, the row it builds, the
  deduplicated insert, the top-level start and the start of a child from inside
  a workflow.  A start that dispatches a run hands back the row of the task it
  spawned; the task itself is \<open>Engine_Run\<close>.
\<close>

section \<open>Definitions\<close>

record auth_context =
  au_user :: "string option"
  au_assumed_role :: "string option"
  au_roles :: "string list"

definition auth_context_default :: auth_context where
  "auth_context_default = \<lparr>au_user = None, au_assumed_role = None, au_roles = []\<rparr>"

definition from_status :: "workflow_status \<Rightarrow> auth_context" where
  "from_status s = \<lparr>au_user = wf_authenticated_user s, au_assumed_role = wf_assumed_role s,
     au_roles = wf_authenticated_roles s\<rparr>"

definition auth_is_empty :: "auth_context \<Rightarrow> bool" where
  "auth_is_empty a \<longleftrightarrow> au_user a = None \<and> au_assumed_role a = None \<and> au_roles a = []"

text \<open>A registered workflow function, applied to its identity and input.\<close>

type_synonym 's workflow_fn = "auth_context \<Rightarrow> json \<Rightarrow> ('s, json) act"

record 's runtime =
  rt_provider :: "'s state_provider"
  rt_workflows :: "(string, 's workflow_fn) hashmap"
  rt_queues :: "(string, workflow_queue) hashmap"
  rt_listen_filter :: "string list option"
  rt_required_roles :: "(string, string list) hashmap"
  rt_executor_id :: string
  rt_app_version :: string
  rt_max_recovery_attempts :: int

datatype deduplication_policy = Reject | ReturnExisting

text \<open>A duration is a number of nanoseconds.\<close>

record workflow_options =
  wo_workflow_id :: "string option"
  wo_dedup_id :: "string option"
  wo_dedup_policy :: deduplication_policy
  wo_app_version :: "string option"
  wo_queue :: "string option"
  wo_priority :: int
  wo_partition_key :: "string option"
  wo_timeout :: "nat option"
  wo_delay :: "nat option"
  wo_authenticated_user :: "string option"
  wo_assumed_role :: "string option"
  wo_authenticated_roles :: "string list"
  wo_attributes :: "jmap option"
  wo_config_name :: "string option"
  wo_class_name :: "string option"

definition workflow_options_default :: workflow_options where
  "workflow_options_default = \<lparr>wo_workflow_id = None, wo_dedup_id = None, wo_dedup_policy = Reject,
     wo_app_version = None, wo_queue = None, wo_priority = 0, wo_partition_key = None, wo_timeout = None,
     wo_delay = None, wo_authenticated_user = None, wo_assumed_role = None, wo_authenticated_roles = [],
     wo_attributes = None, wo_config_name = None, wo_class_name = None\<rparr>"

definition INTERNAL_QUEUE :: string where "INTERNAL_QUEUE = ''_dbos_internal_queue''"

definition registry_key :: "string \<Rightarrow> string option \<Rightarrow> string" where
  "registry_key nm config = (case config of
       Some c \<Rightarrow> if c \<noteq> [] then nm @ ''/'' @ c else nm
     | None \<Rightarrow> nm)"

definition is_producer_only :: "'s runtime \<Rightarrow> string \<Rightarrow> bool" where
  "is_producer_only rt queue \<longleftrightarrow> queue \<noteq> INTERNAL_QUEUE
     \<and> is_some_and (rt_listen_filter rt) (\<lambda>listen. queue \<notin> set listen)"

definition validate_deduplication :: "workflow_options \<Rightarrow> string option \<Rightarrow> unit result" where
  "validate_deduplication opts queue =
     (if wo_partition_key opts \<noteq> None \<and> wo_dedup_id opts \<noteq> None
      then Err (app ''partition key and deduplication id cannot be used together'')
      else if wo_dedup_policy opts \<noteq> Reject
      then (if wo_dedup_id opts = None then Err (app ''a deduplication policy requires a deduplication id'')
            else if is_none_or queue (\<lambda>q. q = []) then Err (app ''a deduplication policy requires a queue name'')
            else Ok ())
      else Ok ())"

text \<open>Without the tracing feature.\<close>

definition attributes_for_row :: "workflow_options \<Rightarrow> json option" where
  "attributes_for_row opts = map_option JObject (opt_filter (\<lambda>m. m \<noteq> []) (wo_attributes opts))"

definition as_millis :: "nat \<Rightarrow> int" where
  "as_millis dur = wrap_i64 (int (dur div 1000000))"

text \<open>The clock is read twice: for the delay, then for the creation time of the row.\<close>

definition build_run :: "'s runtime \<Rightarrow> datetime \<Rightarrow> datetime \<Rightarrow> string \<Rightarrow> string \<Rightarrow> json \<Rightarrow> workflow_options \<Rightarrow> string option
  \<Rightarrow> auth_context \<Rightarrow> (workflow_status \<times> bool) result" where
  "build_run rt now created i nm input opts parent auth =
     result_bind (validate_deduplication opts (wo_queue opts)) (\<lambda>_.
      let queued = wo_queue opts \<noteq> None in
      case opt_filter (\<lambda>q. \<not> contains_key (rt_queues rt) q) (wo_queue opts) of Some q \<Rightarrow> Err (UnknownQueue q) | None \<Rightarrow>
      if wo_delay opts \<noteq> None \<and> \<not> queued
      then Err (app ''WorkflowOptions.delay requires a queue; direct runs start immediately'')
      else
       (let now_ms = timestamp_millis now;
            status = (if \<not> queued then STATUS_PENDING else if wo_delay opts = None then STATUS_ENQUEUED else STATUS_DELAYED);
            executor = (if queued then [] else rt_executor_id rt);
            row = (workflow_status_new created i nm input status executor (unwrap_or (rt_app_version rt) (wo_app_version opts)))
              \<lparr>wf_queue_name := wo_queue opts, wf_priority := wo_priority opts,
               wf_queue_partition_key := wo_partition_key opts, wf_dedup_id := wo_dedup_id opts,
               wf_parent_workflow_id := parent, wf_authenticated_user := au_user auth,
               wf_assumed_role := au_assumed_role auth, wf_authenticated_roles := au_roles auth,
               wf_class_name := wo_class_name opts, wf_config_name := wo_config_name opts,
               wf_attributes := attributes_for_row opts, wf_timeout_ms := map_option as_millis (wo_timeout opts),
               wf_delay_until_ms := map_option (\<lambda>d. wrap_i64 (now_ms + as_millis d)) (wo_delay opts)\<rparr>
        in Ok (if queued then row
               else row\<lparr>wf_started_at_ms := Some (timestamp_millis created),
                 wf_deadline_ms := map_option (\<lambda>t. wrap_i64 (timestamp_millis created + t)) (wf_timeout_ms row)\<rparr>,
               queued)))"

definition insert_run :: "'s runtime \<Rightarrow> datetime \<Rightarrow> datetime \<Rightarrow> string \<Rightarrow> string \<Rightarrow> json \<Rightarrow> workflow_options \<Rightarrow> string option
  \<Rightarrow> auth_context \<Rightarrow> 's \<Rightarrow> (workflow_status \<times> bool \<times> bool) result \<times> 's" where
  "insert_run rt now created i nm input opts parent auth s =
     (case build_run rt now created i nm input opts parent auth of
        Inl e \<Rightarrow> (Err e, s)
      | Inr (row, queued) \<Rightarrow> (case p_insert_workflow_status (rt_provider rt) row s of
          (Inl e, s') \<Rightarrow> (Err (observation_error e), s')
        | (Inr (canonical, created), s') \<Rightarrow> (Ok (canonical, queued, created), s')))"

definition check_workflow_target :: "workflow_status \<Rightarrow> string \<Rightarrow> workflow_options \<Rightarrow> unit result" where
  "check_workflow_target row nm opts = check_target row nm (wo_class_name opts) (wo_config_name opts)"

text \<open>The two reads are separate calls: others may act between them.  \<open>s'\<close> is the store at the second.\<close>

definition find_dedup_target :: "'s state_provider \<Rightarrow> string \<Rightarrow> string \<Rightarrow> workflow_options \<Rightarrow> 's \<Rightarrow> 's
  \<Rightarrow> workflow_status option result" where
  "find_dedup_target P queue nm opts s s' =
     (let key = unwrap_or [] (wo_dedup_id opts) in
      result_bind (map_err observation_error (p_get_deduplicated_workflow P queue key s)) (\<lambda>found. case found of
        None \<Rightarrow> Ok None
      | Some i \<Rightarrow> result_bind (map_err observation_error (p_get_workflow_status P i s')) (\<lambda>row. case row of
          None \<Rightarrow> Ok None
        | Some row \<Rightarrow>
           if is_terminal (wf_status row) \<or> wf_dedup_id row \<noteq> Some key \<or> wf_queue_name row \<noteq> Some queue then Ok None
           else result_bind (check_workflow_target row nm opts) (\<lambda>_. Ok (Some row)))))"

definition MAX_DEDUP_ATTEMPTS :: nat where "MAX_DEDUP_ATTEMPTS = 8"

text \<open>The task yields between attempts: \<open>others k\<close> is what happened to the store there.\<close>

fun retry_dedup_from :: "(nat \<Rightarrow> 's \<Rightarrow> 'a option result \<times> 's) \<Rightarrow> (nat \<Rightarrow> 's \<Rightarrow> 's) \<Rightarrow> nat \<Rightarrow> nat \<Rightarrow> 's \<Rightarrow> 'a result \<times> 's" where
  "retry_dedup_from attempt others k 0 s = (Err (ObservationFailed (app ''enqueue deduplication race retry limit exceeded'')), s)"
| "retry_dedup_from attempt others k (Suc left) s = (case attempt k s of
       (Inl e, s') \<Rightarrow> (Err e, s')
     | (Inr (Some v), s') \<Rightarrow> (Ok v, s')
     | (Inr None, s') \<Rightarrow> retry_dedup_from attempt others (Suc k) left (if left = 0 then s' else others k s'))"

definition retry_dedup :: "(nat \<Rightarrow> 's \<Rightarrow> 'a option result \<times> 's) \<Rightarrow> (nat \<Rightarrow> 's \<Rightarrow> 's) \<Rightarrow> 's \<Rightarrow> 'a result \<times> 's" where
  "retry_dedup attempt others s = retry_dedup_from attempt others 0 MAX_DEDUP_ATTEMPTS s"

text \<open>\<open>clock k\<close> are the two readings of attempt \<open>k\<close>; \<open>mid k\<close> is what others did between the insert and
  each of the two reads of the holder.\<close>

definition dedup_attempt :: "'s runtime \<Rightarrow> (nat \<Rightarrow> datetime \<times> datetime) \<Rightarrow> (nat \<Rightarrow> ('s \<Rightarrow> 's) \<times> ('s \<Rightarrow> 's)) \<Rightarrow> string \<Rightarrow> string \<Rightarrow> json
  \<Rightarrow> workflow_options \<Rightarrow> string option \<Rightarrow> auth_context \<Rightarrow> nat \<Rightarrow> 's \<Rightarrow> (workflow_status \<times> bool \<times> bool) option result \<times> 's" where
  "dedup_attempt rt clock mid i nm input opts parent auth k s =
     (case insert_run rt (fst (clock k)) (snd (clock k)) i nm input opts parent auth s of
        (Inr run, s') \<Rightarrow> (result_bind (check_workflow_target (fst run) nm opts) (\<lambda>_. Ok (Some run)), s')
      | (Inl e, s') \<Rightarrow>
         if wo_dedup_policy opts = ReturnExisting \<and> code e = Code_QueueDeduplicated
         then (result_bind (find_dedup_target (rt_provider rt) (unwrap_or [] (wo_queue opts)) nm opts
                 (fst (mid k) s') (snd (mid k) (fst (mid k) s')))
               (\<lambda>row. Ok (map_option (\<lambda>r. (r, True, False)) row)), snd (mid k) (fst (mid k) s'))
         else (Err e, s'))"

definition insert_run_with_dedup :: "'s runtime \<Rightarrow> (nat \<Rightarrow> datetime \<times> datetime) \<Rightarrow> (nat \<Rightarrow> ('s \<Rightarrow> 's) \<times> ('s \<Rightarrow> 's)) \<Rightarrow> (nat \<Rightarrow> 's \<Rightarrow> 's)
  \<Rightarrow> string \<Rightarrow> string \<Rightarrow> json \<Rightarrow> workflow_options \<Rightarrow> string option \<Rightarrow> auth_context \<Rightarrow> 's
  \<Rightarrow> (workflow_status \<times> bool \<times> bool) result \<times> 's" where
  "insert_run_with_dedup rt clock mid others i nm input opts parent auth s =
     retry_dedup (dedup_attempt rt clock mid i nm input opts parent auth) others s"

text \<open>A handle that owns the task of its run, or one that polls the row.\<close>

datatype workflow_handle = Local_Handle string | Polling_Handle string

text \<open>The top-level start.  The row of the task it spawned, if it spawned one, comes with the handle.\<close>

definition engine_start :: "'s runtime \<Rightarrow> (nat \<Rightarrow> datetime \<times> datetime) \<Rightarrow> (nat \<Rightarrow> ('s \<Rightarrow> 's) \<times> ('s \<Rightarrow> 's)) \<Rightarrow> (nat \<Rightarrow> 's \<Rightarrow> 's) \<Rightarrow> string
  \<Rightarrow> 'a serde \<Rightarrow> string \<Rightarrow> 'a \<Rightarrow> workflow_options \<Rightarrow> 's \<Rightarrow> (workflow_handle \<times> workflow_status option) result \<times> 's" where
  "engine_start rt clock mid others fresh T nm input opts s =
     (let i = unwrap_or fresh (opt_filter (\<lambda>s. s \<noteq> []) (wo_workflow_id opts)) in
      case to_value T input of Inl e \<Rightarrow> (Err e, s) | Inr input_json \<Rightarrow>
      case validate_deduplication opts (wo_queue opts) of Inl e \<Rightarrow> (Err e, s) | Inr _ \<Rightarrow>
      if \<not> contains_key (rt_workflows rt) (registry_key nm (wo_config_name opts)) then (Err (UnknownWorkflow nm), s)
      else
       (let auth = \<lparr>au_user = wo_authenticated_user opts, au_assumed_role = wo_assumed_role opts,
              au_roles = wo_authenticated_roles opts\<rparr> in
        case insert_run_with_dedup rt clock mid others i nm input_json opts None auth s of
          (Inl e, s') \<Rightarrow> (Err e, s')
        | (Inr (canonical, queued, created), s') \<Rightarrow>
           (Ok (if queued \<or> \<not> created \<or> is_terminal (wf_status canonical)
                then (Polling_Handle (wf_id canonical), None)
                else (Local_Handle (wf_id canonical), Some canonical)), s')))"

subsection \<open>Children\<close>

definition validate_child_arguments :: "string \<Rightarrow> workflow_options \<Rightarrow> unit result" where
  "validate_child_arguments nm opts =
     (if nm = [] then Err (app ''workflow name is required'')
      else if wo_queue opts = Some [] then Err (app ''queue name is required'')
      else result_bind (validate_deduplication opts (wo_queue opts)) (\<lambda>_.
        if wo_delay opts \<noteq> None \<and> wo_queue opts = None
        then Err (app ''WorkflowOptions.delay requires a queue; direct runs start immediately'')
        else Ok ()))"

definition validate_child_configuration :: "'s runtime \<Rightarrow> string \<Rightarrow> workflow_options \<Rightarrow> unit result" where
  "validate_child_configuration rt nm opts =
     (let handler = contains_key (rt_workflows rt) (registry_key nm (wo_config_name opts)) in
      case wo_queue opts of
        None \<Rightarrow> if handler then Ok () else Err (UnknownWorkflow nm)
      | Some queue \<Rightarrow>
         if \<not> contains_key (rt_queues rt) queue then Err (UnknownQueue queue)
         else if handler then Ok ()
         else if is_none_or (wo_app_version opts) (\<lambda>v. v = [])
         then Err (app ''remote child requires an explicit nonempty app_version naming its worker version'')
         else if wo_app_version opts = Some (rt_app_version rt) \<and> \<not> is_producer_only rt queue
         then Err (app ''same-version remote child queues must be excluded from local dispatch using listen_queues'')
         else Ok ())"

text \<open>The error of a provider call is returned as it is; the caller passes it through the execution.\<close>

definition spawn_child :: "'s runtime \<Rightarrow> string \<Rightarrow> string \<Rightarrow> json \<Rightarrow> workflow_options \<Rightarrow> string \<Rightarrow> int \<Rightarrow> auth_context
  \<Rightarrow> 's world \<Rightarrow> string result \<times> 's world" where
  "spawn_child rt child_id nm input opts parent seq auth w0 =
     (let P = rt_provider rt;
          w = w0\<lparr>w_reads := w_reads w0 + 2\<rparr>;
          dispatch = (\<lambda>canonical created queued w. if created \<and> \<not> queued \<and> \<not> is_terminal (wf_status canonical)
            then w\<lparr>w_spawned := w_spawned w @ [canonical]\<rparr> else w) in
      case build_run rt (w_clock w0 (w_reads w0)) (w_clock w0 (Suc (w_reads w0))) child_id nm input opts (Some parent) auth of
        Inl e \<Rightarrow> (Err e, w)
      | Inr (row, queued) \<Rightarrow>
         (case p_insert_child_workflow P row parent seq (wo_dedup_policy opts = ReturnExisting) (w_store w) of
            (Inl e, s) \<Rightarrow> (Err (observation_error e), w\<lparr>w_store := s\<rparr>)
          | (Inr (Some (Replayed i)), s) \<Rightarrow> (Ok i, w\<lparr>w_store := s\<rparr>)
          | (Inr (Some (Resolved child created)), s) \<Rightarrow>
              (Ok (wf_id child), dispatch child created queued (w\<lparr>w_store := s\<rparr>))
          | (Inr None, s) \<Rightarrow>
              if wo_dedup_policy opts = ReturnExisting
              then (Err (recovery_error (app ''provider must implement atomic child deduplication'')), w\<lparr>w_store := s\<rparr>)
              else (case p_insert_workflow_status P row s of
                 (Inl e, s') \<Rightarrow> (Err (observation_error e), w\<lparr>w_store := s'\<rparr>)
               | (Inr (child, created), s') \<Rightarrow> (case check_workflow_target child nm opts of
                    Inl e \<Rightarrow> (Err e, w\<lparr>w_store := s'\<rparr>)
                  | Inr _ \<Rightarrow> (case p_record_child_workflow P parent seq nm (wf_id child) s' of
                       (Inl e, s'') \<Rightarrow> (Err (observation_error e), dispatch child created queued (w\<lparr>w_store := s''\<rparr>))
                     | (Inr _, s'') \<Rightarrow> (Ok (wf_id child), dispatch child created queued (w\<lparr>w_store := s''\<rparr>)))))))"

text \<open>Only a rejected insert is a durable outcome of the call.\<close>

definition durable_rejection :: "error \<Rightarrow> bool" where
  "durable_rejection e \<longleftrightarrow> (case e of QueueDeduplicated _ _ \<Rightarrow> True | Portable _ \<Rightarrow> True | _ \<Rightarrow> False)
     \<and> (code e = Code_QueueDeduplicated \<or> code e = Code_WorkflowTargetConflict)"

definition child_auth :: "auth_context \<Rightarrow> workflow_options \<Rightarrow> auth_context" where
  "child_auth auth opts = \<lparr>
     au_user = (case wo_authenticated_user opts of Some u \<Rightarrow> Some u | None \<Rightarrow> au_user auth),
     au_assumed_role = (case wo_assumed_role opts of Some r \<Rightarrow> Some r | None \<Rightarrow> au_assumed_role auth),
     au_roles = (if wo_authenticated_roles opts = [] then au_roles auth else wo_authenticated_roles opts)\<rparr>"

definition child_id_for :: "'s durable_context \<Rightarrow> int \<Rightarrow> workflow_options \<Rightarrow> string" where
  "child_id_for ctx seq opts = unwrap_or (cx_workflow_id ctx @ ''-'' @ show_int seq)
     (opt_filter (\<lambda>s. s \<noteq> []) (wo_workflow_id opts))"

definition interrupted :: "'a result \<Rightarrow> ('s, 'a) act" where
  "interrupted r w = (case r of Inr a \<Rightarrow> (Returned (Ok a), w)
     | Inl e \<Rightarrow> (let (e', ex) = interrupt e (w_execution w) in (Returned (Err e'), w\<lparr>w_execution := ex\<rparr>)))"

definition start_live :: "'s runtime \<Rightarrow> 's durable_context \<Rightarrow> auth_context \<Rightarrow> string \<Rightarrow> json \<Rightarrow> workflow_options \<Rightarrow> int \<Rightarrow> ('s, string) act" where
  "start_live rt ctx auth nm input opts seq w = (let cid = child_id_for ctx seq opts in
     case spawn_child rt cid nm input (opts\<lparr>wo_workflow_id := Some cid\<rparr>) (cx_workflow_id ctx) seq (child_auth auth opts) w of
       (Inr i, w') \<Rightarrow> (Returned (Ok i), w')
     | (Inl e, w') \<Rightarrow> (let (e', ex) = record_error e (w_execution w'); w'' = w'\<lparr>w_execution := ex\<rparr> in
         if \<not> durable_rejection e' then (Returned (Err e'), w'')
         else record_failure ctx (cx_strings ctx) seq nm e' None w''))"

definition start_at :: "'s runtime \<Rightarrow> 's durable_context \<Rightarrow> auth_context \<Rightarrow> string \<Rightarrow> json \<Rightarrow> workflow_options \<Rightarrow> int \<Rightarrow> ('s, string) act" where
  "start_at rt ctx auth nm input opts seq =
     and_then (observed (p_check_child_workflow (cx_provider ctx) (cx_workflow_id ctx) seq)) (\<lambda>child. case child of
       Some (child_id, recorded) \<Rightarrow> and_then (check_recorded ctx seq nm recorded) (\<lambda>_. ret (Ok child_id))
     | None \<Rightarrow> and_then (observed (p_get_step_result (cx_provider ctx) (cx_workflow_id ctx) seq)) (\<lambda>found. case found of
         Some rec \<Rightarrow> and_then (check_recorded ctx seq nm (rs_name rec)) (\<lambda>_.
           and_then (recorded_value ctx json_serde (rs_outcome rec)) (\<lambda>_.
           ret (Err (UnexpectedStep (cx_workflow_id ctx) seq ''child workflow'' ''ordinary step''))))
       | None \<Rightarrow> and_then (ret (validate_child_arguments nm opts)) (\<lambda>_.
           and_then (interrupted (validate_child_configuration rt nm opts)) (\<lambda>_.
           and_then (refuse_live_work ctx seq nm) (\<lambda>_.
           and_then (observed (p_get_workflow_status (cx_provider ctx) (cx_workflow_id ctx))) (\<lambda>status.
             if is_some_and status (\<lambda>row. wf_status row = STATUS_CANCELLED)
             then ret (Err (Cancelled (cx_workflow_id ctx)))
             else start_live rt ctx auth nm input opts seq))))))"

definition start_workflow_impl :: "'s runtime \<Rightarrow> 's durable_context \<Rightarrow> auth_context \<Rightarrow> 'a serde \<Rightarrow> string \<Rightarrow> 'a \<Rightarrow> workflow_options
  \<Rightarrow> string \<Rightarrow> ('s, string) act" where
  "start_workflow_impl rt ctx auth T nm input opts operation w =
     (case refuse_inside_body ctx operation w of Inl e \<Rightarrow> (Returned (Err e), w) | Inr _ \<Rightarrow>
      case to_value T input of Inl e \<Rightarrow> (Returned (Err e), w) | Inr input_json \<Rightarrow>
      pending_step ctx operation (start_at rt ctx auth nm input_json opts) w)"

definition start_workflow :: "'s runtime \<Rightarrow> 's durable_context \<Rightarrow> auth_context \<Rightarrow> 'a serde \<Rightarrow> string \<Rightarrow> 'a \<Rightarrow> workflow_options
  \<Rightarrow> ('s, string) act" where
  "start_workflow rt ctx auth T nm input opts = start_workflow_impl rt ctx auth T nm input opts ''start_workflow''"

definition enqueue_workflow :: "'s runtime \<Rightarrow> 's durable_context \<Rightarrow> auth_context \<Rightarrow> 'a serde \<Rightarrow> string \<Rightarrow> string \<Rightarrow> 'a \<Rightarrow> workflow_options
  \<Rightarrow> ('s, string) act" where
  "enqueue_workflow rt ctx auth T queue nm input opts =
     start_workflow_impl rt ctx auth T nm input (opts\<lparr>wo_queue := Some queue\<rparr>) ''enqueue_workflow''"

section \<open>Lemmas\<close>

lemma retry_dedup_from_inv:
  assumes "retry_dedup_from attempt others k n s = (Inr v, s')" "I s"
    and last: "\<And>k s x s'. attempt k s = (Inr (Some x), s') \<Longrightarrow> I s \<Longrightarrow> Q x s'"
    and again: "\<And>k s s'. attempt k s = (Inr None, s') \<Longrightarrow> I s \<Longrightarrow> I s'" and between: "\<And>k s. I s \<Longrightarrow> I (others k s)"
  shows "Q v s'"
  using assms(1,2)
proof (induction n arbitrary: k s)
  case (Suc n)
  obtain r s1 where r: "attempt k s = (r, s1)" by fastforce
  show ?case
  proof (cases r)
    case (Inr found)
    then show ?thesis using Suc r last [of k s] again [of k s] between
      by (cases found) (auto split: if_splits)
  qed (use Suc.prems r in auto)
qed simp

lemma build_run_row:
  assumes "build_run rt now created i nm input opts parent auth = Inr (row, queued)"
  shows "wf_id row = i" "queued = (wo_queue opts \<noteq> None)" "wf_name row = nm" "wf_config_name row = wo_config_name opts"
    "wf_queue_name row = wo_queue opts" "wf_dedup_id row = wo_dedup_id opts" "wf_parent_workflow_id row = parent"
    "\<not> queued \<Longrightarrow> wf_status row = STATUS_PENDING" "queued \<Longrightarrow> wf_status row \<in> {STATUS_ENQUEUED, STATUS_DELAYED}"
  using assms by (auto simp: build_run_def result_bind_def Let_def workflow_status_new_def
      split: sum.splits option.splits if_splits)

lemma insert_run_memory:
  assumes "rt_provider rt = memory_provider C f" "insert_run rt now created i nm input opts parent auth s = (Inr (row, queued, new), s')"
  shows "map_of (workflows s') i = Some row \<and> (new \<longleftrightarrow> \<not> contains_key (workflows s) i) \<and> queued = (wo_queue opts \<noteq> None)
    \<and> (new \<longrightarrow> wf_id row = i \<and> (\<not> queued \<longrightarrow> wf_status row = STATUS_PENDING))"
proof -
  obtain row0 where row0: "build_run rt now created i nm input opts parent auth = Inr (row0, queued)"
      "insert_workflow_status row0 s = (Inr (row, new), s')"
    using assms by (auto simp: insert_run_def split: sum.splits prod.splits)
  then show ?thesis using build_run_row [OF row0(1)]
    by (auto simp: insert_workflow_status_def put_row_def contains_key_def Let_def split: option.splits if_splits prod.splits)
qed

lemma insert_run_keeps:
  assumes "rt_provider rt = memory_provider C f" "insert_run rt now created i nm input opts parent auth s = (r, s')"
    "contains_key (workflows s) j"
  shows "contains_key (workflows s') j"
  using assms by (auto simp: insert_run_def insert_workflow_status_def put_row_def contains_key_def Let_def
      split: sum.splits prod.splits option.splits if_splits)

lemma dedup_attempt_created:
  assumes "rt_provider rt = memory_provider C f"
    and "dedup_attempt rt clock mid i nm input opts parent auth k s = (Inr (Some (row, queued, True)), s')"
  shows "\<not> contains_key (workflows s) i \<and> wf_id row = i \<and> map_of (workflows s') i = Some row
    \<and> (\<not> queued \<longrightarrow> wf_status row = STATUS_PENDING)"
proof -
  have "insert_run rt (fst (clock k)) (snd (clock k)) i nm input opts parent auth s = (Inr (row, queued, True), s')"
    using assms(2) by (auto simp: dedup_attempt_def result_bind_def split: prod.splits sum.splits if_splits)
  from insert_run_memory [OF assms(1) this] show ?thesis by simp
qed

lemma dedup_attempt_observes:
  assumes "rt_provider rt = memory_provider C f"
    and "dedup_attempt rt clock mid i nm input opts parent auth k s = (Inr (Some (row, queued, new)), s')"
    and "contains_key (workflows s) i"
  shows "\<not> new \<and> (wo_dedup_policy opts \<noteq> ReturnExisting \<longrightarrow> map_of (workflows s') i = Some row)"
proof -
  obtain x s1 where x: "insert_run rt (fst (clock k)) (snd (clock k)) i nm input opts parent auth s = (x, s1)" by fastforce
  show ?thesis
  proof (cases x)
    case (Inr run)
    then have "run = (row, queued, new)" "s' = s1"
      using assms(2) x by (auto simp: dedup_attempt_def result_bind_def split: sum.splits)
    with x Inr have "insert_run rt (fst (clock k)) (snd (clock k)) i nm input opts parent auth s = (Inr (row, queued, new), s')" by simp
    from insert_run_memory [OF assms(1) this] assms(3) show ?thesis by simp
  qed (use assms(2) x in \<open>auto simp: dedup_attempt_def result_bind_def split: sum.splits if_splits option.splits\<close>)
qed

lemma dedup_attempt_keeps:
  assumes "rt_provider rt = memory_provider C f" "contains_key (workflows s) j"
    and "dedup_attempt rt clock mid i nm input opts parent auth k s = (r, s')"
    and "\<And>g. contains_key (workflows g) j \<Longrightarrow> contains_key (workflows (fst (mid k) g)) j"
    and "\<And>g. contains_key (workflows g) j \<Longrightarrow> contains_key (workflows (snd (mid k) g)) j"
  shows "contains_key (workflows s') j"
proof -
  obtain x s1 where x: "insert_run rt (fst (clock k)) (snd (clock k)) i nm input opts parent auth s = (x, s1)" by fastforce
  have "contains_key (workflows s1) j" by (rule insert_run_keeps [OF assms(1) x assms(2)])
  then show ?thesis using assms(3-5) x by (auto simp: dedup_attempt_def split: sum.splits if_splits)
qed

lemma spawn_child_memory:
  assumes "rt_provider rt = memory_provider C f" "map_of (steps (w_store w)) (parent, q) = None"
    and "spawn_child rt cid nm input opts parent q auth w = (Inr i, w')"
  shows "map_of (steps (w_store w')) (parent, q) = Some (child_step_row nm i)
    \<and> (w_spawned w' = w_spawned w \<or> (\<exists>row. w_spawned w' = w_spawned w @ [row] \<and> wf_id row = i
        \<and> wf_parent_workflow_id row = Some parent \<and> map_of (workflows (w_store w)) i = None
        \<and> map_of (workflows (w_store w')) i = Some row))"
proof -
  obtain row queued where row: "build_run rt (w_clock w (w_reads w)) (w_clock w (Suc (w_reads w))) cid nm input opts (Some parent) auth = Inr (row, queued)"
    using assms(3) by (auto simp: spawn_child_def Let_def split: sum.splits)
  obtain r s where r: "insert_child_workflow row parent q (wo_dedup_policy opts = ReturnExisting) (w_store w) = (r, s)" by fastforce
  then show ?thesis using assms row build_run_row [OF row]
    by (auto simp: spawn_child_def Let_def insert_child_workflow_def check_child_target_def
        split: sum.splits option.splits if_splits child_insert.splits)
qed

lemma recorded_failure_Err: "recorded_value ctx T (Failure m i) w \<noteq> (Returned (Inr a), w')"
  by (auto simp: recorded_value_def Let_def split: prod.splits sum.splits)

lemma record_failure_Err:
  assumes "cx_provider ctx = memory_provider C f" "map_of (steps (w_store w)) (cx_workflow_id ctx, q) = None"
  shows "record_failure ctx T q nm e st w \<noteq> (Returned (Inr a), w')"
proof
  assume run: "record_failure ctx T q nm e st w = (Returned (Inr a), w')"
  obtain encoded w1 where enc: "write_step_outcome ctx T q nm JNull (Some encoded) st w = (Returned (Inr a), w')"
    using run unfolding record_failure_def
    by (auto simp: and_then_def observed_def storage_def Let_def split: prod.splits run_outcome.splits sum.splits)
  have "lookup_step C (w_store w) (cx_workflow_id ctx) q = None" using assms(2) by (simp add: lookup_step_def)
  from mem_durable.record_outcome_empty [OF assms(1) this, of nm JNull "Some encoded" st] enc
  show False by (auto simp: write_step_outcome_def and_then_def written_outcome_def recorded_failure_Err split: prod.splits)
qed

section \<open>Properties\<close>

text \<open>
  C8: a workflow id starts at most one execution.  A start that dispatches a run
  owns a row that it created, pending, under that id; any later start under the
  same id, unless that is the empty text, which the engine replaces, that
  succeeds, by this process or another, with the same or other options and
  however it is interleaved with others that keep the row, dispatches nothing
  and returns a handle that polls: the run stored under that id, unless its
  deduplication policy lets it join the holder of its slot instead.
\<close>

theorem start_at_most_once:
  assumes "rt_provider rt = memory_provider C f" "rt_provider rt2 = memory_provider C f"
    and "engine_start rt clock mid others fresh T nm input opts s = (Ok (h, Some row), s1)"
    and "contains_key (workflows s2) (wf_id row)" "wo_workflow_id opts2 = Some (wf_id row)" "wf_id row \<noteq> []"
    and "\<forall>k g. contains_key (workflows g) (wf_id row) \<longrightarrow> contains_key (workflows (others2 k g)) (wf_id row)
      \<and> contains_key (workflows (fst (mid2 k) g)) (wf_id row) \<and> contains_key (workflows (snd (mid2 k) g)) (wf_id row)"
    and "engine_start rt2 clock2 mid2 others2 fresh2 T2 nm2 input2 opts2 s2 = (Ok (h2, spawned), s3)"
  shows "h = Local_Handle (wf_id row) \<and> wf_status row = STATUS_PENDING \<and> map_of (workflows s1) (wf_id row) = Some row
    \<and> spawned = None
    \<and> (\<exists>j. h2 = Polling_Handle j
        \<and> (wo_dedup_policy opts2 \<noteq> ReturnExisting \<longrightarrow> map_option wf_id (map_of (workflows s3) (wf_id row)) = Some j))"
proof -
  obtain input_json i where run: "insert_run_with_dedup rt clock mid others i nm input_json opts None
      \<lparr>au_user = wo_authenticated_user opts, au_assumed_role = wo_assumed_role opts, au_roles = wo_authenticated_roles opts\<rparr> s
      = (Inr (row, False, True), s1)" and h: "h = Local_Handle (wf_id row)"
    using assms(3) by (auto simp: engine_start_def Let_def split: sum.splits prod.splits if_splits)
  have "wf_status row = STATUS_PENDING \<and> map_of (workflows s1) (wf_id row) = Some row"
    using retry_dedup_from_inv [OF run [unfolded insert_run_with_dedup_def retry_dedup_def], where I = "\<lambda>_. True"
        and Q = "\<lambda>(row, queued, new) s. new \<and> \<not> queued \<longrightarrow> wf_status row = STATUS_PENDING \<and> map_of (workflows s) (wf_id row) = Some row"]
      dedup_attempt_created [OF assms(1)] by fastforce
  moreover have "spawned = None \<and> (\<exists>j. h2 = Polling_Handle j
      \<and> (wo_dedup_policy opts2 \<noteq> ReturnExisting \<longrightarrow> map_option wf_id (map_of (workflows s3) (wf_id row)) = Some j))"
  proof -
    let ?auth = "\<lparr>au_user = wo_authenticated_user opts2, au_assumed_role = wo_assumed_role opts2, au_roles = wo_authenticated_roles opts2\<rparr>"
    obtain input_json row2 queued2 new2 where run2: "insert_run_with_dedup rt2 clock2 mid2 others2 (wf_id row) nm2 input_json opts2 None ?auth s2
        = (Inr (row2, queued2, new2), s3)" and h2: "\<not> new2 \<Longrightarrow> h2 = Polling_Handle (wf_id row2) \<and> spawned = None"
      using assms(5,6,8) by (auto simp: engine_start_def Let_def split: sum.splits prod.splits if_splits)
    let ?Q = "\<lambda>(a, b, c) s. \<not> c \<and> (wo_dedup_policy opts2 \<noteq> ReturnExisting \<longrightarrow> map_of (workflows s) (wf_id row) = Some a)"
    have observed: "?Q x g'" if "dedup_attempt rt2 clock2 mid2 (wf_id row) nm2 input_json opts2 None ?auth k g = (Inr (Some x), g')"
        "contains_key (workflows g) (wf_id row)" for k g x g'
      using dedup_attempt_observes [OF assms(2) _ that(2)] that(1) by (cases x) (simp, blast)
    have keeps: "contains_key (workflows g') (wf_id row)"
      if "dedup_attempt rt2 clock2 mid2 (wf_id row) nm2 input_json opts2 None ?auth k g = (Inr None, g')"
        "contains_key (workflows g) (wf_id row)" for k g g'
      using dedup_attempt_keeps [OF assms(2) that(2,1)] assms(7) by blast
    have "?Q (row2, queued2, new2) s3"
      by (rule retry_dedup_from_inv [OF run2 [unfolded insert_run_with_dedup_def retry_dedup_def],
          where I = "\<lambda>s. contains_key (workflows s) (wf_id row)", OF assms(4) observed keeps]) (use assms(7) in auto)
    then show ?thesis using h2 by auto
  qed
  ultimately show ?thesis using h by simp
qed

lemma start_live_memory:
  assumes "rt_provider rt = memory_provider C f" "cx_provider ctx = memory_provider C f"
    and "map_of (steps (w_store w)) (cx_workflow_id ctx, q) = None"
    and "start_live rt ctx auth nm input opts q w = (Returned (Inr i), w')"
  shows "map_of (steps (w_store w')) (cx_workflow_id ctx, q) = Some (child_step_row nm i)
    \<and> (w_spawned w' = w_spawned w \<or> (\<exists>row. w_spawned w' = w_spawned w @ [row] \<and> wf_id row = i
        \<and> wf_parent_workflow_id row = Some (cx_workflow_id ctx) \<and> map_of (workflows (w_store w)) i = None
        \<and> map_of (workflows (w_store w')) i = Some row))"
proof -
  let ?cid = "child_id_for ctx q opts"
  obtain r w1 where r: "spawn_child rt ?cid nm input (opts\<lparr>wo_workflow_id := Some ?cid\<rparr>) (cx_workflow_id ctx) q (child_auth auth opts) w = (r, w1)"
    by fastforce
  show ?thesis
  proof (cases r)
    case (Inr x)
    then show ?thesis using spawn_child_memory [OF assms(1,3) r [unfolded Inr]] assms(4) r by (simp add: start_live_def Let_def)
  next
    case (Inl e)
    have "steps (w_store w1) = steps (w_store w)"
      using r Inl assms(1,3) by (auto simp: spawn_child_def Let_def insert_child_workflow_def
          split: sum.splits option.splits if_splits child_insert.splits prod.splits)
    then show ?thesis using r Inl assms(3,4)
      by (auto simp: start_live_def Let_def record_failure_Err [OF assms(2)] split: prod.splits if_splits)
  qed
qed

lemma start_at_memory:
  assumes "rt_provider rt = memory_provider C f" "cx_provider ctx = memory_provider C f"
    and "map_of (steps (w_store w)) (cx_workflow_id ctx, q) = None" "w_verify w = None"
    and "start_at rt ctx auth nm input opts q w = (Returned (Inr i), w')"
  shows "start_live rt ctx auth nm input opts q w = (Returned (Inr i), w')"
proof -
  have "observed (check_child_workflow (cx_workflow_id ctx) q) w = (Returned (Inr None), w)"
    "observed (get_step_result C (cx_workflow_id ctx) q) w = (Returned (Inr None), w)"
    "observed (get_workflow_status (cx_workflow_id ctx)) w = (Returned (Inr (map_of (workflows (w_store w)) (cx_workflow_id ctx))), w)"
    using assms(3) by (simp_all add: check_child_workflow_def get_step_result_def get_workflow_status_def)
  with assms(2,4,5) show ?thesis
    by (auto simp: start_at_def and_then_def ret_def interrupted_def refuse_live_work_def
        split: sum.splits prod.splits if_splits)
qed

text \<open>
  C9: a child is started once.  A child start, made by a run that is not a
  verification at a position without a record, that returns a child dispatches
  at most that child, and only if it created the child's row, which names the
  parent.  Made again at the same position for the same workflow name, with an
  input that converts, in any world that holds the record the first left there
  and under whatever configuration, options and identity, it returns the same
  child, dispatches nothing and writes nothing: the position counter moves on and
  the record is booked as served.  Both calls are made where a durable call may be
  made, with no failure latched, and the position is below its bound.
\<close>

theorem child_start_replays:
  assumes "rt_provider rt = memory_provider C f" "cx_provider ctx = memory_provider C f"
    and "placed w" "latch w = None" "w_verify w = None" "0 \<le> w_seq w" "w_seq w < 2 ^ 31 - 1"
    and "map_of (steps (w_store w)) (cx_workflow_id ctx, w_seq w) = None"
    and "start_workflow rt ctx auth T nm input opts w = (Returned (Ok child), w1)"
    and "placed w2" "latch w2 = None" "w_seq w2 = w_seq w"
    and "map_of (steps (w_store w2)) (cx_workflow_id ctx, w_seq w) = map_of (steps (w_store w1)) (cx_workflow_id ctx, w_seq w)"
    and "to_value T2 input2 = Ok v2"
  shows "start_workflow rt2 ctx auth2 T2 nm input2 opts2 w2 = (Returned (Ok child), booked (served_record (w_seq w)) (w2\<lparr>w_seq := w_seq w + 1\<rparr>))
    \<and> (w_spawned w1 = w_spawned w \<or> (\<exists>row. w_spawned w1 = w_spawned w @ [row] \<and> wf_id row = child
        \<and> wf_parent_workflow_id row = Some (cx_workflow_id ctx) \<and> map_of (workflows (w_store w)) child = None
        \<and> map_of (workflows (w_store w1)) child = Some row))"
proof -
  have next_pos: "wrap_i32 (w_seq w + 1) = w_seq w + 1" using assms(6,7) by (rule wrap_next)
  have free: "refuse_inside_body ctx operation w = Inr ()" "refuse_inside_body ctx operation w2 = Inr ()" for operation
    using assms(3,4,10,11) by (simp_all add: refuse_inside_body_def check_call_def check_placement_def check_def placed_def latch_def)
  obtain v where v: "to_value T input = Inr v"
    using assms(9) free by (auto simp: start_workflow_def start_workflow_impl_def split: sum.splits)
  let ?w = "w\<lparr>w_seq := w_seq w + 1\<rparr>"
  have "start_at rt ctx auth nm v opts (w_seq w) ?w = (Returned (Inr child), w1)"
    using assms(9) free v next_pos by (simp add: start_workflow_def start_workflow_impl_def pending_step_placed [OF assms(3,4)])
  then have live: "start_live rt ctx auth nm v opts (w_seq w) ?w = (Returned (Inr child), w1)"
    using start_at_memory [OF assms(1,2)] assms(5,8) by simp
  have "map_of (steps (w_store ?w)) (cx_workflow_id ctx, w_seq w) = None" using assms(8) by simp
  note started = start_live_memory [OF assms(1,2) this live]
  then have "map_of (steps (w_store w2)) (cx_workflow_id ctx, w_seq w) = Some (child_step_row nm child)" using assms(13) by simp
  then have "start_at rt2 ctx auth2 nm v2 opts2 (w_seq w) (w2\<lparr>w_seq := w_seq w + 1\<rparr>)
      = (Returned (Inr child), booked (served_record (w_seq w)) (w2\<lparr>w_seq := w_seq w + 1\<rparr>))"
    using assms(2) by (simp add: start_at_def and_then_def check_child_workflow_def child_step_row_def check_recorded_def ret_def)
  then have "start_workflow rt2 ctx auth2 T2 nm input2 opts2 w2 = (Returned (Ok child), booked (served_record (w_seq w)) (w2\<lparr>w_seq := w_seq w + 1\<rparr>))"
    using free assms(12,14) next_pos by (simp add: start_workflow_def start_workflow_impl_def pending_step_placed [OF assms(10,11)])
  with started show ?thesis by simp
qed

text \<open>
  A missing configuration interrupts the parent instead of answering it.  A
  child start whose target or queue this process does not know latches the
  failure: the call returns it as a recovery error, nothing is written or
  dispatched, and every later durable call of the execution is refused with it.
\<close>

theorem unknown_child_interrupts:
  assumes "cx_provider ctx = memory_provider C f" "placed w" "latch w = None" "0 \<le> w_seq w" "w_seq w < 2 ^ 31 - 1"
    and "map_of (steps (w_store w)) (cx_workflow_id ctx, w_seq w) = None" "to_value T input = Ok v"
    and "validate_child_arguments nm opts = Ok ()" "validate_child_configuration rt nm opts = Err e" "call_refusal c = None"
  shows "\<exists>w'. start_workflow rt ctx auth T nm input opts w = (Returned (Err (RecoveryRequired (unwrapped e))), w')
    \<and> w_store w' = w_store w \<and> w_spawned w' = w_spawned w
    \<and> run_call ctx c w' = (Returned (Err (RecoveryRequired (unwrapped e))), w')"
proof -
  have next_pos: "wrap_i32 (w_seq w + 1) = w_seq w + 1" using assms(4,5) by (rule wrap_next)
  have free: "refuse_inside_body ctx operation w = Inr ()" for operation
    using assms(2,3) by (simp add: refuse_inside_body_def check_call_def check_placement_def check_def placed_def latch_def)
  let ?w = "w\<lparr>w_seq := w_seq w + 1, w_execution := (w_execution w)\<lparr>ex_failure := Some (unwrapped e)\<rparr>\<rparr>"
  have "interrupt e (w_execution w) = (RecoveryRequired (unwrapped e), (w_execution w)\<lparr>ex_failure := Some (unwrapped e)\<rparr>)"
    using assms(3) by (simp add: interrupt_fresh latch_def)
  then have "start_workflow rt ctx auth T nm input opts w = (Returned (Err (RecoveryRequired (unwrapped e))), ?w)"
    using assms free next_pos
    by (simp add: start_workflow_def start_workflow_impl_def pending_step_placed start_at_def and_then_def
        check_child_workflow_def get_step_result_def ret_def interrupted_def)
  moreover have "placed ?w" "latch ?w = Some (unwrapped e)" using assms(2) by (simp_all add: placed_def latch_def)
  then have "run_call ctx c ?w = (Returned (Err (RecoveryRequired (unwrapped e))), ?w)"
    using refused_call [of ?w c ctx] assms(10) by (simp add: refused_def refusal_def)
  ultimately show ?thesis by auto
qed

section \<open>Witnesses\<close>

definition sample_runtime :: "inner runtime" where
  "sample_runtime = \<lparr>rt_provider = memory_provider plain_codec (\<lambda>t. Some t), rt_workflows = [(''wf'', \<lambda>auth input. ret (Ok input))],
     rt_queues = [], rt_listen_filter = None, rt_required_roles = [], rt_executor_id = ''x'', rt_app_version = ''v'',
     rt_max_recovery_attempts = 5\<rparr>"

definition sample_parent :: inner where
  "sample_parent = inner_default\<lparr>workflows := [(''a'', workflow_status_new 0 ''a'' ''parent'' JNull STATUS_PENDING ''x'' ''v'')]\<rparr>"

definition sample_start :: "inner \<Rightarrow> (workflow_handle \<times> workflow_status option) result \<times> inner" where
  "sample_start g = engine_start sample_runtime (\<lambda>_. (0, 0)) (\<lambda>_. (id, id)) (\<lambda>_. id) ''f'' json_serde ''wf'' (JInt 1)
     (workflow_options_default\<lparr>wo_workflow_id := Some ''b''\<rparr>) g"

definition sample_child :: workflow_status where
  "sample_child = (workflow_status_new 0 ''b'' ''wf'' (JInt 1) STATUS_PENDING ''x'' ''v'')\<lparr>wf_started_at_ms := Some 0\<rparr>"

lemma sample_build:
  "build_run sample_runtime now created i ''wf'' (JInt 1) (workflow_options_default\<lparr>wo_workflow_id := wid\<rparr>) parent
      \<lparr>au_user = None, au_assumed_role = None, au_roles = []\<rparr>
    = Ok (sample_child\<lparr>wf_id := i, wf_parent_workflow_id := parent, wf_created_at := created, wf_updated_at := created,
        wf_started_at_ms := Some (timestamp_millis created)\<rparr>, False)"
  by (simp add: build_run_def validate_deduplication_def workflow_options_default_def opt_filter_def attributes_for_row_def
      sample_runtime_def sample_child_def workflow_status_new_def Let_def)

lemma sample_start_runs:
  "sample_start inner_default = (Ok (Local_Handle ''b'', Some sample_child), inner_default\<lparr>workflows := [(''b'', sample_child)]\<rparr>)"
  "sample_start (inner_default\<lparr>workflows := [(''b'', sample_child)]\<rparr>)
     = (Ok (Polling_Handle ''b'', None), inner_default\<lparr>workflows := [(''b'', sample_child)]\<rparr>)"
proof -
  have b: "sample_child\<lparr>wf_id := ''b'', wf_parent_workflow_id := None, wf_created_at := 0, wf_updated_at := 0,
      wf_started_at_ms := Some (timestamp_millis 0)\<rparr> = sample_child"
    "wf_id sample_child = ''b''" "wf_queue_name sample_child = None" "wf_status sample_child = STATUS_PENDING"
    "wf_name sample_child = ''wf''" "wf_class_name sample_child = None" "wf_config_name sample_child = None"
    by (simp_all add: sample_child_def workflow_status_new_def timestamp_millis_def)
  have opts: "wo_queue workflow_options_default = None" "wo_config_name workflow_options_default = None"
    "wo_class_name workflow_options_default = None" "wo_authenticated_user workflow_options_default = None"
    "wo_assumed_role workflow_options_default = None" "wo_authenticated_roles workflow_options_default = []"
    "validate_deduplication (workflow_options_default\<lparr>wo_workflow_id := Some ''b''\<rparr>) None = Ok ()"
    by (simp_all add: workflow_options_default_def validate_deduplication_def)
  have rt: "rt_provider sample_runtime = memory_provider plain_codec (\<lambda>t. Some t)"
    "contains_key (rt_workflows sample_runtime) ''wf''" by (simp_all add: sample_runtime_def contains_key_def)
  show "sample_start inner_default = (Ok (Local_Handle ''b'', Some sample_child), inner_default\<lparr>workflows := [(''b'', sample_child)]\<rparr>)"
    "sample_start (inner_default\<lparr>workflows := [(''b'', sample_child)]\<rparr>)
     = (Ok (Polling_Handle ''b'', None), inner_default\<lparr>workflows := [(''b'', sample_child)]\<rparr>)"
    unfolding sample_start_def engine_start_def insert_run_with_dedup_def retry_dedup_def MAX_DEDUP_ATTEMPTS_def
    by (simp_all add: b opts rt sample_build eval_nat_numeral opt_filter_def registry_key_def dedup_attempt_def insert_run_def
        insert_workflow_status_def put_row_def check_workflow_target_def check_target_def is_terminal_def inner_default_def Let_def)
qed

theorem start_at_most_once_witness:
  "\<exists>row s1. sample_start inner_default = (Ok (Local_Handle ''b'', Some row), s1) \<and> wf_status row = STATUS_PENDING
    \<and> map_of (workflows s1) ''b'' = Some row \<and> sample_start s1 = (Ok (Polling_Handle ''b'', None), s1)"
proof -
  let ?s = "inner_default\<lparr>workflows := [(''b'', sample_child)]\<rparr>"
  have rt: "rt_provider sample_runtime = memory_provider plain_codec (\<lambda>t. Some t)" by (simp add: sample_runtime_def)
  have b: "wf_id sample_child = ''b''" by code_simp
  have "Local_Handle ''b'' = Local_Handle (wf_id sample_child) \<and> wf_status sample_child = STATUS_PENDING
      \<and> map_of (workflows ?s) (wf_id sample_child) = Some sample_child \<and> (None :: workflow_status option) = None
      \<and> (\<exists>j. Polling_Handle ''b'' = Polling_Handle j
          \<and> (wo_dedup_policy (workflow_options_default\<lparr>wo_workflow_id := Some ''b''\<rparr>) \<noteq> ReturnExisting
            \<longrightarrow> map_option wf_id (map_of (workflows ?s) (wf_id sample_child)) = Some j))"
    by (rule start_at_most_once [OF rt rt sample_start_runs(1) [unfolded sample_start_def] _ _ _ _ sample_start_runs(2) [unfolded sample_start_def]])
      (simp_all add: b contains_key_def)
  then show ?thesis using sample_start_runs b by auto
qed

definition sample_spawn :: "string run_outcome \<times> inner world" where
  "sample_spawn = start_workflow sample_runtime sample_ctx auth_context_default json_serde ''wf'' (JInt 1)
     workflow_options_default (sample_world None sample_parent)"

lemma sample_spawn_child: "fst sample_spawn = Returned (Ok ''a-0'')"
proof -
  let ?w = "(sample_world None sample_parent)\<lparr>w_seq := 1\<rparr>"
  have cid: "child_id_for sample_ctx 0 workflow_options_default = ''a-0''" by code_simp
  have auth: "child_auth auth_context_default workflow_options_default = \<lparr>au_user = None, au_assumed_role = None, au_roles = []\<rparr>"
    by code_simp
  have valid: "validate_child_arguments ''wf'' workflow_options_default = Ok ()"
    "validate_child_configuration sample_runtime ''wf'' workflow_options_default = Ok ()" by code_simp+
  have rt: "rt_provider sample_runtime = memory_provider plain_codec (\<lambda>t. Some t)" by (simp add: sample_runtime_def)
  have parent: "map_of (steps sample_parent) (''a'', 0) = None" "\<exists>row. map_of (workflows sample_parent) ''a'' = Some row \<and> wf_status row = STATUS_PENDING"
    "map_of (workflows sample_parent) ''a-0'' = None"
    by (simp_all add: sample_parent_def inner_default_def workflow_status_new_def)
  have target: "check_child_target row row = Ok ()" for row by (simp add: check_child_target_def check_target_def)
  have "fst (spawn_child sample_runtime ''a-0'' ''wf'' (JInt 1) (workflow_options_default\<lparr>wo_workflow_id := Some ''a-0''\<rparr>) ''a'' 0
      \<lparr>au_user = None, au_assumed_role = None, au_roles = []\<rparr> ?w) = Inr ''a-0''"
    using parent unfolding spawn_child_def
    by (auto simp: sample_build rt insert_child_workflow_def dedup_holder_def target Let_def sample_child_def workflow_status_new_def
        split: option.splits)
  then obtain w' where "start_live sample_runtime sample_ctx auth_context_default ''wf'' (JInt 1) workflow_options_default 0 ?w
      = (Returned (Inr ''a-0''), w')"
    by (cases "spawn_child sample_runtime ''a-0'' ''wf'' (JInt 1) (workflow_options_default\<lparr>wo_workflow_id := Some ''a-0''\<rparr>) ''a'' 0
      \<lparr>au_user = None, au_assumed_role = None, au_roles = []\<rparr> ?w") (auto simp: start_live_def Let_def cid auth)
  moreover have "refuse_inside_body sample_ctx operation (sample_world None sample_parent) = Ok ()" for operation
    by (simp add: refuse_inside_body_def check_call_def check_placement_def check_def sample_world_def execution_new_def)
  ultimately show ?thesis using parent valid
    by (auto simp: sample_spawn_def start_workflow_def start_workflow_impl_def pending_step_placed wrap_i32_def start_at_def
        and_then_def check_child_workflow_def get_step_result_def get_workflow_status_def ret_def interrupted_def refuse_live_work_def)
qed

theorem child_start_replays_witness:
  "start_workflow sample_runtime sample_ctx auth_context_default json_serde ''wf'' (JInt 2) workflow_options_default
      (sample_world None (w_store (snd sample_spawn)))
    = (Returned (Ok ''a-0''), booked (served_record 0) ((sample_world None (w_store (snd sample_spawn)))\<lparr>w_seq := 0 + 1\<rparr>))"
proof -
  have rt: "rt_provider sample_runtime = memory_provider plain_codec (\<lambda>t. Some t)" by (simp add: sample_runtime_def)
  have run: "start_workflow sample_runtime sample_ctx auth_context_default json_serde ''wf'' (JInt 1)
      workflow_options_default (sample_world None sample_parent) = (Returned (Ok ''a-0''), snd sample_spawn)"
    using sample_spawn_child unfolding sample_spawn_def by (metis prod.collapse)
  have "map_of (steps sample_parent) (''a'', 0) = None" by code_simp
  then show ?thesis
    using child_start_replays [OF rt sample_ctx_simps(1) _ _ _ _ _ _ run,
        of "sample_world None (w_store (snd sample_spawn))" json_serde "JInt 2" "JInt 2" sample_runtime auth_context_default workflow_options_default]
    by simp
qed

theorem unknown_child_interrupts_witness:
  "\<exists>w'. start_workflow sample_runtime sample_ctx auth_context_default json_serde ''other'' JNull workflow_options_default
      (sample_world None inner_default) = (Returned (Err (RecoveryRequired (UnknownWorkflow ''other''))), w')
    \<and> run_call sample_ctx Call_now w' = (Returned (Err (RecoveryRequired (UnknownWorkflow ''other''))), w')"
proof -
  have "validate_child_arguments ''other'' workflow_options_default = Ok ()"
    "validate_child_configuration sample_runtime ''other'' workflow_options_default = Err (UnknownWorkflow ''other'')"
    "unwrapped (UnknownWorkflow ''other'') = UnknownWorkflow ''other''"
    by code_simp+
  then show ?thesis
    using unknown_child_interrupts [OF sample_ctx_simps(1), of "sample_world None inner_default" json_serde JNull JNull
        "''other''" workflow_options_default sample_runtime "UnknownWorkflow ''other''" Call_now auth_context_default]
    by (auto simp: inner_default_def)
qed

end
