(* ===== verification/Engine_Run.thy ===== *)
theory Engine_Run
  imports Engine_Start
begin

text \<open>
  Running a workflow to its end (\<open>run_to_completion\<close> of \<open>src/engine.rs\<close>) and
  recovering one that stopped: the role gate, the terminal write, the adoption of
  another execution's outcome, the settlement of an interrupted run and the
  recovery sweep.  Timers, the shutdown token and the steps that other processes
  take between two provider calls are parameters.  Spans and counters are left
  out.
\<close>

section \<open>Definitions\<close>

definition check_required_roles :: "string \<Rightarrow> string list \<Rightarrow> auth_context \<Rightarrow> string result" where
  "check_required_roles nm required auth =
     (if au_roles auth = []
      then Err (NotAuthorized (''workflow `'' @ nm @ ''` requires a role, but was invoked without authentication information''))
      else case List.find (\<lambda>r. r \<in> set (au_roles auth)) required of
        Some r \<Rightarrow> Ok r
      | None \<Rightarrow> Err (NotAuthorized (''workflow `'' @ nm
          @ ''` has required roles, but the caller is not authenticated for any of them'')))"

definition write_terminal_status :: "'s state_provider \<Rightarrow> datetime \<Rightarrow> string \<Rightarrow> string \<Rightarrow> json option \<Rightarrow> string option
  \<Rightarrow> 's \<Rightarrow> bool result \<times> 's" where
  "write_terminal_status P now i status output err s = (case p_set_workflow_status P now i status output err s of
       (Inr landed, s') \<Rightarrow> (Ok landed, s')
     | (Inl e, s') \<Rightarrow>
        if \<not> is_storage_failure e then (Err e, s')
        else (case p_get_workflow_status P i s' of
            Inr (Some recorded) \<Rightarrow> if is_terminal (wf_status recorded) then (Ok False, s') else (Err (recovery_error e), s')
          | _ \<Rightarrow> (Err (recovery_error e), s')))"

text \<open>What a terminal row says the run returned.\<close>

definition recorded_outcome :: "codec \<Rightarrow> string \<Rightarrow> workflow_status \<Rightarrow> json result" where
  "recorded_outcome C i row =
     (if wf_status row = STATUS_SUCCESS then Ok (unwrap_or JNull (wf_output row))
      else if wf_status row = STATUS_CANCELLED then Err (Cancelled i)
      else if wf_status row = STATUS_MAX_RECOVERY_ATTEMPTS_EXCEEDED then Err (MaxRecoveryAttemptsExceeded i)
      else (case map_err observation_error (try_from_parts C (unwrap_or ''workflow failed'' (wf_error row)) (wf_error_info row)) of
          Inl e \<Rightarrow> Err e | Inr e \<Rightarrow> Err e))"

text \<open>\<open>view k\<close> is the store at the \<open>k\<close>-th poll; polling forever is \<open>None\<close>.\<close>

partial_function (option) adopt_recorded_outcome :: "'s state_provider \<Rightarrow> codec \<Rightarrow> string \<Rightarrow> (nat \<Rightarrow> 's) \<Rightarrow> nat \<Rightarrow> json result option" where
  "adopt_recorded_outcome P C i view k = (case p_get_workflow_status P i (view k) of
       Inl e \<Rightarrow> Some (Err (observation_error e))
     | Inr None \<Rightarrow> Some (Err (NonExistentWorkflow i))
     | Inr (Some row) \<Rightarrow> if is_terminal (wf_status row) then Some (recorded_outcome C i row)
          else adopt_recorded_outcome P C i view (Suc k))"

datatype disposition = Retry | ParkAfterPanic

text \<open>How the body ended: it returned, it panicked, or its deadline passed first and it was dropped.\<close>

datatype body_end = Ended "json run_outcome" | Elapsed

definition concluded :: "'s state_provider \<Rightarrow> codec \<Rightarrow> string \<Rightarrow> (nat \<Rightarrow> 's) \<Rightarrow> json result \<Rightarrow> bool result \<times> 's
  \<Rightarrow> (json result \<times> 's) option" where
  "concluded P C i view r written = (case written of
       (Inl e, s) \<Rightarrow> Some (Err e, s)
     | (Inr True, s) \<Rightarrow> Some (r, s)
     | (Inr False, s) \<Rightarrow> map_option (\<lambda>r. (r, s)) (adopt_recorded_outcome P C i view 0))"

definition finalize :: "'s state_provider \<Rightarrow> codec \<Rightarrow> datetime \<Rightarrow> string \<Rightarrow> (nat \<Rightarrow> 's) \<Rightarrow> json result \<Rightarrow> 's
  \<Rightarrow> (json result \<times> 's) option" where
  "finalize P C now i view result s = (case result of
       Inr output \<Rightarrow> concluded P C i view (Ok output) (write_terminal_status P now i STATUS_SUCCESS (Some output) None s)
     | Inl e \<Rightarrow>
        if (case e of WorkflowConflict _ \<Rightarrow> True | _ \<Rightarrow> False)
        then map_option (\<lambda>r. (r, s)) (adopt_recorded_outcome P C i view 0)
        else if is_cancellation_for e i
        then concluded P C i view (Err (Cancelled i)) (write_terminal_status P now i STATUS_CANCELLED None (Some ''cancelled'') s)
        else (case map_err recovery_error (encode_error C (p_serializer P) e) of
            Inl e' \<Rightarrow> Some (Err e', s)
          | Inr encoded \<Rightarrow> concluded P C i view (Err (restore_error C (Some (serializer_name (p_serializer P))) encoded))
              (write_terminal_status P now i STATUS_ERROR None (Some encoded) s)))"

definition checked :: "execution \<Rightarrow> 's \<Rightarrow> (json result \<times> 's) option \<Rightarrow> (json result \<times> 's) option" where
  "checked ex s k = (case check ex of Inl e \<Rightarrow> Some (Err e, s) | Inr _ \<Rightarrow> k)"

text \<open>What the end of the body becomes; \<open>ex\<close> is the execution it left.\<close>

definition settle_body :: "'s state_provider \<Rightarrow> codec \<Rightarrow> datetime \<Rightarrow> string \<Rightarrow> (nat \<Rightarrow> 's) \<Rightarrow> body_end \<Rightarrow> execution \<Rightarrow> 's
  \<Rightarrow> (json result \<times> disposition \<times> 's) option" where
  "settle_body P C now i view ending ex s = (case ending of
       Elapsed \<Rightarrow> map_option (\<lambda>(r, s). (r, Retry, s)) (checked ex s (concluded P C i view (Err Timeout)
          (write_terminal_status P now i STATUS_CANCELLED None (Some ''deadline exceeded'') s)))
     | Ended (Panicked payload) \<Rightarrow> map_option (\<lambda>(r, s). (r, ParkAfterPanic, s)) (checked ex s (Some (
          Err (recovery_error (app (''workflow panicked: '' @ panic_message payload))), s)))
     | Ended (Returned returned) \<Rightarrow>
        (let (result, ex') = (case returned of Inr v \<Rightarrow> (Inr v, ex)
            | Inl e \<Rightarrow> (let (e', ex') = body_error e ex in (Inl e', ex'))) in
         map_option (\<lambda>(r, s). (r, Retry, s)) (checked ex' s (finalize P C now i view result s))))"

text \<open>The identity the body runs under: the first required role the caller holds is assumed.\<close>

definition role_gate :: "'s runtime \<Rightarrow> workflow_status \<Rightarrow> auth_context result" where
  "role_gate rt row = (let auth = from_status row in case map_of (rt_required_roles rt) (wf_name row) of
       None \<Rightarrow> Ok auth
     | Some required \<Rightarrow> result_bind (check_required_roles (wf_name row) required auth)
         (\<lambda>role. Ok (auth\<lparr>au_assumed_role := Some role\<rparr>)))"

text \<open>
  The body runs in a fresh execution of its own.  \<open>timed_out\<close> tells whether, having a
  deadline, it was still running when the timer fired; a run whose execution
  latched a failure while it was suspended is ended there with that failure,
  which is what its next durable call would have returned.
\<close>

definition fresh_world :: "'s runtime \<Rightarrow> workflow_status \<Rightarrow> nat \<Rightarrow> 's world \<Rightarrow> 's world" where
  "fresh_world rt row token w = w\<lparr>w_seq := 0, w_execution := execution_new token (wf_id row), w_verify := None,
     w_current := Some token, w_in_body := False\<rparr>"

definition run_to_completion :: "'s runtime \<Rightarrow> codec \<Rightarrow> (nat \<Rightarrow> 's) \<Rightarrow> 's workflow_fn \<Rightarrow> workflow_status \<Rightarrow> nat \<Rightarrow> bool \<Rightarrow> 's world
  \<Rightarrow> (json result \<times> disposition \<times> 's world) option" where
  "run_to_completion rt C view handler row token timed_out w =
     (let w0 = fresh_world rt row token w;
          (ending, w1) = (case role_gate rt row of
              Inl e \<Rightarrow> (Ended (Returned (Err e)), w0)
            | Inr auth \<Rightarrow> (let (r, w') = handler auth (wf_input row) w0 in
                (if wf_deadline_ms row \<noteq> None \<and> timed_out then Elapsed else Ended r, w'))) in
      map_option (\<lambda>(r, d, s). (r, d, w1\<lparr>w_store := s\<rparr>))
        (settle_body (rt_provider rt) C (w_clock w1 (w_reads w1)) (wf_id row) view ending (w_execution w1) (w_store w1)))"

subsection \<open>Recovery\<close>

text \<open>What the settlement of an interrupted run or a sweep decided for a row.\<close>

datatype settlement = Dispatched workflow_status | Back_On_Queue | Dead_Lettered | Nothing_Done

definition MAX_CLAIM_FAILURES :: nat where "MAX_CLAIM_FAILURES = 8"

definition claim_request :: "'s runtime \<Rightarrow> workflow_status \<Rightarrow> int \<Rightarrow> recovery_claim_request" where
  "claim_request rt row max_attempts = \<lparr>rc_workflow_id = wf_id row, rc_expected_executor = wf_executor_id row,
     rc_expected_attempts = wf_recovery_attempts row, rc_new_executor = rt_executor_id rt,
     rc_max_attempts = max_attempts, rc_requeue = wf_queue_name row \<noteq> None\<rparr>"

text \<open>The wait before claim \<open>k\<close>, in nanoseconds.\<close>

fun claim_delay :: "workflow_status \<Rightarrow> nat \<Rightarrow> int" where
  "claim_delay row 0 = min (100000000 * 2 ^ nat (max 0 (min (wf_recovery_attempts row) 6))) 5000000000"
| "claim_delay row (Suc k) = min (claim_delay row k * 2) 5000000000"

text \<open>
  \<open>cancelled\<close> and \<open>deactivated\<close> read the shutdown and the deactivation token: at
  \<open>2 k\<close> for the wait and the claim of attempt \<open>k\<close>, at \<open>2 k + 1\<close> once its claim was
  answered.  \<open>others k\<close> is what happened to the store during the wait.
\<close>

definition requires_dispatch :: "workflow_status \<Rightarrow> int \<Rightarrow> bool" where
  "requires_dispatch row max_attempts \<longleftrightarrow> wf_queue_name row = None \<and> wf_recovery_attempts row < max_attempts"

fun claim_loop :: "'s runtime \<Rightarrow> workflow_status \<Rightarrow> int \<Rightarrow> (nat \<Rightarrow> bool) \<Rightarrow> (nat \<Rightarrow> bool) \<Rightarrow> (nat \<Rightarrow> datetime) \<Rightarrow> (nat \<Rightarrow> 's \<Rightarrow> 's)
  \<Rightarrow> nat \<Rightarrow> nat \<Rightarrow> 's \<Rightarrow> settlement \<times> 's" where
  "claim_loop rt row max_attempts cancelled deactivated clock others k 0 s = (Nothing_Done, s)"
| "claim_loop rt row max_attempts cancelled deactivated clock others k (Suc left) s =
     (if cancelled (2 * k) \<or> requires_dispatch row max_attempts \<and> deactivated (2 * k) then (Nothing_Done, s)
      else case p_claim_for_recovery (rt_provider rt) (clock k) (claim_request rt row max_attempts) (others k s) of
        (Inr Requeued, s') \<Rightarrow> (Back_On_Queue, s')
      | (Inr (Claimed attempts), s') \<Rightarrow> if cancelled (2 * k + 1) \<or> deactivated (2 * k + 1) then (Nothing_Done, s')
          else (Dispatched (row\<lparr>wf_executor_id := rt_executor_id rt, wf_recovery_attempts := attempts\<rparr>), s')
      | (Inr (Parked attempts), s') \<Rightarrow> (Dead_Lettered, s')
      | (Inr Lost, s') \<Rightarrow> (Nothing_Done, s')
      | (Inl e, s') \<Rightarrow> claim_loop rt row max_attempts cancelled deactivated clock others (Suc k) left s')"

definition recover_interrupted_run :: "'s runtime \<Rightarrow> workflow_status \<Rightarrow> disposition \<Rightarrow> (nat \<Rightarrow> bool) \<Rightarrow> (nat \<Rightarrow> bool) \<Rightarrow> (nat \<Rightarrow> datetime)
  \<Rightarrow> (nat \<Rightarrow> 's \<Rightarrow> 's) \<Rightarrow> 's \<Rightarrow> settlement \<times> 's" where
  "recover_interrupted_run rt row disp cancelled deactivated clock others s =
     claim_loop rt row (case disp of Retry \<Rightarrow> rt_max_recovery_attempts rt | ParkAfterPanic \<Rightarrow> wf_recovery_attempts row)
       cancelled deactivated clock others 0 MAX_CLAIM_FAILURES s"

definition list_pending_workflows :: "'s runtime \<Rightarrow> string list \<Rightarrow> 's \<Rightarrow> workflow_status list result" where
  "list_pending_workflows rt executor_ids s = p_list_workflows (rt_provider rt) (list_filter_default\<lparr>
     lf_status := [STATUS_PENDING], lf_app_version := (if rt_app_version rt = [] then [] else [rt_app_version rt]),
     lf_executor_ids := executor_ids\<rparr>) s"

text \<open>\<open>stop k\<close>: cancellation was seen before record \<open>k\<close>.  The runs dispatched come with the ids recovered.\<close>

fun dispatch_pending_from :: "'s runtime \<Rightarrow> int \<Rightarrow> (nat \<Rightarrow> bool) \<Rightarrow> (nat \<Rightarrow> datetime) \<Rightarrow> (nat \<Rightarrow> 's \<Rightarrow> 's) \<Rightarrow> nat \<Rightarrow> workflow_status list
  \<Rightarrow> string list \<Rightarrow> workflow_status list \<Rightarrow> 's \<Rightarrow> string list result \<times> workflow_status list \<times> 's" where
  "dispatch_pending_from rt max_attempts stop clock others k [] recovered spawned s = (Ok recovered, spawned, s)"
| "dispatch_pending_from rt max_attempts stop clock others k (row # rows) recovered spawned s0 =
     (if stop k then (Ok recovered, spawned, s0)
      else let s = others k s0 in
      if wf_queue_name row = None \<and> \<not> contains_key (rt_workflows rt) (registry_key (wf_name row) (wf_config_name row))
      then dispatch_pending_from rt max_attempts stop clock others (Suc k) rows recovered spawned s
      else case p_claim_for_recovery (rt_provider rt) (clock k) (claim_request rt row max_attempts) s of
        (Inl e, s') \<Rightarrow> (Err e, spawned, s')
      | (Inr Lost, s') \<Rightarrow> dispatch_pending_from rt max_attempts stop clock others (Suc k) rows recovered spawned s'
      | (Inr (Parked attempts), s') \<Rightarrow> dispatch_pending_from rt max_attempts stop clock others (Suc k) rows recovered spawned s'
      | (Inr Requeued, s') \<Rightarrow> dispatch_pending_from rt max_attempts stop clock others (Suc k) rows (recovered @ [wf_id row]) spawned s'
      | (Inr (Claimed attempts), s') \<Rightarrow> dispatch_pending_from rt max_attempts stop clock others (Suc k) rows (recovered @ [wf_id row])
          (spawned @ [row\<lparr>wf_executor_id := rt_executor_id rt, wf_recovery_attempts := attempts\<rparr>]) s')"

definition dispatch_pending_workflows :: "'s runtime \<Rightarrow> int \<Rightarrow> (nat \<Rightarrow> bool) \<Rightarrow> (nat \<Rightarrow> datetime) \<Rightarrow> (nat \<Rightarrow> 's \<Rightarrow> 's) \<Rightarrow> workflow_status list
  \<Rightarrow> 's \<Rightarrow> string list result \<times> workflow_status list \<times> 's" where
  "dispatch_pending_workflows rt max_attempts stop clock others pending s =
     dispatch_pending_from rt max_attempts stop clock others 0 pending [] [] s"

definition recover_pending_workflows :: "'s runtime \<Rightarrow> int \<Rightarrow> string list \<Rightarrow> (nat \<Rightarrow> bool) \<Rightarrow> (nat \<Rightarrow> datetime) \<Rightarrow> (nat \<Rightarrow> 's \<Rightarrow> 's)
  \<Rightarrow> 's \<Rightarrow> string list result \<times> workflow_status list \<times> 's" where
  "recover_pending_workflows rt max_attempts executor_ids stop clock others s =
     (case list_pending_workflows rt executor_ids s of
        Inl e \<Rightarrow> (Err e, [], s)
      | Inr pending \<Rightarrow> dispatch_pending_workflows rt max_attempts stop clock others pending s)"

section \<open>Lemmas\<close>

lemma checked_cases:
  "checked ex s k = (case ex_failure ex of Some e \<Rightarrow> Some (Err (RecoveryRequired e), s) | None \<Rightarrow> k)"
  by (simp add: checked_def check_def split: option.split)

lemma body_error_failure: "ex_failure ex = Some f \<Longrightarrow> ex_failure (snd (body_error e ex)) = Some f"
  by (cases e) (simp_all add: body_error_def)

lemma settle_interrupted:
  assumes "ex_failure ex = Some f"
  shows "\<exists>d. settle_body P C now i view ending ex s = Some (Err (RecoveryRequired f), d, s)"
  using assms
  by (cases ending)
    (auto simp: settle_body_def checked_cases body_error_failure Let_def case_prod_unfold split: run_outcome.split sum.split)

definition interruption :: "'a result \<Rightarrow> bool" where
  "interruption r = (case r of Inl (RecoveryRequired _) \<Rightarrow> True | Inl (ObservationFailed _) \<Rightarrow> True | _ \<Rightarrow> False)"

text \<open>What a terminal row and what a run returned have to do with each other.\<close>

definition settled_as :: "json result \<Rightarrow> workflow_status \<Rightarrow> bool" where
  "settled_as r row \<longleftrightarrow> is_terminal (wf_status row) \<and> (case r of
       Inr v \<Rightarrow> wf_status row = STATUS_SUCCESS \<and> unwrap_or JNull (wf_output row) = v
     | Inl e \<Rightarrow> wf_status row \<noteq> STATUS_SUCCESS)"

text \<open>The run's row bears its result in the store it left, or a later poll found a row that does, or found none.\<close>

definition accounted :: "string \<Rightarrow> (nat \<Rightarrow> inner) \<Rightarrow> json result \<Rightarrow> inner \<Rightarrow> bool" where
  "accounted i view r s \<longleftrightarrow> (\<exists>row. (map_of (workflows s) i = Some row \<or> (\<exists>k. map_of (workflows (view k)) i = Some row)) \<and> settled_as r row)
     \<or> r = Err (NonExistentWorkflow i) \<and> (\<exists>k. map_of (workflows (view k)) i = None)"

lemma recorded_outcome_settled: "is_terminal (wf_status row) \<Longrightarrow> settled_as (recorded_outcome C i row) row"
  by (auto simp: settled_as_def recorded_outcome_def split: sum.splits)

lemma accounted_view:
  "map_of (workflows (view k)) i = Some row \<Longrightarrow> is_terminal (wf_status row) \<Longrightarrow> accounted i view (recorded_outcome C i row) s"
  "map_of (workflows (view k)) i = None \<Longrightarrow> accounted i view (Err (NonExistentWorkflow i)) s"
  unfolding accounted_def using recorded_outcome_settled by blast+

lemma adopt_accounted:
  assumes "adopt_recorded_outcome (memory_provider C f) C' i view k = Some r"
  shows "accounted i view r s"
proof -
  have "(\<lambda>((((P, _), i), view), _) r. P = memory_provider C f \<longrightarrow> accounted i view r s) ((((memory_provider C f, C'), i), view), k) r"
    by (rule adopt_recorded_outcome.raw_induct [OF _ assms])
      (auto simp: get_workflow_status_def split: option.splits if_splits intro: accounted_view)
  then show ?thesis by simp
qed

lemma terminal_write_landed:
  assumes "write_terminal_status (memory_provider C f) now i status output err s = (r, s')"
  shows "\<exists>landed. r = Inr landed \<and> (landed \<longrightarrow> (\<exists>row. map_of (workflows s') i = Some row \<and> wf_status row = status
    \<and> (\<forall>v. output = Some v \<longrightarrow> wf_output row = Some v)))"
proof -
  have "wf_status (apply_status C now status output err row) = status"
    "output = Some v \<Longrightarrow> wf_output (apply_status C now status output err row) = Some v" for row v
    by (auto simp: apply_status_def Let_def split: option.split prod.split)
  then show ?thesis using assms
    by (auto simp: write_terminal_status_def set_workflow_status_def split: option.splits if_splits)
qed

lemma concluded_accounted:
  assumes "concluded (memory_provider C f) C' i view r (write_terminal_status (memory_provider C f) now i status output err s) = Some (r', s')"
    and "is_terminal status" "case r of Inr v \<Rightarrow> status = STATUS_SUCCESS \<and> output = Some v | Inl e \<Rightarrow> status \<noteq> STATUS_SUCCESS"
  shows "accounted i view r' s'"
proof -
  obtain landed s1 where w: "write_terminal_status (memory_provider C f) now i status output err s = (Inr landed, s1)"
    "landed \<Longrightarrow> \<exists>row. map_of (workflows s1) i = Some row \<and> wf_status row = status \<and> (\<forall>v. output = Some v \<longrightarrow> wf_output row = Some v)"
    using terminal_write_landed by (metis surj_pair)
  show ?thesis
  proof (cases landed)
    case True
    then show ?thesis using assms w by (fastforce simp: concluded_def accounted_def settled_as_def split: sum.splits)
  next
    case False
    then show ?thesis using assms(1) w(1) adopt_accounted by (auto simp: concluded_def)
  qed
qed

section \<open>Properties\<close>

text \<open>
  An interrupted execution decides nothing.  If the execution latched a
  failure of the storage while the body ran, whatever the body made of it, or if
  the body panicked, the run ends with a recovery error and no outcome is
  written, on any provider: the row stays for recovery.
\<close>

theorem interrupted_run_undecided:
  assumes "role_gate rt row = Ok auth" "handler auth (wf_input row) (fresh_world rt row token w) = (r, w1)"
    and "latch w1 \<noteq> None \<or> \<not> timed_out \<and> (\<exists>p. r = Panicked p)"
  shows "\<exists>cause d. run_to_completion rt C view handler row token timed_out w = Some (Err (RecoveryRequired cause), d, w1)"
proof (cases "latch w1")
  case (Some f)
  obtain d where "settle_body (rt_provider rt) C (w_clock w1 (w_reads w1)) (wf_id row) view
      (if wf_deadline_ms row \<noteq> None \<and> timed_out then Elapsed else Ended r) (w_execution w1) (w_store w1)
      = Some (Err (RecoveryRequired f), d, w_store w1)"
    by (rule exE [OF settle_interrupted [OF Some [unfolded latch_def]]])
  then show ?thesis using assms(1,2) by (simp add: run_to_completion_def Let_def)
next
  case None
  with assms show ?thesis
    by (auto simp: run_to_completion_def Let_def settle_body_def checked_cases latch_def recovery_error_def app_def)
qed

lemma finalize_accounted:
  assumes "finalize (memory_provider C f) C' now i view result s = Some (r, s')" "\<not> interruption r"
  shows "accounted i view r s'"
proof (cases result)
  case (Inr v)
  then show ?thesis using assms(1)
    by (simp add: finalize_def concluded_accounted [where r = "Inr v" and status = STATUS_SUCCESS] is_terminal_def)
next
  case (Inl e)
  have enc: "interruption (Err (recovery_error x) :: json result)" for x
    by (cases x) (simp_all add: interruption_def recovery_error_def)
  show ?thesis
    using assms Inl adopt_accounted enc
    by (auto simp: finalize_def is_terminal_def map_err_def
        dest!: concluded_accounted [where r = "Inl e'" and status = STATUS_ERROR for e']
          concluded_accounted [where r = "Inl e'" and status = STATUS_CANCELLED for e']
        split: if_splits sum.splits)
qed

text \<open>
  A run reports only what is recorded.  Unless the run was interrupted, what
  it returns is in its row: it reports success with an output only if the row
  holds that success and output, and an error only if the row ended otherwise,
  whether its own write landed or it lost the row and waited for the outcome of
  the execution that owns it; if the row is gone it says so.
\<close>

theorem run_reports_recorded:
  assumes "rt_provider rt = memory_provider C f" "run_to_completion rt C' view handler row token timed_out w = Some (r, d, w')"
    and "\<not> interruption r"
  shows "accounted (wf_id row) view r (w_store w')"
proof -
  obtain ending w1 s where run: "settle_body (memory_provider C f) C' (w_clock w1 (w_reads w1)) (wf_id row) view ending (w_execution w1) (w_store w1)
      = Some (r, d, s)" "w' = w1\<lparr>w_store := s\<rparr>"
    using assms(1,2) by (auto simp: run_to_completion_def Let_def case_prod_unfold)
  have rec: "interruption (Err (RecoveryRequired x) :: json result)" "interruption (Err (recovery_error (app m)) :: json result)" for x m
    by (simp_all add: interruption_def recovery_error_def app_def)
  show ?thesis
  proof (cases ending)
    case Elapsed
    then show ?thesis using run assms(3) rec
      by (auto simp: settle_body_def checked_cases is_terminal_def split: option.splits
          dest!: concluded_accounted [where r = "Inl e'" and status = STATUS_CANCELLED for e'])
  next
    case (Ended x)
    then show ?thesis using run assms(3) rec
      by (auto simp: settle_body_def checked_cases Let_def case_prod_unfold split: option.splits run_outcome.splits sum.splits
          dest!: finalize_accounted)
  qed
qed

lemma from_status_roles: "au_roles (from_status row) = wf_authenticated_roles row"
  by (simp add: from_status_def)

text \<open>
  The role gate stands before every run.  Where a workflow requires roles, a
  run assumes the first required role that its caller holds; if the caller holds
  none it is denied and never enters its body: whatever the body is, the run
  does the same.
\<close>

theorem role_gate_guards_body:
  assumes "map_of (rt_required_roles rt) (wf_name row) = Some required"
  shows "case List.find (\<lambda>r. r \<in> set (wf_authenticated_roles row)) required of
      Some role \<Rightarrow> role_gate rt row = Ok ((from_status row)\<lparr>au_assumed_role := Some role\<rparr>)
    | None \<Rightarrow> (\<exists>m. role_gate rt row = Err (NotAuthorized m))
        \<and> run_to_completion rt C view handler row token t w = run_to_completion rt C view handler' row token t' w"
proof (cases "List.find (\<lambda>r. r \<in> set (wf_authenticated_roles row)) required")
  case None
  then have "\<exists>m. role_gate rt row = Err (NotAuthorized m)"
    using assms by (simp add: role_gate_def check_required_roles_def from_status_roles Let_def)
  then show ?thesis using None by (auto simp: run_to_completion_def)
next
  case (Some role)
  then have "wf_authenticated_roles row \<noteq> []" by (auto simp: find_Some_iff)
  then show ?thesis using assms Some by (simp add: role_gate_def check_required_roles_def from_status_roles Let_def)
qed

subsection \<open>Recovery\<close>

text \<open>The generation of a workflow that a sweep listed has been claimed.\<close>

definition spent :: "int \<Rightarrow> string \<Rightarrow> inner \<Rightarrow> bool" where
  "spent a i s \<longleftrightarrow> (\<forall>row. map_of (workflows s) i = Some row \<longrightarrow> a < wf_recovery_attempts row)"

lemma claim_spent:
  assumes "claim_for_recovery now (claim_request rt row m) s = (r, s')"
    and "wf_id row = i \<longrightarrow> wf_recovery_attempts row = a" "0 \<le> a" "a < 2 ^ 31 - 1"
  shows "spent a i s \<Longrightarrow> spent a i s' \<and> (wf_id row = i \<longrightarrow> r = Inr Lost)"
    and "wf_id row = i \<Longrightarrow> r \<noteq> Inr Lost \<Longrightarrow> spent a i s'"
  using assms wrap_next [OF assms(3,4)]
  by (auto simp: claim_for_recovery_cases claim_request_def claim_matches_def spent_def update_conv'
      split: option.splits if_splits)

lemma sweep_keeps_spent:
  assumes "rt_provider rt = memory_provider C f" "\<And>k g. spent a i g \<Longrightarrow> spent a i (others k g)" "0 \<le> a" "a < 2 ^ 31 - 1"
  shows "dispatch_pending_from rt m stop clock others k rows recovered spawned s = (res, spawned', s')
    \<Longrightarrow> \<forall>row \<in> set rows. wf_id row = i \<longrightarrow> wf_recovery_attempts row = a \<Longrightarrow> spent a i s
    \<Longrightarrow> spent a i s' \<and> filter (\<lambda>r. wf_id r = i) spawned' = filter (\<lambda>r. wf_id r = i) spawned"
proof (induction rows arbitrary: k recovered spawned s)
  case (Cons row rows)
  have "spent a i (others k s)" using Cons.prems(3) assms(2) by blast
  note step = claim_spent(1) [OF _ _ assms(3,4) this, where row = row and rt = rt and m = m and now = "clock k"]
  show ?case using Cons.prems step assms(1,2)
    by (auto simp: Let_def split: if_splits prod.splits sum.splits recovery_claim.splits dest!: Cons.IH)
qed simp

lemma sweep_spends:
  assumes "rt_provider rt = memory_provider C f" "\<And>k g. spent a i g \<Longrightarrow> spent a i (others k g)" "0 \<le> a" "a < 2 ^ 31 - 1"
  shows "dispatch_pending_from rt m stop clock others k rows recovered spawned s = (res, spawned', s')
    \<Longrightarrow> \<forall>row \<in> set rows. wf_id row = i \<longrightarrow> wf_recovery_attempts row = a
    \<Longrightarrow> filter (\<lambda>r. wf_id r = i) spawned' \<noteq> filter (\<lambda>r. wf_id r = i) spawned \<Longrightarrow> spent a i s'"
proof (induction rows arbitrary: k recovered spawned s)
  case (Cons row rows)
  obtain r s1 where claim: "claim_for_recovery (clock k) (claim_request rt row m) (others k s) = (r, s1)" by fastforce
  show ?case
  proof (cases "wf_id row = i \<and> r \<noteq> Inr Lost")
    case True
    then have "spent a i s1" using claim_spent(2) [OF claim _ assms(3,4)] Cons.prems(2) by auto
    moreover have "\<forall>row \<in> set rows. wf_id row = i \<longrightarrow> wf_recovery_attempts row = a" using Cons.prems(2) by simp
    ultimately have keep: "dispatch_pending_from rt m stop clock others (Suc k) rows rec sp s1 = (res, spawned', s') \<Longrightarrow> spent a i s'"
      for rec sp using sweep_keeps_spent [where others = others, OF assms] by blast
    show ?thesis using Cons.prems claim assms(1) True keep Cons.IH [of "Suc k" recovered spawned "others k s"]
      by (auto simp: Let_def split: if_splits sum.splits recovery_claim.splits)
  next
    case False
    then show ?thesis using Cons.prems claim assms(1)
      by (auto simp: Let_def split: if_splits sum.splits recovery_claim.splits dest: Cons.IH)
  qed
qed simp

text \<open>
  C10: two recovery sweeps never run the same workflow twice.  When two sweeps, of
  this or of another process, listed the same generation of a workflow and the
  first dispatched it, the second does not, whatever other clients do to the
  store in between and during the sweeps, as long as they do not take a
  generation back.
\<close>

theorem sweep_dispatches_once:
  assumes rt: "rt_provider rt = memory_provider C f" "rt_provider rt' = memory_provider C' f'"
    and others: "\<And>k g. spent a i g \<Longrightarrow> spent a i (others k g)" "\<And>k g. spent a i g \<Longrightarrow> spent a i (others' k g)"
      "spent a i s1 \<Longrightarrow> spent a i s2"
    and a: "0 \<le> a" "a < 2 ^ 31 - 1"
    and first: "dispatch_pending_workflows rt m stop clock others pending s = (res, spawned, s1)"
      "\<forall>row \<in> set pending. wf_id row = i \<longrightarrow> wf_recovery_attempts row = a" "i \<in> wf_id ` set spawned"
    and second: "dispatch_pending_workflows rt' m' stop' clock' others' pending' s2 = (res', spawned', s3)"
      "\<forall>row \<in> set pending'. wf_id row = i \<longrightarrow> wf_recovery_attempts row = a"
  shows "i \<notin> wf_id ` set spawned'"
proof -
  have "spent a i s1"
    using sweep_spends [where others = others, OF rt(1) others(1) a first(1) [unfolded dispatch_pending_workflows_def] first(2)] first(3)
    by (auto simp: filter_empty_conv)
  then have "spent a i s2" by (rule others(3))
  then show ?thesis
    using sweep_keeps_spent [where others = others', OF rt(2) others(2) a second(1) [unfolded dispatch_pending_workflows_def] second(2)]
    by (auto simp: filter_empty_conv)
qed

lemma claim_of_generation:
  assumes "map_of (workflows g) (wf_id row) = Some now" "0 \<le> wf_recovery_attempts row" "wf_recovery_attempts row < 2 ^ 31 - 1"
  shows "claim_for_recovery t (claim_request rt row m) g =
    (if \<not> (wf_status now = STATUS_PENDING \<and> wf_executor_id now = wf_executor_id row \<and> wf_recovery_attempts now = wf_recovery_attempts row)
     then (Ok Lost, g)
     else let now' = now\<lparr>wf_recovery_attempts := wf_recovery_attempts row + 1, wf_updated_at := t\<rparr>;
       (claim, row') = (if m \<le> wf_recovery_attempts row
         then (Parked (wf_recovery_attempts row + 1), now'\<lparr>wf_status := STATUS_MAX_RECOVERY_ATTEMPTS_EXCEEDED, wf_dedup_id := None\<rparr>)
         else if wf_queue_name row \<noteq> None then (Requeued, now'\<lparr>wf_status := STATUS_ENQUEUED, wf_started_at_ms := None\<rparr>)
         else (Claimed (wf_recovery_attempts row + 1), now'\<lparr>wf_executor_id := rt_executor_id rt\<rparr>))
       in (Ok claim, g\<lparr>workflows := AList.update (wf_id row) row' (workflows g)\<rparr>))"
  using assms(1) wrap_next [OF assms(2,3)]
  by (simp add: claim_for_recovery_cases claim_request_def claim_matches_def claim_row_def Let_def)

lemma settles_by_claim:
  assumes "rt_provider rt = memory_provider C f" "\<not> cancelled 0" "requires_dispatch row m \<longrightarrow> \<not> deactivated 0"
  shows "claim_loop rt row m cancelled deactivated clock others 0 (Suc n) s =
    (case claim_for_recovery (clock 0) (claim_request rt row m) (others 0 s) of
       (Inr (Claimed attempts), s') \<Rightarrow> (if cancelled 1 \<or> deactivated 1 then Nothing_Done
          else Dispatched (row\<lparr>wf_executor_id := rt_executor_id rt, wf_recovery_attempts := attempts\<rparr>), s')
     | (Inr Requeued, s') \<Rightarrow> (Back_On_Queue, s') | (Inr (Parked _), s') \<Rightarrow> (Dead_Lettered, s') | (_, s') \<Rightarrow> (Nothing_Done, s'))"
  using assms by (auto simp: claim_for_recovery_cases split: option.split recovery_claim.split)

text \<open>
  C11: an interrupted run is settled once and in its row.  As long as the process is
  not shut down and the store holds the generation that stopped, a run that
  panicked is parked and a run that used up its attempts is dead-lettered; a queued
  run goes back on its queue, even in a deactivated executor; and a run without a
  queue is dispatched again, owned by this executor, one attempt further and
  within the limit, unless the executor is deactivated, which then touches
  nothing before the claim.  If the generation moved on, nothing is done.
\<close>

theorem interrupted_run_settled:
  assumes rt: "rt_provider rt = memory_provider C f" and live: "\<not> cancelled 0" "\<not> cancelled 1"
    and attempts: "0 \<le> wf_recovery_attempts row" "wf_recovery_attempts row < 2 ^ 31 - 1"
    and store: "map_of (workflows (others 0 s)) (wf_id row) = Some now"
    and settles: "recover_interrupted_run rt row disp cancelled deactivated clock others s = (d, s')"
  shows "if \<not> (wf_status now = STATUS_PENDING \<and> wf_executor_id now = wf_executor_id row \<and> wf_recovery_attempts now = wf_recovery_attempts row)
    then d = Nothing_Done \<and> s' \<in> {s, others 0 s}
    else if disp = ParkAfterPanic \<or> rt_max_recovery_attempts rt \<le> wf_recovery_attempts row
    then d = Dead_Lettered \<and> map_option wf_status (map_of (workflows s') (wf_id row)) = Some STATUS_MAX_RECOVERY_ATTEMPTS_EXCEEDED
    else if wf_queue_name row \<noteq> None
    then d = Back_On_Queue \<and> map_option wf_status (map_of (workflows s') (wf_id row)) = Some STATUS_ENQUEUED
    else if deactivated 0 then d = Nothing_Done \<and> s' = s
    else d = (if deactivated 1 then Nothing_Done
          else Dispatched (row\<lparr>wf_executor_id := rt_executor_id rt, wf_recovery_attempts := wf_recovery_attempts row + 1\<rparr>))
      \<and> wf_recovery_attempts row + 1 \<le> rt_max_recovery_attempts rt
      \<and> map_of (workflows s') (wf_id row) = Some (now\<lparr>wf_executor_id := rt_executor_id rt,
          wf_recovery_attempts := wf_recovery_attempts row + 1, wf_updated_at := clock 0\<rparr>)"
proof -
  define m where "m = (case disp of Retry \<Rightarrow> rt_max_recovery_attempts rt | ParkAfterPanic \<Rightarrow> wf_recovery_attempts row)"
  have m: "m \<le> wf_recovery_attempts row \<longleftrightarrow> disp = ParkAfterPanic \<or> rt_max_recovery_attempts rt \<le> wf_recovery_attempts row"
    unfolding m_def by (cases disp) auto
  obtain n where "MAX_CLAIM_FAILURES = Suc n" by (simp add: MAX_CLAIM_FAILURES_def eval_nat_numeral)
  then have loop: "claim_loop rt row m cancelled deactivated clock others 0 (Suc n) s = (d, s')"
    using settles by (simp add: recover_interrupted_run_def m_def)
  show ?thesis
  proof (cases "requires_dispatch row m \<and> deactivated 0")
    case True
    then have "\<not> m \<le> wf_recovery_attempts row" "wf_queue_name row = None" by (auto simp: requires_dispatch_def)
    moreover have "d = Nothing_Done \<and> s' = s" using loop True by simp
    ultimately show ?thesis using m True by simp
  next
    case False
    then have "requires_dispatch row m \<longrightarrow> \<not> deactivated 0" by blast
    note run = loop [unfolded settles_by_claim [where cancelled = cancelled and deactivated = deactivated, OF rt live(1) this] claim_of_generation [OF store attempts]]
    have "\<not> m \<le> wf_recovery_attempts row \<Longrightarrow> wf_queue_name row = None \<Longrightarrow> \<not> deactivated 0"
      using False by (auto simp: requires_dispatch_def)
    with run m live(2) show ?thesis by (force simp: Let_def split: if_splits)
  qed
qed

section \<open>Witnesses\<close>

definition sample_store :: inner where
  "sample_store = inner_default\<lparr>workflows := [(''b'', sample_child)]\<rparr>"

lemmas sample_run_simps = sample_store_def sample_runtime_def sample_child_def workflow_status_new_def inner_default_def

lemma interrupted_run_undecided_witness:
  "\<exists>cause d. run_to_completion sample_runtime plain_codec (\<lambda>_. sample_store) (\<lambda>_ _ w. (Panicked (Panic_String ''boom''), w)) sample_child 2 False
     (sample_world None sample_store) = Some (Err (RecoveryRequired cause), d, fresh_world sample_runtime sample_child 2 (sample_world None sample_store))"
  by (rule interrupted_run_undecided [where auth = "from_status sample_child"])
    (auto simp: role_gate_def sample_runtime_def Let_def)

lemma role_gate_guards_body_witness:
  "role_gate (sample_runtime\<lparr>rt_required_roles := [(''wf'', [''admin''])]\<rparr>) (sample_child\<lparr>wf_authenticated_roles := [''user'', ''admin'']\<rparr>)
    = Ok ((from_status (sample_child\<lparr>wf_authenticated_roles := [''user'', ''admin'']\<rparr>))\<lparr>au_assumed_role := Some ''admin''\<rparr>)"
  using role_gate_guards_body [of "sample_runtime\<lparr>rt_required_roles := [(''wf'', [''admin''])]\<rparr>"
      "sample_child\<lparr>wf_authenticated_roles := [''user'', ''admin'']\<rparr>" "[''admin'']"]
  by (simp add: sample_child_def workflow_status_new_def)

lemma interrupted_run_settled_witness:
  "fst (recover_interrupted_run sample_runtime sample_child Retry (\<lambda>_. False) (\<lambda>_. False) int (\<lambda>_. id) sample_store)
    = Dispatched (sample_child\<lparr>wf_executor_id := ''x'', wf_recovery_attempts := 1\<rparr>)"
proof -
  obtain d s' where run: "recover_interrupted_run sample_runtime sample_child Retry (\<lambda>_. False) (\<lambda>_. False) int (\<lambda>_. id) sample_store = (d, s')"
    by fastforce
  have "rt_provider sample_runtime = memory_provider plain_codec (\<lambda>t. Some t)" by (simp add: sample_runtime_def)
  then show ?thesis using interrupted_run_settled [OF _ _ _ _ _ _ run, of plain_codec "\<lambda>t. Some t" sample_child] run
    by (simp add: sample_run_simps)
qed

lemma sample_run_returns:
  "\<exists>w'. run_to_completion sample_runtime plain_codec (\<lambda>_. sample_store) (\<lambda>_ input. ret (Ok input)) sample_child 2 False
     (sample_world None sample_store) = Some (Ok (JInt 1), Retry, w')"
proof -
  have gate: "role_gate sample_runtime sample_child = Ok (from_status sample_child)"
    by (simp add: role_gate_def sample_runtime_def Let_def)
  have "wf_status sample_child = STATUS_PENDING" "wf_input sample_child = JInt 1" "wf_id sample_child = ''b''" "wf_deadline_ms sample_child = None"
    "rt_provider sample_runtime = memory_provider plain_codec (\<lambda>t. Some t)"
    by (simp_all add: sample_run_simps)
  moreover have "status_write_allowed STATUS_PENDING STATUS_SUCCESS" by code_simp
  ultimately show ?thesis unfolding run_to_completion_def gate
    by (simp add: Let_def ret_def settle_body_def checked_cases fresh_world_def execution_new_def finalize_def concluded_def
        write_terminal_status_def set_workflow_status_def sample_store_def)
qed

lemma run_reports_recorded_witness:
  "\<exists>w'. run_to_completion sample_runtime plain_codec (\<lambda>_. sample_store) (\<lambda>_ input. ret (Ok input)) sample_child 2 False
     (sample_world None sample_store) = Some (Ok (JInt 1), Retry, w') \<and> accounted ''b'' (\<lambda>_. sample_store) (Ok (JInt 1)) (w_store w')"
proof -
  obtain w' where run: "run_to_completion sample_runtime plain_codec (\<lambda>_. sample_store) (\<lambda>_ input. ret (Ok input)) sample_child 2 False
     (sample_world None sample_store) = Some (Ok (JInt 1), Retry, w')" using sample_run_returns by blast
  have "rt_provider sample_runtime = memory_provider plain_codec (\<lambda>t. Some t)" "wf_id sample_child = ''b''"
    by (simp_all add: sample_run_simps)
  then show ?thesis using run_reports_recorded [OF _ run, of plain_codec "\<lambda>t. Some t"] run by (simp add: interruption_def)
qed

definition sample_sweep :: "inner \<Rightarrow> string list result \<times> workflow_status list \<times> inner" where
  "sample_sweep s = dispatch_pending_workflows sample_runtime 5 (\<lambda>_. False) int (\<lambda>_. id) [sample_child] s"

lemma sweep_dispatches_once_witness:
  "\<exists>s1. sample_sweep sample_store = (Ok [''b''], [sample_child\<lparr>wf_recovery_attempts := 1\<rparr>], s1)
    \<and> ''b'' \<notin> wf_id ` set (fst (snd (sample_sweep s1)))"
proof -
  have rt: "rt_provider sample_runtime = memory_provider plain_codec (\<lambda>t. Some t)" by (simp add: sample_runtime_def)
  obtain s1 where first: "sample_sweep sample_store = (Ok [''b''], [sample_child\<lparr>wf_recovery_attempts := 1\<rparr>], s1)"
    by (simp add: sample_sweep_def dispatch_pending_workflows_def rt claim_for_recovery_cases claim_request_def claim_matches_def
        claim_row_def wrap_i32_def contains_key_def registry_key_def sample_run_simps)
  obtain res spawned s2 where second: "sample_sweep s1 = (res, spawned, s2)" by (cases "sample_sweep s1") auto
  have "''b'' \<notin> wf_id ` set spawned"
    by (rule sweep_dispatches_once [OF rt rt _ _ _ _ _ first [unfolded sample_sweep_def] _ _ second [unfolded sample_sweep_def], of 0])
      (auto simp: sample_child_def workflow_status_new_def)
  then show ?thesis using first second by simp
qed

end
