(* ===== verification/Engine_Queue.thy ===== *)
theory Engine_Queue
  imports Engine_Run
begin

text \<open>
  The queue dispatcher (\<open>queue_dispatch_loop\<close> of \<open>src/engine.rs\<close>) as a machine:
  its program location, its running counter per partition, the runs it started
  and the store.  The loop, the runs that end and the other clients of the store
  take turns; each turn is one provider call or one access to a counter.
\<close>

section \<open>Definitions\<close>

text \<open>A queue's counter of running workflows is a \<open>usize\<close> updated atomically.\<close>

definition fetch_add :: "nat \<Rightarrow> nat" where
  "fetch_add n = (n + 1) mod 2 ^ 64"

definition fetch_sub :: "nat \<Rightarrow> nat" where
  "fetch_sub n = (n + (2 ^ 64 - 1)) mod 2 ^ 64"

text \<open>Where the loop is: before a partition, between the counter and the claim, among the rows it claimed.\<close>

datatype location = Loop_Head | List_Partitions | Partitions "string option list"
  | Claiming "string option" int "string option list"
  | Starting "string option" "workflow_status list" "string option list"
  | Polling | Stopped

record 's dispatcher =
  d_location :: location
  d_running :: "(string, nat) hashmap"
  d_runs :: "(string \<times> workflow_status) list"
  d_had_error :: bool
  d_interval :: nat
  d_store :: 's

definition dispatcher_new :: "workflow_queue \<Rightarrow> 's \<Rightarrow> 's dispatcher" where
  "dispatcher_new q s = \<lparr>d_location = Loop_Head, d_running = [], d_runs = [], d_had_error = False,
     d_interval = q_base_polling_interval q, d_store = s\<rparr>"

definition partition_name :: "string option \<Rightarrow> string" where
  "partition_name pkey = unwrap_or [] pkey"

definition local_running :: "string option \<Rightarrow> 's dispatcher \<Rightarrow> nat" where
  "local_running pkey d = unwrap_or 0 (map_of (d_running d) (partition_name pkey))"

text \<open>How many rows a partition may be asked for; the cast to \<open>i64\<close> wraps.\<close>

definition partition_budget :: "workflow_queue \<Rightarrow> nat \<Rightarrow> int" where
  "partition_budget q local = wrap_i64 (int (min (case q_worker_concurrency q of
       Some wc \<Rightarrow> wc - local | None \<Rightarrow> q_max_tasks_per_iteration q) (q_max_tasks_per_iteration q)))"

definition dispatch_request :: "'s runtime \<Rightarrow> workflow_queue \<Rightarrow> string option \<Rightarrow> int \<Rightarrow> dequeue_request" where
  "dispatch_request rt q pkey max_tasks = \<lparr>dq_queue_name = q_name q, dq_executor_id = rt_executor_id rt,
     dq_app_version = rt_app_version rt, dq_partition_key = pkey, dq_max_tasks = max_tasks,
     dq_global_concurrency = q_global_concurrency q, dq_rate_limit_max = map_option rl_limit (q_rate_limit q),
     dq_rate_limit_period_ms = map_option (\<lambda>r. wrap_i64 (int (rl_period r div 10 ^ 6))) (q_rate_limit q)\<rparr>"

text \<open>The interval of the next poll, in nanoseconds.\<close>

definition next_interval :: "workflow_queue \<Rightarrow> bool \<Rightarrow> nat \<Rightarrow> nat" where
  "next_interval q had_error interval =
     (if had_error then min (interval * 2) (q_max_polling_interval q)
      else max ((interval * 9 + 5) div 10) (q_base_polling_interval q))"

text \<open>
  One turn of the loop.  \<open>cancel\<close>: the shutdown token has fired; \<open>now\<close> and \<open>clock\<close> are
  the readings of the turn.
\<close>

fun dispatch_turn :: "'s runtime \<Rightarrow> workflow_queue \<Rightarrow> bool \<Rightarrow> datetime \<Rightarrow> (string \<Rightarrow> datetime) \<Rightarrow> location \<Rightarrow> 's dispatcher
  \<Rightarrow> 's dispatcher" where
  "dispatch_turn rt q cancel now clock Loop_Head d =
     (if cancel then d\<lparr>d_location := Stopped\<rparr>
      else d\<lparr>d_location := List_Partitions, d_had_error := False,
        d_store := snd (p_transition_delayed_workflows (rt_provider rt) clock (timestamp_millis now) (d_store d))\<rparr>)"
| "dispatch_turn rt q cancel now clock List_Partitions d =
     (if \<not> q_partitioned q then d\<lparr>d_location := Partitions [None]\<rparr>
      else case p_queue_partitions (rt_provider rt) (q_name q) (d_store d) of
        Inr keys \<Rightarrow> d\<lparr>d_location := Partitions (map Some keys)\<rparr>
      | Inl e \<Rightarrow> d\<lparr>d_location := Partitions [], d_had_error := True\<rparr>)"
| "dispatch_turn rt q cancel now clock (Partitions []) d =
     d\<lparr>d_location := Polling, d_interval := next_interval q (d_had_error d) (d_interval d)\<rparr>"
| "dispatch_turn rt q cancel now clock (Partitions (pkey # pkeys)) d =
     (let d' = d\<lparr>d_running := or_insert (partition_name pkey) 0 (d_running d)\<rparr>;
          max_tasks = partition_budget q (local_running pkey d') in
      if max_tasks \<le> 0 then d'\<lparr>d_location := Partitions pkeys\<rparr>
      else d'\<lparr>d_location := Claiming pkey max_tasks pkeys\<rparr>)"
| "dispatch_turn rt q cancel now clock (Claiming pkey max_tasks pkeys) d =
     (case p_dequeue_workflows (rt_provider rt) now clock (dispatch_request rt q pkey max_tasks) (d_store d) of
        (Inr claimed, s) \<Rightarrow> d\<lparr>d_location := Starting pkey claimed pkeys, d_store := s\<rparr>
      | (Inl e, s) \<Rightarrow> d\<lparr>d_location := Partitions pkeys, d_had_error := True, d_store := s\<rparr>)"
| "dispatch_turn rt q cancel now clock (Starting pkey [] pkeys) d = d\<lparr>d_location := Partitions pkeys\<rparr>"
| "dispatch_turn rt q cancel now clock (Starting pkey (row # rows) pkeys) d =
     (if contains_key (rt_workflows rt) (registry_key (wf_name row) (wf_config_name row))
      then d\<lparr>d_location := Starting pkey rows pkeys,
        d_running := AList.update (partition_name pkey) (fetch_add (local_running pkey d)) (d_running d),
        d_runs := d_runs d @ [(partition_name pkey, row)]\<rparr>
      else d\<lparr>d_location := Starting pkey rows pkeys,
        d_store := snd (p_set_workflow_status (rt_provider rt) now (wf_id row) STATUS_ENQUEUED None None (d_store d))\<rparr>)"
| "dispatch_turn rt q cancel now clock Polling d = d\<lparr>d_location := (if cancel then Stopped else Loop_Head)\<rparr>"
| "dispatch_turn rt q cancel now clock Stopped d = d"

text \<open>The \<open>j\<close>-th run ends, normally or not, and drops its guard (\<open>RunningGuard\<close>).\<close>

definition run_ends :: "nat \<Rightarrow> 's dispatcher \<Rightarrow> 's dispatcher" where
  "run_ends j d = (let p = fst (d_runs d ! j) in
     d\<lparr>d_running := AList.update p (fetch_sub (unwrap_or 0 (map_of (d_running d) p))) (d_running d),
       d_runs := take j (d_runs d) @ drop (Suc j) (d_runs d)\<rparr>)"

inductive queue_dispatch_loop :: "'s runtime \<Rightarrow> workflow_queue \<Rightarrow> 's dispatcher \<Rightarrow> bool" for rt q where
  launched: "queue_dispatch_loop rt q (dispatcher_new q s)"
| turn: "queue_dispatch_loop rt q d \<Longrightarrow> queue_dispatch_loop rt q (dispatch_turn rt q cancel now clock (d_location d) d)"
| ends: "queue_dispatch_loop rt q d \<Longrightarrow> j < length (d_runs d) \<Longrightarrow> queue_dispatch_loop rt q (run_ends j d)"
| others: "queue_dispatch_loop rt q d \<Longrightarrow> queue_dispatch_loop rt q (d\<lparr>d_store := s\<rparr>)"

text \<open>
  A row of turns: for turn \<open>k\<close>, \<open>env k\<close> holds its readings and what had happened to
  the counters, the runs and the store just before it.
\<close>

type_synonym 's interference = "'s dispatcher \<Rightarrow> (string, nat) hashmap \<times> (string \<times> workflow_status) list \<times> 's"
type_synonym 's surroundings = "nat \<Rightarrow> bool \<times> datetime \<times> (string \<Rightarrow> datetime) \<times> 's interference"

definition interfere :: "'s interference \<Rightarrow> 's dispatcher \<Rightarrow> 's dispatcher" where
  "interfere h d = (case h d of (counts, runs, s) \<Rightarrow> d\<lparr>d_running := counts, d_runs := runs, d_store := s\<rparr>)"

fun turns :: "'s runtime \<Rightarrow> workflow_queue \<Rightarrow> 's surroundings \<Rightarrow> nat \<Rightarrow> 's dispatcher \<Rightarrow> 's dispatcher" where
  "turns rt q env 0 d = d"
| "turns rt q env (Suc n) d = (case env 0 of (cancel, now, clock, h) \<Rightarrow>
     turns rt q (\<lambda>k. env (Suc k)) n (dispatch_turn rt q cancel now clock (d_location d) (interfere h d)))"

definition undisturbed :: "'s interference" where
  "undisturbed d = (d_running d, d_runs d, d_store d)"

section \<open>The invariant\<close>

text \<open>How many runs of a partition are live, and how many more may still be started.\<close>

definition runs_of :: "string \<Rightarrow> (string \<times> workflow_status) list \<Rightarrow> nat" where
  "runs_of p runs = length (filter (\<lambda>r. fst r = p) runs)"

abbreviation live_runs :: "string \<Rightarrow> 's dispatcher \<Rightarrow> nat" where
  "live_runs p d \<equiv> runs_of p (d_runs d)"

fun claims_left :: "string \<Rightarrow> location \<Rightarrow> nat" where
  "claims_left p (Claiming pkey max_tasks pkeys) = (if partition_name pkey = p then nat max_tasks else 0)"
| "claims_left p (Starting pkey rows pkeys) = (if partition_name pkey = p then length rows else 0)"
| "claims_left p _ = 0"

definition counts_runs :: "'s dispatcher \<Rightarrow> bool" where
  "counts_runs d \<longleftrightarrow> (\<forall>p. unwrap_or 0 (map_of (d_running d) p) = live_runs p d mod 2 ^ 64)"

definition within_limit :: "workflow_queue \<Rightarrow> 's dispatcher \<Rightarrow> bool" where
  "within_limit q d \<longleftrightarrow> (\<forall>p wc. q_worker_concurrency q = Some wc \<longrightarrow> wc < 2 ^ 64
     \<longrightarrow> live_runs p d + claims_left p (d_location d) \<le> wc)"

definition interval_ok :: "workflow_queue \<Rightarrow> 's dispatcher \<Rightarrow> bool" where
  "interval_ok q d \<longleftrightarrow> (q_base_polling_interval q \<le> q_max_polling_interval q
     \<longrightarrow> q_base_polling_interval q \<le> d_interval d \<and> d_interval d \<le> q_max_polling_interval q)"

lemma wrap_i64_le: "0 \<le> n \<Longrightarrow> wrap_i64 n \<le> n"
proof -
  assume "0 \<le> n"
  then have "(n + 2 ^ 63) mod 2 ^ 64 \<le> n + 2 ^ 63" by (intro zmod_le_nonneg_dividend) simp
  then show ?thesis by (simp add: wrap_i64_def)
qed

lemma budget_le: "q_worker_concurrency q = Some wc \<Longrightarrow> partition_budget q local \<le> int (wc - local)"
  using wrap_i64_le [of "int (min (wc - local) (q_max_tasks_per_iteration q))"]
  by (simp add: partition_budget_def)

lemma fetch_sub_count: "0 < n \<Longrightarrow> fetch_sub (n mod 2 ^ 64) = (n - 1) mod 2 ^ 64"
proof -
  assume "0 < n"
  then obtain m where n: "n = Suc m" by (cases n) auto
  have "(Suc m mod 2 ^ 64 + (2 ^ 64 - 1)) mod 2 ^ 64 = (Suc m + (2 ^ 64 - 1)) mod (2 ^ 64 :: nat)" by (rule mod_add_left_eq)
  also have "Suc m + (2 ^ 64 - 1) = m + 2 ^ 64" by simp
  finally show ?thesis by (simp add: fetch_sub_def n)
qed

lemma fetch_add_count: "fetch_add (n mod 2 ^ 64) = Suc n mod 2 ^ 64"
  by (simp add: fetch_add_def mod_Suc_eq)

lemma live_after_end:
  assumes "j < length (d_runs d)"
  shows "live_runs p (run_ends j d) = live_runs p d - (if fst (d_runs d ! j) = p then 1 else 0)"
    and "fst (d_runs d ! j) = p \<Longrightarrow> 0 < live_runs p d"
proof -
  have "d_runs d = take j (d_runs d) @ d_runs d ! j # drop (Suc j) (d_runs d)" using assms by (rule id_take_nth_drop)
  then have "live_runs p d = length (filter (\<lambda>r. fst r = p) (take j (d_runs d) @ d_runs d ! j # drop (Suc j) (d_runs d)))"
    by (simp add: runs_of_def)
  then show "live_runs p (run_ends j d) = live_runs p d - (if fst (d_runs d ! j) = p then 1 else 0)"
    and "fst (d_runs d ! j) = p \<Longrightarrow> 0 < live_runs p d"
    by (auto simp: runs_of_def run_ends_def Let_def)
qed

lemma count_or_insert: "unwrap_or 0 (map_of (or_insert k 0 m) p) = unwrap_or 0 (map_of m p)"
  by (cases "map_of m k") (auto simp: contains_key_iff)

lemma runs_of_append [simp]: "runs_of p [] = 0" "runs_of p (runs @ [(p', row)]) = runs_of p runs + (if p' = p then 1 else 0)"
  by (simp_all add: runs_of_def)

lemma local_running_count: "counts_runs d \<Longrightarrow> local_running pkey d = live_runs (partition_name pkey) d mod 2 ^ 64"
  by (simp add: counts_runs_def local_running_def)

lemma turn_counts: "counts_runs d \<Longrightarrow> counts_runs (dispatch_turn rt q cancel now clock l d)"
proof (induction rt q cancel now clock l d rule: dispatch_turn.induct)
  case (7 rt q cancel now clock pkey row rows pkeys d)
  then show ?case using local_running_count [OF 7, of pkey] fetch_add_count by (simp add: counts_runs_def)
qed (simp_all add: counts_runs_def Let_def count_or_insert del: map_of_or_insert split: sum.split prod.split)

lemma end_counts: "counts_runs d \<Longrightarrow> j < length (d_runs d) \<Longrightarrow> counts_runs (run_ends j d)"
  using fetch_sub_count live_after_end [of j d]
  by (auto simp: counts_runs_def) (auto simp: run_ends_def Let_def)

lemma turn_interval: "interval_ok q d \<Longrightarrow> interval_ok q (dispatch_turn rt q cancel now clock l d)"
  by (induction rt q cancel now clock l d rule: dispatch_turn.induct)
    (auto simp: interval_ok_def next_interval_def Let_def split: sum.split prod.split)

lemma withinD: "within_limit q d \<Longrightarrow> q_worker_concurrency q = Some wc \<Longrightarrow> wc < 2 ^ 64
  \<Longrightarrow> live_runs p d + claims_left p (d_location d) \<le> wc"
  by (simp add: within_limit_def)

lemma withinI: "(\<And>p wc. q_worker_concurrency q = Some wc \<Longrightarrow> wc < 2 ^ 64
  \<Longrightarrow> live_runs p d + claims_left p (d_location d) \<le> wc) \<Longrightarrow> within_limit q d"
  by (simp add: within_limit_def)

lemma live_within: "within_limit q d \<Longrightarrow> q_worker_concurrency q = Some wc \<Longrightarrow> wc < 2 ^ 64 \<Longrightarrow> live_runs p d \<le> wc"
  using withinD [of q d wc p] by simp

lemma within_idle:
  "within_limit q d \<Longrightarrow> d_runs d' = d_runs d \<Longrightarrow> (\<And>p. claims_left p (d_location d') = 0) \<Longrightarrow> within_limit q d'"
  by (rule withinI) (simp add: live_within)

lemma claim_within:
  assumes "counts_runs d" "within_limit q d" "q_worker_concurrency q = Some wc" "wc < 2 ^ 64"
  shows "live_runs (partition_name pkey) d + nat (partition_budget q (local_running pkey d)) \<le> wc"
proof -
  have live: "live_runs (partition_name pkey) d \<le> wc" using withinD [OF assms(2-4), of "partition_name pkey"] by simp
  then have "local_running pkey d = live_runs (partition_name pkey) d"
    using local_running_count [OF assms(1)] assms(4) by simp
  then show ?thesis using live budget_le [OF assms(3), of "local_running pkey d"] by linarith
qed

lemma length_claim_each: "length (fst (claim_each clock now_ms req ids g)) \<le> length ids"
  by (induction ids arbitrary: g) (auto simp: Let_def case_prod_unfold le_SucI split: option.split)

locale claiming_provider =
  fixes P :: "'s state_provider"
  assumes claims_bounded: "p_dequeue_workflows P now clock req s = (Inr rows, s') \<Longrightarrow> int (length rows) \<le> max 0 (dq_max_tasks req)"
begin

lemma turn_within:
  "rt_provider rt = P \<Longrightarrow> counts_runs d \<Longrightarrow> within_limit q d \<Longrightarrow> d_location d = l
    \<Longrightarrow> within_limit q (dispatch_turn rt q cancel now clock l d)"
proof (induction rt q cancel now clock l d rule: dispatch_turn.induct)
  case (4 rt q cancel now clock pkey pkeys d)
  have "local_running pkey (d\<lparr>d_running := or_insert (partition_name pkey) 0 (d_running d)\<rparr>) = local_running pkey d"
    by (simp add: local_running_def count_or_insert del: map_of_or_insert)
  then show ?case using 4 withinD [OF 4(3)] claim_within [OF 4(2,3)]
    by (auto simp: within_limit_def Let_def)
next
  case (5 rt q cancel now clock pkey max_tasks pkeys d)
  obtain r s where claim: "p_dequeue_workflows P now clock (dispatch_request rt q pkey max_tasks) (d_store d) = (r, s)" by fastforce
  show ?case
  proof (cases r)
    case (Inr rows)
    have "length rows \<le> nat max_tasks" using claims_bounded [OF claim [unfolded Inr]] by (simp add: dispatch_request_def nat_le_iff)
    then have "live_runs p d + (if partition_name pkey = p then length rows else 0) \<le> wc"
      if "q_worker_concurrency q = Some wc" "wc < 2 ^ 64" for p wc
      using withinD [OF 5(3) that, of p] 5(4) by (auto split: if_splits)
    then show ?thesis using claim Inr 5(1) by (simp add: within_limit_def)
  qed (use claim 5(1) live_within [OF 5(3)] in \<open>simp add: within_limit_def\<close>)
next
  case (7 rt q cancel now clock pkey row rows pkeys d)
  show ?case
  proof (rule withinI)
    fix p wc assume "q_worker_concurrency q = Some wc" "wc < 2 ^ 64"
    from withinD [OF 7(3) this, of p] 7(4)
    show "live_runs p (dispatch_turn rt q cancel now clock (Starting pkey (row # rows) pkeys) d)
        + claims_left p (d_location (dispatch_turn rt q cancel now clock (Starting pkey (row # rows) pkeys) d)) \<le> wc"
      by (auto split: if_splits)
  qed
qed (erule within_idle, simp split: sum.split, simp split: sum.split)+

lemma dispatcher_invariant:
  assumes "queue_dispatch_loop rt q d" "rt_provider rt = P"
  shows "counts_runs d \<and> within_limit q d \<and> interval_ok q d"
  using assms
proof (induction rule: queue_dispatch_loop.induct)
  case (ends d j)
  have "live_runs p (run_ends j d) + n \<le> wc" if "live_runs p d + n \<le> wc" for p n wc
    using live_after_end(1) [OF ends(2), of p] that by simp
  moreover have "d_location (run_ends j d) = d_location d" "d_interval (run_ends j d) = d_interval d"
    by (simp_all add: run_ends_def Let_def)
  ultimately show ?case using ends end_counts by (auto simp: within_limit_def interval_ok_def)
next
  case (turn d cancel now clock)
  then show ?case by (simp add: turn_counts turn_within turn_interval)
qed (simp_all add: dispatcher_new_def counts_runs_def within_limit_def interval_ok_def)

end

interpretation mem_claims: claiming_provider "memory_provider C f" for C f
proof
  fix now clock req s rows s'
  assume "p_dequeue_workflows (memory_provider C f) now clock req s = (Inr rows, s')"
  then have "rows = fst (claim_each clock (timestamp_millis now) req (selected (timestamp_millis now) req s) s)"
    by (simp add: dequeue_workflows_eq Let_def)
  then have "length rows \<le> length (selected (timestamp_millis now) req s)" by (simp add: length_claim_each)
  then show "int (length rows) \<le> max 0 (dq_max_tasks req)"
    using length_selected [of "timestamp_millis now" req s] max_claims_le [of "timestamp_millis now" req s] by linarith
qed

section \<open>Properties\<close>

text \<open>
  C14: a dispatcher never runs more than its worker concurrency.  However its loop,
  the ends of its runs and the other clients of the store interleave, each
  partition has at most as many live runs as the queue's worker concurrency
  allows, the counter of a partition is the number of its live runs, and the
  polling interval stays between its base and its maximum.
\<close>

theorem worker_concurrency_respected:
  assumes "rt_provider rt = memory_provider C f" "queue_dispatch_loop rt q d"
    and "q_worker_concurrency q = Some wc" "wc < 2 ^ 64" "q_base_polling_interval q \<le> q_max_polling_interval q"
  shows "length (filter (\<lambda>(p', row). p' = p) (d_runs d)) \<le> wc
    \<and> unwrap_or 0 (map_of (d_running d) p) = length (filter (\<lambda>(p', row). p' = p) (d_runs d))
    \<and> d_interval d \<in> {q_base_polling_interval q..q_max_polling_interval q}"
proof -
  have inv: "counts_runs d" "within_limit q d" "interval_ok q d"
    using mem_claims.dispatcher_invariant [OF assms(2,1)] by auto
  have "live_runs p d \<le> wc" by (rule live_within [OF inv(2) assms(3,4)])
  moreover have "unwrap_or 0 (map_of (d_running d) p) = live_runs p d mod 2 ^ 64" using inv(1) by (simp add: counts_runs_def)
  ultimately show ?thesis using assms(4,5) inv(3) by (simp add: runs_of_def case_prod_unfold interval_ok_def)
qed

section \<open>Claimed rows\<close>

definition registered :: "'s runtime \<Rightarrow> workflow_status \<Rightarrow> bool" where
  "registered rt row = contains_key (rt_workflows rt) (registry_key (wf_name row) (wf_config_name row))"

lemma interfere_undisturbed [simp]: "interfere undisturbed d = d"
  by (simp add: interfere_def undisturbed_def)

lemma release_store:
  assumes "map_of (workflows g) i = Some row"
  shows "snd (set_workflow_status C now i STATUS_ENQUEUED None None g)
    = g\<lparr>workflows := AList.update i (row\<lparr>wf_status := STATUS_ENQUEUED, wf_updated_at := now\<rparr>) (workflows g)\<rparr>"
  using assms by (simp add: set_workflow_status_def status_write_allowed_def apply_status_def Let_def is_terminal_def status_defs)

lemma turns_append: "turns rt q env (m + n) d = turns rt q (\<lambda>k. env (m + k)) n (turns rt q env m d)"
  by (induction m arbitrary: env d) (auto split: prod.split)

lemma starts_claimed:
  assumes "rt_provider rt = memory_provider C f" "\<And>k. snd (snd (snd (env k))) = undisturbed"
  shows "d_location d = Starting pkey rows pkeys \<Longrightarrow> distinct (map wf_id rows)
    \<Longrightarrow> \<forall>row \<in> set rows. map_of (workflows (d_store d)) (wf_id row) = Some row
    \<Longrightarrow> let d' = turns rt q env (length rows) d in
      d_location d' = Starting pkey [] pkeys
      \<and> d_runs d' = d_runs d @ map (Pair (partition_name pkey)) (filter (registered rt) rows)
      \<and> (\<forall>i. i \<notin> wf_id ` set rows \<longrightarrow> map_of (workflows (d_store d')) i = map_of (workflows (d_store d)) i)
      \<and> (\<forall>row \<in> set rows. if registered rt row then map_of (workflows (d_store d')) (wf_id row) = Some row
          else \<exists>now. map_of (workflows (d_store d')) (wf_id row) = Some (row\<lparr>wf_status := STATUS_ENQUEUED, wf_updated_at := now\<rparr>))"
  using assms(2)
proof (induction rows arbitrary: env d)
  case (Cons row rows)
  obtain cancel now clock where env: "env 0 = (cancel, now, clock, undisturbed)"
    using Cons.prems(4) [of 0] by (cases "env 0") auto
  define d1 where "d1 = dispatch_turn rt q cancel now clock (d_location d) d"
  have d1: "d_location d1 = Starting pkey rows pkeys"
    "d_runs d1 = d_runs d @ (if registered rt row then [(partition_name pkey, row)] else [])"
    "map_of (workflows (d_store d1)) i = (if i = wf_id row \<and> \<not> registered rt row
       then Some (row\<lparr>wf_status := STATUS_ENQUEUED, wf_updated_at := now\<rparr>) else map_of (workflows (d_store d)) i)" for i
    using Cons.prems(1,3) assms(1) by (simp_all add: d1_def registered_def release_store)
  have neq: "wf_id row' \<noteq> wf_id row" if "row' \<in> set rows" for row'
    using Cons.prems(2) imageI [OF that, of wf_id] by auto
  have kept: "\<forall>row' \<in> set rows. map_of (workflows (d_store d1)) (wf_id row') = Some row'" using Cons.prems(3) d1(3) neq by simp
  have "distinct (map wf_id rows)" using Cons.prems(2) by simp
  note ih = Cons.IH [where env = "\<lambda>k. env (Suc k)", OF d1(1) this kept Cons.prems(4), unfolded Let_def]
  have "turns rt q env (length (row # rows)) d = turns rt q (\<lambda>k. env (Suc k)) (length rows) d1" by (simp add: env d1_def)
  moreover have "wf_id row \<notin> wf_id ` set rows" using Cons.prems(2) by simp
  ultimately show ?case using ih d1 neq Cons.prems(3) by (auto simp: Let_def)
qed simp

text \<open>
  C15: no claim is stranded.  If nobody interferes, every row that a poll claims is
  either started, in the order of the claims, or, when the process has no
  handler for it, back on its queue when the loop goes on to the next
  partition; nothing else is started and no other row changes.  A row that was
  put back keeps the version and the deadline that the claim gave it.
\<close>

theorem no_claim_stranded:
  assumes "rt_provider rt = memory_provider C f" "mem_inv (d_store d)" "d_location d = Claiming pkey m pkeys"
    and "\<And>k. snd (snd (snd (env k))) = undisturbed"
    and "dequeue_workflows (fst (snd (env 0))) (fst (snd (snd (env 0)))) (dispatch_request rt q pkey m) (d_store d) = (Ok rows, s1)"
  shows "let d' = turns rt q env (length rows + 2) d in
    d_location d' = Partitions pkeys
    \<and> d_runs d' = d_runs d @ map (Pair (partition_name pkey)) (filter (registered rt) rows)
    \<and> (\<forall>i. i \<notin> wf_id ` set rows \<longrightarrow> map_of (workflows (d_store d')) i = map_of (workflows (d_store d)) i)
    \<and> (\<forall>row \<in> set rows. wf_app_version row = rt_app_version rt \<and>
        (if registered rt row then map_of (workflows (d_store d')) (wf_id row) = Some row
         else \<exists>now. map_of (workflows (d_store d')) (wf_id row) = Some (row\<lparr>wf_status := STATUS_ENQUEUED, wf_updated_at := now\<rparr>)))"
proof -
  obtain cancel now clock where env: "env 0 = (cancel, now, clock, undisturbed)"
    using assms(4) [of 0] by (cases "env 0") auto
  define req where "req = dispatch_request rt q pkey m"
  define d1 where "d1 = dispatch_turn rt q cancel now clock (d_location d) d"
  have claim: "dequeue_workflows now clock req (d_store d) = (Ok rows, s1)" using assms(5) by (simp add: env req_def)
  then have d1: "d_location d1 = Starting pkey rows pkeys" "d_runs d1 = d_runs d" "d_store d1 = s1"
    using assms(1,3) by (simp_all add: d1_def req_def)
  have ids: "map wf_id rows = selected (timestamp_millis now) req (d_store d)" using dequeue_ids [OF assms(2), of now clock req rows] claim by simp
  have rows: "rows = map (\<lambda>i. dequeue_row (clock i) (timestamp_millis now) req (the (map_of (workflows (d_store d)) i)))
      (selected (timestamp_millis now) req (d_store d))" using dequeue_rows [OF assms(2), of now clock req] claim by simp
  have s1: "map_of (workflows s1) i = (if i \<in> wf_id ` set rows
      then map_option (dequeue_row (clock i) (timestamp_millis now) req) (map_of (workflows (d_store d)) i)
      else map_of (workflows (d_store d)) i)" for i
    using dequeue_lookup [OF assms(2), of now clock req i] claim arg_cong [OF ids, of set] by simp
  have found: "map_of (workflows s1) (wf_id row) = Some row \<and> wf_app_version row = rt_app_version rt" if mem: "row \<in> set rows" for row
  proof -
    obtain i where i: "i \<in> set (selected (timestamp_millis now) req (d_store d))"
      "row = dequeue_row (clock i) (timestamp_millis now) req (the (map_of (workflows (d_store d)) i))" using mem rows by auto
    then obtain w where "map_of (workflows (d_store d)) i = Some w" "wf_id w = i" using selected_rows [OF assms(2) i(1)] by auto
    then show ?thesis using i s1 [of i] mem by (auto simp: dequeue_row_def req_def dispatch_request_def image_iff)
  qed
  have distinct: "distinct (map wf_id rows)" using distinct_selected [OF assms(2)] ids by simp
  define d2 where "d2 = turns rt q (\<lambda>k. env (Suc k)) (length rows) d1"
  have d2: "d_location d2 = Starting pkey [] pkeys"
    "d_runs d2 = d_runs d @ map (Pair (partition_name pkey)) (filter (registered rt) rows)"
    "\<forall>i. i \<notin> wf_id ` set rows \<longrightarrow> map_of (workflows (d_store d2)) i = map_of (workflows s1) i"
    "\<forall>row \<in> set rows. if registered rt row then map_of (workflows (d_store d2)) (wf_id row) = Some row
      else \<exists>now. map_of (workflows (d_store d2)) (wf_id row) = Some (row\<lparr>wf_status := STATUS_ENQUEUED, wf_updated_at := now\<rparr>)"
    using starts_claimed [where env = "\<lambda>k. env (Suc k)", OF assms(1,4) d1(1) distinct] found d1(2,3)
    by (auto simp: d2_def Let_def)
  obtain cancel' now' clock' where last: "env (Suc (length rows)) = (cancel', now', clock', undisturbed)"
    using assms(4) [of "Suc (length rows)"] by (cases "env (Suc (length rows))") auto
  have "turns rt q env (Suc (length rows) + 1) d = turns rt q (\<lambda>k. env (Suc (length rows) + k)) 1 (turns rt q env (Suc (length rows)) d)"
    by (rule turns_append)
  then have "turns rt q env (length rows + 2) d = d2\<lparr>d_location := Partitions pkeys\<rparr>"
    using d2(1) by (simp add: env last d1_def [symmetric] d2_def [symmetric])
  then show ?thesis using d2 s1 found by (simp add: Let_def)
qed

text \<open>
  C36: putting a claim back can revive a cancelled workflow.  The release writes the
  status without comparing it: when a cancellation lands between the claim and
  the release, the row leaves its terminal status and becomes enqueued on no
  queue, where no dispatcher finds it.
\<close>

theorem release_revives_cancelled:
  assumes "rt_provider rt = memory_provider C f" "\<not> registered rt row" "wf_status row = STATUS_PENDING"
    and "map_of (workflows g) (wf_id row) = Some row" "d_location d = Starting pkey (row # rows) pkeys"
    and "d_store d = snd (cancel_workflow t (wf_id row) g)"
  shows "map_option wf_status (map_of (workflows (d_store d)) (wf_id row)) = Some STATUS_CANCELLED
    \<and> (\<exists>row'. map_of (workflows (d_store (dispatch_turn rt q cancel now clock (d_location d) d))) (wf_id row) = Some row'
        \<and> wf_status row' = STATUS_ENQUEUED \<and> wf_queue_name row' = None
        \<and> (\<forall>req g'. \<not> claimable req g' row'))"
proof -
  have c: "map_of (workflows (d_store d)) (wf_id row) = Some (cancel_row t row)"
    using assms(4,6) by (simp add: cancel_workflow_def cancel_workflows_def cancel_lookup targets_of_def)
  have "wf_status (cancel_row t row) = STATUS_CANCELLED" "wf_queue_name (cancel_row t row) = None"
    using assms(3) by (simp_all add: cancel_row_def status_defs)
  then show ?thesis using c assms(1,2,5)
    by (simp add: registered_def release_store claimable_def on_queue_def)
qed

section \<open>Witnesses\<close>

definition sample_dispatch :: workflow_queue where
  "sample_dispatch = (workflow_queue_new ''q'')\<lparr>q_worker_concurrency := Some 2\<rparr>"

definition sample_env :: "inner surroundings" where
  "sample_env k = (False, 0, \<lambda>_. 0, undisturbed)"

definition sample_claiming :: "inner dispatcher" where
  "sample_claiming = turns sample_runtime sample_dispatch sample_env 3 (dispatcher_new sample_dispatch sample_queue)"

definition sample_dequeue :: dequeue_request where
  "sample_dequeue = \<lparr>dq_queue_name = ''q'', dq_executor_id = ''x'', dq_app_version = ''v'', dq_partition_key = None, dq_max_tasks = 2,
     dq_global_concurrency = None, dq_rate_limit_max = None, dq_rate_limit_period_ms = None\<rparr>"

lemma sample_dispatch_request: "dispatch_request sample_runtime sample_dispatch None 2 = sample_dequeue"
  by (simp add: dispatch_request_def sample_runtime_def sample_dispatch_def workflow_queue_new_def sample_dequeue_def)

lemma sample_selected:
  "map (\<lambda>i. registered sample_runtime (dequeue_row 0 0 sample_dequeue (the (map_of (workflows sample_queue) i)))) (selected 0 sample_dequeue sample_queue)
    = [True, True]"
proof -
  have "selected 0 sample_dequeue sample_queue = [''a'', ''b'']" by code_simp
  then show ?thesis
    by (simp add: sample_queue_def sample_row_def workflow_status_new_def dequeue_row_def registered_def sample_runtime_def
        contains_key_def registry_key_def)
qed

lemma sample_claiming_state: "d_location sample_claiming = Claiming None 2 []" "d_store sample_claiming = sample_queue" "d_runs sample_claiming = []"
proof -
  have "snd (transition_delayed_workflows (\<lambda>_. 0) 0 sample_queue) = sample_queue" by code_simp
  then show "d_location sample_claiming = Claiming None 2 []" "d_store sample_claiming = sample_queue" "d_runs sample_claiming = []"
    by (simp_all add: sample_claiming_def sample_env_def numeral_3_eq_3 dispatcher_new_def sample_dispatch_def workflow_queue_new_def Let_def
        partition_budget_def local_running_def partition_name_def wrap_i64_def sample_runtime_def timestamp_millis_def contains_key_def)
qed

lemma undisturbed_turns:
  assumes "queue_dispatch_loop rt q d" "\<And>k. snd (snd (snd (env k))) = undisturbed"
  shows "queue_dispatch_loop rt q (turns rt q env n d)"
  using assms
proof (induction n arbitrary: env d)
  case (Suc n)
  obtain cancel now clock where "env 0 = (cancel, now, clock, undisturbed)" using Suc.prems(2) [of 0] by (cases "env 0") auto
  then show ?case using Suc.IH [OF queue_dispatch_loop.turn [OF Suc.prems(1)], of "\<lambda>k. env (Suc k)"] Suc.prems(2) by simp
qed simp

lemma sample_claiming_reachable: "queue_dispatch_loop sample_runtime sample_dispatch (turns sample_runtime sample_dispatch sample_env n sample_claiming)"
  unfolding sample_claiming_def
  by (intro undisturbed_turns queue_dispatch_loop.launched) (simp_all add: sample_env_def)

lemma worker_concurrency_respected_witness:
  "length (filter (\<lambda>(p', row). p' = []) (d_runs (turns sample_runtime sample_dispatch sample_env 4 sample_claiming))) \<le> 2"
proof -
  have "rt_provider sample_runtime = memory_provider plain_codec (\<lambda>t. Some t)" by (simp add: sample_runtime_def)
  from worker_concurrency_respected [OF this sample_claiming_reachable, of 2 "[]" 4]
  show ?thesis by (simp add: sample_dispatch_def workflow_queue_new_def)
qed

lemma no_claim_stranded_witness:
  "d_location (turns sample_runtime sample_dispatch sample_env 4 sample_claiming) = Partitions []
    \<and> length (d_runs (turns sample_runtime sample_dispatch sample_env 4 sample_claiming)) = 2"
proof -
  have rt: "rt_provider sample_runtime = memory_provider plain_codec (\<lambda>t. Some t)" by (simp add: sample_runtime_def)
  have inv: "mem_inv (d_store sample_claiming)" by (simp add: sample_claiming_state sample_queue_facts)
  obtain rows s1 where claim: "dequeue_workflows 0 (\<lambda>_. 0) sample_dequeue sample_queue = (Ok rows, s1)"
    by (simp add: dequeue_workflows_eq Let_def)
  then have "map (registered sample_runtime) rows = [True, True]"
    using dequeue_rows [OF sample_queue_facts(1), of 0 "\<lambda>_. 0" sample_dequeue] sample_selected by (auto simp: timestamp_millis_def o_def)
  then have "length rows = 2" "filter (registered sample_runtime) rows = rows" by (auto simp: map_eq_Cons_conv)
  then show ?thesis
    using no_claim_stranded [OF rt inv sample_claiming_state(1), where env = sample_env and q = sample_dispatch and rows = rows and ?s1.0 = s1] claim
    by (simp add: sample_claiming_state(2,3) Let_def sample_env_def sample_dispatch_request)
qed

lemma release_revives_cancelled_witness:
  "\<exists>row'. map_of (workflows (d_store (dispatch_turn (sample_runtime\<lparr>rt_workflows := []\<rparr>) sample_dispatch False 0 (\<lambda>_. 0)
      (Starting None [sample_child] [])
      \<lparr>d_location = Starting None [sample_child] [], d_running = [], d_runs = [], d_had_error = False, d_interval = 0,
       d_store = snd (cancel_workflow 0 ''b'' sample_store)\<rparr>))) ''b'' = Some row' \<and> wf_status row' = STATUS_ENQUEUED"
proof -
  have "rt_provider (sample_runtime\<lparr>rt_workflows := []\<rparr>) = memory_provider plain_codec (\<lambda>t. Some t)"
    "\<not> registered (sample_runtime\<lparr>rt_workflows := []\<rparr>) sample_child" "wf_status sample_child = STATUS_PENDING"
    "map_of (workflows sample_store) (wf_id sample_child) = Some sample_child" "wf_id sample_child = ''b''"
    by (simp_all add: registered_def contains_key_def sample_run_simps)
  note facts = this
  show ?thesis
    using release_revives_cancelled [OF facts(1-4), where pkey = None and rows = "[]" and pkeys = "[]" and t = 0 and q = sample_dispatch
        and cancel = False and now = 0 and clock = "\<lambda>_. 0"
        and d = "\<lparr>d_location = Starting None [sample_child] [], d_running = [], d_runs = [], d_had_error = False, d_interval = 0,
       d_store = snd (cancel_workflow 0 ''b'' sample_store)\<rparr>"] facts(5)
    by (auto simp del: dispatch_turn.simps)
qed

end
