(* ===== verification/Provider_Control.thy ===== *)
theory Provider_Control
  imports Memory_Provider Memory_Schedules
begin

text \<open>
  The methods of \<open>trait StateProvider\<close> (\<open>src/provider.rs\<close>) that manage workflows,
  versions, queues and schedules from outside a run, as two records over an
  abstract store, and the in-memory provider's instances of them.
\<close>

section \<open>Definitions\<close>

record 's control_provider =
  c_cancel_workflow :: "datetime \<Rightarrow> string \<Rightarrow> 's \<Rightarrow> unit result \<times> 's"
  c_cancel_workflows_with_options :: "datetime \<Rightarrow> string list \<Rightarrow> cancel_options \<Rightarrow> 's \<Rightarrow> unit result \<times> 's"
  c_resume_workflow :: "datetime \<Rightarrow> string \<Rightarrow> 's \<Rightarrow> bool result \<times> 's"
  c_resume_workflows :: "datetime \<Rightarrow> string list \<Rightarrow> 's \<Rightarrow> string list result \<times> 's"
  c_enqueue_existing :: "datetime \<Rightarrow> string \<Rightarrow> string \<Rightarrow> 's \<Rightarrow> unit result \<times> 's"
  c_fork_workflow_with_timeout :: "datetime \<Rightarrow> fork_params \<Rightarrow> int option \<Rightarrow> 's \<Rightarrow> unit result \<times> 's"
  c_set_workflow_delay :: "datetime \<Rightarrow> string \<Rightarrow> int \<Rightarrow> 's \<Rightarrow> bool result \<times> 's"
  c_get_workflow_steps_with_options :: "string \<Rightarrow> step_list_options \<Rightarrow> 's \<Rightarrow> step_info list result"
  c_create_application_version :: "datetime \<Rightarrow> string \<Rightarrow> string \<Rightarrow> 's \<Rightarrow> unit result \<times> 's"
  c_list_application_versions :: "'s \<Rightarrow> version_info list result"
  c_get_latest_application_version :: "'s \<Rightarrow> version_info option result"
  c_set_latest_application_version :: "datetime \<Rightarrow> string \<Rightarrow> 's \<Rightarrow> bool result \<times> 's"
  c_upsert_queue :: "workflow_queue \<Rightarrow> bool \<Rightarrow> 's \<Rightarrow> unit result \<times> 's"
  c_list_queues :: "'s \<Rightarrow> workflow_queue list result"

record 's schedule_provider =
  s_create_schedule :: "workflow_schedule \<Rightarrow> 's \<Rightarrow> unit result \<times> 's"
  s_update_schedule :: "string \<Rightarrow> schedule_update \<Rightarrow> 's \<Rightarrow> unit result \<times> 's"
  s_apply_schedules :: "workflow_schedule list \<Rightarrow> 's \<Rightarrow> unit result \<times> 's"
  s_list_schedules :: "schedule_filter \<Rightarrow> 's \<Rightarrow> workflow_schedule list result"
  s_set_schedule_status :: "string \<Rightarrow> schedule_status \<Rightarrow> 's \<Rightarrow> bool result \<times> 's"
  s_set_schedule_last_fired :: "string \<Rightarrow> int \<Rightarrow> 's \<Rightarrow> unit result \<times> 's"
  s_delete_schedule :: "string \<Rightarrow> 's \<Rightarrow> bool result \<times> 's"

definition memory_control :: "codec \<Rightarrow> (int \<Rightarrow> datetime option) \<Rightarrow> inner control_provider" where
  "memory_control C from_ts = \<lparr>
     c_cancel_workflow = cancel_workflow,
     c_cancel_workflows_with_options = cancel_workflows_with_options,
     c_resume_workflow = resume_workflow,
     c_resume_workflows = resume_workflows,
     c_enqueue_existing = enqueue_existing,
     c_fork_workflow_with_timeout = fork_workflow_with_timeout,
     c_set_workflow_delay = set_workflow_delay,
     c_get_workflow_steps_with_options = get_workflow_steps_with_options C from_ts,
     c_create_application_version = create_application_version,
     c_list_application_versions = list_application_versions,
     c_get_latest_application_version = get_latest_application_version,
     c_set_latest_application_version = set_latest_application_version,
     c_upsert_queue = upsert_queue,
     c_list_queues = list_queues\<rparr>"

text \<open>The validators of cron specs and timezones are those of \<open>schedule_update_validate\<close>.\<close>

definition memory_schedules :: "(int \<Rightarrow> datetime option) \<Rightarrow> (string \<Rightarrow> unit result) \<Rightarrow> (string \<Rightarrow> unit result) \<Rightarrow> inner schedule_provider" where
  "memory_schedules from_ts valid_cron valid_timezone = \<lparr>
     s_create_schedule = create_schedule,
     s_update_schedule = update_schedule valid_cron valid_timezone,
     s_apply_schedules = apply_schedules,
     s_list_schedules = list_schedules,
     s_set_schedule_status = set_schedule_status,
     s_set_schedule_last_fired = set_schedule_last_fired from_ts,
     s_delete_schedule = delete_schedule\<rparr>"

section \<open>Lemmas\<close>

lemma memory_control_simps [simp]:
  "c_cancel_workflow (memory_control C f) = cancel_workflow"
  "c_cancel_workflows_with_options (memory_control C f) = cancel_workflows_with_options"
  "c_resume_workflow (memory_control C f) = resume_workflow"
  "c_resume_workflows (memory_control C f) = resume_workflows"
  "c_enqueue_existing (memory_control C f) = enqueue_existing"
  "c_fork_workflow_with_timeout (memory_control C f) = fork_workflow_with_timeout"
  "c_set_workflow_delay (memory_control C f) = set_workflow_delay"
  "c_get_workflow_steps_with_options (memory_control C f) = get_workflow_steps_with_options C f"
  "c_create_application_version (memory_control C f) = create_application_version"
  "c_list_application_versions (memory_control C f) = list_application_versions"
  "c_get_latest_application_version (memory_control C f) = get_latest_application_version"
  "c_set_latest_application_version (memory_control C f) = set_latest_application_version"
  "c_upsert_queue (memory_control C f) = upsert_queue"
  "c_list_queues (memory_control C f) = list_queues"
  by (simp_all add: memory_control_def)

lemma memory_schedules_simps [simp]:
  "s_create_schedule (memory_schedules f vc vt) = create_schedule"
  "s_update_schedule (memory_schedules f vc vt) = update_schedule vc vt"
  "s_apply_schedules (memory_schedules f vc vt) = apply_schedules"
  "s_list_schedules (memory_schedules f vc vt) = list_schedules"
  "s_set_schedule_status (memory_schedules f vc vt) = set_schedule_status"
  "s_set_schedule_last_fired (memory_schedules f vc vt) = set_schedule_last_fired f"
  "s_delete_schedule (memory_schedules f vc vt) = delete_schedule"
  by (simp_all add: memory_schedules_def)

end
