(* ===== verification/Engine_Schedule.thy ===== *)
theory Engine_Schedule
  imports Engine_Queue Provider_Control
begin

text \<open>
  Cron schedules of the engine (\<open>src/engine.rs\<close>): the ticks of a spec, the run of a
  tick under its deterministic id, backfill, the firing loop of a schedule and the
  reconciler that installs and retires the loops.  The \<open>cron\<close> and \<open>chrono-tz\<close> crates
  and the text form of an instant are parameters.
\<close>

section \<open>Definitions\<close>

text \<open>
  What the engine uses of the crates: the parser of a spec and its error text, the
  timezone of a name, the first instant of a spec after a given one in a
  timezone or in UTC, and the two text forms of an instant.
\<close>

record ('c, 'z) cron_crate =
  cr_parse :: "string \<Rightarrow> string + 'c"
  cr_zone :: "string \<Rightarrow> 'z option"
  cr_after_in :: "'c \<Rightarrow> 'z \<Rightarrow> datetime \<Rightarrow> datetime option"
  cr_after :: "'c \<Rightarrow> datetime \<Rightarrow> datetime option"
  cr_rfc3339 :: "datetime \<Rightarrow> string"
  cr_rfc3339_nanos :: "datetime \<Rightarrow> string"

definition parse_cron :: "('c, 'z) cron_crate \<Rightarrow> string \<Rightarrow> 'c result" where
  "parse_cron L spec = (case cr_parse L spec of Inr c \<Rightarrow> Ok c
     | Inl e \<Rightarrow> Err (app (''invalid cron schedule `'' @ spec @ ''`: '' @ e)))"

definition parse_timezone :: "('c, 'z) cron_crate \<Rightarrow> string \<Rightarrow> 'z result" where
  "parse_timezone L tz = (case cr_zone L tz of Some z \<Rightarrow> Ok z
     | None \<Rightarrow> Err (app (''invalid cron timezone `'' @ tz @ ''`'')))"

definition next_cron_instant :: "('c, 'z) cron_crate \<Rightarrow> 'c \<Rightarrow> string option \<Rightarrow> datetime \<Rightarrow> datetime option" where
  "next_cron_instant L cron tz after = (case tz of
       Some nm \<Rightarrow> Option.bind (cr_zone L nm) (\<lambda>z. cr_after_in L cron z after)
     | None \<Rightarrow> cr_after L cron after)"

text \<open>\<open>None\<close> if the ticks do not run out before \<open>until\<close>.\<close>

partial_function (option) cron_ticks_between :: "(datetime \<Rightarrow> datetime option) \<Rightarrow> datetime \<Rightarrow> datetime \<Rightarrow> datetime list option" where
  "cron_ticks_between next cursor until = (case next cursor of
       None \<Rightarrow> Some []
     | Some t \<Rightarrow> if until \<le> t then Some []
         else Option.bind (cron_ticks_between next t until) (\<lambda>ts. Some (t # ts)))"

subsection \<open>Ticks\<close>

definition tick_id :: "('c, 'z) cron_crate \<Rightarrow> workflow_schedule \<Rightarrow> datetime \<Rightarrow> string" where
  "tick_id L sched instant = ''sched-'' @ ws_schedule_name sched @ ''-'' @ cr_rfc3339 L instant"

definition persist_scheduled_tick :: "'s runtime \<Rightarrow> ('c, 'z) cron_crate \<Rightarrow> scheduled_input serde \<Rightarrow> datetime \<times> datetime \<Rightarrow> workflow_schedule \<Rightarrow> datetime
  \<Rightarrow> 's \<Rightarrow> (workflow_status \<times> bool \<times> bool \<times> string) result \<times> 's" where
  "persist_scheduled_tick rt L T clock sched instant s =
     (let i = tick_id L sched instant;
          opts = workflow_options_default\<lparr>wo_workflow_id := Some i, wo_queue := ws_queue_name sched\<rparr> in
      case to_value T (tick_input sched instant) of
        Inl e \<Rightarrow> (Err e, s)
      | Inr input \<Rightarrow> (case insert_run rt (fst clock) (snd clock) i (ws_workflow_name sched) input opts None auth_context_default s of
          (Inl e, s') \<Rightarrow> (Err e, s')
        | (Inr (canonical, queued, created), s') \<Rightarrow> (Ok (canonical, queued, created, i), s')))"

text \<open>The run that is spawned, if one is.\<close>

definition launch_scheduled_tick :: "'s runtime \<Rightarrow> workflow_schedule \<Rightarrow> workflow_status \<Rightarrow> bool \<Rightarrow> bool \<Rightarrow> workflow_status option" where
  "launch_scheduled_tick rt sched canonical queued created =
     (if queued \<or> \<not> created \<or> is_terminal (wf_status canonical) then None
      else if contains_key (rt_workflows rt) (ws_workflow_name sched) then Some canonical else None)"

text \<open>\<open>clock k\<close> are the readings for tick \<open>k\<close>; \<open>others k\<close> is what other clients did before it.\<close>

fun backfill_each :: "'s runtime \<Rightarrow> ('c, 'z) cron_crate \<Rightarrow> scheduled_input serde \<Rightarrow> (nat \<Rightarrow> datetime \<times> datetime) \<Rightarrow> (nat \<Rightarrow> 's \<Rightarrow> 's)
  \<Rightarrow> workflow_schedule \<Rightarrow> nat \<Rightarrow> datetime list \<Rightarrow> 's \<Rightarrow> string list result \<times> workflow_status list \<times> 's" where
  "backfill_each rt L T clock others sched k [] s = (Ok [], [], s)"
| "backfill_each rt L T clock others sched k (instant # instants) s =
     (case persist_scheduled_tick rt L T (clock k) sched instant (others k s) of
        (Inl e, s') \<Rightarrow> (Err e, [], s')
      | (Inr (canonical, queued, created, i), s') \<Rightarrow>
         (let launched = (case launch_scheduled_tick rt sched canonical queued created of None \<Rightarrow> [] | Some row \<Rightarrow> [row]);
              (r, rows, s'') = backfill_each rt L T clock others sched (Suc k) instants s' in
          (result_bind r (\<lambda>ids. Ok (i # ids)), launched @ rows, s'')))"

definition backfill_ticks :: "'s runtime \<Rightarrow> ('c, 'z) cron_crate \<Rightarrow> scheduled_input serde \<Rightarrow> (nat \<Rightarrow> datetime \<times> datetime) \<Rightarrow> (nat \<Rightarrow> 's \<Rightarrow> 's)
  \<Rightarrow> workflow_schedule \<Rightarrow> datetime \<Rightarrow> datetime \<Rightarrow> 's \<Rightarrow> (string list result \<times> workflow_status list \<times> 's) option" where
  "backfill_ticks rt L T clock others sched start until s = (case parse_cron L (ws_schedule sched) of
       Inl e \<Rightarrow> Some (Err e, [], s)
     | Inr cron \<Rightarrow> map_option (\<lambda>instants. backfill_each rt L T clock others sched 0 instants s)
         (cron_ticks_between (next_cron_instant L cron (ws_cron_timezone sched)) start until))"

subsection \<open>The firing loop\<close>

text \<open>What happens once the wait for a tick is over; a run that is spawned comes with the store.\<close>

definition fire_tick :: "'s runtime \<Rightarrow> ('c, 'z) cron_crate \<Rightarrow> 's schedule_provider \<Rightarrow> scheduled_input serde \<Rightarrow> datetime \<times> datetime
  \<Rightarrow> workflow_schedule \<Rightarrow> datetime \<Rightarrow> 's \<Rightarrow> workflow_status option \<times> 's" where
  "fire_tick rt L S T clock sched instant s =
     (let (launched, s') = (case persist_scheduled_tick rt L T clock sched instant s of
            (Inr (canonical, queued, created, _), s') \<Rightarrow> (launch_scheduled_tick rt sched canonical queued created, s')
          | (Inl e, s') \<Rightarrow> (None, s')) in
      (launched, snd (s_set_schedule_last_fired S (ws_schedule_name sched) (timestamp_millis instant) s')))"

text \<open>
  The rounds of the loop.  A round has whether the loop was told to stop, the
  instant it looks for the next tick from, whether it slept until the tick, the
  readings for the tick's row, and what others did during the sleep.
\<close>

type_synonym 's fire_round = "bool \<times> datetime \<times> bool \<times> (datetime \<times> datetime) \<times> ('s \<Rightarrow> 's)"

fun fire_rounds :: "'s runtime \<Rightarrow> ('c, 'z) cron_crate \<Rightarrow> 's schedule_provider \<Rightarrow> scheduled_input serde \<Rightarrow> 'c \<Rightarrow> workflow_schedule
  \<Rightarrow> 's fire_round list \<Rightarrow> 's \<Rightarrow> workflow_status list \<times> 's" where
  "fire_rounds rt L S T cron sched [] s = ([], s)"
| "fire_rounds rt L S T cron sched ((halt, now, slept, clock, others) # rounds) s =
     (if halt then ([], s)
      else case next_cron_instant L cron (ws_cron_timezone sched) now of
        None \<Rightarrow> ([], s)
      | Some instant \<Rightarrow> if \<not> slept then ([], others s)
          else (let (launched, s') = fire_tick rt L S T clock sched instant (others s);
                    (rows, s'') = fire_rounds rt L S T cron sched rounds s' in
                ((case launched of None \<Rightarrow> [] | Some row \<Rightarrow> [row]) @ rows, s'')))"

definition schedule_fire_loop :: "'s runtime \<Rightarrow> ('c, 'z) cron_crate \<Rightarrow> 's schedule_provider \<Rightarrow> scheduled_input serde \<Rightarrow> workflow_schedule
  \<Rightarrow> 's fire_round list \<Rightarrow> 's \<Rightarrow> workflow_status list \<times> 's" where
  "schedule_fire_loop rt L S T sched rounds s = (case parse_cron L (ws_schedule sched) of
       Inl e \<Rightarrow> ([], s) | Inr cron \<Rightarrow> fire_rounds rt L S T cron sched rounds s)"

subsection \<open>The reconciler\<close>

text \<open>The loops that are installed, by schedule name, with the definition each was installed with.\<close>

type_synonym installed = "(string, workflow_schedule) hashmap"

definition macro_schedule :: "string \<Rightarrow> string \<Rightarrow> workflow_schedule" where
  "macro_schedule nm spec = \<lparr>ws_schedule_id = ''macro:'' @ nm @ '':'' @ spec, ws_schedule_name = nm, ws_workflow_name = nm,
     ws_schedule = spec, ws_status = Active, ws_context = None, ws_last_fired_at = None, ws_automatic_backfill = False,
     ws_cron_timezone = None, ws_queue_name = None\<rparr>"

definition macro_schedules :: "(string \<times> string) list \<Rightarrow> workflow_schedule list" where
  "macro_schedules scheduled = map (\<lambda>(nm, spec). macro_schedule nm spec) scheduled"

definition desired_schedules :: "'s schedule_provider \<Rightarrow> workflow_schedule list \<Rightarrow> 's \<Rightarrow> workflow_schedule list result" where
  "desired_schedules S macros s =
     result_bind (s_list_schedules S \<lparr>sf_statuses = [Active], sf_workflow_names = [], sf_name_prefixes = []\<rparr> s) (\<lambda>persisted.
       Ok (persisted @ filter (\<lambda>m. ws_schedule_name m \<notin> ws_schedule_name ` set persisted) macros))"

definition retire :: "workflow_schedule list \<Rightarrow> installed \<Rightarrow> installed" where
  "retire desired inst = filter (\<lambda>(nm, d). list_ex (\<lambda>s. ws_schedule_name s = nm \<and> same_definition s d) desired) inst"

definition catch_up :: "'s runtime \<Rightarrow> ('c, 'z) cron_crate \<Rightarrow> scheduled_input serde \<Rightarrow> datetime \<Rightarrow> (nat \<Rightarrow> datetime \<times> datetime) \<Rightarrow> (nat \<Rightarrow> 's \<Rightarrow> 's)
  \<Rightarrow> workflow_schedule \<Rightarrow> 's \<Rightarrow> (workflow_status list \<times> 's) option" where
  "catch_up rt L T now clock others sched s =
     (if \<not> ws_automatic_backfill sched then Some ([], s)
      else case ws_last_fired_at sched of
        None \<Rightarrow> Some ([], s)
      | Some fired \<Rightarrow> (let start = fired + 10 ^ 9 in
          if start < now then map_option snd (backfill_ticks rt L T clock others sched start now s) else Some ([], s)))"

text \<open>\<open>env nm\<close> are the readings and the interference during the backfill of schedule \<open>nm\<close>.\<close>

type_synonym 's catch_up_env = "string \<Rightarrow> datetime \<times> (nat \<Rightarrow> datetime \<times> datetime) \<times> (nat \<Rightarrow> 's \<Rightarrow> 's)"

fun install_each :: "'s runtime \<Rightarrow> ('c, 'z) cron_crate \<Rightarrow> scheduled_input serde \<Rightarrow> 's catch_up_env \<Rightarrow> workflow_schedule list \<Rightarrow> installed \<Rightarrow> 's
  \<Rightarrow> (installed \<times> workflow_schedule list \<times> workflow_status list \<times> 's) option" where
  "install_each rt L T env [] inst s = Some (inst, [], [], s)"
| "install_each rt L T env (sched # rest) inst s =
     (if contains_key inst (ws_schedule_name sched) then install_each rt L T env rest inst s
      else case env (ws_schedule_name sched) of (now, clock, others) \<Rightarrow>
       Option.bind (catch_up rt L T now clock others sched s) (\<lambda>(rows, s').
         map_option (\<lambda>(inst', started, rows', s''). (inst', sched # started, rows @ rows', s''))
           (install_each rt L T env rest (AList.update (ws_schedule_name sched) sched inst) s')))"

text \<open>One pass: the loops installed after it, the loops it started, the runs it launched and the store.\<close>

definition schedule_reconciler :: "'s runtime \<Rightarrow> ('c, 'z) cron_crate \<Rightarrow> 's schedule_provider \<Rightarrow> scheduled_input serde \<Rightarrow> 's catch_up_env
  \<Rightarrow> workflow_schedule list \<Rightarrow> installed \<Rightarrow> 's \<Rightarrow> (installed \<times> workflow_schedule list \<times> workflow_status list \<times> 's) option" where
  "schedule_reconciler rt L S T env macros inst s = (case desired_schedules S macros s of
       Inl e \<Rightarrow> Some (inst, [], [], s)
     | Inr desired \<Rightarrow> install_each rt L T env desired (retire desired inst) s)"

section \<open>Lemmas\<close>

text \<open>
  What the \<open>cron\<close> crate documents of the instants of a schedule: \<open>K\<close> is the set of
  them, and the next one after \<open>t\<close> is the least of \<open>K\<close> that is later than \<open>t\<close>.
\<close>

definition yields_next :: "(datetime \<Rightarrow> datetime option) \<Rightarrow> datetime set \<Rightarrow> bool" where
  "yields_next next K \<longleftrightarrow> (\<forall>t. case next t of
       None \<Rightarrow> (\<forall>u \<in> K. u \<le> t)
     | Some u \<Rightarrow> u \<in> K \<and> t < u \<and> (\<forall>v \<in> K. t < v \<longrightarrow> u \<le> v))"

lemma yields_nextD:
  assumes "yields_next next K"
  shows "next t = None \<Longrightarrow> {v \<in> K. t < v \<and> v < until} = {}"
    and "next t = Some u \<Longrightarrow> u \<in> K \<and> t < u \<and> (\<forall>v \<in> K. t < v \<longrightarrow> u \<le> v)"
  using assms unfolding yields_next_def by (metis (mono_tags, lifting) Collect_empty_eq linorder_not_less option.simps(4), fastforce split: option.splits)

lemma next_splits:
  assumes "yields_next next K" "next t = Some u" "u < until"
  shows "{v \<in> K. t < v \<and> v < until} = insert u {v \<in> K. u < v \<and> v < until}" "u \<notin> {v \<in> K. u < v \<and> v < until}"
  using yields_nextD(2) [OF assms(1,2)] assms(3) by (auto simp: order_le_less)

lemma cron_ticks_between_exact:
  assumes "yields_next next K"
  shows "\<exists>ts. cron_ticks_between next start until = Some ts \<and> sorted_wrt (<) ts \<and> set ts = {v \<in> K. start < v \<and> v < until}"
proof (induction "card {v \<in> K. start < v \<and> v < until}" arbitrary: start)
  case 0
  have fin: "finite {v \<in> K. start < v \<and> v < until}" by (rule finite_subset [of _ "{start<..<until}"]) auto
  then have none: "{v \<in> K. start < v \<and> v < until} = {}" using 0 by simp
  have "until \<le> u" if "next start = Some u" for u using none yields_nextD(2) [OF assms(1) that] by force
  then show ?case using none by (subst cron_ticks_between.simps) (auto split: option.split)
next
  case (Suc n)
  then have "{v \<in> K. start < v \<and> v < until} \<noteq> {}" by (metis card.empty nat.distinct(1))
  then obtain u where u: "next start = Some u" using yields_nextD(1) [OF assms(1), of start until] by (cases "next start") auto
  have "u < until" using \<open>{v \<in> K. start < v \<and> v < until} \<noteq> {}\<close> yields_nextD(2) [OF assms(1) u] by force
  note split = next_splits [OF assms(1) u this]
  have "finite {v \<in> K. u < v \<and> v < until}" by (rule finite_subset [of _ "{u<..<until}"]) auto
  then have "n = card {v \<in> K. u < v \<and> v < until}" using Suc.hyps(2) split by simp
  then obtain ts where ts: "cron_ticks_between next u until = Some ts" "sorted_wrt (<) ts" "set ts = {v \<in> K. u < v \<and> v < until}"
    using Suc.hyps(1) by blast
  then have "cron_ticks_between next start until = Some (u # ts)" using u \<open>u < until\<close> by (subst cron_ticks_between.simps) simp
  then show ?case using ts split by auto
qed

lemma persist_tick_memory:
  assumes "rt_provider rt = memory_provider C f" "persist_scheduled_tick rt L T clock sched instant s = (Inr (row, queued, new, i), s')"
  shows "i = tick_id L sched instant" "map_of (workflows s') i = Some row" "new \<longleftrightarrow> \<not> contains_key (workflows s) i"
    "queued = (ws_queue_name sched \<noteq> None)" "new \<Longrightarrow> wf_id row = i" "new \<Longrightarrow> \<not> queued \<Longrightarrow> wf_status row = STATUS_PENDING"
  using assms(2) insert_run_memory [OF assms(1)]
  by (auto simp: persist_scheduled_tick_def Let_def split: sum.splits prod.splits dest!: insert_run_memory [OF assms(1)])

lemma persist_tick_keeps:
  assumes "rt_provider rt = memory_provider C f" "persist_scheduled_tick rt L T clock sched instant s = (r, s')" "contains_key (workflows s) j"
  shows "contains_key (workflows s') j"
  using assms(2,3) insert_run_keeps [OF assms(1)]
  by (auto simp: persist_scheduled_tick_def Let_def split: sum.splits prod.splits)

lemma launched_row:
  assumes "rt_provider rt = memory_provider C f" "persist_scheduled_tick rt L T clock sched instant s = (Inr (row, queued, new, i), s')"
    and "launch_scheduled_tick rt sched row queued new = Some row'"
  shows "row' = row \<and> new \<and> wf_id row = tick_id L sched instant \<and> \<not> contains_key (workflows s) (tick_id L sched instant)
    \<and> wf_status row = STATUS_PENDING \<and> map_of (workflows s') (tick_id L sched instant) = Some row"
  using persist_tick_memory [OF assms(1,2)] assms(3) by (auto simp: launch_scheduled_tick_def split: if_splits)

lemma backfill_each_memory:
  assumes "rt_provider rt = memory_provider C f" "\<And>k g j. contains_key (workflows g) j \<Longrightarrow> contains_key (workflows (others k g)) j"
  shows "backfill_each rt L T clock others sched k ts s = (r, rows, s') \<Longrightarrow>
    (\<forall>j. contains_key (workflows s) j \<longrightarrow> contains_key (workflows s') j)
    \<and> (\<forall>row \<in> set rows. wf_id row \<in> tick_id L sched ` set ts \<and> \<not> contains_key (workflows s) (wf_id row) \<and> wf_status row = STATUS_PENDING)
    \<and> distinct (map wf_id rows)
    \<and> (\<forall>ids. r = Inr ids \<longrightarrow> ids = map (tick_id L sched) ts \<and> (\<forall>i \<in> set ids. contains_key (workflows s') i))"
proof (induction ts arbitrary: k s r rows)
  case (Cons t ts)
  obtain x s1 where x: "persist_scheduled_tick rt L T (clock k) sched t (others k s) = (x, s1)" by fastforce
  have keeps: "contains_key (workflows s) j \<Longrightarrow> contains_key (workflows s1) j" for j
    using persist_tick_keeps [OF assms(1) x] assms(2) by blast
  show ?case
  proof (cases x)
    case (Inl e)
    then show ?thesis using Cons.prems x keeps by auto
  next
    case (Inr y)
    obtain row queued new i where y: "y = (row, queued, new, i)" by (cases y) auto
    obtain r' rows' where rest: "backfill_each rt L T clock others sched (Suc k) ts s1 = (r', rows', s')"
      "r = result_bind r' (\<lambda>ids. Ok (i # ids))"
      "rows = (case launch_scheduled_tick rt sched row queued new of None \<Rightarrow> [] | Some row \<Rightarrow> [row]) @ rows'"
      using Cons.prems x Inr y by (auto simp: Let_def split: prod.splits)
    note tick = x [unfolded Inr y]
    have i: "i = tick_id L sched t" "contains_key (workflows s1) i"
      using persist_tick_memory(1,2) [OF assms(1) tick] by (auto simp: contains_key_iff)
    have fresh: "wf_id row' = i \<and> \<not> contains_key (workflows s) i \<and> wf_status row' = STATUS_PENDING"
      if "launch_scheduled_tick rt sched row queued new = Some row'" for row'
      using launched_row [OF assms(1) tick that] i(1) assms(2) by blast
    note ih = Cons.IH [OF rest(1)]
    have "i \<notin> wf_id ` set rows'" using ih i(2) by auto
    then show ?thesis using ih rest(2,3) i fresh keeps
      by (auto simp: result_bind_def split: option.splits sum.splits)
  qed
qed (auto simp: Let_def)

lemma persist_tick_total:
  assumes "rt_provider rt = memory_provider C f" "to_value T (tick_input sched instant) = Inr input"
    and "is_none_or (ws_queue_name sched) (contains_key (rt_queues rt))"
  shows "\<exists>row queued new s'. persist_scheduled_tick rt L T clock sched instant s = (Ok (row, queued, new, tick_id L sched instant), s')"
  using assms
  by (auto simp: persist_scheduled_tick_def insert_run_def build_run_def validate_deduplication_def workflow_options_default_def
      result_bind_def opt_filter_def insert_workflow_status_def put_row_def workflow_status_new_def Let_def is_none_or_def split: option.splits)

lemma persist_tick_effect:
  assumes "rt_provider rt = memory_provider C f" "persist_scheduled_tick rt L T clock sched instant s = (Inr (row, queued, new, i), s')"
  shows "j \<noteq> i \<Longrightarrow> map_of (workflows s') j = map_of (workflows s) j" "\<not> new \<Longrightarrow> s' = s"
    "new \<Longrightarrow> wf_queue_name row = ws_queue_name sched
      \<and> wf_status row = (if ws_queue_name sched = None then STATUS_PENDING else STATUS_ENQUEUED)"
  using assms
  by (auto simp: persist_scheduled_tick_def insert_run_def build_run_def validate_deduplication_def workflow_options_default_def
      result_bind_def opt_filter_def insert_workflow_status_def put_row_def workflow_status_new_def Let_def
      split: sum.splits option.splits if_splits prod.splits)

lemma launches_new_tick:
  assumes "rt_provider rt = memory_provider C f" "persist_scheduled_tick rt L T clock sched instant s = (Inr (row, queued, new, i), s')"
  shows "launch_scheduled_tick rt sched row queued new
    = (if new \<and> ws_queue_name sched = None \<and> contains_key (rt_workflows rt) (ws_workflow_name sched) then Some row else None)"
  using persist_tick_memory(4,6) [OF assms] by (auto simp: launch_scheduled_tick_def is_terminal_def)

text \<open>A tick whose row is missing gets one; the run of a direct schedule is then launched.\<close>

lemma backfill_each_exact:
  assumes "rt_provider rt = memory_provider C f"
    and "\<And>k g v. map_of (workflows (others k g)) (tick_id L sched v) = map_of (workflows g) (tick_id L sched v)"
    and direct: "direct \<longleftrightarrow> ws_queue_name sched = None \<and> contains_key (rt_workflows rt) (ws_workflow_name sched)"
  shows "backfill_each rt L T clock others sched k ts s = (Inr ids, rows, s') \<Longrightarrow>
    (\<forall>v row. map_of (workflows s) (tick_id L sched v) = Some row \<longrightarrow> map_of (workflows s') (tick_id L sched v) = Some row)
    \<and> (\<forall>v \<in> set ts. map_of (workflows s) (tick_id L sched v) = None \<longrightarrow> (\<exists>row. map_of (workflows s') (tick_id L sched v) = Some row
        \<and> wf_id row = tick_id L sched v \<and> wf_queue_name row = ws_queue_name sched
        \<and> wf_status row = (if ws_queue_name sched = None then STATUS_PENDING else STATUS_ENQUEUED) \<and> (direct \<longrightarrow> row \<in> set rows)))
    \<and> (\<not> direct \<longrightarrow> rows = [])"
proof (induction ts arbitrary: k s rows ids)
  case (Cons t ts)
  obtain x s1 where x: "persist_scheduled_tick rt L T (clock k) sched t (others k s) = (x, s1)" by fastforce
  obtain row queued new i where y: "x = Inr (row, queued, new, i)" using Cons.prems x by (cases x) auto
  note tick = x [unfolded y]
  obtain ids' rows' where rest: "backfill_each rt L T clock others sched (Suc k) ts s1 = (Inr ids', rows', s')"
    and rows: "rows = (if new \<and> direct then [row] else []) @ rows'"
    using Cons.prems tick direct unfolding backfill_each.simps
    by (cases "backfill_each rt L T clock others sched (Suc k) ts s1")
      (auto simp: launches_new_tick [OF assms(1) tick] result_bind_def split: sum.splits if_splits)
  note ih = Cons.IH [OF rest]
  note row = persist_tick_memory(1-3,5) [OF assms(1) tick] and effect = persist_tick_effect [OF assms(1) tick]
  have kept: "map_of (workflows s1) (tick_id L sched v) = Some a" if "map_of (workflows s) (tick_id L sched v) = Some a" for v a
    using that effect(1,2) row(3) assms(2) [of k s] by (cases "tick_id L sched v = i") (auto simp: contains_key_iff dom_def)
  have missing: "map_of (workflows s1) (tick_id L sched v) = None" if "map_of (workflows s) (tick_id L sched v) = None" "tick_id L sched v \<noteq> i" for v
    using that effect(1) assms(2) by metis
  have fired: "new \<and> map_of (workflows s') i = Some row" if "map_of (workflows s) i = None"
    using that row(1-3) ih assms(2) [of k s] by (auto simp: contains_key_iff)
  show ?case
  proof (intro conjI ballI allI impI)
    show "map_of (workflows s') (tick_id L sched v) = Some a" if "map_of (workflows s) (tick_id L sched v) = Some a" for v a
      using ih kept [OF that] by blast
    show "\<exists>a. map_of (workflows s') (tick_id L sched v) = Some a \<and> wf_id a = tick_id L sched v \<and> wf_queue_name a = ws_queue_name sched
        \<and> wf_status a = (if ws_queue_name sched = None then STATUS_PENDING else STATUS_ENQUEUED) \<and> (direct \<longrightarrow> a \<in> set rows)"
      if v: "v \<in> set (t # ts)" "map_of (workflows s) (tick_id L sched v) = None" for v
    proof (cases "tick_id L sched v = i")
      case True
      with v(2) fired have "new" "map_of (workflows s') i = Some row" by auto
      then show ?thesis using True row(4) effect(3) rows by (intro exI [of _ row]) simp
    next
      case False
      with v row(1) have "v \<in> set ts" by auto
      with missing [OF v(2) False] ih rows show ?thesis by fastforce
    qed
    show "rows = []" if "\<not> direct" using ih that rows by simp
  qed
qed simp

lemma launched_ticks:
  assumes "rt_provider rt = memory_provider C f"
    and "\<forall>k g v. map_of (workflows (others k g)) (tick_id L sched v) = map_of (workflows g) (tick_id L sched v)"
    and "backfill_each rt L T clock others sched k ts s = (Inr ids, rows, s')"
    and "\<forall>row \<in> set rows. wf_id row \<in> tick_id L sched ` set ts \<and> \<not> contains_key (workflows s) (wf_id row)"
  shows "wf_id ` set rows = (if ws_queue_name sched = None \<and> contains_key (rt_workflows rt) (ws_workflow_name sched)
      then {i \<in> tick_id L sched ` set ts. \<not> contains_key (workflows s) i} else {})" (is "_ = (if ?direct then ?missing else {})")
    "\<forall>i \<in> tick_id L sched ` set ts. case map_of (workflows s) i of
        Some row \<Rightarrow> map_of (workflows s') i = Some row
      | None \<Rightarrow> \<exists>row. map_of (workflows s') i = Some row \<and> wf_queue_name row = ws_queue_name sched
          \<and> wf_status row = (if ws_queue_name sched = None then STATUS_PENDING else STATUS_ENQUEUED)"
proof -
  have "\<And>k g v. map_of (workflows (others k g)) (tick_id L sched v) = map_of (workflows g) (tick_id L sched v)" using assms(2) by blast
  note exact = backfill_each_exact [where others = others and L = L and sched = sched, OF assms(1) this refl assms(3)]
  show "\<forall>i \<in> tick_id L sched ` set ts. case map_of (workflows s) i of
        Some row \<Rightarrow> map_of (workflows s') i = Some row
      | None \<Rightarrow> \<exists>row. map_of (workflows s') i = Some row \<and> wf_queue_name row = ws_queue_name sched
          \<and> wf_status row = (if ws_queue_name sched = None then STATUS_PENDING else STATUS_ENQUEUED)"
  proof (intro ballI, elim imageE, hypsubst)
    fix v assume "v \<in> set ts"
    then show "case map_of (workflows s) (tick_id L sched v) of
        Some row \<Rightarrow> map_of (workflows s') (tick_id L sched v) = Some row
      | None \<Rightarrow> \<exists>row. map_of (workflows s') (tick_id L sched v) = Some row \<and> wf_queue_name row = ws_queue_name sched
          \<and> wf_status row = (if ws_queue_name sched = None then STATUS_PENDING else STATUS_ENQUEUED)"
      using exact by (cases "map_of (workflows s) (tick_id L sched v)") (simp_all only: option.case, blast+)
  qed
  have "wf_id ` set rows \<subseteq> ?missing" using assms(4) by blast
  moreover have "?missing \<subseteq> wf_id ` set rows" if direct: ?direct
  proof
    fix i assume "i \<in> ?missing"
    then obtain v where v: "v \<in> set ts" "i = tick_id L sched v" "map_of (workflows s) (tick_id L sched v) = None"
      by (auto simp: contains_key_iff)
    then obtain row where "row \<in> set rows" "wf_id row = i" using exact direct by blast
    then show "i \<in> wf_id ` set rows" by blast
  qed
  moreover have "rows = []" if "\<not> ?direct" using exact that by blast
  ultimately show "wf_id ` set rows = (if ?direct then ?missing else {})" by auto
qed

lemma backfill_each_total:
  assumes "rt_provider rt = memory_provider C f" "\<And>t. \<exists>v. to_value T (tick_input sched t) = Inr v"
    and "is_none_or (ws_queue_name sched) (contains_key (rt_queues rt))"
  shows "\<exists>ids rows s'. backfill_each rt L T clock others sched k ts s = (Inr ids, rows, s')"
proof (induction ts arbitrary: k s)
  case (Cons t ts)
  obtain v where "to_value T (tick_input sched t) = Inr v" using assms(2) by blast
  from persist_tick_total [OF assms(1) this assms(3)] obtain row queued new s1
    where "persist_scheduled_tick rt L T (clock k) sched t (others k s) = (Ok (row, queued, new, tick_id L sched t), s1)" by blast
  with Cons.IH [of "Suc k" s1] show ?case by (auto simp: result_bind_def)
qed simp

section \<open>Properties\<close>

text \<open>
  C17: a backfill fires exactly what is missing, once.  For a schedule whose spec
  parses and whose instants the cron crate enumerates in order, the backfill always ends, and it ends without
  an error if the input of every tick converts and the schedule has no queue or a
  registered one.  Without an error it returns the ids of exactly the instants strictly
  between its bounds, in order, and afterwards each of them has a row.  Whatever
  others do meanwhile, short of removing rows, it launches only ticks that had no row
  before, each at most once, as pending rows.  If others leave the rows of this
  schedule's ticks alone, every tick that had a row keeps it as it was, and every
  tick that had none gets one: on a schedule without a queue a pending one, which is
  launched if the workflow is registered, on a schedule with a queue an enqueued one
  on that queue.  So it launches the missing ticks of a registered workflow without
  a queue, all of them, and nothing else.
\<close>

theorem backfill_fires_missing_once:
  assumes "rt_provider rt = memory_provider C f" "parse_cron L (ws_schedule sched) = Ok cron"
    and "yields_next (next_cron_instant L cron (ws_cron_timezone sched)) K"
    and "\<forall>k g j. contains_key (workflows g) j \<longrightarrow> contains_key (workflows (others k g)) j"
  shows "\<exists>r rows s' ts. backfill_ticks rt L T clock others sched start until s = Some (r, rows, s')
    \<and> sorted_wrt (<) ts \<and> set ts = {v \<in> K. start < v \<and> v < until}
    \<and> ((\<forall>t. \<exists>v. to_value T (tick_input sched t) = Ok v) \<and> is_none_or (ws_queue_name sched) (contains_key (rt_queues rt)) \<longrightarrow> (\<exists>ids. r = Ok ids))
    \<and> (\<forall>ids. r = Ok ids \<longrightarrow> ids = map (tick_id L sched) ts \<and> (\<forall>i \<in> set ids. contains_key (workflows s') i))
    \<and> (\<forall>row \<in> set rows. wf_id row \<in> tick_id L sched ` set ts \<and> \<not> contains_key (workflows s) (wf_id row) \<and> wf_status row = STATUS_PENDING)
    \<and> distinct (map wf_id rows)
    \<and> (\<forall>ids. r = Ok ids \<and> (\<forall>k g v. map_of (workflows (others k g)) (tick_id L sched v) = map_of (workflows g) (tick_id L sched v)) \<longrightarrow>
        wf_id ` set rows = (if ws_queue_name sched = None \<and> contains_key (rt_workflows rt) (ws_workflow_name sched)
          then {i \<in> tick_id L sched ` set ts. \<not> contains_key (workflows s) i} else {})
        \<and> (\<forall>i \<in> tick_id L sched ` set ts. case map_of (workflows s) i of
            Some row \<Rightarrow> map_of (workflows s') i = Some row
          | None \<Rightarrow> \<exists>row. map_of (workflows s') i = Some row \<and> wf_queue_name row = ws_queue_name sched
              \<and> wf_status row = (if ws_queue_name sched = None then STATUS_PENDING else STATUS_ENQUEUED)))"
proof -
  obtain ts where ts: "cron_ticks_between (next_cron_instant L cron (ws_cron_timezone sched)) start until = Some ts"
    "sorted_wrt (<) ts" "set ts = {v \<in> K. start < v \<and> v < until}"
    using cron_ticks_between_exact [OF assms(3)] by blast
  obtain r rows s' where each: "backfill_each rt L T clock others sched 0 ts s = (r, rows, s')" by (metis surj_pair)
  have ran: "backfill_ticks rt L T clock others sched start until s = Some (r, rows, s')"
    using assms(2) ts(1) each by (simp add: backfill_ticks_def)
  have total: "(\<forall>t. \<exists>v. to_value T (tick_input sched t) = Ok v) \<and> is_none_or (ws_queue_name sched) (contains_key (rt_queues rt))
      \<longrightarrow> (\<exists>ids. r = Ok ids)"
    using backfill_each_total [OF assms(1), of T sched L clock others 0 ts s] each by fastforce
  have "\<And>k g j. contains_key (workflows g) j \<Longrightarrow> contains_key (workflows (others k g)) j" using assms(4) by blast
  note once = backfill_each_memory [where others = others, OF assms(1) this each]
  have launched: "\<forall>row \<in> set rows. wf_id row \<in> tick_id L sched ` set ts \<and> \<not> contains_key (workflows s) (wf_id row)" using once by blast
  have same: "backfill_each rt L T clock others sched 0 ts s = (Inr ids, rows, s')" if "r = Ok ids" for ids
    using each that by simp
  note exact = launched_ticks [where others = others, OF assms(1) _ same launched]
  show ?thesis
    by (intro exI [of _ r] exI [of _ rows] exI [of _ s'] exI [of _ ts] conjI allI impI;
        (fact ran ts | (elim conjE, rule exact; assumption) | (use total once in blast)))
qed

text \<open>
  C16: a tick runs at most once.  Whatever executors fire a tick, by their firing
  loops or by backfills, once one of them has persisted it no other launches it,
  as long as the row is kept; the one that launches it launches the row it
  inserted.
\<close>

theorem tick_fires_once:
  assumes "rt_provider rt = memory_provider C f" "rt_provider rt' = memory_provider C' f'"
    and "persist_scheduled_tick rt L T clock sched instant s = (Ok (row, queued, new, i), s1)"
    and "contains_key (workflows s2) i" "tick_id L' sched' instant' = i"
    and "persist_scheduled_tick rt' L' T' clock' sched' instant' s2 = (Ok (row', queued', new', i'), s3)"
  shows "launch_scheduled_tick rt' sched' row' queued' new' = None \<and> i' = i
    \<and> (\<forall>row0. launch_scheduled_tick rt sched row queued new = Some row0
        \<longrightarrow> row0 = row \<and> wf_id row = i \<and> \<not> contains_key (workflows s) i \<and> map_of (workflows s1) i = Some row)"
proof -
  have "\<not> new'" "i' = i" using persist_tick_memory [OF assms(2,6)] assms(4,5) by simp_all
  then show ?thesis using launched_row [OF assms(1,3)] persist_tick_memory(1) [OF assms(1,3)]
    by (auto simp: launch_scheduled_tick_def)
qed

text \<open>
  An executor without the handler strands a tick.  If the executor that
  persists a tick first has not registered the workflow, it launches nothing and
  the row stays pending under its name; every later attempt finds the row and
  launches nothing either.
\<close>

theorem unregistered_tick_stranded:
  assumes "rt_provider rt = memory_provider C f" "rt_provider rt' = memory_provider C' f'"
    and "\<not> contains_key (rt_workflows rt) (ws_workflow_name sched)" "ws_queue_name sched = None"
    and "\<not> contains_key (workflows s) (tick_id L sched instant)"
    and "persist_scheduled_tick rt L T clock sched instant s = (Ok (row, queued, new, i), s1)"
    and "persist_scheduled_tick rt' L T' clock' sched instant s1 = (Ok (row', queued', new', i'), s2)"
  shows "launch_scheduled_tick rt sched row queued new = None \<and> launch_scheduled_tick rt' sched row' queued' new' = None
    \<and> map_option wf_status (map_of (workflows s2) (tick_id L sched instant)) = Some STATUS_PENDING"
proof -
  note first = persist_tick_memory [OF assms(1,6)] and second = persist_tick_memory [OF assms(2,7)]
  have "new" "\<not> queued" "\<not> new'" using first second(3) second(1) assms(4,5) by (auto simp: contains_key_iff)
  moreover have "map_of (workflows s2) i = map_of (workflows s1) i" if "\<not> new'"
    using assms(2,7) that second(1,2) first(1)
    by (auto simp: persist_scheduled_tick_def insert_run_def insert_workflow_status_def put_row_def Let_def
        split: sum.splits prod.splits option.splits if_splits)
  ultimately show ?thesis using first assms(3) by (auto simp: launch_scheduled_tick_def)
qed

lemma install_each_exact:
  assumes "install_each rt L T env desired inst s = Some (inst', started, rows, s')" "distinct (map fst inst)"
  shows "distinct (map fst inst') \<and> (\<forall>nm d. map_of inst nm = Some d \<longrightarrow> map_of inst' nm = Some d)
    \<and> dom (map_of inst') = dom (map_of inst) \<union> ws_schedule_name ` set desired
    \<and> (\<forall>sc \<in> set started. map_of inst' (ws_schedule_name sc) = Some sc)
    \<and> distinct (map ws_schedule_name started) \<and> set started \<subseteq> set desired
    \<and> ws_schedule_name ` set started = ws_schedule_name ` set desired - dom (map_of inst)"
  using assms
proof (induction desired arbitrary: inst s started rows)
  case (Cons sched rest)
  show ?case
  proof (cases "contains_key inst (ws_schedule_name sched)")
    case True
    then show ?thesis using Cons.IH [of inst s started rows] Cons.prems by (auto simp: contains_key_iff)
  next
    case False
    let ?inst = "AList.update (ws_schedule_name sched) sched inst"
    obtain s1 started' rows' where rest: "install_each rt L T env rest ?inst s1 = Some (inst', started', rows', s')" "started = sched # started'"
      using Cons.prems(1) False by (auto split: prod.splits bind_splits)
    have "distinct (map fst ?inst)" using Cons.prems(2) by (rule distinct_keys_update)
    note ih = Cons.IH [OF rest(1) this]
    have out: "map_of inst (ws_schedule_name sched) = None" using False by (auto simp: contains_key_iff)
    have dom: "dom (map_of ?inst) = insert (ws_schedule_name sched) (dom (map_of inst))" by (auto simp: update_conv')
    have keep: "map_of inst nm = Some d \<Longrightarrow> map_of inst' nm = Some d" for nm d
      using ih out by (cases "nm = ws_schedule_name sched") (simp_all add: update_conv')
    have new: "map_of inst' (ws_schedule_name sched) = Some sched" using ih by (simp add: update_conv')
    have names: "ws_schedule_name ` set started' = ws_schedule_name ` set rest - insert (ws_schedule_name sched) (dom (map_of inst))"
      using ih unfolding dom by blast
    have dom': "dom (map_of inst') = dom (map_of inst) \<union> ws_schedule_name ` set (sched # rest)"
      using ih unfolding dom by auto
    have "ws_schedule_name ` set started = ws_schedule_name ` set (sched # rest) - dom (map_of inst)"
      using names out rest(2) by auto
    moreover have "distinct (map ws_schedule_name started)" using ih names rest(2) by auto
    moreover have "\<forall>sc \<in> set started. map_of inst' (ws_schedule_name sc) = Some sc" using ih new rest(2) by (metis set_ConsD)
    ultimately show ?thesis using ih rest(2) keep dom' by (metis insert_mono list.simps(15))
  qed
qed simp

text \<open>
  C18: the reconciler makes the installed loops match the schedules.  After a pass
  exactly the desired schedules have a loop, one each; a loop whose definition is
  unchanged is left running, and the loops that are started are those of
  schedules that had none or whose definition changed, each with the definition
  listed now.
\<close>

theorem reconciler_matches_desired:
  assumes "desired_schedules S macros s = Ok desired" "distinct (map fst inst)"
    and "schedule_reconciler rt L S T env macros inst s = Some (inst', started, rows, s')"
  shows "distinct (map fst inst') \<and> dom (map_of inst') = ws_schedule_name ` set desired
    \<and> (\<forall>nm d. map_of inst nm = Some d \<longrightarrow> (\<exists>sc \<in> set desired. ws_schedule_name sc = nm \<and> same_definition sc d)
        \<longrightarrow> map_of inst' nm = Some d \<and> nm \<notin> ws_schedule_name ` set started)
    \<and> (\<forall>nm. nm \<in> ws_schedule_name ` set started \<longleftrightarrow> nm \<in> ws_schedule_name ` set desired
        \<and> \<not> (\<exists>d. map_of inst nm = Some d \<and> (\<exists>sc \<in> set desired. ws_schedule_name sc = nm \<and> same_definition sc d)))
    \<and> (\<forall>sc \<in> set started. sc \<in> set desired \<and> map_of inst' (ws_schedule_name sc) = Some sc)"
proof -
  have distinct: "distinct (map fst (retire desired inst))" unfolding retire_def by (rule distinct_keys_filter [OF assms(2)])
  have kept: "map_of (retire desired inst) nm = Some d \<longleftrightarrow> map_of inst nm = Some d
      \<and> (\<exists>sc \<in> set desired. ws_schedule_name sc = nm \<and> same_definition sc d)" for nm d
    using distinct assms(2) by (auto simp: retire_def list_ex_iff)
  have "install_each rt L T env desired (retire desired inst) s = Some (inst', started, rows, s')"
    using assms(1,3) by (simp add: schedule_reconciler_def)
  note exact = install_each_exact [OF this distinct]
  have sub: "dom (map_of (retire desired inst)) \<subseteq> ws_schedule_name ` set desired" using kept by (auto simp: dom_def)
  have gone: "nm \<in> dom (map_of (retire desired inst)) \<longleftrightarrow>
      (\<exists>d. map_of inst nm = Some d \<and> (\<exists>sc \<in> set desired. ws_schedule_name sc = nm \<and> same_definition sc d))" for nm
    using kept by (auto simp: dom_def)
  have stay: "map_of (retire desired inst) nm = Some d \<Longrightarrow> map_of inst' nm = Some d" for nm d using exact by blast
  have names: "ws_schedule_name ` set started = ws_schedule_name ` set desired - dom (map_of (retire desired inst))" using exact by blast
  have "map_of inst' nm = Some d \<and> nm \<notin> ws_schedule_name ` set started"
    if "map_of inst nm = Some d" "\<exists>sc \<in> set desired. ws_schedule_name sc = nm \<and> same_definition sc d" for nm d
  proof -
    have "map_of (retire desired inst) nm = Some d" by (rule kept [THEN iffD2, OF conjI [OF that]])
    from stay [OF this] domI [of "map_of (retire desired inst)", OF this] show ?thesis unfolding names by blast
  qed
  moreover have "dom (map_of inst') = ws_schedule_name ` set desired" using exact sub by (metis sup.absorb2)
  moreover have "nm \<in> ws_schedule_name ` set started \<longleftrightarrow> nm \<in> ws_schedule_name ` set desired
      \<and> \<not> (\<exists>d. map_of inst nm = Some d \<and> (\<exists>sc \<in> set desired. ws_schedule_name sc = nm \<and> same_definition sc d))" for nm
    unfolding names gone [symmetric] by blast
  moreover have "\<forall>sc \<in> set started. sc \<in> set desired \<and> map_of inst' (ws_schedule_name sc) = Some sc" using exact by blast
  moreover have "distinct (map fst inst')" using exact by blast
  ultimately show ?thesis by meson
qed

lemma persist_tick_only:
  assumes "rt_provider rt = memory_provider C f" "persist_scheduled_tick rt L T clock sched instant s = (r, s')" "contains_key (workflows s') j"
  shows "contains_key (workflows s) j \<or> j = tick_id L sched instant"
proof -
  have "wf_id row = i" if "build_run rt now created i nm input opts parent auth = Inr (row, queued)" for now created i nm input opts parent auth row queued
    using build_run_row(1) [OF that] .
  then show ?thesis using assms
    by (auto simp: persist_scheduled_tick_def insert_run_def insert_workflow_status_def put_row_def contains_key_def Let_def
        split: sum.splits prod.splits option.splits if_splits)
qed

lemma backfill_each_only:
  assumes "rt_provider rt = memory_provider C f"
  shows "backfill_each rt L T clock (\<lambda>_. id) sched k ts s = (r, rows, s') \<Longrightarrow> contains_key (workflows s') j
    \<Longrightarrow> contains_key (workflows s) j \<or> j \<in> tick_id L sched ` set ts"
proof (induction ts arbitrary: k s r rows)
  case (Cons t ts)
  obtain x s1 where "persist_scheduled_tick rt L T (clock k) sched t s = (x, s1)" by fastforce
  then show ?case using Cons persist_tick_only [OF assms, of L T "clock k" sched t s x s1 j]
    by (auto simp: Let_def split: sum.splits prod.splits)
qed simp

text \<open>
  Automatic backfill misses the tick one second after the last.  The catch-up of a
  schedule starts one second after the instant it last fired, and the bounds of a
  backfill are exclusive, so a missed tick exactly one second later is neither
  persisted nor run, while every later one is.
\<close>

theorem catch_up_misses_next_second:
  assumes "rt_provider rt = memory_provider C f" "parse_cron L (ws_schedule sched) = Ok cron"
    and "yields_next (next_cron_instant L cron (ws_cron_timezone sched)) K" "inj (cr_rfc3339 L)"
    and "ws_automatic_backfill sched" "ws_last_fired_at sched = Some fired" "fired + 10 ^ 9 < now"
    and "\<not> contains_key (workflows s) (tick_id L sched (fired + 10 ^ 9))"
  shows "\<exists>ts r rows s'. backfill_each rt L T clock (\<lambda>_. id) sched 0 ts s = (r, rows, s')
    \<and> catch_up rt L T now clock (\<lambda>_. id) sched s = Some (rows, s')
    \<and> sorted_wrt (<) ts \<and> set ts = {v \<in> K. fired + 10 ^ 9 < v \<and> v < now}
    \<and> \<not> contains_key (workflows s') (tick_id L sched (fired + 10 ^ 9))"
proof -
  obtain ts where ts: "cron_ticks_between (next_cron_instant L cron (ws_cron_timezone sched)) (fired + 10 ^ 9) now = Some ts"
    "sorted_wrt (<) ts" "set ts = {v \<in> K. fired + 10 ^ 9 < v \<and> v < now}"
    using cron_ticks_between_exact [OF assms(3)] by blast
  obtain r rows s' where each: "backfill_each rt L T clock (\<lambda>_. id) sched 0 ts s = (r, rows, s')" by (metis surj_pair)
  have "catch_up rt L T now clock (\<lambda>_. id) sched s = Some (rows, s')"
    using assms(2,5,6,7) ts(1) each by (simp add: catch_up_def backfill_ticks_def Let_def)
  moreover have "tick_id L sched (fired + 10 ^ 9) \<notin> tick_id L sched ` set ts"
    using inj_eq [OF assms(4)] ts(3) by (auto simp: tick_id_def)
  then have "\<not> contains_key (workflows s') (tick_id L sched (fired + 10 ^ 9))"
    using assms(8) backfill_each_only [OF assms(1) each, of "tick_id L sched (fired + 10 ^ 9)"] by argo
  ultimately show ?thesis using each ts(2,3) by (intro exI conjI)
qed

text \<open>A tick whose row cannot be written counts as fired all the same, so no later backfill reaches back to it.\<close>

lemma failed_tick_counts_as_fired:
  assumes "persist_scheduled_tick rt L T clock sched instant s = (Err e, s1)"
    and "map_of (schedules s1) (ws_schedule_name sched) = Some sc"
  shows "\<exists>s2. fire_tick rt L (memory_schedules f vc vt) T clock sched instant s = (None, s2) \<and> workflows s2 = workflows s1
    \<and> map_of (schedules s2) (ws_schedule_name sched) = Some (sc\<lparr>ws_last_fired_at := f (timestamp_millis instant)\<rparr>)"
  using assms by (simp add: fire_tick_def set_schedule_last_fired_def)

section \<open>Witnesses\<close>

lemma direct_tick_persists:
  assumes "rt_provider rt = memory_provider C f" "ws_queue_name sched = None" "to_value T (tick_input sched instant) = Inr input"
  shows "\<exists>row new s'. persist_scheduled_tick rt L T clock sched instant s = (Ok (row, False, new, tick_id L sched instant), s')"
  using persist_tick_total [OF assms(1,3), of L clock s] persist_tick_memory(4) [OF assms(1), of L T clock sched instant s] assms(2)
  by (fastforce simp: is_none_or_def)

definition sample_cron :: "(unit, unit) cron_crate" where
  "sample_cron = \<lparr>cr_parse = (\<lambda>_. Inr ()), cr_zone = (\<lambda>_. None), cr_after_in = (\<lambda>_ _ _. None),
     cr_after = (\<lambda>_ t. Some ((t div 10 ^ 9 + 1) * 10 ^ 9)),
     cr_rfc3339 = (\<lambda>t. if 0 \<le> t then replicate (nat t) (CHR ''p'') else replicate (nat (- t)) (CHR ''n'')),
     cr_rfc3339_nanos = (\<lambda>t. [])\<rparr>"

definition sample_schedule :: workflow_schedule where
  "sample_schedule = (macro_schedule ''wf'' ''* * * * * *'')\<lparr>ws_automatic_backfill := True, ws_last_fired_at := Some 0\<rparr>"

definition sample_input :: "scheduled_input serde" where
  "sample_input = \<lparr>sd_to_value = (\<lambda>_. Inr JNull), sd_from_value = (\<lambda>_. Inl ''input'')\<rparr>"

lemma sample_cron_next: "yields_next (next_cron_instant sample_cron () None) {t. 10 ^ 9 dvd t}"
proof -
  have later: "t < (t div 10 ^ 9 + 1) * 10 ^ 9" for t :: int
    using div_mult_mod_eq [of t "10 ^ 9"] pos_mod_bound [of "10 ^ 9" t] by (simp add: algebra_simps)
  have least: "(t div 10 ^ 9 + 1) * 10 ^ 9 \<le> v" if "10 ^ 9 dvd v" "t < v" for t v :: int
  proof -
    from that(1) obtain k where k: "v = 10 ^ 9 * k" by (rule dvdE)
    have "10 ^ 9 * (t div 10 ^ 9) \<le> t" using div_mult_mod_eq [of t "10 ^ 9"] pos_mod_sign [of "10 ^ 9" t] by simp
    then have "10 ^ 9 * (t div 10 ^ 9) < 10 ^ 9 * k" using that(2) k by simp
    then have "t div 10 ^ 9 < k" by simp
    then show ?thesis using k by (simp add: algebra_simps)
  qed
  show ?thesis using later least by (simp add: yields_next_def next_cron_instant_def sample_cron_def)
qed

lemma sample_schedule_facts:
  "parse_cron sample_cron (ws_schedule sample_schedule) = Ok ()" "ws_cron_timezone sample_schedule = None"
  "ws_queue_name sample_schedule = None" "ws_workflow_name sample_schedule = ''wf''"
  "to_value sample_input (tick_input sample_schedule t) = Inr JNull"
  "rt_provider sample_runtime = memory_provider plain_codec (\<lambda>t. Some t)"
  by (simp_all add: parse_cron_def sample_cron_def sample_schedule_def macro_schedule_def sample_input_def to_value_def sample_runtime_def)

lemma backfill_fires_missing_once_witness:
  "\<exists>ids rows s'. backfill_ticks sample_runtime sample_cron sample_input (\<lambda>_. (0, 0)) (\<lambda>_ g. g) sample_schedule 0 (3 * 10 ^ 9) inner_default = Some (Ok ids, rows, s')
    \<and> wf_id ` set rows = tick_id sample_cron sample_schedule ` {v. 10 ^ 9 dvd v \<and> 0 < v \<and> v < 3 * 10 ^ 9}"
proof -
  have "yields_next (next_cron_instant sample_cron () (ws_cron_timezone sample_schedule)) {t. 10 ^ 9 dvd t}"
    using sample_cron_next by (simp add: sample_schedule_facts)
  note fires = backfill_fires_missing_once [where others = "\<lambda>_ g. g" and T = sample_input and clock = "\<lambda>_. (0, 0)" and start = 0
      and until = "3 * 10 ^ 9" and s = inner_default, OF sample_schedule_facts(6,1) this]
  have "\<forall>(k :: nat) (g :: inner) j. contains_key (workflows g) j \<longrightarrow> contains_key (workflows g) j" by simp
  from fires [OF this] show ?thesis
  proof (elim exE conjE, goal_cases)
    case (1 r rows s' ts)
    have facts: "ws_queue_name sample_schedule = None" "contains_key (rt_workflows sample_runtime) (ws_workflow_name sample_schedule)"
      "\<not> contains_key (workflows inner_default) i" for i
      by (simp_all add: sample_schedule_def macro_schedule_def sample_runtime_def contains_key_def inner_default_def)
    have "(\<forall>t. \<exists>v. to_value sample_input (tick_input sample_schedule t) = Ok v)
        \<and> is_none_or (ws_queue_name sample_schedule) (contains_key (rt_queues sample_runtime))"
      using sample_schedule_facts facts(1) by (auto simp: is_none_or_def)
    with 1(4) obtain ids where r: "r = Ok ids" by blast
    with 1(8) have "wf_id ` set rows = tick_id sample_cron sample_schedule ` set ts" by (simp add: facts)
    with 1(1,3) r show ?case by auto
  qed
qed

lemma tick_fires_once_witness:
  "\<exists>row new s1 row' new' s2. persist_scheduled_tick sample_runtime sample_cron sample_input (0, 0) sample_schedule 5 inner_default
      = (Ok (row, False, new, tick_id sample_cron sample_schedule 5), s1)
    \<and> persist_scheduled_tick sample_runtime sample_cron sample_input (7, 7) sample_schedule 5 s1
      = (Ok (row', False, new', tick_id sample_cron sample_schedule 5), s2)
    \<and> launch_scheduled_tick sample_runtime sample_schedule row' False new' = None"
proof -
  obtain row new s1 where first: "persist_scheduled_tick sample_runtime sample_cron sample_input (0, 0) sample_schedule 5 inner_default
      = (Ok (row, False, new, tick_id sample_cron sample_schedule 5), s1)"
    using direct_tick_persists [OF sample_schedule_facts(6,3,5)] by blast
  obtain row' new' s2 where second: "persist_scheduled_tick sample_runtime sample_cron sample_input (7, 7) sample_schedule 5 s1
      = (Ok (row', False, new', tick_id sample_cron sample_schedule 5), s2)"
    using direct_tick_persists [OF sample_schedule_facts(6,3,5)] by blast
  have "contains_key (workflows s1) (tick_id sample_cron sample_schedule 5)"
    using persist_tick_memory(2) [OF sample_schedule_facts(6) first] by (auto simp: contains_key_iff)
  from tick_fires_once [OF sample_schedule_facts(6,6) first this refl second] show ?thesis using first second by blast
qed

lemma unregistered_tick_stranded_witness:
  "\<exists>row new s1 row' new' s2. persist_scheduled_tick (sample_runtime\<lparr>rt_workflows := []\<rparr>) sample_cron sample_input (0, 0) sample_schedule 5 inner_default
      = (Ok (row, False, new, tick_id sample_cron sample_schedule 5), s1)
    \<and> persist_scheduled_tick sample_runtime sample_cron sample_input (7, 7) sample_schedule 5 s1
      = (Ok (row', False, new', tick_id sample_cron sample_schedule 5), s2)
    \<and> map_option wf_status (map_of (workflows s2) (tick_id sample_cron sample_schedule 5)) = Some STATUS_PENDING"
proof -
  have rt: "rt_provider (sample_runtime\<lparr>rt_workflows := []\<rparr>) = memory_provider plain_codec (\<lambda>t. Some t)"
    "\<not> contains_key (rt_workflows (sample_runtime\<lparr>rt_workflows := []\<rparr>)) (ws_workflow_name sample_schedule)"
    "\<not> contains_key (workflows inner_default) (tick_id sample_cron sample_schedule 5)"
    by (simp_all add: sample_runtime_def contains_key_def inner_default_def)
  obtain row new s1 where first: "persist_scheduled_tick (sample_runtime\<lparr>rt_workflows := []\<rparr>) sample_cron sample_input (0, 0) sample_schedule 5 inner_default
      = (Ok (row, False, new, tick_id sample_cron sample_schedule 5), s1)"
    using direct_tick_persists [OF rt(1) sample_schedule_facts(3,5)] by blast
  obtain row' new' s2 where second: "persist_scheduled_tick sample_runtime sample_cron sample_input (7, 7) sample_schedule 5 s1
      = (Ok (row', False, new', tick_id sample_cron sample_schedule 5), s2)"
    using direct_tick_persists [OF sample_schedule_facts(6,3,5)] by blast
  from unregistered_tick_stranded [OF rt(1) sample_schedule_facts(6) rt(2) sample_schedule_facts(3) rt(3) first second]
  show ?thesis using first second by blast
qed

lemma reconciler_matches_desired_witness:
  "\<exists>inst' started rows s'. schedule_reconciler sample_runtime sample_cron (memory_schedules (\<lambda>t. Some t) (\<lambda>_. Ok ()) (\<lambda>_. Ok ())) sample_input
      (\<lambda>_. (0, \<lambda>_. (0, 0), \<lambda>_. id)) [macro_schedule ''wf'' ''* * * * * *''] [] inner_default = Some (inst', started, rows, s')
    \<and> dom (map_of inst') = {''wf''}"
proof -
  let ?S = "memory_schedules (\<lambda>t. Some t) (\<lambda>_. Ok ()) (\<lambda>_. Ok ())" and ?m = "macro_schedule ''wf'' ''* * * * * *''"
  have desired: "desired_schedules ?S [?m] inner_default = Ok [?m]"
    by (simp add: desired_schedules_def result_bind_def list_schedules_def inner_default_def hm_values_def)
  moreover have "catch_up sample_runtime sample_cron sample_input now clock others ?m s = Some ([], s)" for now clock others s
    by (simp add: catch_up_def macro_schedule_def)
  ultimately obtain inst' started rows s' where "schedule_reconciler sample_runtime sample_cron ?S sample_input
      (\<lambda>_. (0, \<lambda>_. (0, 0), \<lambda>_. id)) [?m] [] inner_default = Some (inst', started, rows, s')"
    by (simp add: schedule_reconciler_def retire_def contains_key_def)
  moreover from reconciler_matches_desired [OF desired _ this] have "dom (map_of inst') = {''wf''}" by (simp add: macro_schedule_def)
  ultimately show ?thesis by blast
qed

lemma catch_up_misses_next_second_witness:
  "\<exists>rows s'. catch_up sample_runtime sample_cron sample_input (3 * 10 ^ 9) (\<lambda>_. (0, 0)) (\<lambda>_. id) sample_schedule inner_default = Some (rows, s')
    \<and> \<not> contains_key (workflows s') (tick_id sample_cron sample_schedule (10 ^ 9))"
proof -
  have "inj (cr_rfc3339 sample_cron)"
    by (rule injI) (auto simp: sample_cron_def replicate_eq_replicate split: if_splits)
  moreover have "ws_automatic_backfill sample_schedule" "ws_last_fired_at sample_schedule = Some 0" "(0 :: int) + 10 ^ 9 < 3 * 10 ^ 9"
    "\<not> contains_key (workflows inner_default) (tick_id sample_cron sample_schedule (0 + 10 ^ 9))"
    by (simp_all add: sample_schedule_def contains_key_def inner_default_def)
  ultimately show ?thesis
    using catch_up_misses_next_second [OF sample_schedule_facts(6,1), of "{t. 10 ^ 9 dvd t}" 0 "3 * 10 ^ 9" inner_default sample_input "\<lambda>_. (0, 0)"]
      sample_cron_next unfolding sample_schedule_facts(2) by auto
qed

end
