(* ===== verification/Engine_Handle.thy ===== *)
theory Engine_Handle
  imports Engine_Run
begin

text \<open>
  Workflow handles (\<open>src/handle.rs\<close>): a handle either owns the task of a run in this
  process or polls the row of the workflow.  The first clone that waits to the end
  takes the task's result; the others poll.
\<close>

section \<open>Definitions\<close>

record workflow_result_options =
  ro_polling_interval :: nat
  ro_timeout :: "nat option"

definition workflow_result_options_default :: workflow_result_options where
  "workflow_result_options_default = \<lparr>ro_polling_interval = 100 * 10 ^ 6, ro_timeout = None\<rparr>"

text \<open>The shared task: its result or the text of its join error, once it has ended; \<open>None\<close> if it was taken or never owned.\<close>

type_synonym task = "(string + json result) option"

definition handle_id :: "workflow_handle \<Rightarrow> string" where
  "handle_id h = (case h of Local_Handle i \<Rightarrow> i | Polling_Handle i \<Rightarrow> i)"

definition get_status :: "'s state_provider \<Rightarrow> string \<Rightarrow> 's \<Rightarrow> workflow_status result" where
  "get_status P i s = result_bind (map_err observation_error (p_get_workflow_status P i s)) (\<lambda>row. case row of
       Some row \<Rightarrow> Ok row | None \<Rightarrow> Err (UnknownWorkflow i))"

definition terminal_to_result :: "codec \<Rightarrow> 'a serde \<Rightarrow> string \<Rightarrow> workflow_status \<Rightarrow> 'a result" where
  "terminal_to_result C T i row =
     (if wf_status row = STATUS_CANCELLED then Err (Cancelled i)
      else if wf_status row = STATUS_MAX_RECOVERY_ATTEMPTS_EXCEEDED then Err (MaxRecoveryAttemptsExceeded i)
      else if wf_status row = STATUS_ERROR
      then (case map_err observation_error (try_from_parts C (unwrap_or ''workflow failed'' (wf_error row)) (wf_error_info row)) of
          Inl e \<Rightarrow> Err e | Inr e \<Rightarrow> Err e)
      else from_value T (unwrap_or JNull (wf_output row)))"

text \<open>\<open>view k\<close> is the store at the \<open>k\<close>-th poll; waiting forever is \<open>None\<close>.\<close>

partial_function (option) poll_result :: "'s state_provider \<Rightarrow> codec \<Rightarrow> 'a serde \<Rightarrow> string \<Rightarrow> (nat \<Rightarrow> 's) \<Rightarrow> nat \<Rightarrow> 'a result option" where
  "poll_result P C T i view k = (case get_status P i (view k) of
       Inr row \<Rightarrow> if is_terminal (wf_status row) then Some (terminal_to_result C T i row) else poll_result P C T i view (Suc k)
     | Inl e \<Rightarrow> (case e of UnknownWorkflow _ \<Rightarrow> poll_result P C T i view (Suc k) | _ \<Rightarrow> Some (Err e)))"

text \<open>The result, and the task that is left for the clones.\<close>

definition wait_for_result :: "'s state_provider \<Rightarrow> codec \<Rightarrow> 'a serde \<Rightarrow> string \<Rightarrow> (nat \<Rightarrow> 's) \<Rightarrow> task \<Rightarrow> ('a result \<times> task) option" where
  "wait_for_result P C T i view owned = (case owned of
       Some (Inr res) \<Rightarrow> Some (result_bind res (from_value T), None)
     | Some (Inl m) \<Rightarrow> Some (Err (recovery_error (app (''workflow task failed: '' @ m))), None)
     | None \<Rightarrow> map_option (\<lambda>r. (r, None)) (poll_result P C T i view 0))"

text \<open>\<open>elapsed\<close>: the timeout, if there is one, fired before the wait was over; the task is kept then.\<close>

definition result_with_options :: "'s state_provider \<Rightarrow> codec \<Rightarrow> 'a serde \<Rightarrow> string \<Rightarrow> (nat \<Rightarrow> 's) \<Rightarrow> bool \<Rightarrow> workflow_result_options \<Rightarrow> task
  \<Rightarrow> ('a result \<times> task) option" where
  "result_with_options P C T i view elapsed opts owned =
     (if ro_polling_interval opts = 0 then Some (Err (app ''polling interval must be greater than zero''), owned)
      else if ro_timeout opts \<noteq> None \<and> elapsed then Some (Err (ObservationFailed Timeout), owned)
      else wait_for_result P C T i view owned)"

definition handle_result :: "'s state_provider \<Rightarrow> codec \<Rightarrow> 'a serde \<Rightarrow> string \<Rightarrow> (nat \<Rightarrow> 's) \<Rightarrow> task \<Rightarrow> ('a result \<times> task) option" where
  "handle_result P C T i view owned = result_with_options P C T i view False workflow_result_options_default owned"

section \<open>Lemmas\<close>

lemma from_value_json [simp]: "from_value json_serde v = Ok v"
  by (simp add: from_value_def json_serde_def)

lemma terminal_of_recorded: "is_terminal (wf_status row) \<Longrightarrow> terminal_to_result C json_serde i row = recorded_outcome C i row"
  by (auto simp: terminal_to_result_def recorded_outcome_def is_terminal_def status_defs)

text \<open>What a clone that polls this row makes of a run that returned \<open>r\<close>.\<close>

definition clone_agrees :: "codec \<Rightarrow> string \<Rightarrow> json result \<Rightarrow> workflow_status \<Rightarrow> bool" where
  "clone_agrees C i r row \<longleftrightarrow> is_terminal (wf_status row) \<and>
     (terminal_to_result C json_serde i row = r \<or> (\<exists>e. terminal_to_result C json_serde i row = Err (ObservationFailed e))
      \<or> r = Err Timeout \<and> wf_status row = STATUS_CANCELLED)"

definition witnessed :: "codec \<Rightarrow> string \<Rightarrow> (nat \<Rightarrow> inner) \<Rightarrow> json result \<Rightarrow> inner \<Rightarrow> bool" where
  "witnessed C i view r s \<longleftrightarrow> (\<exists>row. (map_of (workflows s) i = Some row \<or> (\<exists>k. map_of (workflows (view k)) i = Some row)) \<and> clone_agrees C i r row)
     \<or> r = Err (NonExistentWorkflow i) \<and> (\<exists>k. map_of (workflows (view k)) i = None)"

lemma witnessed_view:
  "map_of (workflows (view k)) i = Some row \<Longrightarrow> is_terminal (wf_status row) \<Longrightarrow> witnessed C i view (recorded_outcome C i row) s"
  "map_of (workflows (view k)) i = None \<Longrightarrow> witnessed C i view (Err (NonExistentWorkflow i)) s"
  unfolding witnessed_def clone_agrees_def using terminal_of_recorded by metis+

lemma adopt_witnessed:
  assumes "adopt_recorded_outcome (memory_provider C f) C' i view k = Some r"
  shows "witnessed C' i view r s"
proof -
  have "(\<lambda>((((P, C'), i), view), _) r. P = memory_provider C f \<longrightarrow> witnessed C' i view r s) ((((memory_provider C f, C'), i), view), k) r"
    by (rule adopt_recorded_outcome.raw_induct [OF _ assms])
      (auto simp: get_workflow_status_def split: option.splits if_splits intro: witnessed_view)
  then show ?thesis by simp
qed

lemma terminal_write_row:
  assumes "write_terminal_status (memory_provider C f) now i status output err s = (r, s')"
  shows "\<exists>landed. r = Inr landed \<and> (landed \<longrightarrow> (\<exists>row. map_of (workflows s') i = Some (apply_status C now status output err row)))"
proof (cases "map_of (workflows s) i")
  case (Some row)
  then have "r = Inr (status_write_allowed (wf_status row) status) \<and> (status_write_allowed (wf_status row) status
      \<longrightarrow> map_of (workflows s') i = Some (apply_status C now status output err row))"
    using assms by (cases "status_write_allowed (wf_status row) status") (auto simp: write_terminal_status_def set_workflow_status_def)
  then show ?thesis by blast
qed (use assms in \<open>auto simp: write_terminal_status_def set_workflow_status_def\<close>)

lemma concluded_witnessed:
  assumes "concluded (memory_provider C f) C i view r (write_terminal_status (memory_provider C f) now i status output err s) = Some (r', s')"
    and "\<And>row. clone_agrees C i r (apply_status C now status output err row)"
  shows "witnessed C i view r' s'"
proof -
  obtain landed s1 where w: "write_terminal_status (memory_provider C f) now i status output err s = (Inr landed, s1)"
    "landed \<Longrightarrow> \<exists>row. map_of (workflows s1) i = Some (apply_status C now status output err row)"
    using terminal_write_row by (metis surj_pair)
  show ?thesis
  proof (cases landed)
    case True
    then have "r' = r" "s' = s1" using assms(1) w(1) by (simp_all add: concluded_def)
    then show ?thesis using True w(2) assms(2) unfolding witnessed_def by metis
  next
    case False
    then show ?thesis using assms(1) w(1) adopt_witnessed by (auto simp: concluded_def)
  qed
qed

lemma clone_agrees_write:
  "clone_agrees C i (Ok v) (apply_status C now STATUS_SUCCESS (Some v) None row)"
  "clone_agrees C i (Err (Cancelled i)) (apply_status C now STATUS_CANCELLED None (Some m) row)"
  "clone_agrees C i (Err Timeout) (apply_status C now STATUS_CANCELLED None (Some m) row)"
  by (simp_all add: clone_agrees_def apply_status_def Let_def terminal_to_result_def is_terminal_def status_defs case_prod_unfold)

lemma clone_agrees_error:
  "clone_agrees C i (Err (restore_error C (Some DBOS_JSON) recd)) (apply_status C now STATUS_ERROR None (Some recd) row)"
proof -
  obtain m info where d: "decode_error C None recd = (m, info)" by fastforce
  have "decode_error C (Some DBOS_JSON) recd = decode_error C None recd" by (simp add: decode_error_def DBOS_JSON_def PORTABLE_def)
  moreover have "observation_error e = e \<or> (\<exists>x. observation_error e = ObservationFailed x)" for e
    by (cases e) (simp_all add: observation_error_def)
  ultimately show ?thesis using d
    by (auto simp: clone_agrees_def apply_status_def terminal_to_result_def is_terminal_def restore_error_def from_parts_def map_err_def status_defs
        split: sum.split)
qed

lemma finalize_witnessed:
  assumes "finalize (memory_provider C f) C now i view result s = Some (r, s')" "\<not> interruption r"
  shows "witnessed C i view r s'"
proof (cases result)
  case (Inr v)
  then show ?thesis using assms(1) clone_agrees_write(1) by (auto simp: finalize_def intro!: concluded_witnessed)
next
  case (Inl e)
  have enc: "interruption (Err (recovery_error x) :: json result)" for x
    by (cases x) (simp_all add: interruption_def recovery_error_def)
  show ?thesis using assms Inl adopt_witnessed enc
    by (auto simp: finalize_def map_err_def serializer_name_def dest!: concluded_witnessed [OF _ clone_agrees_write(2)] concluded_witnessed [OF _ clone_agrees_error]
        split: if_splits sum.splits)
qed

section \<open>Properties\<close>

text \<open>
  C19: a clone that polls sees what the owner was told.  Unless the run was
  interrupted, the result its task returns is also what a clone reads from the
  terminal row (of the run's own write, or of the execution that owned the
  workflow): the same value, the same error, or that the stored error could not
  be read.  The exception is a run that ended at its deadline, whose task
  returns a timeout while its row says cancelled.
\<close>

theorem clones_agree:
  assumes "rt_provider rt = memory_provider C f" "run_to_completion rt C view handler row token timed_out w = Some (r, d, w')"
    and "\<not> interruption r"
  shows "(\<exists>final. (map_of (workflows (w_store w')) (wf_id row) = Some final \<or> (\<exists>k. map_of (workflows (view k)) (wf_id row) = Some final))
      \<and> is_terminal (wf_status final)
      \<and> (terminal_to_result C json_serde (wf_id row) final = r
         \<or> (\<exists>e. terminal_to_result C json_serde (wf_id row) final = Err (ObservationFailed e))
         \<or> r = Err Timeout \<and> wf_status final = STATUS_CANCELLED))
    \<or> r = Err (NonExistentWorkflow (wf_id row)) \<and> (\<exists>k. map_of (workflows (view k)) (wf_id row) = None)"
proof -
  obtain ending w1 s where run: "settle_body (memory_provider C f) C (w_clock w1 (w_reads w1)) (wf_id row) view ending (w_execution w1) (w_store w1)
      = Some (r, d, s)" "w' = w1\<lparr>w_store := s\<rparr>"
    using assms(1,2) by (auto simp: run_to_completion_def Let_def case_prod_unfold)
  have rec: "interruption (Err (RecoveryRequired x) :: json result)" "interruption (Err (recovery_error (app m)) :: json result)" for x m
    by (simp_all add: interruption_def recovery_error_def app_def)
  have "witnessed C (wf_id row) view r (w_store w')"
  proof (cases ending)
    case Elapsed
    then show ?thesis using run assms(3) rec
      by (auto simp: settle_body_def checked_cases split: option.splits dest!: concluded_witnessed [OF _ clone_agrees_write(3)])
  next
    case (Ended x)
    then show ?thesis using run assms(3) rec
      by (auto simp: settle_body_def checked_cases Let_def case_prod_unfold split: option.splits run_outcome.splits sum.splits
          dest!: finalize_witnessed)
  qed
  then show ?thesis unfolding witnessed_def clone_agrees_def .
qed

text \<open>
  Clones disagree about a deadline.  When the deadline of a run passes, its task
  returns a timeout, and a clone that polls the row the run left gets a
  cancellation.
\<close>

theorem deadline_divides_clones:
  assumes "rt_provider rt = memory_provider C f" "role_gate rt row = Ok auth" "wf_deadline_ms row \<noteq> None"
    and "handler auth (wf_input row) (fresh_world rt row token w) = (r, w1)" "latch w1 = None"
    and "map_of (workflows (w_store w1)) (wf_id row) = Some now" "wf_status now = STATUS_PENDING"
  shows "\<exists>w'. run_to_completion rt C view handler row token True w = Some (Err Timeout, Retry, w')
    \<and> poll_result (memory_provider C f) C T (wf_id row) (\<lambda>_. w_store w') 0 = Some (Err (Cancelled (wf_id row)))"
proof -
  let ?s = "(w_store w1)\<lparr>workflows := AList.update (wf_id row)
    (apply_status C (w_clock w1 (w_reads w1)) STATUS_CANCELLED None (Some ''deadline exceeded'') now) (workflows (w_store w1))\<rparr>"
  have ok: "status_write_allowed STATUS_PENDING STATUS_CANCELLED" by code_simp
  have "run_to_completion rt C view handler row token True w = Some (Err Timeout, Retry, w1\<lparr>w_store := ?s\<rparr>)"
    using assms ok by (simp add: run_to_completion_def Let_def settle_body_def checked_cases latch_def concluded_def
        write_terminal_status_def set_workflow_status_def)
  moreover have "wf_status (apply_status C t STATUS_CANCELLED None (Some m) now) = STATUS_CANCELLED" for t m
    by (simp add: apply_status_def Let_def case_prod_unfold)
  then have "poll_result (memory_provider C f) C T (wf_id row) (\<lambda>_. ?s) 0 = Some (Err (Cancelled (wf_id row)))"
    by (subst poll_result.simps) (simp add: get_status_def get_workflow_status_def result_bind_def map_err_def is_terminal_def terminal_to_result_def)
  ultimately show ?thesis by (intro exI conjI) (assumption, simp)
qed

text \<open>
  C20: a polling wait ends when the workflow does.  A handle may be made before its
  workflow exists; it waits, and returns the outcome of the first poll that finds
  a terminal row.
\<close>

theorem poll_returns_outcome:
  assumes "map_of (workflows (view n)) i = Some row" "is_terminal (wf_status row)"
    and "\<forall>k < n. \<forall>row. map_of (workflows (view k)) i = Some row \<longrightarrow> \<not> is_terminal (wf_status row)"
  shows "handle_result (memory_provider C f) C' T i view None = Some (terminal_to_result C' T i row, None)"
proof -
  have "poll_result (memory_provider C f) C' T i view k = Some (terminal_to_result C' T i row)" if "k \<le> n" for k
    using that
  proof (induction rule: inc_induct)
    case base
    then show ?case using assms(1,2) by (subst poll_result.simps) (simp add: get_status_def get_workflow_status_def result_bind_def map_err_def)
  next
    case (step k)
    then show ?case using assms(3)
      by (subst poll_result.simps) (auto simp: get_status_def get_workflow_status_def result_bind_def map_err_def split: option.split)
  qed
  from this [of 0] show ?thesis
    by (simp add: handle_result_def result_with_options_def wait_for_result_def workflow_result_options_default_def)
qed

section \<open>Witnesses\<close>

lemma clones_agree_witness:
  "\<exists>w'. run_to_completion sample_runtime plain_codec (\<lambda>_. sample_store) (\<lambda>_ input. ret (Ok input)) sample_child 2 False
      (sample_world None sample_store) = Some (Ok (JInt 1), Retry, w')
    \<and> (\<exists>final. (map_of (workflows (w_store w')) ''b'' = Some final \<or> (\<exists>k :: nat. map_of (workflows sample_store) ''b'' = Some final))
      \<and> is_terminal (wf_status final)
      \<and> (terminal_to_result plain_codec json_serde ''b'' final = Ok (JInt 1)
         \<or> (\<exists>e. terminal_to_result plain_codec json_serde ''b'' final = Err (ObservationFailed e))))"
proof -
  obtain w' where run: "run_to_completion sample_runtime plain_codec (\<lambda>_. sample_store) (\<lambda>_ input. ret (Ok input)) sample_child 2 False
     (sample_world None sample_store) = Some (Ok (JInt 1), Retry, w')" using sample_run_returns by blast
  have "rt_provider sample_runtime = memory_provider plain_codec (\<lambda>t. Some t)" "wf_id sample_child = ''b''" "\<not> interruption (Ok (JInt 1) :: json result)"
    by (simp_all add: sample_run_simps interruption_def)
  with clones_agree [OF this(1) run this(3)] run show ?thesis by fastforce
qed

lemma deadline_divides_clones_witness:
  "\<exists>w'. run_to_completion sample_runtime plain_codec (\<lambda>_. sample_store) (\<lambda>_ input. ret (Ok input)) (sample_child\<lparr>wf_deadline_ms := Some 5\<rparr>) 2 True
      (sample_world None sample_store) = Some (Err Timeout, Retry, w')
    \<and> poll_result (memory_provider plain_codec (\<lambda>t. Some t)) plain_codec json_serde ''b'' (\<lambda>_. w_store w') 0 = Some (Err (Cancelled ''b''))"
proof -
  let ?row = "sample_child\<lparr>wf_deadline_ms := Some 5\<rparr>"
  have f: "rt_provider sample_runtime = memory_provider plain_codec (\<lambda>t. Some t)" "role_gate sample_runtime ?row = Ok (from_status ?row)"
    "wf_deadline_ms ?row \<noteq> None" "wf_id ?row = ''b''" "wf_status sample_child = STATUS_PENDING"
    by (simp_all add: sample_run_simps role_gate_def Let_def)
  let ?w = "fresh_world sample_runtime ?row 2 (sample_world None sample_store)"
  have "ret (Ok (wf_input ?row)) ?w = (Returned (Ok (wf_input ?row)), ?w)" by (simp add: ret_def)
  from deadline_divides_clones [where handler = "\<lambda>_ input. ret (Ok input)" and row = ?row and token = 2 and w = "sample_world None sample_store"
      and now = sample_child and view = "\<lambda>_. sample_store" and T = json_serde, OF f(1-3) this] f(4,5)
  show ?thesis by (simp add: latch_def fresh_world_def execution_new_def sample_world_def sample_store_def)
qed

lemma poll_returns_outcome_witness:
  "handle_result (memory_provider plain_codec (\<lambda>t. Some t)) plain_codec json_serde ''b''
     (\<lambda>k. if k = 0 then inner_default else inner_default\<lparr>workflows := [(''b'', sample_child\<lparr>wf_status := STATUS_SUCCESS, wf_output := Some (JInt 3)\<rparr>)]\<rparr>) None
    = Some (Ok (JInt 3), None)"
proof -
  let ?row = "sample_child\<lparr>wf_status := STATUS_SUCCESS, wf_output := Some (JInt 3)\<rparr>"
  let ?view = "\<lambda>k :: nat. if k = 0 then inner_default else inner_default\<lparr>workflows := [(''b'', ?row)]\<rparr>"
  have "map_of (workflows (?view 1)) ''b'' = Some ?row" "is_terminal (wf_status ?row)"
    "\<forall>k < 1. \<forall>row. map_of (workflows (?view k)) ''b'' = Some row \<longrightarrow> \<not> is_terminal (wf_status row)"
    by (simp_all add: is_terminal_def inner_default_def)
  then have "handle_result (memory_provider plain_codec (\<lambda>t. Some t)) plain_codec json_serde ''b'' ?view None
      = Some (terminal_to_result plain_codec json_serde ''b'' ?row, None)" by (rule poll_returns_outcome)
  moreover have "terminal_to_result plain_codec json_serde ''b'' ?row = Ok (JInt 3)" by (simp add: terminal_to_result_def status_defs)
  ultimately show ?thesis by (simp only:)
qed

end
