(* ===== verification/Engine_Control.thy ===== *)
theory Engine_Control
  imports Engine_Schedule Engine_Handle
begin

text \<open>
  What a process does to workflows and schedules from outside a run
  (\<open>DurableEngine\<close> in \<open>src/engine.rs\<close>): messages, event reads, cancelling,
  resuming, forking, delays, schedules and versions.  An operation that makes
  several provider calls has, for each gap between two of them, the effect of
  other tasks and processes there.
\<close>

section \<open>Definitions\<close>

subsection \<open>Messages and events\<close>

definition engine_send :: "'s state_provider \<Rightarrow> datetime \<Rightarrow> string \<Rightarrow> 'a serde \<Rightarrow> string \<Rightarrow> 'a \<Rightarrow> string \<Rightarrow> 's \<Rightarrow> unit result \<times> 's" where
  "engine_send P now fresh T destination message topic s = (case to_value T message of
       Inl e \<Rightarrow> (Err e, s)
     | Inr v \<Rightarrow> p_insert_notification P now fresh destination topic v None s)"

definition engine_send_with_idempotency_key :: "'s state_provider \<Rightarrow> datetime \<Rightarrow> string \<Rightarrow> 'a serde \<Rightarrow> string \<Rightarrow> 'a \<Rightarrow> string \<Rightarrow> string
  \<Rightarrow> 's \<Rightarrow> unit result \<times> 's" where
  "engine_send_with_idempotency_key P now fresh T destination message topic key s = (case to_value T message of
       Inl e \<Rightarrow> (Err e, s)
     | Inr v \<Rightarrow> p_insert_notification P now fresh destination topic v (Some key) s)"

definition engine_send_bulk :: "'s state_provider \<Rightarrow> datetime \<Rightarrow> (nat \<Rightarrow> string) \<Rightarrow> 'a serde \<Rightarrow> 'a send_message list \<Rightarrow> 's \<Rightarrow> unit result \<times> 's" where
  "engine_send_bulk P now fresh T messages s = (case prepare_bulk T messages of
       Inl e \<Rightarrow> (Err e, s)
     | Inr rows \<Rightarrow> p_insert_notifications P now fresh rows s)"

text \<open>\<open>view k\<close> and \<open>clock k\<close> are the store and the monotonic clock (in nanoseconds) at the \<open>k\<close>-th poll.\<close>

partial_function (option) poll_event :: "'s state_provider \<Rightarrow> 'b serde \<Rightarrow> (nat \<Rightarrow> 's) \<Rightarrow> (nat \<Rightarrow> nat) \<Rightarrow> string \<Rightarrow> string \<Rightarrow> nat \<Rightarrow> nat
  \<Rightarrow> 'b option result option" where
  "poll_event P U view clock target key deadline k = (case p_get_event_value P target key (view k) of
       Inl e \<Rightarrow> Some (Err e)
     | Inr (Some v) \<Rightarrow> Some (result_bind (from_value U v) (\<lambda>b. Ok (Some b)))
     | Inr None \<Rightarrow> if deadline \<le> clock k then Some (Ok None) else poll_event P U view clock target key deadline (Suc k))"

definition engine_get_event :: "'s state_provider \<Rightarrow> 'b serde \<Rightarrow> (nat \<Rightarrow> 's) \<Rightarrow> nat \<Rightarrow> (nat \<Rightarrow> nat) \<Rightarrow> string \<Rightarrow> string \<Rightarrow> nat
  \<Rightarrow> 'b option result option" where
  "engine_get_event P U view start clock target key timeout = poll_event P U view clock target key (start + timeout) 0"

subsection \<open>Workflows\<close>

definition engine_retrieve_workflow :: "'s state_provider \<Rightarrow> string \<Rightarrow> 's \<Rightarrow> workflow_handle result" where
  "engine_retrieve_workflow P i s = result_bind (map_err observation_error (p_get_workflow_status P i s)) (\<lambda>row. case row of
       None \<Rightarrow> Err (UnknownWorkflow i) | Some _ \<Rightarrow> Ok (Polling_Handle i))"

definition engine_cancel_workflow :: "'s control_provider \<Rightarrow> datetime \<Rightarrow> string \<Rightarrow> 's \<Rightarrow> unit result \<times> 's" where
  "engine_cancel_workflow K now i s = c_cancel_workflow K now i s"

definition engine_cancel_workflow_with_options :: "'s control_provider \<Rightarrow> datetime \<Rightarrow> string \<Rightarrow> cancel_options \<Rightarrow> 's \<Rightarrow> unit result \<times> 's" where
  "engine_cancel_workflow_with_options K now i options s = c_cancel_workflows_with_options K now [i] options s"

definition engine_cancel_workflows :: "'s state_provider \<Rightarrow> datetime \<Rightarrow> string list \<Rightarrow> 's \<Rightarrow> unit result \<times> 's" where
  "engine_cancel_workflows P now ids s = p_cancel_workflows P now ids s"

definition engine_cancel_workflows_with_options :: "'s control_provider \<Rightarrow> datetime \<Rightarrow> string list \<Rightarrow> cancel_options \<Rightarrow> 's
  \<Rightarrow> unit result \<times> 's" where
  "engine_cancel_workflows_with_options K now ids options s = c_cancel_workflows_with_options K now ids options s"

definition engine_delete_workflows :: "'s state_provider \<Rightarrow> string list \<Rightarrow> bool \<Rightarrow> 's \<Rightarrow> unit result \<times> 's" where
  "engine_delete_workflows P ids delete_children s = p_delete_workflows P ids delete_children s"

definition engine_set_workflow_attributes :: "'s state_provider \<Rightarrow> datetime \<Rightarrow> string \<Rightarrow> jmap option \<Rightarrow> 's \<Rightarrow> unit result \<times> 's" where
  "engine_set_workflow_attributes P now i attributes s = p_set_workflow_attributes P now i attributes s"

definition engine_resume_workflow_on :: "'s state_provider \<Rightarrow> 's control_provider \<Rightarrow> datetime \<times> datetime \<Rightarrow> ('s \<Rightarrow> 's) \<Rightarrow> string \<Rightarrow> string \<Rightarrow> 's
  \<Rightarrow> workflow_handle result \<times> 's" where
  "engine_resume_workflow_on P K clock mid i queue s = (case c_resume_workflow K (fst clock) i s of
       (Inl e, s') \<Rightarrow> (Err e, s')
     | (Inr resumed, s') \<Rightarrow>
        if resumed
        then (case c_enqueue_existing K (snd clock) i queue (mid s') of
            (Inl e, s'') \<Rightarrow> (Err e, s'')
          | (Inr _, s'') \<Rightarrow> (Ok (Polling_Handle i), s''))
        else (case p_get_workflow_status P i (mid s') of
            Inl e \<Rightarrow> (Err e, mid s')
          | Inr None \<Rightarrow> (Err (NonExistentWorkflow i), mid s')
          | Inr (Some _) \<Rightarrow> (Ok (Polling_Handle i), mid s')))"

definition engine_resume_workflow :: "'s state_provider \<Rightarrow> 's control_provider \<Rightarrow> datetime \<times> datetime \<Rightarrow> ('s \<Rightarrow> 's) \<Rightarrow> string \<Rightarrow> 's
  \<Rightarrow> workflow_handle result \<times> 's" where
  "engine_resume_workflow P K clock mid i s = engine_resume_workflow_on P K clock mid i INTERNAL_QUEUE s"

text \<open>\<open>clock k\<close> is read and \<open>mid k\<close> happens before the \<open>k\<close>-th row is put on the queue.\<close>

fun enqueue_each :: "'s control_provider \<Rightarrow> (nat \<Rightarrow> datetime) \<Rightarrow> (nat \<Rightarrow> 's \<Rightarrow> 's) \<Rightarrow> string \<Rightarrow> nat \<Rightarrow> string list \<Rightarrow> 's \<Rightarrow> unit result \<times> 's" where
  "enqueue_each K clock mid queue k [] s = (Ok (), s)"
| "enqueue_each K clock mid queue k (i # ids) s = (case c_enqueue_existing K (clock k) i queue (mid k s) of
       (Inl e, s') \<Rightarrow> (Err e, s')
     | (Inr _, s') \<Rightarrow> enqueue_each K clock mid queue (Suc k) ids s')"

definition existing_handles :: "'s state_provider \<Rightarrow> string list \<Rightarrow> 's \<Rightarrow> workflow_handle list result" where
  "existing_handles P ids s = result_bind (p_list_workflows P (list_filter_default\<lparr>lf_workflow_ids := ids\<rparr>) s) (\<lambda>rows.
     Ok (map Polling_Handle (filter (\<lambda>i. i \<in> wf_id ` set rows) ids)))"

definition engine_resume_workflows_on :: "'s state_provider \<Rightarrow> 's control_provider \<Rightarrow> datetime \<Rightarrow> (nat \<Rightarrow> datetime) \<Rightarrow> (nat \<Rightarrow> 's \<Rightarrow> 's) \<Rightarrow> ('s \<Rightarrow> 's)
  \<Rightarrow> string list \<Rightarrow> string \<Rightarrow> 's \<Rightarrow> workflow_handle list result \<times> 's" where
  "engine_resume_workflows_on P K now clock mid after ids queue s = (case c_resume_workflows K now ids s of
       (Inl e, s') \<Rightarrow> (Err e, s')
     | (Inr resumed, s') \<Rightarrow> (case enqueue_each K clock mid queue 0 resumed s' of
          (Inl e, s'') \<Rightarrow> (Err e, s'')
        | (Inr _, s'') \<Rightarrow> (existing_handles P ids (after s''), after s'')))"

definition engine_resume_workflows :: "'s state_provider \<Rightarrow> 's control_provider \<Rightarrow> datetime \<Rightarrow> (nat \<Rightarrow> datetime) \<Rightarrow> (nat \<Rightarrow> 's \<Rightarrow> 's) \<Rightarrow> ('s \<Rightarrow> 's)
  \<Rightarrow> string list \<Rightarrow> 's \<Rightarrow> workflow_handle list result \<times> 's" where
  "engine_resume_workflows P K now clock mid after ids s = engine_resume_workflows_on P K now clock mid after ids INTERNAL_QUEUE s"

text \<open>The clock is read for the new instant, then by the provider.\<close>

definition engine_set_workflow_delay :: "'s control_provider \<Rightarrow> datetime \<times> datetime \<Rightarrow> string \<Rightarrow> nat \<Rightarrow> 's \<Rightarrow> bool result \<times> 's" where
  "engine_set_workflow_delay K clock i delay s =
     c_set_workflow_delay K (snd clock) i (wrap_i64 (timestamp_millis (fst clock) + as_millis delay)) s"

definition engine_set_workflow_delay_until :: "'s control_provider \<Rightarrow> datetime \<Rightarrow> string \<Rightarrow> datetime \<Rightarrow> 's \<Rightarrow> bool result \<times> 's" where
  "engine_set_workflow_delay_until K now i instant s = c_set_workflow_delay K now i (timestamp_millis instant) s"

definition fork_timeout_ms :: "workflow_options \<Rightarrow> int option result" where
  "fork_timeout_ms opts = (case wo_timeout opts of
       None \<Rightarrow> Ok None
     | Some d \<Rightarrow> if is_i64 (int (d div 1000000)) then Ok (Some (int (d div 1000000)))
         else Err (app ''fork timeout exceeds the supported millisecond range''))"

definition engine_fork_workflow :: "'s control_provider \<Rightarrow> datetime \<Rightarrow> string \<Rightarrow> string \<Rightarrow> int \<Rightarrow> workflow_options \<Rightarrow> 's
  \<Rightarrow> workflow_handle result \<times> 's" where
  "engine_fork_workflow K now fresh original start_step opts s =
     (if wo_partition_key opts \<noteq> None \<and> wo_queue opts = None
      then (Err (app ''a queue partition key requires a queue name''), s)
      else case fork_timeout_ms opts of Inl e \<Rightarrow> (Err e, s) | Inr timeout_ms \<Rightarrow>
       (let new_id = unwrap_or fresh (opt_filter (\<lambda>i. i \<noteq> []) (wo_workflow_id opts)) in
        case c_fork_workflow_with_timeout K now
          \<lparr>fp_original_id = original, fp_new_id = new_id, fp_start_step = start_step,
           fp_app_version = opt_filter (\<lambda>v. v \<noteq> []) (wo_app_version opts),
           fp_queue_name = unwrap_or INTERNAL_QUEUE (wo_queue opts), fp_partition_key = wo_partition_key opts\<rparr> timeout_ms s of
          (Inl e, s') \<Rightarrow> (Err e, s')
        | (Inr _, s') \<Rightarrow> (Ok (Polling_Handle new_id), s')))"

subsection \<open>Schedules and versions\<close>

record schedule_options =
  so_context :: "json option"
  so_automatic_backfill :: bool
  so_cron_timezone :: "string option"
  so_queue_name :: "string option"

record apply_schedule =
  as_schedule_name :: string
  as_workflow_name :: string
  as_schedule :: string
  as_options :: schedule_options

definition check_timezone :: "('c, 'z) cron_crate \<Rightarrow> string option \<Rightarrow> unit result" where
  "check_timezone L tz = (case tz of None \<Rightarrow> Ok () | Some z \<Rightarrow> result_bind (parse_timezone L z) (\<lambda>_. Ok ()))"

definition schedule_row :: "string \<Rightarrow> string \<Rightarrow> string \<Rightarrow> string \<Rightarrow> schedule_options \<Rightarrow> workflow_schedule" where
  "schedule_row fresh nm workflow cron opts = \<lparr>ws_schedule_id = fresh, ws_schedule_name = nm, ws_workflow_name = workflow, ws_schedule = cron,
     ws_status = Active, ws_context = so_context opts, ws_last_fired_at = None, ws_automatic_backfill = so_automatic_backfill opts,
     ws_cron_timezone = so_cron_timezone opts, ws_queue_name = so_queue_name opts\<rparr>"

definition engine_create_schedule :: "'s runtime \<Rightarrow> ('c, 'z) cron_crate \<Rightarrow> 's schedule_provider \<Rightarrow> string \<Rightarrow> string \<Rightarrow> string \<Rightarrow> string
  \<Rightarrow> schedule_options \<Rightarrow> 's \<Rightarrow> unit result \<times> 's" where
  "engine_create_schedule rt L S fresh nm workflow cron opts s =
     (if nm = [] then (Err (app ''schedule_name is required''), s)
      else case parse_cron L cron of Inl e \<Rightarrow> (Err e, s) | Inr _ \<Rightarrow>
      case check_timezone L (so_cron_timezone opts) of Inl e \<Rightarrow> (Err e, s) | Inr _ \<Rightarrow>
      if \<not> contains_key (rt_workflows rt) workflow then (Err (UnknownWorkflow workflow), s)
      else s_create_schedule S (schedule_row fresh nm workflow cron opts) s)"

definition engine_update_schedule :: "('c, 'z) cron_crate \<Rightarrow> 's schedule_provider \<Rightarrow> string \<Rightarrow> schedule_update \<Rightarrow> 's \<Rightarrow> unit result \<times> 's" where
  "engine_update_schedule L S nm update s =
     (case schedule_update_validate (\<lambda>c. result_bind (parse_cron L c) (\<lambda>_. Ok ())) (\<lambda>z. result_bind (parse_timezone L z) (\<lambda>_. Ok ())) nm update of
        Inl e \<Rightarrow> (Err e, s) | Inr _ \<Rightarrow> s_update_schedule S nm update s)"

definition engine_get_schedule :: "'s schedule_provider \<Rightarrow> string \<Rightarrow> 's \<Rightarrow> workflow_schedule option result" where
  "engine_get_schedule S nm s =
     result_bind (s_list_schedules S \<lparr>sf_statuses = [], sf_workflow_names = [], sf_name_prefixes = [nm]\<rparr> s) (\<lambda>schedules.
       Ok (List.find (\<lambda>sched. ws_schedule_name sched = nm) schedules))"

definition engine_pause_schedule :: "'s schedule_provider \<Rightarrow> string \<Rightarrow> 's \<Rightarrow> bool result \<times> 's" where
  "engine_pause_schedule S nm s = s_set_schedule_status S nm Paused s"

definition engine_resume_schedule :: "'s schedule_provider \<Rightarrow> string \<Rightarrow> 's \<Rightarrow> bool result \<times> 's" where
  "engine_resume_schedule S nm s = s_set_schedule_status S nm Active s"

definition engine_delete_schedule :: "'s schedule_provider \<Rightarrow> string \<Rightarrow> 's \<Rightarrow> bool result \<times> 's" where
  "engine_delete_schedule S nm s = s_delete_schedule S nm s"

fun check_requests :: "'s runtime \<Rightarrow> ('c, 'z) cron_crate \<Rightarrow> apply_schedule list \<Rightarrow> unit result" where
  "check_requests rt L [] = Ok ()"
| "check_requests rt L (req # reqs) =
     (if as_schedule_name req = [] then Err (app ''schedule_name is required'')
      else result_bind (parse_cron L (as_schedule req)) (\<lambda>_.
        result_bind (check_timezone L (so_cron_timezone (as_options req))) (\<lambda>_.
        if \<not> contains_key (rt_workflows rt) (as_workflow_name req) then Err (UnknownWorkflow (as_workflow_name req))
        else check_requests rt L reqs)))"

text \<open>\<open>fresh k\<close> is the id made for the \<open>k\<close>-th entry.\<close>

definition built_schedules :: "(nat \<Rightarrow> string) \<Rightarrow> apply_schedule list \<Rightarrow> workflow_schedule list" where
  "built_schedules fresh reqs = map (\<lambda>(k, req). schedule_row (fresh k) (as_schedule_name req) (as_workflow_name req) (as_schedule req)
     (as_options req)) (enumerate 0 reqs)"

definition engine_apply_schedules :: "'s runtime \<Rightarrow> ('c, 'z) cron_crate \<Rightarrow> 's schedule_provider \<Rightarrow> (nat \<Rightarrow> string) \<Rightarrow> apply_schedule list
  \<Rightarrow> 's \<Rightarrow> unit result \<times> 's" where
  "engine_apply_schedules rt L S fresh reqs s = (case check_requests rt L reqs of
       Inl e \<Rightarrow> (Err e, s) | Inr _ \<Rightarrow> s_apply_schedules S (built_schedules fresh reqs) s)"

definition schedule_not_found :: "string \<Rightarrow> error" where
  "schedule_not_found nm = app (''schedule not found: '' @ nm)"

definition engine_backfill_schedule :: "'s runtime \<Rightarrow> ('c, 'z) cron_crate \<Rightarrow> 's schedule_provider \<Rightarrow> scheduled_input serde \<Rightarrow> (nat \<Rightarrow> datetime \<times> datetime)
  \<Rightarrow> (nat \<Rightarrow> 's \<Rightarrow> 's) \<Rightarrow> string \<Rightarrow> datetime \<Rightarrow> datetime \<Rightarrow> 's \<Rightarrow> (string list result \<times> workflow_status list \<times> 's) option" where
  "engine_backfill_schedule rt L S T clock others nm start until s = (case engine_get_schedule S nm s of
       Inl e \<Rightarrow> Some (Err e, [], s)
     | Inr None \<Rightarrow> Some (Err (schedule_not_found nm), [], s)
     | Inr (Some sched) \<Rightarrow> backfill_ticks rt L T clock others sched start until s)"

definition trigger_id :: "('c, 'z) cron_crate \<Rightarrow> string \<Rightarrow> datetime \<Rightarrow> string" where
  "trigger_id L nm now = ''sched-'' @ nm @ ''-trigger-'' @ cr_rfc3339_nanos L now"

definition engine_trigger_schedule :: "'s runtime \<Rightarrow> ('c, 'z) cron_crate \<Rightarrow> 's schedule_provider \<Rightarrow> scheduled_input serde \<Rightarrow> datetime \<Rightarrow> (nat \<Rightarrow> datetime \<times> datetime)
  \<Rightarrow> ('s \<Rightarrow> 's) \<Rightarrow> (nat \<Rightarrow> ('s \<Rightarrow> 's) \<times> ('s \<Rightarrow> 's)) \<Rightarrow> (nat \<Rightarrow> 's \<Rightarrow> 's) \<Rightarrow> string \<Rightarrow> string \<Rightarrow> 's \<Rightarrow> (workflow_handle \<times> workflow_status option) result \<times> 's" where
  "engine_trigger_schedule rt L S T now clock before mid others fresh nm s = (case engine_get_schedule S nm s of
       Inl e \<Rightarrow> (Err e, s)
     | Inr None \<Rightarrow> (Err (schedule_not_found nm), s)
     | Inr (Some sched) \<Rightarrow> engine_start rt clock mid others fresh T (ws_workflow_name sched) (tick_input sched now)
         (workflow_options_default\<lparr>wo_workflow_id := Some (trigger_id L nm now), wo_queue := ws_queue_name sched\<rparr>) (before s))"

definition engine_set_latest_application_version :: "'s control_provider \<Rightarrow> datetime \<Rightarrow> string \<Rightarrow> 's \<Rightarrow> bool result \<times> 's" where
  "engine_set_latest_application_version K now nm s =
     (if nm = [] then (Err (app ''version_name is required''), s) else c_set_latest_application_version K now nm s)"

section \<open>Lemmas\<close>

text \<open>The row a resumed workflow waits on its queue with.\<close>

definition requeued_row :: "string \<Rightarrow> datetime \<Rightarrow> workflow_status \<Rightarrow> workflow_status" where
  "requeued_row queue t row = row\<lparr>wf_status := STATUS_ENQUEUED, wf_queue_name := Some queue, wf_executor_id := [],
     wf_recovery_attempts := 0, wf_deadline_ms := None, wf_dedup_id := None, wf_started_at_ms := None,
     wf_completed_at_ms := None, wf_updated_at := t\<rparr>"

lemma resume_each_lookup:
  "set (fst (resume_each now ids g)) = {i \<in> set ids. is_some_and (map_of (workflows g) i) resumable}"
  "map_of (workflows (snd (resume_each now ids g))) j
     = (if j \<in> set ids then map_option (\<lambda>row. if resumable row then resume_row now row else row) (map_of (workflows g) j)
        else map_of (workflows g) j)"
proof (induction ids arbitrary: g)
  case (Cons i ids)
  have kept: "resumable (resume_row now row)" "resume_row now (resume_row now row) = resume_row now row" for row
    by (simp_all add: resumable_def resume_row_def status_defs)
  {
    case 1
    then show ?case using Cons(1) kept by (auto simp: Let_def case_prod_unfold is_some_and_iff split: option.splits if_splits)
  next
    case 2
    then show ?case using Cons(2) kept by (auto simp: Let_def case_prod_unfold split: option.splits)
  }
qed simp_all

lemma enqueue_each_lookup:
  "\<exists>g'. enqueue_each (memory_control C f) clock (\<lambda>_. id) queue k ids g = (Ok (), g')
    \<and> (\<forall>j. \<exists>t. map_of (workflows g') j = (if j \<in> set ids
        then map_option (\<lambda>row. row\<lparr>wf_status := STATUS_ENQUEUED, wf_queue_name := Some queue, wf_executor_id := [],
          wf_started_at_ms := None, wf_updated_at := t\<rparr>) (map_of (workflows g) j)
        else map_of (workflows g) j)) \<and> (mem_inv g \<longrightarrow> mem_inv g')"
proof (induction ids arbitrary: k g)
  case (Cons i ids)
  let ?f = "\<lambda>t row. row\<lparr>wf_status := STATUS_ENQUEUED, wf_queue_name := Some queue, wf_executor_id := [],
     wf_started_at_ms := None, wf_updated_at := t\<rparr> :: workflow_status"
  let ?g = "modify_row i (?f (clock k)) g"
  obtain g' where g': "enqueue_each (memory_control C f) clock (\<lambda>_. id) queue (Suc k) ids ?g = (Ok (), g')" "mem_inv ?g \<Longrightarrow> mem_inv g'"
    "\<And>j. \<exists>t. map_of (workflows g') j = (if j \<in> set ids then map_option (?f t) (map_of (workflows ?g) j) else map_of (workflows ?g) j)"
    using Cons [of "Suc k" ?g] by blast
  have inv: "mem_inv g \<Longrightarrow> mem_inv ?g" by (intro modify_row_inv) simp_all
  have "\<exists>t. map_of (workflows g') j = (if j \<in> set (i # ids) then map_option (?f t) (map_of (workflows g) j) else map_of (workflows g) j)" for j
  proof -
    obtain t where "map_of (workflows g') j = (if j \<in> set ids then map_option (?f t) (map_of (workflows ?g) j) else map_of (workflows ?g) j)"
      using g'(3) by blast
    then show ?thesis
      by (intro exI [of _ "if j \<in> set ids then t else clock k"]) (auto simp: modify_row_lookup option.map_comp comp_def)
  qed
  moreover have "enqueue_each (memory_control C f) clock (\<lambda>_. id) queue k (i # ids) g = (Ok (), g')"
    using g'(1) by (simp add: enqueue_existing_def)
  ultimately show ?case using g'(2) inv by blast
qed simp

lemma existing_listed:
  "lf_offset fl = None \<Longrightarrow> lf_limit fl = None \<Longrightarrow> list_workflows fl g = Ok (map (strip_heavy fl) (listed_rows fl g))
    \<and> wf_id ` set (map (strip_heavy fl) (listed_rows fl g)) = wf_id ` set (listed_rows fl g)"
  by (simp add: list_workflows_def image_image)

lemma existing_handles_memory:
  assumes "mem_inv g"
  shows "existing_handles (memory_provider C f) ids g = Ok (map Polling_Handle (filter (contains_key (workflows g)) ids))"
proof -
  have "i \<in> wf_id ` set (listed_rows (list_filter_default\<lparr>lf_workflow_ids := ids\<rparr>) g) \<longleftrightarrow> contains_key (workflows g) i" if "i \<in> set ids" for i
  proof -
    have "matches_filter (list_filter_default\<lparr>lf_workflow_ids := ids\<rparr>) src w \<longleftrightarrow> wf_id w \<in> set ids" for src w
      using that by (auto simp: matches_filter_def list_filter_default_def in_list_or_empty_def opt_in_list_or_empty_def)
    then have "wf_id ` set (listed_rows (list_filter_default\<lparr>lf_workflow_ids := ids\<rparr>) g) = set (map wf_id (hm_values (workflows g))) \<inter> set ids"
      by (auto simp: set_listed_rows row_matches_def)
    then show ?thesis unfolding ids_of_rows [OF assms] using that map_of_eq_None_iff [of "workflows g" i]
      by (auto simp: contains_key_iff)
  qed
  then have "filter (\<lambda>i. i \<in> wf_id ` set (listed_rows (list_filter_default\<lparr>lf_workflow_ids := ids\<rparr>) g)) ids = filter (contains_key (workflows g)) ids"
    by (intro filter_cong refl)
  then show ?thesis
    using existing_listed [of "list_filter_default\<lparr>lf_workflow_ids := ids\<rparr>" g]
    by (simp add: existing_handles_def result_bind_def list_filter_default_def)
qed

lemma built_names: "map ws_schedule_name (built_schedules fresh reqs) = map as_schedule_name reqs"
proof -
  have "map ws_schedule_name (built_schedules fresh reqs) = map as_schedule_name (map snd (enumerate 0 reqs))"
    unfolding built_schedules_def map_map comp_def case_prod_unfold by (intro map_cong refl) (simp add: schedule_row_def)
  then show ?thesis by simp
qed

lemma find_only: "y \<in> set xs \<Longrightarrow> P y \<Longrightarrow> (\<And>x. x \<in> set xs \<Longrightarrow> P x \<Longrightarrow> x = y) \<Longrightarrow> List.find P xs = Some y"
  by (metis find_None_iff find_Some_iff not_None_eq nth_mem)

section \<open>Properties\<close>

text \<open>
  A bulk resume.  If no other task acts meanwhile, every listed workflow that is
  not finished waits on the given queue, unowned, with its attempts, deadline and
  deduplication slot cleared; a finished one and every workflow that is not listed
  are untouched; and the handles are those of the listed ids that exist, in order.
\<close>

theorem bulk_resume_requeues:
  assumes "mem_inv g"
  shows "\<exists>g'. engine_resume_workflows_on (memory_provider C f) (memory_control C f) now clock (\<lambda>_. id) id ids queue g
      = (Ok (map Polling_Handle (filter (contains_key (workflows g)) ids)), g')
    \<and> (\<forall>j. \<exists>t. map_of (workflows g') j = (if j \<in> set ids
        then map_option (\<lambda>row. if resumable row then requeued_row queue t row else row) (map_of (workflows g) j)
        else map_of (workflows g) j))"
proof -
  let ?g = "snd (resume_each now ids g)" and ?ids = "fst (resume_each now ids g)"
  obtain g' where g': "enqueue_each (memory_control C f) clock (\<lambda>_. id) queue 0 ?ids ?g = (Ok (), g')" "mem_inv g'"
    "\<And>j. \<exists>t. map_of (workflows g') j = (if j \<in> set ?ids
        then map_option (\<lambda>row. row\<lparr>wf_status := STATUS_ENQUEUED, wf_queue_name := Some queue, wf_executor_id := [],
          wf_started_at_ms := None, wf_updated_at := t\<rparr>) (map_of (workflows ?g) j)
        else map_of (workflows ?g) j)"
    using enqueue_each_lookup resume_each_inv [OF assms] by metis
  have rows: "\<exists>t. map_of (workflows g') j = (if j \<in> set ids
      then map_option (\<lambda>row. if resumable row then requeued_row queue t row else row) (map_of (workflows g) j)
      else map_of (workflows g) j)" for j
  proof -
    obtain t where "map_of (workflows g') j = (if j \<in> set ?ids
        then map_option (\<lambda>row. row\<lparr>wf_status := STATUS_ENQUEUED, wf_queue_name := Some queue, wf_executor_id := [],
          wf_started_at_ms := None, wf_updated_at := t\<rparr>) (map_of (workflows ?g) j)
        else map_of (workflows ?g) j)" using g'(3) by blast
    then have "map_of (workflows g') j = (if j \<in> set ids
        then map_option (\<lambda>row. if resumable row then requeued_row queue t row else row) (map_of (workflows g) j)
        else map_of (workflows g) j)"
      by (cases "map_of (workflows g) j") (simp_all add: resume_each_lookup is_some_and_iff requeued_row_def resume_row_def)
    then show ?thesis by (rule exI)
  qed
  have "map_of (workflows g') j = None \<longleftrightarrow> map_of (workflows g) j = None" for j
    using rows [of j] by (cases "map_of (workflows g) j") (auto split: if_splits)
  then have "filter (contains_key (workflows g')) ids = filter (contains_key (workflows g)) ids"
    by (intro filter_cong refl) (simp add: contains_key_def)
  then have "engine_resume_workflows_on (memory_provider C f) (memory_control C f) now clock (\<lambda>_. id) id ids queue g
      = (Ok (map Polling_Handle (filter (contains_key (workflows g)) ids)), g')"
    using g'(1) existing_handles_memory [OF g'(2), of C f ids]
    by (simp add: engine_resume_workflows_on_def resume_workflows_def Let_def case_prod_unfold)
  then show ?thesis using rows by blast
qed

text \<open>
  A resume overwrites what happened meanwhile.  The workflow is first made
  pending and then, by a second call, put on the queue.  Whatever others did in
  between (cancelled it, or recovered it and ran it to its end), the second call
  makes it runnable again.
\<close>

theorem resume_overwrites_interim:
  assumes "map_of (workflows g) i = Some row" "resumable row"
    and "map_of (workflows (mid (snd (resume_workflow now i g)))) i = Some other"
  shows "\<exists>g'. engine_resume_workflow_on (memory_provider C f) (memory_control C f) (now, t) mid i queue g = (Ok (Polling_Handle i), g')
    \<and> map_of (workflows g') i = Some (other\<lparr>wf_status := STATUS_ENQUEUED, wf_queue_name := Some queue, wf_executor_id := [],
        wf_started_at_ms := None, wf_updated_at := t\<rparr>)"
  using assms by (simp add: engine_resume_workflow_on_def resume_workflow_def enqueue_existing_def modify_row_lookup)

text \<open>
  A schedule that is declared again does not catch up.  Declaring schedules in
  bulk changes nothing if an entry is refused; if it is accepted, no declared
  schedule has a last firing any more, so that the reconciler backfills nothing
  when it installs the schedule, even with automatic backfill.
\<close>

theorem redeclared_never_catches_up:
  assumes "engine_apply_schedules rt L (memory_schedules f vc vt) fresh reqs g = (r, g')"
  shows "case r of Inl e \<Rightarrow> g' = g
    | Inr _ \<Rightarrow> (\<forall>req \<in> set reqs. \<exists>sched. map_of (schedules g') (as_schedule_name req) = Some sched
        \<and> (\<forall>now clock others s. catch_up rt' L T now clock others sched s = Some ([], s)))"
proof (cases "check_requests rt L reqs")
  case (Inr u)
  have g': "r = Inr ()" "g' = snd (apply_schedules (built_schedules fresh reqs) g)"
    using assms Inr by (simp_all add: engine_apply_schedules_def apply_schedules_def)
  have "\<exists>sched. map_of (schedules g') (as_schedule_name req) = Some sched \<and> ws_last_fired_at sched = None" if "req \<in> set reqs" for req
  proof -
    have "as_schedule_name req \<in> set (map ws_schedule_name (built_schedules fresh reqs))"
      using that unfolding built_names by simp
    then have mem: "\<exists>s \<in> set (built_schedules fresh reqs). ws_schedule_name s = as_schedule_name req" by fastforce
    have fresh: "\<forall>s \<in> set (built_schedules fresh reqs). ws_last_fired_at s = None"
      by (auto simp: built_schedules_def schedule_row_def)
    obtain sched where found: "List.find (\<lambda>s. ws_schedule_name s = as_schedule_name req) (rev (built_schedules fresh reqs)) = Some sched"
      using mem by (fastforce simp: find_None_iff)
    have "sched \<in> set (rev (built_schedules fresh reqs))" using found unfolding find_Some_iff by (metis nth_mem)
    then have "ws_last_fired_at sched = None" using fresh by simp
    then show ?thesis using found g'(2) by (simp add: apply_schedules_lookup)
  qed
  moreover have "catch_up rt' L T now clock others sched s = Some ([], s)" if "ws_last_fired_at sched = None" for now clock others sched s
    using that by (simp add: catch_up_def)
  ultimately show ?thesis unfolding g'(1) sum.case by blast
next
  case (Inl e)
  then have "r = Inl e" "g' = g" using assms by (simp_all add: engine_apply_schedules_def)
  then show ?thesis by simp
qed

text \<open>
  A schedule is found by its exact name: although the lookup lists by prefix,
  it returns the schedule stored under the name, and no other whose name
  starts with it.
\<close>

theorem get_schedule_exact:
  assumes "mem_inv g"
  shows "engine_get_schedule (memory_schedules f vc vt) nm g = Ok (map_of (schedules g) nm)"
proof -
  let ?xs = "filter (\<lambda>s. starts_with (ws_schedule_name s) nm) (hm_values (schedules g))"
  have names: "s \<in> set ?xs \<and> ws_schedule_name s = nm \<longleftrightarrow> map_of (schedules g) nm = Some s" for s
  proof -
    have "s \<in> set (hm_values (schedules g)) \<longleftrightarrow> (\<exists>k. map_of (schedules g) k = Some s)" 
      using assms mem_invD keyed_by_distinct by (intro in_hm_values) blast
    moreover have "starts_with nm nm" by (simp add: starts_with_def)
    ultimately show ?thesis using schedule_name [OF assms] unfolding set_filter mem_Collect_eq by metis
  qed
  have "List.find (\<lambda>s. ws_schedule_name s = nm) (sort_key ws_schedule_name ?xs) = map_of (schedules g) nm"
  proof (cases "map_of (schedules g) nm")
    case None
    then show ?thesis using names by (auto simp: find_None_iff)
  next
    case (Some s)
    then have s: "s \<in> set ?xs" "ws_schedule_name s = nm" using names [of s] by blast+
    have only: "x = s" if "x \<in> set ?xs" "ws_schedule_name x = nm" for x using names [of x] that Some by simp
    show ?thesis unfolding Some
    proof (rule find_only)
      show "s \<in> set (sort_key ws_schedule_name ?xs)" unfolding set_sort by (rule s(1))
      show "x = s" if "x \<in> set (sort_key ws_schedule_name ?xs)" "ws_schedule_name x = nm" for x
        using that unfolding set_sort by (rule only)
    qed (rule s(2))
  qed
  then show ?thesis by (simp add: engine_get_schedule_def list_schedules_def result_bind_def)
qed

text \<open>
  A read of an event from outside ends.  Once the clock passes the deadline the
  read returns; it returns what the first poll that ends it found, which is the
  first that sees the event or, if none does in time, the first at or after the
  deadline.
\<close>

theorem event_read_returns:
  assumes "start + timeout \<le> clock n"
  shows "\<exists>k. (\<forall>j < k. map_of (events (view j)) (target, key) = None \<and> clock j < start + timeout)
    \<and> (map_of (events (view k)) (target, key) \<noteq> None \<or> start + timeout \<le> clock k)
    \<and> engine_get_event (memory_provider C f) U view start clock target key timeout
      = Some (case map_of (events (view k)) (target, key) of None \<Rightarrow> Ok None | Some v \<Rightarrow> result_bind (from_value U v) (\<lambda>b. Ok (Some b)))"
proof -
  let ?over = "\<lambda>k. map_of (events (view k)) (target, key) \<noteq> None \<or> start + timeout \<le> clock k"
  define k where "k = (LEAST k. ?over k)"
  have "?over n" using assms by simp
  have before: "map_of (events (view j)) (target, key) = None \<and> clock j < start + timeout" if "j < k" for j
    using not_less_Least [of j ?over] that unfolding k_def by (simp add: not_le)
  have over: "?over k" using \<open>?over n\<close> LeastI [of ?over n] unfolding k_def by blast
  have "poll_event (memory_provider C f) U view clock target key (start + timeout) j
      = Some (case map_of (events (view k)) (target, key) of None \<Rightarrow> Ok None | Some v \<Rightarrow> result_bind (from_value U v) (\<lambda>b. Ok (Some b)))" if "j \<le> k" for j
    using that
  proof (induction rule: inc_induct)
    case base
    then show ?case using over by (subst poll_event.simps) (auto simp: get_event_value_def split: option.split)
  next
    case (step j)
    then show ?case using before [of j] by (subst poll_event.simps) (auto simp: get_event_value_def)
  qed
  from this [of 0] show ?thesis using over before unfolding engine_get_event_def by (intro exI [of _ k]) auto
qed

section \<open>Witnesses\<close>

lemma event_read_returns_witness:
  "engine_get_event (memory_provider plain_codec (\<lambda>t. Some t)) json_serde
      (\<lambda>j. if j < 2 then inner_default else inner_default\<lparr>events := [((''a'', ''e''), JInt 4)]\<rparr>) 0 (\<lambda>j. 10 * j) ''a'' ''e'' 25
    = Some (Ok (Some (JInt 4)))"
proof -
  let ?view = "\<lambda>j :: nat. if j < 2 then inner_default else inner_default\<lparr>events := [((''a'', ''e''), JInt 4)]\<rparr>"
  have view: "map_of (events (?view j)) (''a'', ''e'') = (if j < 2 then None else Some (JInt 4))" for j by (simp add: inner_default_def)
  have "0 + 25 \<le> 10 * (3 :: nat)" by simp
  from event_read_returns [where view = ?view and clock = "\<lambda>j. 10 * j" and target = "''a''" and key = "''e''" and U = json_serde
      and C = plain_codec and f = "\<lambda>t. Some t", OF this]
  obtain k :: nat where k: "(if k < 2 then None else Some (JInt 4)) \<noteq> None \<or> 25 \<le> 10 * k"
    "engine_get_event (memory_provider plain_codec (\<lambda>t. Some t)) json_serde ?view 0 (\<lambda>j. 10 * j) ''a'' ''e'' 25
      = Some (case if k < 2 then None else Some (JInt 4) of None \<Rightarrow> Ok None | Some v \<Rightarrow> result_bind (from_value json_serde v) (\<lambda>b. Ok (Some b)))"
    unfolding view add_0 by blast
  have "\<not> k < 2" using k(1) by auto
  then show ?thesis using k(2) by simp
qed

lemma bulk_resume_requeues_witness:
  "\<exists>g'. engine_resume_workflows_on (memory_provider plain_codec (\<lambda>t. Some t)) (memory_control plain_codec (\<lambda>t. Some t)) 5 (\<lambda>_. 6) (\<lambda>_. id) id
      [''b'', ''c''] ''q'' sample_store = (Ok [Polling_Handle ''b''], g')
    \<and> (\<exists>t. map_of (workflows g') ''b'' = Some (requeued_row ''q'' t sample_child))"
proof -
  have f: "mem_inv sample_store" "map_of (workflows sample_store) ''b'' = Some sample_child" "resumable sample_child"
    "filter (contains_key (workflows sample_store)) [''b'', ''c''] = [''b'']"
    by (simp_all add: sample_run_simps mem_inv_def keyed_by_def resumable_def contains_key_def status_defs)
  from bulk_resume_requeues [OF f(1), of plain_codec "\<lambda>t. Some t" 5 "\<lambda>_. 6" "[''b'', ''c'']" "''q''"]
  obtain g' where g': "engine_resume_workflows_on (memory_provider plain_codec (\<lambda>t. Some t)) (memory_control plain_codec (\<lambda>t. Some t)) 5 (\<lambda>_. 6) (\<lambda>_. id) id
      [''b'', ''c''] ''q'' sample_store = (Ok [Polling_Handle ''b''], g')"
    and rows: "\<And>j. \<exists>t. map_of (workflows g') j = (if j \<in> set [''b'', ''c'']
        then map_option (\<lambda>row. if resumable row then requeued_row ''q'' t row else row) (map_of (workflows sample_store) j)
        else map_of (workflows sample_store) j)"
    unfolding f(4) list.map by blast
  from rows [of "''b''"] have "\<exists>t. map_of (workflows g') ''b'' = Some (requeued_row ''q'' t sample_child)" using f(2,3) by simp
  with g' show ?thesis by blast
qed

lemma resume_overwrites_interim_witness:
  "\<exists>g'. engine_resume_workflow_on (memory_provider plain_codec (\<lambda>t. Some t)) (memory_control plain_codec (\<lambda>t. Some t)) (5, 6)
      (\<lambda>g. snd (cancel_workflow 5 ''b'' g)) ''b'' ''q'' sample_store = (Ok (Polling_Handle ''b''), g')
    \<and> (\<exists>row. map_of (workflows g') ''b'' = Some row \<and> wf_status row = STATUS_ENQUEUED)"
proof -
  let ?mid = "\<lambda>g. snd (cancel_workflow 5 ''b'' g)"
  have f: "map_of (workflows sample_store) ''b'' = Some sample_child" "resumable sample_child"
    by (simp_all add: sample_run_simps resumable_def status_defs)
  have "map_of (workflows (?mid (snd (resume_workflow 5 ''b'' sample_store)))) ''b'' \<noteq> None"
    using f by (simp add: cancel_workflow_def cancel_workflows_def cancel_lookup resume_workflow_def)
  then obtain other where "map_of (workflows (?mid (snd (resume_workflow 5 ''b'' sample_store)))) ''b'' = Some other" by blast
  from resume_overwrites_interim [where mid = ?mid, OF f this, of plain_codec "\<lambda>t. Some t" 6 "''q''"]
  show ?thesis by auto
qed

lemma redeclared_never_catches_up_witness:
  "\<exists>g' sched. engine_apply_schedules sample_runtime sample_cron (memory_schedules (\<lambda>t. Some t) (\<lambda>_. Ok ()) (\<lambda>_. Ok ())) (\<lambda>_. ''id'')
      [\<lparr>as_schedule_name = ''s'', as_workflow_name = ''wf'', as_schedule = ''* * * * * *'',
        as_options = \<lparr>so_context = None, so_automatic_backfill = True, so_cron_timezone = None, so_queue_name = None\<rparr>\<rparr>] inner_default = (Ok (), g')
    \<and> map_of (schedules g') ''s'' = Some sched
    \<and> catch_up sample_runtime sample_cron sample_input (10 ^ 12) (\<lambda>_. (0, 0)) (\<lambda>_. id) sched g' = Some ([], g')"
proof -
  let ?reqs = "[\<lparr>as_schedule_name = ''s'', as_workflow_name = ''wf'', as_schedule = ''* * * * * *'',
        as_options = \<lparr>so_context = None, so_automatic_backfill = True, so_cron_timezone = None, so_queue_name = None\<rparr>\<rparr>]"
  let ?S = "memory_schedules (\<lambda>t. Some t) (\<lambda>_. Ok ()) (\<lambda>_. Ok ())"
  have "check_requests sample_runtime sample_cron ?reqs = Ok ()"
    by (simp add: parse_cron_def sample_cron_def check_timezone_def sample_runtime_def result_bind_def contains_key_def)
  then obtain g' where g': "engine_apply_schedules sample_runtime sample_cron ?S (\<lambda>_. ''id'') ?reqs inner_default = (Ok (), g')"
    by (simp add: engine_apply_schedules_def apply_schedules_def)
  from redeclared_never_catches_up [OF this, of sample_runtime sample_input] g' show ?thesis by simp blast
qed

lemma get_schedule_exact_witness:
  "engine_get_schedule (memory_schedules (\<lambda>t. Some t) (\<lambda>_. Ok ()) (\<lambda>_. Ok ())) ''wf'' (inner_default\<lparr>schedules := [(''wf'', sample_schedule)]\<rparr>)
    = Ok (Some sample_schedule)"
proof -
  have "mem_inv (inner_default\<lparr>schedules := [(''wf'', sample_schedule)]\<rparr>)"
    by (simp add: mem_inv_def keyed_by_def inner_default_def sample_schedule_def macro_schedule_def)
  from get_schedule_exact [OF this] show ?thesis by simp
qed

end
