(* ===== verification/Client.thy ===== *)
theory Client
  imports Engine_Control
begin

text \<open>
  The out-of-process client (\<open>src/client.rs\<close>): it enqueues, observes and manages
  workflows and schedules over the same store as the engines, and runs nothing.
  The provider it holds appears as the three records of its methods.
\<close>

section \<open>Definitions\<close>

record 's client =
  cl_provider :: "'s state_provider"
  cl_control :: "'s control_provider"
  cl_schedules :: "'s schedule_provider"
  cl_app_version :: string

definition client_new :: "'s state_provider \<Rightarrow> 's control_provider \<Rightarrow> 's schedule_provider \<Rightarrow> 's client" where
  "client_new P K S = \<lparr>cl_provider = P, cl_control = K, cl_schedules = S, cl_app_version = []\<rparr>"

definition with_app_version :: "string \<Rightarrow> 's client \<Rightarrow> 's client" where
  "with_app_version version c = c\<lparr>cl_app_version := version\<rparr>"

subsection \<open>Enqueueing\<close>

text \<open>The clock is read twice: for the delay, then for the creation time of the row.\<close>

definition client_row :: "'s client \<Rightarrow> datetime \<Rightarrow> datetime \<Rightarrow> string \<Rightarrow> string \<Rightarrow> string \<Rightarrow> json \<Rightarrow> workflow_options \<Rightarrow> workflow_status" where
  "client_row c now created i queue nm input opts =
     (workflow_status_new created i nm input (if wo_delay opts \<noteq> None then STATUS_DELAYED else STATUS_ENQUEUED) []
        (unwrap_or (cl_app_version c) (wo_app_version opts)))
      \<lparr>wf_queue_name := Some queue, wf_priority := wo_priority opts, wf_queue_partition_key := wo_partition_key opts,
       wf_dedup_id := wo_dedup_id opts, wf_authenticated_user := wo_authenticated_user opts,
       wf_assumed_role := wo_assumed_role opts, wf_authenticated_roles := wo_authenticated_roles opts,
       wf_class_name := wo_class_name opts, wf_config_name := wo_config_name opts,
       wf_attributes := attributes_for_row opts, wf_timeout_ms := map_option as_millis (wo_timeout opts),
       wf_delay_until_ms := map_option (\<lambda>d. wrap_i64 (timestamp_millis now + as_millis d)) (wo_delay opts)\<rparr>"

text \<open>One attempt; \<open>mid k\<close> is what others did before each of the two reads of the holder.\<close>

definition client_attempt :: "'s client \<Rightarrow> (nat \<Rightarrow> ('s \<Rightarrow> 's) \<times> ('s \<Rightarrow> 's)) \<Rightarrow> workflow_status \<Rightarrow> string \<Rightarrow> string \<Rightarrow> workflow_options \<Rightarrow> nat \<Rightarrow> 's
  \<Rightarrow> workflow_status option result \<times> 's" where
  "client_attempt c mid row queue nm opts k s = (case p_insert_workflow_status (cl_provider c) row s of
       (Inr (canonical, _), s') \<Rightarrow> (result_bind (check_workflow_target canonical nm opts) (\<lambda>_. Ok (Some canonical)), s')
     | (Inl e, s') \<Rightarrow>
        if wo_dedup_policy opts = ReturnExisting \<and> code e = Code_QueueDeduplicated
        then (find_dedup_target (cl_provider c) queue nm opts (fst (mid k) s') (snd (mid k) (fst (mid k) s')),
              snd (mid k) (fst (mid k) s'))
        else (Err (observation_error e), s'))"

definition client_enqueue :: "'s client \<Rightarrow> datetime \<times> datetime \<Rightarrow> (nat \<Rightarrow> ('s \<Rightarrow> 's) \<times> ('s \<Rightarrow> 's)) \<Rightarrow> (nat \<Rightarrow> 's \<Rightarrow> 's) \<Rightarrow> string \<Rightarrow> 'a serde
  \<Rightarrow> string \<Rightarrow> string \<Rightarrow> 'a \<Rightarrow> workflow_options \<Rightarrow> 's \<Rightarrow> workflow_handle result \<times> 's" where
  "client_enqueue c clock mid others fresh T queue nm input opts s =
     (if queue = [] then (Err (app ''queue name is required''), s)
      else if nm = [] then (Err (app ''workflow name is required''), s)
      else case validate_deduplication opts (Some queue) of Inl e \<Rightarrow> (Err e, s) | Inr _ \<Rightarrow>
      case to_value T input of Inl e \<Rightarrow> (Err e, s) | Inr v \<Rightarrow>
       (let row = client_row c (fst clock) (snd clock) (unwrap_or fresh (wo_workflow_id opts)) queue nm v opts in
        case retry_dedup (client_attempt c mid row queue nm opts) others s of
          (Inl e, s') \<Rightarrow> (Err e, s')
        | (Inr canonical, s') \<Rightarrow> (Ok (Polling_Handle (wf_id canonical)), s')))"

subsection \<open>Messages, events and workflows\<close>

definition client_send :: "'s client \<Rightarrow> datetime \<Rightarrow> string \<Rightarrow> 'a serde \<Rightarrow> string \<Rightarrow> 'a \<Rightarrow> string \<Rightarrow> 's \<Rightarrow> unit result \<times> 's" where
  "client_send c now fresh T destination message topic s = (case to_value T message of
       Inl e \<Rightarrow> (Err e, s)
     | Inr v \<Rightarrow> p_insert_notification (cl_provider c) now fresh destination topic v None s)"

definition client_send_with_idempotency_key :: "'s client \<Rightarrow> datetime \<Rightarrow> string \<Rightarrow> 'a serde \<Rightarrow> string \<Rightarrow> 'a \<Rightarrow> string \<Rightarrow> string
  \<Rightarrow> 's \<Rightarrow> unit result \<times> 's" where
  "client_send_with_idempotency_key c now fresh T destination message topic key s = (case to_value T message of
       Inl e \<Rightarrow> (Err e, s)
     | Inr v \<Rightarrow> p_insert_notification (cl_provider c) now fresh destination topic v (Some key) s)"

definition client_send_bulk :: "'s client \<Rightarrow> datetime \<Rightarrow> (nat \<Rightarrow> string) \<Rightarrow> 'a serde \<Rightarrow> 'a send_message list \<Rightarrow> 's \<Rightarrow> unit result \<times> 's" where
  "client_send_bulk c now fresh T messages s = (case prepare_bulk T messages of
       Inl e \<Rightarrow> (Err e, s)
     | Inr rows \<Rightarrow> p_insert_notifications (cl_provider c) now fresh rows s)"

text \<open>The loop is that of the engine's read.\<close>

definition client_get_event :: "'s client \<Rightarrow> 'b serde \<Rightarrow> (nat \<Rightarrow> 's) \<Rightarrow> nat \<Rightarrow> (nat \<Rightarrow> nat) \<Rightarrow> string \<Rightarrow> string \<Rightarrow> nat
  \<Rightarrow> 'b option result option" where
  "client_get_event c U view start clock target key timeout = poll_event (cl_provider c) U view clock target key (start + timeout) 0"

definition client_retrieve_workflow :: "'s client \<Rightarrow> string \<Rightarrow> 's \<Rightarrow> workflow_handle result" where
  "client_retrieve_workflow c i s = result_bind (map_err observation_error (p_get_workflow_status (cl_provider c) i s)) (\<lambda>row. case row of
       None \<Rightarrow> Err (UnknownWorkflow i) | Some _ \<Rightarrow> Ok (Polling_Handle i))"

definition client_cancel_workflow :: "'s client \<Rightarrow> datetime \<Rightarrow> string \<Rightarrow> 's \<Rightarrow> unit result \<times> 's" where
  "client_cancel_workflow c now i s = c_cancel_workflow (cl_control c) now i s"

definition client_cancel_workflow_with_options :: "'s client \<Rightarrow> datetime \<Rightarrow> string \<Rightarrow> cancel_options \<Rightarrow> 's \<Rightarrow> unit result \<times> 's" where
  "client_cancel_workflow_with_options c now i options s = c_cancel_workflows_with_options (cl_control c) now [i] options s"

definition client_cancel_workflows :: "'s client \<Rightarrow> datetime \<Rightarrow> string list \<Rightarrow> 's \<Rightarrow> unit result \<times> 's" where
  "client_cancel_workflows c now ids s = p_cancel_workflows (cl_provider c) now ids s"

definition client_cancel_workflows_with_options :: "'s client \<Rightarrow> datetime \<Rightarrow> string list \<Rightarrow> cancel_options \<Rightarrow> 's \<Rightarrow> unit result \<times> 's" where
  "client_cancel_workflows_with_options c now ids options s = c_cancel_workflows_with_options (cl_control c) now ids options s"

definition client_delete_workflows :: "'s client \<Rightarrow> string list \<Rightarrow> bool \<Rightarrow> 's \<Rightarrow> unit result \<times> 's" where
  "client_delete_workflows c ids delete_children s = p_delete_workflows (cl_provider c) ids delete_children s"

definition client_set_workflow_attributes :: "'s client \<Rightarrow> datetime \<Rightarrow> string \<Rightarrow> jmap option \<Rightarrow> 's \<Rightarrow> unit result \<times> 's" where
  "client_set_workflow_attributes c now i attributes s = p_set_workflow_attributes (cl_provider c) now i attributes s"

definition client_resume_workflow_on :: "'s client \<Rightarrow> datetime \<times> datetime \<Rightarrow> ('s \<Rightarrow> 's) \<Rightarrow> string \<Rightarrow> string \<Rightarrow> 's \<Rightarrow> workflow_handle result \<times> 's" where
  "client_resume_workflow_on c clock mid i queue s = (case c_resume_workflow (cl_control c) (fst clock) i s of
       (Inl e, s') \<Rightarrow> (Err e, s')
     | (Inr resumed, s') \<Rightarrow>
        if resumed
        then (case c_enqueue_existing (cl_control c) (snd clock) i queue (mid s') of
            (Inl e, s'') \<Rightarrow> (Err e, s'')
          | (Inr _, s'') \<Rightarrow> (Ok (Polling_Handle i), s''))
        else (case p_get_workflow_status (cl_provider c) i (mid s') of
            Inl e \<Rightarrow> (Err e, mid s')
          | Inr None \<Rightarrow> (Err (NonExistentWorkflow i), mid s')
          | Inr (Some _) \<Rightarrow> (Ok (Polling_Handle i), mid s')))"

definition client_resume_workflow :: "'s client \<Rightarrow> datetime \<times> datetime \<Rightarrow> ('s \<Rightarrow> 's) \<Rightarrow> string \<Rightarrow> 's \<Rightarrow> workflow_handle result \<times> 's" where
  "client_resume_workflow c clock mid i s = client_resume_workflow_on c clock mid i INTERNAL_QUEUE s"

definition client_resume_workflows_on :: "'s client \<Rightarrow> datetime \<Rightarrow> (nat \<Rightarrow> datetime) \<Rightarrow> (nat \<Rightarrow> 's \<Rightarrow> 's) \<Rightarrow> ('s \<Rightarrow> 's)
  \<Rightarrow> string list \<Rightarrow> string \<Rightarrow> 's \<Rightarrow> workflow_handle list result \<times> 's" where
  "client_resume_workflows_on c now clock mid after ids queue s = (case c_resume_workflows (cl_control c) now ids s of
       (Inl e, s') \<Rightarrow> (Err e, s')
     | (Inr resumed, s') \<Rightarrow> (case enqueue_each (cl_control c) clock mid queue 0 resumed s' of
          (Inl e, s'') \<Rightarrow> (Err e, s'')
        | (Inr _, s'') \<Rightarrow> (existing_handles (cl_provider c) ids (after s''), after s'')))"

definition client_resume_workflows :: "'s client \<Rightarrow> datetime \<Rightarrow> (nat \<Rightarrow> datetime) \<Rightarrow> (nat \<Rightarrow> 's \<Rightarrow> 's) \<Rightarrow> ('s \<Rightarrow> 's)
  \<Rightarrow> string list \<Rightarrow> 's \<Rightarrow> workflow_handle list result \<times> 's" where
  "client_resume_workflows c now clock mid after ids s = client_resume_workflows_on c now clock mid after ids INTERNAL_QUEUE s"

definition client_fork_workflow :: "'s client \<Rightarrow> datetime \<Rightarrow> string \<Rightarrow> string \<Rightarrow> int \<Rightarrow> workflow_options \<Rightarrow> 's \<Rightarrow> workflow_handle result \<times> 's" where
  "client_fork_workflow c now fresh original start_step opts s =
     (if wo_partition_key opts \<noteq> None \<and> wo_queue opts = None
      then (Err (app ''a queue partition key requires a queue name''), s)
      else case fork_timeout_ms opts of Inl e \<Rightarrow> (Err e, s) | Inr timeout_ms \<Rightarrow>
       (let new_id = unwrap_or fresh (opt_filter (\<lambda>i. i \<noteq> []) (wo_workflow_id opts)) in
        case c_fork_workflow_with_timeout (cl_control c) now
          \<lparr>fp_original_id = original, fp_new_id = new_id, fp_start_step = start_step,
           fp_app_version = opt_filter (\<lambda>v. v \<noteq> []) (wo_app_version opts),
           fp_queue_name = unwrap_or INTERNAL_QUEUE (wo_queue opts), fp_partition_key = wo_partition_key opts\<rparr> timeout_ms s of
          (Inl e, s') \<Rightarrow> (Err e, s')
        | (Inr _, s') \<Rightarrow> (Ok (Polling_Handle new_id), s')))"

definition client_set_workflow_delay :: "'s client \<Rightarrow> datetime \<times> datetime \<Rightarrow> string \<Rightarrow> nat \<Rightarrow> 's \<Rightarrow> bool result \<times> 's" where
  "client_set_workflow_delay c clock i delay s =
     c_set_workflow_delay (cl_control c) (snd clock) i (wrap_i64 (timestamp_millis (fst clock) + as_millis delay)) s"

definition client_set_workflow_delay_until :: "'s client \<Rightarrow> datetime \<Rightarrow> string \<Rightarrow> datetime \<Rightarrow> 's \<Rightarrow> bool result \<times> 's" where
  "client_set_workflow_delay_until c now i instant s = c_set_workflow_delay (cl_control c) now i (timestamp_millis instant) s"

definition client_set_latest_application_version :: "'s client \<Rightarrow> datetime \<Rightarrow> string \<Rightarrow> 's \<Rightarrow> bool result \<times> 's" where
  "client_set_latest_application_version c now nm s =
     (if nm = [] then (Err (app ''version_name is required''), s) else c_set_latest_application_version (cl_control c) now nm s)"

subsection \<open>Schedules\<close>

definition client_create_schedule :: "('c, 'z) cron_crate \<Rightarrow> 's client \<Rightarrow> string \<Rightarrow> string \<Rightarrow> string \<Rightarrow> string \<Rightarrow> schedule_options \<Rightarrow> 's
  \<Rightarrow> unit result \<times> 's" where
  "client_create_schedule L c fresh nm workflow cron opts s =
     (if nm = [] then (Err (app ''schedule_name is required''), s)
      else case parse_cron L cron of Inl e \<Rightarrow> (Err e, s) | Inr _ \<Rightarrow>
      case check_timezone L (so_cron_timezone opts) of Inl e \<Rightarrow> (Err e, s) | Inr _ \<Rightarrow>
      s_create_schedule (cl_schedules c) (schedule_row fresh nm workflow cron opts) s)"

fun client_check_requests :: "('c, 'z) cron_crate \<Rightarrow> apply_schedule list \<Rightarrow> unit result" where
  "client_check_requests L [] = Ok ()"
| "client_check_requests L (req # reqs) =
     (if as_schedule_name req = [] then Err (app ''schedule_name is required'')
      else result_bind (parse_cron L (as_schedule req)) (\<lambda>_.
        result_bind (check_timezone L (so_cron_timezone (as_options req))) (\<lambda>_. client_check_requests L reqs)))"

definition client_apply_schedules :: "('c, 'z) cron_crate \<Rightarrow> 's client \<Rightarrow> (nat \<Rightarrow> string) \<Rightarrow> apply_schedule list \<Rightarrow> 's \<Rightarrow> unit result \<times> 's" where
  "client_apply_schedules L c fresh reqs s = (case client_check_requests L reqs of
       Inl e \<Rightarrow> (Err e, s) | Inr _ \<Rightarrow> s_apply_schedules (cl_schedules c) (built_schedules fresh reqs) s)"

definition client_update_schedule :: "('c, 'z) cron_crate \<Rightarrow> 's client \<Rightarrow> string \<Rightarrow> schedule_update \<Rightarrow> 's \<Rightarrow> unit result \<times> 's" where
  "client_update_schedule L c nm update s =
     (case schedule_update_validate (\<lambda>c. result_bind (parse_cron L c) (\<lambda>_. Ok ())) (\<lambda>z. result_bind (parse_timezone L z) (\<lambda>_. Ok ())) nm update of
        Inl e \<Rightarrow> (Err e, s) | Inr _ \<Rightarrow> s_update_schedule (cl_schedules c) nm update s)"

definition client_get_schedule :: "'s client \<Rightarrow> string \<Rightarrow> 's \<Rightarrow> workflow_schedule option result" where
  "client_get_schedule c nm s =
     result_bind (s_list_schedules (cl_schedules c) \<lparr>sf_statuses = [], sf_workflow_names = [], sf_name_prefixes = [nm]\<rparr> s) (\<lambda>schedules.
       Ok (List.find (\<lambda>sched. ws_schedule_name sched = nm) schedules))"

definition client_pause_schedule :: "'s client \<Rightarrow> string \<Rightarrow> 's \<Rightarrow> bool result \<times> 's" where
  "client_pause_schedule c nm s = s_set_schedule_status (cl_schedules c) nm Paused s"

definition client_resume_schedule :: "'s client \<Rightarrow> string \<Rightarrow> 's \<Rightarrow> bool result \<times> 's" where
  "client_resume_schedule c nm s = s_set_schedule_status (cl_schedules c) nm Active s"

definition client_delete_schedule :: "'s client \<Rightarrow> string \<Rightarrow> 's \<Rightarrow> bool result \<times> 's" where
  "client_delete_schedule c nm s = s_delete_schedule (cl_schedules c) nm s"

definition client_trigger_schedule :: "('c, 'z) cron_crate \<Rightarrow> 's client \<Rightarrow> scheduled_input serde \<Rightarrow> datetime \<Rightarrow> datetime \<times> datetime \<Rightarrow> ('s \<Rightarrow> 's)
  \<Rightarrow> (nat \<Rightarrow> ('s \<Rightarrow> 's) \<times> ('s \<Rightarrow> 's)) \<Rightarrow> (nat \<Rightarrow> 's \<Rightarrow> 's) \<Rightarrow> string \<Rightarrow> string \<Rightarrow> 's \<Rightarrow> workflow_handle result \<times> 's" where
  "client_trigger_schedule L c T now clock before mid others fresh nm s = (case client_get_schedule c nm s of
       Inl e \<Rightarrow> (Err e, s)
     | Inr None \<Rightarrow> (Err (schedule_not_found nm), s)
     | Inr (Some sched) \<Rightarrow> client_enqueue c clock mid others fresh T (unwrap_or INTERNAL_QUEUE (ws_queue_name sched)) (ws_workflow_name sched)
         (tick_input sched now) (workflow_options_default\<lparr>wo_workflow_id := Some (trigger_id L nm now)\<rparr>) (before s))"

text \<open>\<open>env k\<close> is what surrounds the enqueueing of tick \<open>k\<close>: the readings and the effects of others, the
  last of them before it.\<close>

type_synonym 's tick_env = "nat \<Rightarrow> (datetime \<times> datetime) \<times> (nat \<Rightarrow> ('s \<Rightarrow> 's) \<times> ('s \<Rightarrow> 's)) \<times> (nat \<Rightarrow> 's \<Rightarrow> 's) \<times> ('s \<Rightarrow> 's)"

fun client_backfill_each :: "('c, 'z) cron_crate \<Rightarrow> 's client \<Rightarrow> scheduled_input serde \<Rightarrow> 's tick_env \<Rightarrow> string \<Rightarrow> string \<Rightarrow> workflow_schedule \<Rightarrow> nat
  \<Rightarrow> datetime list \<Rightarrow> 's \<Rightarrow> string list result \<times> 's" where
  "client_backfill_each L c T env fresh nm sched k [] s = (Ok [], s)"
| "client_backfill_each L c T env fresh nm sched k (instant # instants) s =
     (case env k of (clock, mid, others, before) \<Rightarrow>
      let i = ''sched-'' @ nm @ ''-'' @ cr_rfc3339 L instant in
      case client_enqueue c clock mid others fresh T (unwrap_or INTERNAL_QUEUE (ws_queue_name sched)) (ws_workflow_name sched)
             (tick_input sched instant) (workflow_options_default\<lparr>wo_workflow_id := Some i\<rparr>) (before s) of
        (Inl e, s') \<Rightarrow> (Err e, s')
      | (Inr _, s') \<Rightarrow> (let (r, s'') = client_backfill_each L c T env fresh nm sched (Suc k) instants s' in
          (result_bind r (\<lambda>ids. Ok (i # ids)), s'')))"

definition client_backfill_schedule :: "('c, 'z) cron_crate \<Rightarrow> 's client \<Rightarrow> scheduled_input serde \<Rightarrow> 's tick_env \<Rightarrow> string \<Rightarrow> string \<Rightarrow> datetime \<Rightarrow> datetime
  \<Rightarrow> 's \<Rightarrow> (string list result \<times> 's) option" where
  "client_backfill_schedule L c T env fresh nm start until s = (case client_get_schedule c nm s of
       Inl e \<Rightarrow> Some (Err e, s)
     | Inr None \<Rightarrow> Some (Err (schedule_not_found nm), s)
     | Inr (Some sched) \<Rightarrow> (case parse_cron L (ws_schedule sched) of
          Inl e \<Rightarrow> Some (Err e, s)
        | Inr cron \<Rightarrow> map_option (\<lambda>instants. client_backfill_each L c T env fresh nm sched 0 instants s)
            (cron_ticks_between (next_cron_instant L cron (ws_cron_timezone sched)) start until)))"

section \<open>Lemmas\<close>

lemma retry_dedup_map:
  assumes "\<And>k s. attempt' k s = map_prod (map_sum id (map_option h)) id (attempt k s)"
  shows "retry_dedup attempt' others s = map_prod (map_sum id h) id (retry_dedup attempt others s)"
proof -
  have "retry_dedup_from attempt' others k n s = map_prod (map_sum id h) id (retry_dedup_from attempt others k n s)" for k n s
  proof (induction n arbitrary: k s)
    case (Suc n)
    show ?case using Suc assms [of k s] by (cases "attempt k s") (auto split: sum.split option.split)
  qed simp
  then show ?thesis by (simp add: retry_dedup_def)
qed

text \<open>The row of a start that names a queue, with the queue taken from the options.\<close>

lemma build_run_client_row:
  assumes "validate_deduplication opts (Some queue) = Ok ()" "contains_key (rt_queues rt) queue"
    and "unwrap_or (cl_app_version c) (wo_app_version opts) = unwrap_or (rt_app_version rt) (wo_app_version opts)"
  shows "build_run rt now created i nm v (opts\<lparr>wo_queue := Some queue\<rparr>) None
      \<lparr>au_user = wo_authenticated_user opts, au_assumed_role = wo_assumed_role opts, au_roles = wo_authenticated_roles opts\<rparr>
    = Ok (client_row c now created i queue nm v opts, True)"
proof -
  have "validate_deduplication (opts\<lparr>wo_queue := Some queue\<rparr>) (Some queue) = Ok ()"
    using assms(1) by (simp add: validate_deduplication_def split: if_splits)
  then show ?thesis using assms(2,3)
    by (simp add: build_run_def client_row_def workflow_status_new_def attributes_for_row_def opt_filter_def Let_def result_bind_def)
qed

lemma insert_run_with_dedup_queued:
  assumes "\<And>k. build_run rt (fst (clock k)) (snd (clock k)) i nm v opts parent auth = Ok (row k, True)"
    and "insert_run_with_dedup rt clock mid others i nm v opts parent auth s = (Inr run, s')"
  shows "fst (snd run)"
proof (rule retry_dedup_from_inv [where I = "\<lambda>_. True" and Q = "\<lambda>run _. fst (snd run)"])
  show "retry_dedup_from (dedup_attempt rt clock mid i nm v opts parent auth) others 0 MAX_DEDUP_ATTEMPTS s = (Inr run, s')"
    using assms(2) by (simp add: insert_run_with_dedup_def retry_dedup_def)
  show "fst (snd x)" if "dedup_attempt rt clock mid i nm v opts parent auth k s = (Inr (Some x), s')" for k s x s'
    using that assms(1) [of k]
    by (auto simp: dedup_attempt_def insert_run_def result_bind_def split: sum.splits prod.splits if_splits)
qed simp_all

lemma code_observation_error: "(\<nexists>cause. e = RecoveryRequired cause) \<Longrightarrow> code (observation_error e) = code e"
  by (cases e) (simp_all add: observation_error_def)

lemma target_ignores_queue:
  "check_workflow_target row nm (opts\<lparr>wo_queue := x\<rparr>) = check_workflow_target row nm opts"
  by (simp add: check_workflow_target_def)

lemma dedup_target_ignores_queue:
  "find_dedup_target P q nm (opts\<lparr>wo_queue := x\<rparr>) s s' = find_dedup_target P q nm opts s s'"
  unfolding find_dedup_target_def target_ignores_queue by simp

lemma client_attempt_dedup_attempt:
  assumes "cl_provider c = rt_provider rt" "\<forall>row s cause. fst (p_insert_workflow_status (rt_provider rt) row s) \<noteq> Inl (RecoveryRequired cause)"
    and "\<And>auth. auth = \<lparr>au_user = wo_authenticated_user opts, au_assumed_role = wo_assumed_role opts, au_roles = wo_authenticated_roles opts\<rparr> \<Longrightarrow>
      build_run rt now created i nm v (opts\<lparr>wo_queue := Some queue\<rparr>) None auth = Ok (row, True)"
  shows "client_attempt c mid row queue nm opts k s = map_prod (map_sum id (map_option fst)) id
    (dedup_attempt rt (\<lambda>_. (now, created)) mid i nm v (opts\<lparr>wo_queue := Some queue\<rparr>) None
      \<lparr>au_user = wo_authenticated_user opts, au_assumed_role = wo_assumed_role opts, au_roles = wo_authenticated_roles opts\<rparr> k s)"
proof -
  obtain x s' where x: "p_insert_workflow_status (rt_provider rt) row s = (x, s')" by fastforce
  show ?thesis
  proof (cases x)
    case (Inl e)
    then have "\<nexists>cause. e = RecoveryRequired cause" using assms(2) x by (metis fst_conv)
    from code_observation_error [OF this] show ?thesis
      using x Inl assms(1) assms(3) [OF refl]
      by (auto simp: client_attempt_def dedup_attempt_def insert_run_def dedup_target_ignores_queue target_ignores_queue result_bind_def option.map_comp comp_def option.map_ident
          split: sum.split)
  next
    case (Inr y)
    then show ?thesis using x assms(1) assms(3) [OF refl]
      by (cases y) (auto simp: client_attempt_def dedup_attempt_def insert_run_def dedup_target_ignores_queue target_ignores_queue result_bind_def split: sum.split)
  qed
qed

lemma retry_dedup_first:
  assumes "attempt 0 s = map_prod (map_sum id Some) id z"
  shows "retry_dedup attempt others s = z"
proof -
  have "retry_dedup_from attempt others 0 (Suc n) s = z" for n using assms by (cases z; cases "fst z") simp_all
  from this [of 7] show ?thesis by (simp add: retry_dedup_def MAX_DEDUP_ATTEMPTS_def)
qed

text \<open>Without a deduplication id the first attempt settles the enqueue.\<close>

lemma client_enqueue_plain:
  fixes opts defines "i fresh \<equiv> unwrap_or fresh (wo_workflow_id opts)"
  assumes "cl_provider c = memory_provider C f" "queue \<noteq> []" "nm \<noteq> []" "to_value T input = Ok v"
    and "wo_dedup_id opts = None" "wo_dedup_policy opts = Reject"
  shows "client_enqueue c clock mid others fresh T queue nm input opts g = (case map_of (workflows g) (i fresh) of
      None \<Rightarrow> (Ok (Polling_Handle (i fresh)), put_row (client_row c (fst clock) (snd clock) (i fresh) queue nm v opts) g)
    | Some row \<Rightarrow> (map_sum id (\<lambda>_. Polling_Handle (wf_id row)) (check_workflow_target row nm opts), g))"
proof -
  let ?row = "client_row c (fst clock) (snd clock) (i fresh) queue nm v opts"
  have row: "wf_id ?row = i fresh" "wf_dedup_id ?row = None" "check_workflow_target ?row nm opts = Ok ()"
    using assms(6) by (simp_all add: client_row_def workflow_status_new_def check_workflow_target_def check_target_def)
  have "validate_deduplication opts (Some queue) = Ok ()" using assms(6,7) by (simp add: validate_deduplication_def)
  moreover have "client_attempt c mid ?row queue nm opts 0 g = map_prod (map_sum id Some) id (case map_of (workflows g) (i fresh) of
      None \<Rightarrow> (Ok ?row, put_row ?row g) | Some row \<Rightarrow> (map_sum id (\<lambda>_. row) (check_workflow_target row nm opts), g))"
    using assms(2) row by (auto simp: client_attempt_def insert_workflow_status_def result_bind_def split: option.split sum.split)
  note retry_dedup_first [where attempt = "client_attempt c mid ?row queue nm opts", OF this, of others]
  ultimately show ?thesis using assms(3-5) row(1) unfolding i_def
    by (cases "map_of (workflows g) (unwrap_or fresh (wo_workflow_id opts))")
      (simp_all add: client_enqueue_def Let_def sum.case_eq_if map_sum_def split: sum.split)
qed

text \<open>An enqueue under a given id leaves a row there, unless it fails, and removes none.\<close>

lemma client_enqueue_keeps:
  assumes "cl_provider c = memory_provider C f" "wo_dedup_id opts = None" "wo_dedup_policy opts = Reject"
    and "client_enqueue c clock mid others fresh T queue nm input opts g = (r, g')"
  shows "contains_key (workflows g) j \<Longrightarrow> contains_key (workflows g') j" and "r = Inr h \<Longrightarrow> contains_key (workflows g') (unwrap_or fresh (wo_workflow_id opts))"
proof -
  have val: "validate_deduplication opts (Some queue) = Ok ()" using assms(2,3) by (simp add: validate_deduplication_def)
  consider "r \<noteq> Inr h" "g' = g" | v where "queue \<noteq> []" "nm \<noteq> []" "to_value T input = Ok v"
    using assms(4) val by (cases "to_value T input") (auto simp: client_enqueue_def split: if_splits)
  then have "(contains_key (workflows g) j \<longrightarrow> contains_key (workflows g') j)
      \<and> (r = Inr h \<longrightarrow> contains_key (workflows g') (unwrap_or fresh (wo_workflow_id opts)))"
  proof cases
    case 2
    have "wf_id (client_row c now created i q nm v opts) = i" for now created i q by (simp add: client_row_def workflow_status_new_def)
    then show ?thesis
      using assms(4) unfolding client_enqueue_plain [OF assms(1) 2 assms(2,3)]
      by (auto simp: put_row_def contains_key_def split: option.splits)
  qed auto
  then show "contains_key (workflows g) j \<Longrightarrow> contains_key (workflows g') j"
    and "r = Inr h \<Longrightarrow> contains_key (workflows g') (unwrap_or fresh (wo_workflow_id opts))" by blast+
qed

lemma client_backfill_each_memory:
  assumes "cl_provider c = memory_provider C f" "ws_schedule_name sched = nm"
    and "\<And>k g j. contains_key (workflows g) j \<Longrightarrow> contains_key (workflows (snd (snd (snd (env k))) g)) j"
  shows "client_backfill_each L c T env fresh nm sched k ts g = (r, g') \<Longrightarrow> r = Inr ids \<Longrightarrow>
    ids = map (tick_id L sched) ts \<and> (\<forall>t \<in> set ts. contains_key (workflows g') (tick_id L sched t))
    \<and> (\<forall>j. contains_key (workflows g) j \<longrightarrow> contains_key (workflows g') j)"
proof (induction ts arbitrary: k g r ids)
  case (Cons t ts)
  obtain clock mid others before where env: "env k = (clock, mid, others, before)" by (cases "env k") auto
  let ?opts = "workflow_options_default\<lparr>wo_workflow_id := Some (tick_id L sched t)\<rparr>"
  obtain x g1 where x: "client_enqueue c clock mid others fresh T (unwrap_or INTERNAL_QUEUE (ws_queue_name sched)) (ws_workflow_name sched)
      (tick_input sched t) ?opts (before g) = (x, g1)" by fastforce
  have i: "''sched-'' @ nm @ ''-'' @ cr_rfc3339 L t = tick_id L sched t" using assms(2) by (simp add: tick_id_def)
  obtain h r' ids' where rest: "x = Inr h" "client_backfill_each L c T env fresh nm sched (Suc k) ts g1 = (r', g')" "r' = Inr ids'"
    "ids = tick_id L sched t # ids'"
    using Cons.prems x env i by (auto simp: Let_def result_bind_def split: sum.splits prod.splits)
  have plain: "wo_dedup_id ?opts = None" "wo_dedup_policy ?opts = Reject" by (simp_all add: workflow_options_default_def)
  note kept = client_enqueue_keeps [OF assms(1) plain x]
  show ?case using Cons.IH [OF rest(2,3)] kept(1) kept(2) [OF rest(1)] rest(4) assms(3) [of g _ k] env by auto
qed simp

lemma engine_start_queued:
  assumes "cl_provider c = rt_provider rt" "\<forall>row s cause. fst (p_insert_workflow_status (rt_provider rt) row s) \<noteq> Inl (RecoveryRequired cause)"
    and "queue \<noteq> []" "nm \<noteq> []" "contains_key (rt_queues rt) queue" "contains_key (rt_workflows rt) (registry_key nm (wo_config_name opts))"
    and "wo_workflow_id opts \<noteq> Some []" "to_value T input = Ok v"
    and "unwrap_or (cl_app_version c) (wo_app_version opts) = unwrap_or (rt_app_version rt) (wo_app_version opts)"
  shows "engine_start rt (\<lambda>_. (now, created)) mid others fresh T nm input (opts\<lparr>wo_queue := Some queue\<rparr>) s
    = map_prod (map_sum id (\<lambda>h. (h, None))) id (client_enqueue c (now, created) mid others fresh T queue nm input opts s)"
proof -
  have val: "validate_deduplication (opts\<lparr>wo_queue := Some queue\<rparr>) (Some queue) = validate_deduplication opts (Some queue)"
    by (simp add: validate_deduplication_def)
  have i: "unwrap_or fresh (opt_filter (\<lambda>i. i \<noteq> []) (wo_workflow_id opts)) = unwrap_or fresh (wo_workflow_id opts)"
    using assms(7) by (auto simp: opt_filter_def split: option.split)
  show ?thesis
  proof (cases "validate_deduplication opts (Some queue)")
    case (Inr u)
    then have v: "to_value T input = Inr v" "validate_deduplication opts (Some queue) = Inr ()" using assms(8) by simp_all
    let ?i = "unwrap_or fresh (wo_workflow_id opts)"
    let ?auth = "\<lparr>au_user = wo_authenticated_user opts, au_assumed_role = wo_assumed_role opts, au_roles = wo_authenticated_roles opts\<rparr>"
    let ?row = "client_row c now created ?i queue nm v opts"
    let ?ins = "insert_run_with_dedup rt (\<lambda>_. (now, created)) mid others ?i nm v (opts\<lparr>wo_queue := Some queue\<rparr>) None ?auth s"
    note row = build_run_client_row [OF v(2) assms(5,9)]
    have ret: "retry_dedup (client_attempt c mid ?row queue nm opts) others s = map_prod (map_sum id fst) id ?ins"
      unfolding insert_run_with_dedup_def by (intro retry_dedup_map client_attempt_dedup_attempt assms(1,2)) (simp only: row)
    have queued: "fst (snd run)" if "fst ?ins = Inr run" for run
      using insert_run_with_dedup_queued [where clock = "\<lambda>_. (now, created)", unfolded fst_conv snd_conv, OF row] that by (metis prod.collapse)
    obtain x s' where x: "?ins = (x, s')" by fastforce
    show ?thesis using assms(3,4,6) v val i ret queued x
      by (cases x) (auto simp: engine_start_def client_enqueue_def Let_def split: prod.split)
  next
    case (Inl e)
    then show ?thesis using assms(3,4,8) val by (simp add: engine_start_def client_enqueue_def Let_def)
  qed
qed

section \<open>Properties\<close>

text \<open>
  C22: a client enqueues what an engine would, under these conditions: both use the
  same provider, which never answers an insert with a recovery error of its own;
  the queue and the workflow have names, and the engine has registered both;
  the options carry no id or one that is not the empty text; the input converts;
  and the options name a version or the client's version is the engine's, which
  a client that was given none does not have.  Then a client's enqueue and the
  engine's start on that queue return the same handle or error and leave the
  same store, whatever others do between the calls, and the engine spawns
  nothing.
\<close>

theorem client_enqueues_as_engine:
  assumes "cl_provider c = rt_provider rt" "\<forall>row s cause. fst (p_insert_workflow_status (rt_provider rt) row s) \<noteq> Inl (RecoveryRequired cause)"
    and "queue \<noteq> []" "nm \<noteq> []" "contains_key (rt_queues rt) queue" "contains_key (rt_workflows rt) (registry_key nm (wo_config_name opts))"
    and "wo_workflow_id opts \<noteq> Some []" "to_value T input = Ok v"
    and "unwrap_or (cl_app_version c) (wo_app_version opts) = unwrap_or (rt_app_version rt) (wo_app_version opts)"
  shows "engine_start rt (\<lambda>_. (now, created)) mid others fresh T nm input (opts\<lparr>wo_queue := Some queue\<rparr>) s
    = map_prod (map_sum id (\<lambda>h. (h, None))) id (client_enqueue c (now, created) mid others fresh T queue nm input opts s)"
  using assms by (rule engine_start_queued)

text \<open>
  Jobs enqueued with the empty id collapse.  A client takes an explicit empty id
  as it is, where the engine makes a fresh one: the first such job is stored under
  the empty id, and every later one for the same workflow is dropped, its caller
  getting a handle to the first.
\<close>

theorem empty_id_collapses:
  assumes "cl_provider c = memory_provider C f" "mem_inv g" "queue \<noteq> []" "nm \<noteq> []" "to_value T input = Ok v"
    and "wo_workflow_id opts = Some []" "wo_dedup_id opts = None" "wo_dedup_policy opts = Reject"
  shows "case map_of (workflows g) [] of
      None \<Rightarrow> client_enqueue c clock mid others fresh T queue nm input opts g
        = (Ok (Polling_Handle []), put_row (client_row c (fst clock) (snd clock) [] queue nm v opts) g)
    | Some row \<Rightarrow> check_workflow_target row nm opts = Ok ()
        \<longrightarrow> client_enqueue c clock mid others fresh T queue nm input opts g = (Ok (Polling_Handle []), g)"
  using client_enqueue_plain [OF assms(1,3,4,5,7,8), where clock = clock and mid = mid and others = others and fresh = fresh and g = g]
    assms(6) row_id [OF assms(2)] by (auto split: option.split)

text \<open>
  A tick that a client backfilled is not fired again.  The client's backfill
  returns exactly the ids of the instants strictly between its bounds, in order, and
  leaves a row for each; an engine that comes to such a tick later, in its firing
  loop or a backfill of its own, launches nothing.
\<close>

theorem client_backfill_fires_once:
  assumes "cl_provider c = memory_provider C f" "client_get_schedule c nm g = Ok (Some sched)" "ws_schedule_name sched = nm"
    and "parse_cron L (ws_schedule sched) = Ok cron" "yields_next (next_cron_instant L cron (ws_cron_timezone sched)) K"
    and "\<forall>k g j. contains_key (workflows g) j \<longrightarrow> contains_key (workflows (snd (snd (snd (env k))) g)) j"
  shows "\<exists>r g' ts. client_backfill_schedule L c T env fresh nm start until g = Some (r, g')
    \<and> sorted_wrt (<) ts \<and> set ts = {v \<in> K. start < v \<and> v < until}
    \<and> (\<forall>ids. r = Ok ids \<longrightarrow> ids = map (tick_id L sched) ts
      \<and> (\<forall>t \<in> set ts. \<forall>rt T' clock row queued new i s. rt_provider rt = memory_provider C f
          \<longrightarrow> persist_scheduled_tick rt L T' clock sched t g' = (Ok (row, queued, new, i), s)
          \<longrightarrow> \<not> new \<and> launch_scheduled_tick rt sched row queued new = None))"
proof -
  obtain ts where ts: "cron_ticks_between (next_cron_instant L cron (ws_cron_timezone sched)) start until = Some ts"
    "sorted_wrt (<) ts" "set ts = {v \<in> K. start < v \<and> v < until}"
    using cron_ticks_between_exact [OF assms(5)] by blast
  obtain r g' where each: "client_backfill_each L c T env fresh nm sched 0 ts g = (r, g')" by fastforce
  have stored: "ids = map (tick_id L sched) ts \<and> (\<forall>t \<in> set ts. contains_key (workflows g') (tick_id L sched t))" if "r = Inr ids" for ids
    using client_backfill_each_memory [OF assms(1,3) _ each that] assms(6) by blast
  have "client_backfill_schedule L c T env fresh nm start until g = Some (r, g')"
    using assms(2,4) ts(1) each by (simp add: client_backfill_schedule_def)
  moreover define quiet where "quiet t \<longleftrightarrow> (\<forall>rt T' clock row queued new i s. rt_provider rt = memory_provider C f
      \<longrightarrow> persist_scheduled_tick rt L T' clock sched t g' = (Ok (row, queued, new, i), s)
      \<longrightarrow> \<not> new \<and> launch_scheduled_tick rt sched row queued new = None)" for t
  have "quiet t" if "contains_key (workflows g') (tick_id L sched t)" for t
  proof (unfold quiet_def, intro allI impI)
    fix rt :: "inner runtime" and T' clock row queued new i s
    assume "rt_provider rt = memory_provider C f" "persist_scheduled_tick rt L T' clock sched t g' = (Ok (row, queued, new, i), s)"
    from persist_tick_memory(1,3) [OF this] that have "\<not> new" by simp
    then show "\<not> new \<and> launch_scheduled_tick rt sched row queued new = None" by (simp add: launch_scheduled_tick_def)
  qed
  then have "\<forall>ids. r = Ok ids \<longrightarrow> ids = map (tick_id L sched) ts \<and> (\<forall>t \<in> set ts. quiet t)" using stored by blast
  ultimately have "client_backfill_schedule L c T env fresh nm start until g = Some (r, g') \<and> sorted_wrt (<) ts
      \<and> set ts = {v \<in> K. start < v \<and> v < until} \<and> (\<forall>ids. r = Ok ids \<longrightarrow> ids = map (tick_id L sched) ts \<and> (\<forall>t \<in> set ts. quiet t))"
    using ts(2,3) by blast
  then show ?thesis unfolding quiet_def by (intro exI) assumption
qed

section \<open>Witnesses\<close>

definition sample_client :: "inner client" where
  "sample_client = with_app_version ''v'' (client_new (memory_provider plain_codec (\<lambda>t. Some t)) (memory_control plain_codec (\<lambda>t. Some t))
     (memory_schedules (\<lambda>t. Some t) (\<lambda>_. Ok ()) (\<lambda>_. Ok ())))"

lemma sample_client_simps [simp]:
  "cl_provider sample_client = memory_provider plain_codec (\<lambda>t. Some t)" "cl_control sample_client = memory_control plain_codec (\<lambda>t. Some t)"
  "cl_schedules sample_client = memory_schedules (\<lambda>t. Some t) (\<lambda>_. Ok ()) (\<lambda>_. Ok ())" "cl_app_version sample_client = ''v''"
  by (simp_all add: sample_client_def with_app_version_def client_new_def)

lemma client_enqueues_as_engine_witness:
  "engine_start (sample_runtime\<lparr>rt_queues := [(''q'', sample_dispatch)]\<rparr>) (\<lambda>_. (1, 2)) (\<lambda>_. (id, id)) (\<lambda>_. id) ''f'' json_serde ''wf'' (JInt 1)
      (workflow_options_default\<lparr>wo_queue := Some ''q''\<rparr>) inner_default
    = map_prod (map_sum id (\<lambda>h. (h, None))) id
        (client_enqueue sample_client (1, 2) (\<lambda>_. (id, id)) (\<lambda>_. id) ''f'' json_serde ''q'' ''wf'' (JInt 1) workflow_options_default inner_default)"
proof (rule client_enqueues_as_engine)
  show "\<forall>row s cause. fst (p_insert_workflow_status (rt_provider (sample_runtime\<lparr>rt_queues := [(''q'', sample_dispatch)]\<rparr>)) row s)
      \<noteq> Inl (RecoveryRequired cause)"
    by (auto simp: sample_runtime_def insert_workflow_status_def Let_def split: option.splits)
qed (simp_all add: sample_runtime_def workflow_options_default_def registry_key_def contains_key_def json_serde_def to_value_def)

lemma empty_id_collapses_witness:
  "\<exists>g. client_enqueue sample_client (1, 2) (\<lambda>_. (id, id)) (\<lambda>_. id) ''f'' json_serde ''q'' ''wf'' (JInt 1)
        (workflow_options_default\<lparr>wo_workflow_id := Some []\<rparr>) inner_default = (Ok (Polling_Handle []), g)
    \<and> client_enqueue sample_client (3, 4) (\<lambda>_. (id, id)) (\<lambda>_. id) ''f'' json_serde ''q'' ''wf'' (JInt 2)
        (workflow_options_default\<lparr>wo_workflow_id := Some []\<rparr>) g = (Ok (Polling_Handle []), g)"
proof -
  let ?opts = "workflow_options_default\<lparr>wo_workflow_id := Some []\<rparr>"
  let ?row = "client_row sample_client 1 2 [] ''q'' ''wf'' (JInt 1) ?opts"
  have o: "wo_workflow_id ?opts = Some []" "wo_dedup_id ?opts = None" "wo_dedup_policy ?opts = Reject" "''q'' \<noteq> []" "''wf'' \<noteq> []"
    "to_value json_serde v = Ok v" for v by (simp_all add: workflow_options_default_def json_serde_def to_value_def)
  have row: "wf_id ?row = []" "check_workflow_target ?row ''wf'' ?opts = Ok ()"
    by (simp_all add: client_row_def workflow_status_new_def check_workflow_target_def check_target_def workflow_options_default_def)
  have inv: "mem_inv (put_row ?row inner_default)" by (simp add: put_row_def)
  have "map_of (workflows (put_row ?row inner_default)) [] = Some ?row" using row(1) by (simp add: put_row_def)
  with empty_id_collapses [OF sample_client_simps(1) mem_inv_default o(4,5,6,1-3), of "(1, 2)" "\<lambda>_. (id, id)" "\<lambda>_. id" "''f''" "JInt 1"]
    empty_id_collapses [OF sample_client_simps(1) inv o(4,5,6,1-3), of "(3, 4)" "\<lambda>_. (id, id)" "\<lambda>_. id" "''f''" "JInt 2"] row(2)
  show ?thesis by (simp add: inner_default_def)
qed

lemma client_backfill_fires_once_witness:
  "\<exists>r g' ts. client_backfill_schedule sample_cron sample_client sample_input (\<lambda>_. ((0, 0), (\<lambda>_. (id, id)), (\<lambda>_. id), id)) ''f'' ''wf'' 0 (3 * 10 ^ 9)
      (inner_default\<lparr>schedules := [(''wf'', sample_schedule)]\<rparr>) = Some (r, g')
    \<and> set ts = {v. 10 ^ 9 dvd v \<and> 0 < v \<and> v < 3 * 10 ^ 9} \<and> (\<forall>ids. r = Ok ids \<longrightarrow> ids = map (tick_id sample_cron sample_schedule) ts)"
proof -
  let ?g = "inner_default\<lparr>schedules := [(''wf'', sample_schedule)]\<rparr>"
  let ?env = "\<lambda>_ :: nat. ((0 :: int, 0 :: int), (\<lambda>_ :: nat. (id :: inner \<Rightarrow> inner, id :: inner \<Rightarrow> inner)), (\<lambda>_ :: nat. id :: inner \<Rightarrow> inner), id :: inner \<Rightarrow> inner)"
  have nm: "ws_schedule_name sample_schedule = ''wf''" by (simp add: sample_schedule_def macro_schedule_def)
  have get: "client_get_schedule sample_client ''wf'' ?g = Ok (Some sample_schedule)"
    using nm by (simp add: client_get_schedule_def list_schedules_def hm_values_def starts_with_def result_bind_def)
  have next_cron: "yields_next (next_cron_instant sample_cron () (ws_cron_timezone sample_schedule)) {t. 10 ^ 9 dvd t}"
    using sample_cron_next by (simp add: sample_schedule_facts)
  have keeps: "\<forall>k g j. contains_key (workflows g) j \<longrightarrow> contains_key (workflows (snd (snd (snd (?env k))) g)) j" by simp
  from client_backfill_fires_once [where env = ?env and start = 0 and until = "3 * 10 ^ 9" and T = sample_input and fresh = "''f''",
      OF sample_client_simps(1) get nm sample_schedule_facts(1) next_cron keeps]
  obtain r g' ts where "client_backfill_schedule sample_cron sample_client sample_input ?env ''f'' ''wf'' 0 (3 * 10 ^ 9) ?g = Some (r, g')"
    "set ts = {v \<in> {t. 10 ^ 9 dvd t}. 0 < v \<and> v < 3 * 10 ^ 9}" "\<forall>ids. r = Ok ids \<longrightarrow> ids = map (tick_id sample_cron sample_schedule) ts"
    by blast
  then show ?thesis unfolding mem_Collect_eq by blast
qed

end
