(* ===== verification/Debounce.thy ===== *)
theory Debounce
  imports Client
begin

text \<open>
  Debouncing (\<open>src/debounce.rs\<close>): producers that push an input under a key, and the
  internal workflow, one per active key, that collects the inputs and starts the
  target once.  The conversions of the messages (derived by \<open>serde\<close>) are parameters.
\<close>

section \<open>Definitions\<close>

definition DEBOUNCER_WF :: string where "DEBOUNCER_WF = ''_dbos_debouncer''"

definition DEBOUNCER_TOPIC :: string where "DEBOUNCER_TOPIC = ''_dbos_debouncer_topic''"

definition ACK_TIMEOUT :: nat where "ACK_TIMEOUT = 2 * 10 ^ 9"

record target_options =
  to_queue :: "string option"
  to_priority :: int
  to_partition_key :: "string option"
  to_app_version :: "string option"
  to_timeout_ms :: "int option"
  to_authenticated_user :: "string option"
  to_assumed_role :: "string option"
  to_authenticated_roles :: "string list"

definition target_options_default :: target_options where
  "target_options_default = \<lparr>to_queue = None, to_priority = 0, to_partition_key = None, to_app_version = None, to_timeout_ms = None,
     to_authenticated_user = None, to_assumed_role = None, to_authenticated_roles = []\<rparr>"

definition from_options :: "workflow_options \<Rightarrow> target_options" where
  "from_options o' = \<lparr>to_queue = wo_queue o', to_priority = wo_priority o', to_partition_key = wo_partition_key o',
     to_app_version = wo_app_version o', to_timeout_ms = map_option as_millis (wo_timeout o'),
     to_authenticated_user = wo_authenticated_user o', to_assumed_role = wo_assumed_role o', to_authenticated_roles = wo_authenticated_roles o'\<rparr>"

text \<open>\<open>Duration::from_millis\<close> takes the \<open>i64\<close> as a \<open>u64\<close>.\<close>

definition into_options :: "target_options \<Rightarrow> string \<Rightarrow> workflow_options" where
  "into_options t target_id = workflow_options_default\<lparr>wo_workflow_id := Some target_id, wo_queue := to_queue t, wo_priority := to_priority t,
     wo_partition_key := to_partition_key t, wo_app_version := to_app_version t,
     wo_timeout := map_option (\<lambda>ms. nat (ms mod 2 ^ 64) * 10 ^ 6) (to_timeout_ms t),
     wo_authenticated_user := to_authenticated_user t, wo_assumed_role := to_assumed_role t,
     wo_authenticated_roles := to_authenticated_roles t\<rparr>"

record debouncer_input =
  di_target_name :: string
  di_target_id :: string
  di_delay_ms :: int
  di_timeout_ms :: int
  di_initial_input :: json
  di_target_opts :: target_options

record debounce_message =
  dm_input :: json
  dm_delay_ms :: int
  dm_id :: string

record conversions =
  cv_input :: "debouncer_input serde"
  cv_message :: "debounce_message serde"
  cv_received :: "debounce_message option serde"
  cv_instant :: "int serde"
  cv_ack :: "bool serde"

subsection \<open>The collector\<close>

definition now_ms :: "('s, int) body" where
  "now_ms _ = and_then read_clock (\<lambda>t. ret (Ok (timestamp_millis t)))"

definition cap :: "int \<Rightarrow> int \<Rightarrow> int \<Rightarrow> int" where
  "cap timeout_ms max_ms t = (if 0 < timeout_ms \<and> max_ms < t then max_ms else t)"

text \<open>The ack of a message that asks for one.\<close>

definition acknowledge :: "'s durable_context \<Rightarrow> conversions \<Rightarrow> debounce_message \<Rightarrow> ('s, unit) act" where
  "acknowledge ctx V m = (if dm_id m \<noteq> [] then set_event ctx (cv_ack V) (dm_id m) True else ret (Ok ()))"

text \<open>
  The collecting loop, from a given target instant and current input; it returns
  the input to run.  \<open>wait k\<close> is what others did while the \<open>k\<close>-th receive waited.
\<close>

partial_function (option) collect :: "'s durable_context \<Rightarrow> conversions \<Rightarrow> (nat \<Rightarrow> nat \<Rightarrow> 's world \<Rightarrow> 's world) \<Rightarrow> int \<Rightarrow> int \<Rightarrow> int \<Rightarrow> json \<Rightarrow> nat \<Rightarrow> 's world
  \<Rightarrow> (json run_outcome \<times> 's world) option" where
  "collect ctx V wait timeout_ms max_ms target_ms current k w =
     (case step ctx (cv_instant V) ''DBOS.debounce.loopTime'' now_ms w of
        (Panicked p, w1) \<Rightarrow> Some (Panicked p, w1)
      | (Returned (Inl e), w1) \<Rightarrow> Some (Returned (Inl e), w1)
      | (Returned (Inr now), w1) \<Rightarrow>
         if wrap_i64 (target_ms - now) \<le> 0 then Some (Returned (Ok current), w1)
         else Option.bind (recv ctx (cv_received V) DEBOUNCER_TOPIC (wrap_i64 (target_ms - now) * 10 ^ 6) (wait k) w1) (\<lambda>(r, w2). case r of
             Panicked p \<Rightarrow> Some (Panicked p, w2)
           | Returned (Inl e) \<Rightarrow> Some (Returned (Inl e), w2)
           | Returned (Inr None) \<Rightarrow> Some (Returned (Ok current), w2)
           | Returned (Inr (Some m)) \<Rightarrow> (case acknowledge ctx V m w2 of
                (Panicked p, w3) \<Rightarrow> Some (Panicked p, w3)
              | (Returned (Inl e), w3) \<Rightarrow> Some (Returned (Inl e), w3)
              | (Returned (Inr _), w3) \<Rightarrow> collect ctx V wait timeout_ms max_ms
                  (cap timeout_ms max_ms (wrap_i64 (now + dm_delay_ms m))) (dm_input m) (Suc k) w3)))"

definition internal_debouncer :: "'s runtime \<Rightarrow> 's durable_context \<Rightarrow> auth_context \<Rightarrow> conversions \<Rightarrow> (nat \<Rightarrow> nat \<Rightarrow> 's world \<Rightarrow> 's world) \<Rightarrow> debouncer_input
  \<Rightarrow> 's world \<Rightarrow> (unit run_outcome \<times> 's world) option" where
  "internal_debouncer rt ctx auth V wait inp w =
     (case step ctx (cv_instant V) ''DBOS.debounce.startTime'' now_ms w of
        (Panicked p, w1) \<Rightarrow> Some (Panicked p, w1)
      | (Returned (Inl e), w1) \<Rightarrow> Some (Returned (Inl e), w1)
      | (Returned (Inr start), w1) \<Rightarrow>
         (let max_ms = wrap_i64 (start + di_timeout_ms inp) in
          map_option (\<lambda>(r, w2). case r of
              Panicked p \<Rightarrow> (Panicked p, w2)
            | Returned (Inl e) \<Rightarrow> (Returned (Inl e), w2)
            | Returned (Inr current) \<Rightarrow> and_then (start_workflow rt ctx auth json_serde (di_target_name inp) current
                  (into_options (di_target_opts inp) (di_target_id inp))) (\<lambda>_. ret (Ok ())) w2)
            (collect ctx V wait (di_timeout_ms inp) max_ms (cap (di_timeout_ms inp) max_ms (wrap_i64 (start + di_delay_ms inp)))
              (di_initial_input inp) 0 w1)))"

subsection \<open>Producers\<close>

text \<open>The backend of a producer; \<open>k\<close> numbers the attempts of a call, whose readings, ids and gaps differ.\<close>

record 's debounce_backend =
  db_provider :: "'s state_provider"
  db_enqueue_debouncer :: "nat \<Rightarrow> debouncer_input \<Rightarrow> string \<Rightarrow> 's \<Rightarrow> unit result \<times> 's"
  db_send_debounce :: "nat \<Rightarrow> string \<Rightarrow> debounce_message \<Rightarrow> 's \<Rightarrow> unit result \<times> 's"
  db_get_ack :: "nat \<Rightarrow> string \<Rightarrow> string \<Rightarrow> 's \<Rightarrow> bool option result option"

text \<open>
  The surroundings of an attempt: the readings for the collector's row, the gaps
  inside its insert and between two inserts, the ids made for the collector and
  for the message, the instant of the message, the stores and instants the wait
  for the ack sees.
\<close>

record 's attempt_env =
  ae_clock :: "datetime \<times> datetime"
  ae_mid :: "nat \<Rightarrow> ('s \<Rightarrow> 's) \<times> ('s \<Rightarrow> 's)"
  ae_others :: "nat \<Rightarrow> 's \<Rightarrow> 's"
  ae_collector_id :: string
  ae_sent_at :: datetime
  ae_notification_id :: string
  ae_view :: "'s \<Rightarrow> nat \<Rightarrow> 's"
  ae_started :: nat
  ae_instants :: "nat \<Rightarrow> nat"

definition collector_options :: "string \<Rightarrow> workflow_options" where
  "collector_options key = workflow_options_default\<lparr>wo_dedup_id := Some key\<rparr>"

definition engine_backend :: "'s runtime \<Rightarrow> conversions \<Rightarrow> (nat \<Rightarrow> 's attempt_env) \<Rightarrow> 's debounce_backend" where
  "engine_backend rt V env = \<lparr>
     db_provider = rt_provider rt,
     db_enqueue_debouncer = (\<lambda>k inp key s. map_prod (map_sum id (\<lambda>_. ())) id
       (engine_start rt (\<lambda>_. ae_clock (env k)) (ae_mid (env k)) (ae_others (env k)) (ae_collector_id (env k)) (cv_input V) DEBOUNCER_WF inp
         ((collector_options key)\<lparr>wo_queue := Some INTERNAL_QUEUE\<rparr>) s)),
     db_send_debounce = (\<lambda>k destination m s. engine_send (rt_provider rt) (ae_sent_at (env k)) (ae_notification_id (env k)) (cv_message V) destination m
       DEBOUNCER_TOPIC s),
     db_get_ack = (\<lambda>k i ack s. engine_get_event (rt_provider rt) (cv_ack V) (ae_view (env k) s) (ae_started (env k)) (ae_instants (env k)) i ack ACK_TIMEOUT)\<rparr>"

definition client_backend :: "'s client \<Rightarrow> conversions \<Rightarrow> (nat \<Rightarrow> 's attempt_env) \<Rightarrow> 's debounce_backend" where
  "client_backend c V env = \<lparr>
     db_provider = cl_provider c,
     db_enqueue_debouncer = (\<lambda>k inp key s. map_prod (map_sum id (\<lambda>_. ())) id
       (client_enqueue c (ae_clock (env k)) (ae_mid (env k)) (ae_others (env k)) (ae_collector_id (env k)) (cv_input V) INTERNAL_QUEUE DEBOUNCER_WF inp
         (collector_options key) s)),
     db_send_debounce = (\<lambda>k destination m s. client_send c (ae_sent_at (env k)) (ae_notification_id (env k)) (cv_message V) destination m
       DEBOUNCER_TOPIC s),
     db_get_ack = (\<lambda>k i ack s. client_get_event c (cv_ack V) (ae_view (env k) s) (ae_started (env k)) (ae_instants (env k)) i ack ACK_TIMEOUT)\<rparr>"

text \<open>
  One attempt: the id to return, or nothing when the collector has ended meanwhile
  and the call tries again.  \<open>gap j\<close> is what others did before the \<open>j\<close>-th call of the attempt.
\<close>

definition debounce_attempt :: "'s debounce_backend \<Rightarrow> debouncer_input serde \<Rightarrow> (nat \<Rightarrow> 's \<Rightarrow> 's) \<Rightarrow> debouncer_input \<Rightarrow> string \<Rightarrow> string \<Rightarrow> nat \<Rightarrow> 's
  \<Rightarrow> (string result option \<times> 's) option" where
  "debounce_attempt B D gap dinput message_id key k s =
     (case db_enqueue_debouncer B k dinput key (gap 0 s) of
        (Inr _, s1) \<Rightarrow> Some (Some (Ok (di_target_id dinput)), s1)
      | (Inl e, s1) \<Rightarrow>
         if code e \<noteq> Code_QueueDeduplicated then Some (Some (Err e), s1)
         else (case p_get_deduplicated_workflow (db_provider B) INTERNAL_QUEUE key (gap 1 s1) of
            Inl e \<Rightarrow> Some (Some (Err e), gap 1 s1)
          | Inr None \<Rightarrow> Some (None, gap 1 s1)
          | Inr (Some existing) \<Rightarrow> (case p_get_workflow_status (db_provider B) existing (gap 2 (gap 1 s1)) of
               Inl e \<Rightarrow> Some (Some (Err e), gap 2 (gap 1 s1))
             | Inr None \<Rightarrow> Some (None, gap 2 (gap 1 s1))
             | Inr (Some status) \<Rightarrow> (case from_value D (wf_input status) of
                  Inl e \<Rightarrow> Some (Some (Err e), gap 2 (gap 1 s1))
                | Inr existing_input \<Rightarrow>
                   (case db_send_debounce B k existing \<lparr>dm_input = di_initial_input dinput, dm_delay_ms = di_delay_ms dinput,
                        dm_id = message_id\<rparr> (gap 3 (gap 2 (gap 1 s1))) of
                     (Inl e, s2) \<Rightarrow> Some (Some (Err e), s2)
                   | (Inr _, s2) \<Rightarrow> map_option (\<lambda>ack. (case ack of
                        Inl e \<Rightarrow> Some (Err e)
                      | Inr None \<Rightarrow> None
                      | Inr (Some _) \<Rightarrow> Some (Ok (di_target_id existing_input)), gap 4 s2))
                       (db_get_ack B k existing message_id s2))))))"

text \<open>Attempt \<open>k\<close> makes the ids \<open>target_ids k\<close> and \<open>message_ids k\<close>.  Retrying forever is \<open>None\<close>.\<close>

partial_function (option) debounce_loop :: "'s debounce_backend \<Rightarrow> debouncer_input serde \<Rightarrow> (nat \<Rightarrow> string) \<Rightarrow> (nat \<Rightarrow> string) \<Rightarrow> (nat \<Rightarrow> nat \<Rightarrow> 's \<Rightarrow> 's)
  \<Rightarrow> (string \<Rightarrow> debouncer_input) \<Rightarrow> string \<Rightarrow> nat \<Rightarrow> 's \<Rightarrow> (string result \<times> 's) option" where
  "debounce_loop B D target_ids message_ids gap dinput key k s =
     Option.bind (debounce_attempt B D (gap k) (dinput (target_ids k)) (message_ids k) key k s) (\<lambda>(r, s').
       case r of Some res \<Rightarrow> Some (res, s') | None \<Rightarrow> debounce_loop B D target_ids message_ids gap dinput key (Suc k) s')"

definition debounce_input :: "string \<Rightarrow> nat \<Rightarrow> target_options \<Rightarrow> nat \<Rightarrow> json \<Rightarrow> string \<Rightarrow> debouncer_input" where
  "debounce_input target timeout opts delay input target_id = \<lparr>di_target_name = target, di_target_id = target_id, di_delay_ms = as_millis delay,
     di_timeout_ms = as_millis timeout, di_initial_input = input, di_target_opts = opts\<rparr>"

definition run_debounce :: "'s debounce_backend \<Rightarrow> debouncer_input serde \<Rightarrow> (nat \<Rightarrow> string) \<Rightarrow> (nat \<Rightarrow> string) \<Rightarrow> (nat \<Rightarrow> nat \<Rightarrow> 's \<Rightarrow> 's)
  \<Rightarrow> string \<Rightarrow> nat \<Rightarrow> target_options \<Rightarrow> string \<Rightarrow> nat \<Rightarrow> json \<Rightarrow> 's \<Rightarrow> (string result \<times> 's) option" where
  "run_debounce B D target_ids message_ids gap target timeout opts key delay input s =
     debounce_loop B D target_ids message_ids gap (debounce_input target timeout opts delay input) key 0 s"

text \<open>The two debouncers are the same over their backends.\<close>

record debouncer =
  de_target :: string
  de_timeout :: nat
  de_target_opts :: target_options

definition debouncer_new :: "string \<Rightarrow> debouncer" where
  "debouncer_new target = \<lparr>de_target = target, de_timeout = 0, de_target_opts = target_options_default\<rparr>"

definition debouncer_timeout :: "nat \<Rightarrow> debouncer \<Rightarrow> debouncer" where
  "debouncer_timeout t d = d\<lparr>de_timeout := t\<rparr>"

definition debouncer_options :: "workflow_options \<Rightarrow> debouncer \<Rightarrow> debouncer" where
  "debouncer_options opts d = d\<lparr>de_target_opts := from_options opts\<rparr>"

definition debounce :: "'s debounce_backend \<Rightarrow> debouncer_input serde \<Rightarrow> (nat \<Rightarrow> string) \<Rightarrow> (nat \<Rightarrow> string) \<Rightarrow> (nat \<Rightarrow> nat \<Rightarrow> 's \<Rightarrow> 's) \<Rightarrow> 'a serde
  \<Rightarrow> debouncer \<Rightarrow> string \<Rightarrow> nat \<Rightarrow> 'a \<Rightarrow> 's \<Rightarrow> (workflow_handle result \<times> 's) option" where
  "debounce B D target_ids message_ids gap T d key delay input s = (case to_value T input of
       Inl e \<Rightarrow> Some (Err e, s)
     | Inr v \<Rightarrow> map_option (map_prod (map_sum id Polling_Handle) id)
         (run_debounce B D target_ids message_ids gap (de_target d) (de_timeout d) (de_target_opts d) key delay v s))"

section \<open>Lemmas\<close>

text \<open>The slot of the key is held by the row of \<open>h\<close> alone, and its input is the one given.\<close>

definition held :: "string \<Rightarrow> string \<Rightarrow> json \<Rightarrow> inner \<Rightarrow> bool" where
  "held key h v g \<longleftrightarrow> keyed_by wf_id (workflows g)
     \<and> (\<exists>row. map_of (workflows g) h = Some row \<and> holds_slot INTERNAL_QUEUE key row \<and> wf_input row = v)
     \<and> (\<forall>j row. map_of (workflows g) j = Some row \<and> holds_slot INTERNAL_QUEUE key row \<longrightarrow> j = h)"

lemma held_reads:
  assumes "held key h v g"
  shows "get_deduplicated_workflow INTERNAL_QUEUE key g = Ok (Some h)"
    and "\<exists>row. get_workflow_status h g = Ok (Some row) \<and> wf_input row = v"
proof -
  obtain row where row: "map_of (workflows g) h = Some row" "holds_slot INTERNAL_QUEUE key row" "wf_input row = v" "keyed_by wf_id (workflows g)"
    and only: "\<And>j row. map_of (workflows g) j = Some row \<Longrightarrow> holds_slot INTERNAL_QUEUE key row \<Longrightarrow> j = h"
    using assms unfolding held_def by blast
  have rows: "w \<in> set (hm_values (workflows g)) \<longleftrightarrow> (\<exists>j. map_of (workflows g) j = Some w)" for w
    using row(4) by (intro in_hm_values keyed_by_distinct)
  have "List.find (holds_slot INTERNAL_QUEUE key) (hm_values (workflows g)) = Some row"
  proof (rule find_only)
    show "row \<in> set (hm_values (workflows g))" using row(1) rows by blast
    show "w = row" if "w \<in> set (hm_values (workflows g))" "holds_slot INTERNAL_QUEUE key w" for w
      using that rows only row(1) by (metis option.inject)
  qed (rule row(2))
  then show "get_deduplicated_workflow INTERNAL_QUEUE key g = Ok (Some h)"
    using keyed_by_lookup [OF row(4,1)] by (simp add: get_deduplicated_workflow_def)
  show "\<exists>row. get_workflow_status h g = Ok (Some row) \<and> wf_input row = v" using row(1,3) by (simp add: get_workflow_status_def)
qed

text \<open>
  What a producer relies on of its backend, over the in-memory store: while another
  row holds the slot of the key, a collector is not enqueued and nothing changes,
  and a message changes no row.
\<close>

locale debounce_store =
  fixes B :: "inner debounce_backend" and C :: codec and f :: "int \<Rightarrow> datetime option" and ids :: "nat \<Rightarrow> string"
  assumes provider: "db_provider B = memory_provider C f"
    and enqueue_held: "map_of (workflows g) h = Some row \<Longrightarrow> keyed_by wf_id (workflows g) \<Longrightarrow> h \<noteq> ids k \<Longrightarrow> holds_slot INTERNAL_QUEUE key row
      \<Longrightarrow> \<exists>e. db_enqueue_debouncer B k inp key g = (Inl e, g)"
    and send_keeps: "workflows (snd (db_send_debounce B k i m g)) = workflows g"
begin

lemma attempt_joins:
  assumes "held key h v g" "\<And>j g. held key h v g \<Longrightarrow> held key h v (gap j g)" "h \<noteq> ids k" "from_value D v = Ok inp"
    and "debounce_attempt B D gap dinput message_id key k g = Some (r, g')"
  shows "case r of None \<Rightarrow> held key h v g' | Some (Inl e) \<Rightarrow> True
    | Some (Inr i) \<Rightarrow> i = di_target_id inp \<and> (\<exists>g0 g1 b. db_send_debounce B k h \<lparr>dm_input = di_initial_input dinput, dm_delay_ms = di_delay_ms dinput,
          dm_id = message_id\<rparr> g0 = (Ok (), g1) \<and> db_get_ack B k h message_id g1 = Some (Ok (Some b)))"
proof -
  have g0: "held key h v (gap 0 g)" using assms(1,2) by blast
  then obtain row where row: "map_of (workflows (gap 0 g)) h = Some row" "holds_slot INTERNAL_QUEUE key row" "keyed_by wf_id (workflows (gap 0 g))"
    unfolding held_def by blast
  obtain e where e: "db_enqueue_debouncer B k dinput key (gap 0 g) = (Inl e, gap 0 g)" using enqueue_held [OF row(1,3) assms(3) row(2)] by blast
  have g1: "held key h v (gap 1 (gap 0 g))" and g2: "held key h v (gap 2 (gap 1 (gap 0 g)))" and g3: "held key h v (gap 3 (gap 2 (gap 1 (gap 0 g))))"
    using g0 assms(2) by blast+
  obtain st where st: "get_workflow_status h (gap 2 (gap 1 (gap 0 g))) = Ok (Some st)" "wf_input st = v" using held_reads(2) [OF g2] by blast
  let ?m = "\<lparr>dm_input = di_initial_input dinput, dm_delay_ms = di_delay_ms dinput, dm_id = message_id\<rparr>"
  obtain x s2 where x: "db_send_debounce B k h ?m (gap 3 (gap 2 (gap 1 (gap 0 g)))) = (x, s2)" by fastforce
  have "held key h v s2" using g3 send_keeps [of k h ?m "gap 3 (gap 2 (gap 1 (gap 0 g)))"] x unfolding held_def by simp
  then have g4: "held key h v (gap 4 s2)" using assms(2) by blast
  have eq: "debounce_attempt B D gap dinput message_id key k g = (if code e \<noteq> Code_QueueDeduplicated then Some (Some (Err e), gap 0 g)
      else case x of Inl e2 \<Rightarrow> Some (Some (Err e2), s2)
        | Inr _ \<Rightarrow> map_option (\<lambda>ack. (case ack of Inl e \<Rightarrow> Some (Err e) | Inr None \<Rightarrow> None | Inr (Some _) \<Rightarrow> Some (Ok (di_target_id inp)), gap 4 s2))
            (db_get_ack B k h message_id s2))"
    using assms(4) e x st held_reads(1) [OF g1] by (simp add: debounce_attempt_def provider)
  show ?thesis
  proof (cases "code e = Code_QueueDeduplicated \<and> x = Inr ()")
    case True
    then obtain ack where ack: "db_get_ack B k h message_id s2 = Some ack" using assms(5) eq by (cases "db_get_ack B k h message_id s2") auto
    show ?thesis
    proof (cases ack)
      case (Inr b)
      then show ?thesis using assms(5) eq True ack x g4 by (cases b) (simp, auto, blast)
    qed (use assms(5) eq True ack in auto)
  next
    case False
    then show ?thesis using assms(5) eq by (auto split: if_splits sum.splits)
  qed
qed

lemma loop_joins:
  assumes "held key h v g" "\<And>k j g. held key h v g \<Longrightarrow> held key h v (gap k j g)" "\<And>k. h \<noteq> ids k" "from_value D v = Ok inp"
    and "debounce_loop B D target_ids message_ids gap dinput key k g = Some (Inr i, g')"
  shows "i = di_target_id inp \<and> (\<exists>k g0 g1 b. db_send_debounce B k h \<lparr>dm_input = di_initial_input (dinput (target_ids k)),
      dm_delay_ms = di_delay_ms (dinput (target_ids k)), dm_id = message_ids k\<rparr> g0 = (Ok (), g1)
      \<and> db_get_ack B k h (message_ids k) g1 = Some (Ok (Some b)))"
proof -
  let ?done = "\<lambda>i. i = di_target_id inp \<and> (\<exists>k g0 g1 b. db_send_debounce B k h \<lparr>dm_input = di_initial_input (dinput (target_ids k)),
      dm_delay_ms = di_delay_ms (dinput (target_ids k)), dm_id = message_ids k\<rparr> g0 = (Ok (), g1)
      \<and> db_get_ack B k h (message_ids k) g1 = Some (Ok (Some b)))"
  define P where "P = (\<lambda>B' D' t m gap' d key' (k :: nat) g (r :: string result \<times> inner).
      B' = B \<and> D' = D \<and> t = target_ids \<and> m = message_ids \<and> gap' = gap \<and> d = dinput \<and> key' = key
      \<longrightarrow> held key h v g \<longrightarrow> (\<forall>i. fst r = Inr i \<longrightarrow> ?done i))"
  have "P B D target_ids message_ids gap dinput key k g (Inr i, g')"
  proof (rule debounce_loop.raw_induct [where P = P, OF _ assms(5)])
    fix loop B' D' t m gap' d key' k g z
    assume ih: "\<And>B' D' t m gap' d key' k g z. loop B' D' t m gap' d key' k g = Some z \<Longrightarrow> P B' D' t m gap' d key' k g z"
      and step: "Option.bind (debounce_attempt B' D' (gap' k) (d (t k)) (m k) key' k g)
          (\<lambda>(r, s'). case r of Some res \<Rightarrow> Some (res, s') | None \<Rightarrow> loop B' D' t m gap' d key' (Suc k) s') = Some z"
    show "P B' D' t m gap' d key' k g z"
    proof (unfold P_def, intro impI allI, elim conjE)
    fix i
    assume h: "held key h v g" and i: "fst z = Inr i"
      and same: "B' = B" "D' = D" "t = target_ids" "m = message_ids" "gap' = gap" "d = dinput" "key' = key"
    obtain r s' where r: "debounce_attempt B D (gap k) (dinput (target_ids k)) (message_ids k) key k g = Some (r, s')"
      "(case r of Some res \<Rightarrow> Some (res, s') | None \<Rightarrow> loop B D target_ids message_ids gap dinput key (Suc k) s') = Some z"
      using step same by (auto simp: bind_eq_Some_conv)
    note joined = attempt_joins [OF h assms(2) assms(3) assms(4) r(1)]
    show "?done i"
    proof (cases r)
      case None
      then show ?thesis using joined ih [of B D target_ids message_ids gap dinput key "Suc k" s' z] r(2) i unfolding P_def by simp
    next
      case (Some res)
      then show ?thesis using joined r(2) i by auto blast
    qed
    qed
  qed
  then show ?thesis using assms(1) unfolding P_def by simp
qed

end

text \<open>While another row holds the slot, neither backend enqueues a collector.\<close>

lemma retry_dedup_first_error: "attempt 0 g = (Inl e, g') \<Longrightarrow> retry_dedup attempt others g = (Inl e, g')"
  by (rule retry_dedup_first) simp

lemma client_enqueue_held:
  assumes "cl_provider c = memory_provider C f" "map_of (workflows g) h = Some row" "keyed_by wf_id (workflows g)"
    and "h \<noteq> fresh" "holds_slot queue key row"
  shows "\<exists>e. client_enqueue c clock mid others fresh T queue nm inp (collector_options key) g = (Inl e, g)"
proof -
  have opts: "wo_dedup_policy (collector_options key) = Reject" "wo_workflow_id (collector_options key) = None"
    "validate_deduplication (collector_options key) (Some queue) = Ok ()" "wo_dedup_id (collector_options key) = Some key"
    by (simp_all add: collector_options_def workflow_options_default_def validate_deduplication_def)
  have "row \<in> set (hm_values (workflows g))" "wf_id row = h"
    using assms(2,3) in_hm_values [OF keyed_by_distinct] keyed_by_lookup by metis+
  then have conflict: "list_ex (\<lambda>w. wf_id w \<noteq> fresh \<and> holds_slot queue key w) (hm_values (workflows g))"
    using assms(4,5) by (auto simp: list_ex_iff)
  have "\<exists>e. client_attempt c mid (client_row c now created fresh queue nm v (collector_options key)) queue nm (collector_options key) 0 g = (Inl e, g)" for now created v
    using conflict opts assms(1)
    by (simp add: client_attempt_def insert_workflow_status_def client_row_def workflow_status_new_def)
  then have "\<exists>e. retry_dedup (client_attempt c mid (client_row c now created fresh queue nm v (collector_options key)) queue nm (collector_options key)) others g
      = (Inl e, g)" for now created v
    by (meson retry_dedup_first_error)
  note lost = this [of "fst clock" "snd clock"]
  show ?thesis
  proof (cases "to_value T inp")
    case (Inr v)
    obtain e where "retry_dedup (client_attempt c mid (client_row c (fst clock) (snd clock) fresh queue nm v (collector_options key)) queue nm
        (collector_options key)) others g = (Inl e, g)" using lost by blast
    then show ?thesis using opts Inr by (simp add: client_enqueue_def Let_def)
  qed (use opts in \<open>simp add: client_enqueue_def\<close>)
qed

lemma engine_enqueue_held:
  assumes "rt_provider rt = memory_provider C f" "map_of (workflows g) h = Some row" "keyed_by wf_id (workflows g)"
    and "h \<noteq> fresh" "holds_slot queue key row" "queue \<noteq> []" "nm \<noteq> []"
  shows "\<exists>e. engine_start rt (\<lambda>_. clock) mid others fresh T nm inp ((collector_options key)\<lparr>wo_queue := Some queue\<rparr>) g = (Inl e, g)"
proof -
  let ?opts = "(collector_options key)\<lparr>wo_queue := Some queue\<rparr>"
  have opts: "wo_dedup_policy ?opts = Reject" "validate_deduplication ?opts (Some queue) = Ok ()" "wo_workflow_id (collector_options key) \<noteq> Some []"
    by (simp_all add: collector_options_def workflow_options_default_def validate_deduplication_def)
  consider e where "to_value T inp = Inl e" | "\<not> contains_key (rt_workflows rt) (registry_key nm (wo_config_name ?opts))"
    | "\<not> contains_key (rt_queues rt) queue"
    | v where "to_value T inp = Ok v" "contains_key (rt_workflows rt) (registry_key nm (wo_config_name (collector_options key)))"
        "contains_key (rt_queues rt) queue"
    by (cases "to_value T inp") auto
  then show ?thesis
  proof cases
    case 1
    then show ?thesis by (simp add: engine_start_def Let_def)
  next
    case 2
    then show ?thesis using opts by (cases "to_value T inp") (simp_all add: engine_start_def Let_def)
  next
    case 3
    then have "build_run rt now created i nm v ?opts parent auth = Inl (UnknownQueue queue)" for now created i v parent auth
      using opts(2) by (simp add: build_run_def result_bind_def Let_def opt_filter_def)
    then have "dedup_attempt rt (\<lambda>_. clock) mid i nm v ?opts parent auth 0 g = (Inl (UnknownQueue queue), g)" for i v parent auth
      using opts(1) by (simp add: dedup_attempt_def insert_run_def)
    then have "insert_run_with_dedup rt (\<lambda>_. clock) mid others i nm v ?opts parent auth g = (Inl (UnknownQueue queue), g)" for i v parent auth
      unfolding insert_run_with_dedup_def by (rule retry_dedup_first_error)
    then show ?thesis using opts(2)
      by (cases "to_value T inp"; cases "contains_key (rt_workflows rt) (registry_key nm (wo_config_name ?opts))") (simp_all add: engine_start_def Let_def)
  next
    case 4
    define c where "c = \<lparr>cl_provider = rt_provider rt, cl_control = undefined, cl_schedules = undefined, cl_app_version = rt_app_version rt\<rparr>"
    have c: "cl_provider c = rt_provider rt" "cl_app_version c = rt_app_version rt" by (simp_all add: c_def)
    have ins: "\<forall>row s cause. fst (p_insert_workflow_status (rt_provider rt) row s) \<noteq> Inl (RecoveryRequired cause)"
      using assms(1) by (auto simp: insert_workflow_status_def Let_def split: option.splits)
    obtain e where "client_enqueue c clock mid others fresh T queue nm inp (collector_options key) g = (Inl e, g)"
      using client_enqueue_held [OF _ assms(2-5)] c(1) assms(1) by metis
    then show ?thesis
      using engine_start_queued [OF c(1) ins assms(6,7) 4(3,2) opts(3) 4(1), of "fst clock" "snd clock" mid others fresh g] c(2) by simp
  qed
qed

interpretation mem_client: debounce_store "client_backend (c\<lparr>cl_provider := memory_provider C f\<rparr>) V env" C f "\<lambda>k. ae_collector_id (env k)"
  for c C f V env
proof unfold_locales
  show "\<exists>e. db_enqueue_debouncer (client_backend (c\<lparr>cl_provider := memory_provider C f\<rparr>) V env) k inp key g = (Inl e, g)"
    if "map_of (workflows g) h = Some row" "keyed_by wf_id (workflows g)" "h \<noteq> ae_collector_id (env k)" "holds_slot INTERNAL_QUEUE key row" for g h row k key inp
    using client_enqueue_held [where C = C and f = f and c = "c\<lparr>cl_provider := memory_provider C f\<rparr>" and clock = "ae_clock (env k)" and mid = "ae_mid (env k)"
        and others = "ae_others (env k)" and T = "cv_input V" and nm = DEBOUNCER_WF and inp = inp, OF _ that]
    by (auto simp: client_backend_def)
  show "workflows (snd (db_send_debounce (client_backend (c\<lparr>cl_provider := memory_provider C f\<rparr>) V env) k i m g)) = workflows g" for k i m g
    by (auto simp: client_backend_def client_send_def insert_notification_def split: sum.split)
qed (simp add: client_backend_def)

interpretation mem_engine: debounce_store "engine_backend (rt\<lparr>rt_provider := memory_provider C f\<rparr>) V env" C f "\<lambda>k. ae_collector_id (env k)"
  for rt C f V env
proof unfold_locales
  have named: "INTERNAL_QUEUE \<noteq> []" "DEBOUNCER_WF \<noteq> []" by (simp_all add: INTERNAL_QUEUE_def DEBOUNCER_WF_def)
  show "\<exists>e. db_enqueue_debouncer (engine_backend (rt\<lparr>rt_provider := memory_provider C f\<rparr>) V env) k inp key g = (Inl e, g)"
    if "map_of (workflows g) h = Some row" "keyed_by wf_id (workflows g)" "h \<noteq> ae_collector_id (env k)" "holds_slot INTERNAL_QUEUE key row" for g h row k key inp
    using engine_enqueue_held [where C = C and f = f and rt = "rt\<lparr>rt_provider := memory_provider C f\<rparr>" and clock = "ae_clock (env k)" and mid = "ae_mid (env k)"
        and others = "ae_others (env k)" and T = "cv_input V" and inp = inp, OF _ that named]
    by (auto simp: engine_backend_def)
  show "workflows (snd (db_send_debounce (engine_backend (rt\<lparr>rt_provider := memory_provider C f\<rparr>) V env) k i m g)) = workflows g" for k i m g
    by (auto simp: engine_backend_def engine_send_def insert_notification_def split: sum.split)
qed (simp add: engine_backend_def)

lemma client_enqueue_lost:
  assumes "cl_provider c = memory_provider C f" "held key h v g" "h \<noteq> fresh" "to_value T inp = Ok x" "nm \<noteq> []"
  shows "client_enqueue c clock mid others fresh T INTERNAL_QUEUE nm inp (collector_options key) g = (Inl (QueueDeduplicated INTERNAL_QUEUE key), g)"
proof -
  have opts: "wo_dedup_policy (collector_options key) = Reject" "wo_workflow_id (collector_options key) = None"
    "validate_deduplication (collector_options key) (Some INTERNAL_QUEUE) = Ok ()" "wo_dedup_id (collector_options key) = Some key"
    "INTERNAL_QUEUE \<noteq> []"
    by (simp_all add: collector_options_def workflow_options_default_def validate_deduplication_def INTERNAL_QUEUE_def)
  obtain row where row: "map_of (workflows g) h = Some row" "holds_slot INTERNAL_QUEUE key row" "keyed_by wf_id (workflows g)"
    using assms(2) unfolding held_def by blast
  have "row \<in> set (hm_values (workflows g))" "wf_id row = h"
    using row in_hm_values [OF keyed_by_distinct] keyed_by_lookup by metis+
  then have "list_ex (\<lambda>w. wf_id w \<noteq> fresh \<and> holds_slot INTERNAL_QUEUE key w) (hm_values (workflows g))"
    using assms(3) row(2) by (auto simp: list_ex_iff)
  then have "client_attempt c mid (client_row c now created fresh INTERNAL_QUEUE nm x (collector_options key)) INTERNAL_QUEUE nm (collector_options key) 0 g
      = (Inl (QueueDeduplicated INTERNAL_QUEUE key), g)" for now created
    using opts assms(1)
    by (simp add: client_attempt_def insert_workflow_status_def client_row_def workflow_status_new_def observation_error_def is_storage_failure_def)
  from retry_dedup_first_error [where attempt = "client_attempt c mid row INTERNAL_QUEUE nm (collector_options key)" for row, OF this]
  show ?thesis using opts assms(4,5) by (simp add: client_enqueue_def Let_def)
qed

lemma debounce_joins_held:
  assumes "cl_provider c = memory_provider C f" "held key h v g" "h \<noteq> ae_collector_id (env 0)" "from_value D v = Ok inp"
    and "to_value (cv_input V) (debounce_input target timeout opts delay input (target_ids 0)) = Ok x"
    and "to_value (cv_message V) \<lparr>dm_input = input, dm_delay_ms = as_millis delay, dm_id = message_ids 0\<rparr> = Ok m"
    and "\<forall>s. db_get_ack (client_backend c V env) 0 h (message_ids 0) s = Some (Ok (Some True))"
  shows "\<exists>g' n. run_debounce (client_backend c V env) D target_ids message_ids (\<lambda>_ _. id) target timeout opts key delay input g = Some (Ok (di_target_id inp), g')
    \<and> notifications g' = notifications g @ [n] \<and> nr_destination_id n = h \<and> nr_topic n = DEBOUNCER_TOPIC \<and> nr_message n = m"
proof -
  let ?B = "client_backend c V env"
  let ?d = "debounce_input target timeout opts delay input (target_ids 0)"
  let ?n = "\<lparr>nr_message_uuid = message_uuid (ae_notification_id (env 0)) None h, nr_destination_id = h, nr_topic = DEBOUNCER_TOPIC, nr_message = m,
    nr_consumed = False, nr_created_at_ms = timestamp_millis (ae_sent_at (env 0))\<rparr>"
  have lost: "db_enqueue_debouncer ?B 0 ?d key g = (Inl (QueueDeduplicated INTERNAL_QUEUE key), g)"
    using client_enqueue_lost [OF assms(1,2,3,5)] by (simp add: client_backend_def DEBOUNCER_WF_def)
  obtain row where row: "get_workflow_status h g = Ok (Some row)" "wf_input row = v" using held_reads(2) [OF assms(2)] by blast
  have sent: "db_send_debounce ?B 0 h \<lparr>dm_input = input, dm_delay_ms = as_millis delay, dm_id = message_ids 0\<rparr> g
      = (Ok (), g\<lparr>notifications := notifications g @ [?n]\<rparr>)"
    using assms(1,6) row(1) by (simp add: client_backend_def client_send_def insert_notification_def push_notification_def get_workflow_status_def contains_key_def Let_def)
  have "debounce_attempt ?B D (\<lambda>_. id) ?d (message_ids 0) key 0 g = Some (Some (Ok (di_target_id inp)), g\<lparr>notifications := notifications g @ [?n]\<rparr>)"
    using lost held_reads(1) [OF assms(2)] row sent assms(4,7) assms(1)
    by (simp add: debounce_attempt_def mem_client.provider client_backend_def debounce_input_def)
  then have "run_debounce ?B D target_ids message_ids (\<lambda>_ _. id) target timeout opts key delay input g
      = Some (Ok (di_target_id inp), g\<lparr>notifications := notifications g @ [?n]\<rparr>)"
    unfolding run_debounce_def by (subst debounce_loop.simps) simp
  then show ?thesis by (intro exI [of _ "g\<lparr>notifications := notifications g @ [?n]\<rparr>"] exI [of _ ?n]) simp
qed

section \<open>Properties\<close>

text \<open>
  C21: calls under an active key share one run.  As long as one collector holds the
  key, every call under it that succeeds, in whatever process and however often
  it retries, returns the target id in that collector's input, and its own input
  was sent to that collector and acknowledged.
\<close>

theorem debounced_calls_share_run:
  assumes "held key h v g" "from_value D v = Ok inp" "\<forall>k j g. held key h v g \<longrightarrow> held key h v (gap k j g)" "\<forall>k. h \<noteq> ae_collector_id (env k)"
    and "B = client_backend (c\<lparr>cl_provider := memory_provider C f\<rparr>) V env \<or> B = engine_backend (rt\<lparr>rt_provider := memory_provider C f\<rparr>) V env"
    and "run_debounce B D target_ids message_ids gap target timeout opts key delay input g = Some (Ok i, g')"
  shows "i = di_target_id inp \<and> (\<exists>k g0 g1 b. db_send_debounce B k h \<lparr>dm_input = input, dm_delay_ms = as_millis delay, dm_id = message_ids k\<rparr> g0 = (Ok (), g1)
    \<and> db_get_ack B k h (message_ids k) g1 = Some (Ok (Some b)))"
proof -
  have keeps: "held key h v (gap k j g)" if "held key h v g" for k j g using assms(3) that by blast
  have own: "h \<noteq> ae_collector_id (env k)" for k using assms(4) by blast
  let ?d = "debounce_input target timeout opts delay input"
  note loop = assms(6) [unfolded run_debounce_def]
  have "i = di_target_id inp \<and> (\<exists>k g0 g1 b. db_send_debounce B k h \<lparr>dm_input = di_initial_input (?d (target_ids k)),
      dm_delay_ms = di_delay_ms (?d (target_ids k)), dm_id = message_ids k\<rparr> g0 = (Ok (), g1) \<and> db_get_ack B k h (message_ids k) g1 = Some (Ok (Some b)))"
    using assms(5)
  proof
    assume B: "B = client_backend (c\<lparr>cl_provider := memory_provider C f\<rparr>) V env"
    show ?thesis using mem_client.loop_joins [where env = env and gap = gap, OF assms(1) keeps own assms(2) loop [unfolded B]] unfolding B .
  next
    assume B: "B = engine_backend (rt\<lparr>rt_provider := memory_provider C f\<rparr>) V env"
    show ?thesis using mem_engine.loop_joins [where env = env and gap = gap, OF assms(1) keeps own assms(2) loop [unfolded B]] unfolding B .
  qed
  then show ?thesis by (simp add: debounce_input_def)
qed

text \<open>
  A key is shared by all targets.  A call that debounces one workflow under a key
  whose collector runs for another is handed the id of the other's run, and
  its input goes to that collector, which will start the other workflow with it.
\<close>

theorem key_shared_across_targets:
  assumes "cl_provider c = memory_provider C f" "held key h v g" "h \<noteq> ae_collector_id (env 0)" "from_value D v = Ok inp" "di_target_name inp \<noteq> target"
    and "to_value (cv_input V) (debounce_input target timeout opts delay input (target_ids 0)) = Ok x"
    and "to_value (cv_message V) \<lparr>dm_input = input, dm_delay_ms = as_millis delay, dm_id = message_ids 0\<rparr> = Ok m"
    and "\<forall>s. db_get_ack (client_backend c V env) 0 h (message_ids 0) s = Some (Ok (Some True))"
  shows "\<exists>g' n. run_debounce (client_backend c V env) D target_ids message_ids (\<lambda>_ _. id) target timeout opts key delay input g = Some (Ok (di_target_id inp), g')
    \<and> notifications g' = notifications g @ [n] \<and> nr_destination_id n = h \<and> nr_topic n = DEBOUNCER_TOPIC \<and> nr_message n = m"
  using assms(1-4,6-8) by (rule debounce_joins_held)

text \<open>
  A push counts from the start of the wait.  When the collector takes a message
  it moves the target to the message's delay after the clock reading made before it
  began to wait, however late the message came.  So if the next reading is at
  least that delay after the earlier one, the target is started at once with the
  input that has just arrived.
\<close>

theorem push_counts_from_wait:
  assumes "step ctx (cv_instant V) ''DBOS.debounce.loopTime'' now_ms w = (Returned (Ok now), w1)" "0 < wrap_i64 (target_ms - now)"
    and "recv ctx (cv_received V) DEBOUNCER_TOPIC (wrap_i64 (target_ms - now) * 10 ^ 6) (wait k) w1 = Some (Returned (Ok (Some m)), w2)"
    and "acknowledge ctx V m w2 = (Returned (Ok ()), w3)"
    and "step ctx (cv_instant V) ''DBOS.debounce.loopTime'' now_ms w3 = (Returned (Ok later), w4)"
    and "is_i64 (now + dm_delay_ms m)" "is_i64 (max_ms - later)" "is_i64 (now + dm_delay_ms m - later)" "now + dm_delay_ms m \<le> later"
  shows "collect ctx V wait timeout_ms max_ms target_ms current k w = Some (Returned (Ok (dm_input m)), w4)"
proof -
  let ?target = "cap timeout_ms max_ms (wrap_i64 (now + dm_delay_ms m))"
  have "wrap_i64 (?target - later) \<le> 0" using assms(6-9) by (auto simp: cap_def)
  then have "collect ctx V wait timeout_ms max_ms ?target (dm_input m) (Suc k) w3 = Some (Returned (Ok (dm_input m)), w4)"
    using assms(5) by (subst collect.simps) simp
  then show ?thesis using assms(1-4) by (subst collect.simps) simp
qed

text \<open>
  What a debounced target keeps of its options: queue, priority, partition,
  version, identity and the timeout in whole milliseconds; the id is the
  debouncer's, and everything else is left at its default.
\<close>

theorem target_options_roundtrip:
  assumes "\<forall>d. wo_timeout opts = Some d \<longrightarrow> d div 10 ^ 6 < 2 ^ 63"
  shows "into_options (from_options opts) i = opts\<lparr>wo_workflow_id := Some i, wo_dedup_id := None, wo_dedup_policy := Reject, wo_delay := None,
    wo_attributes := None, wo_config_name := None, wo_class_name := None, wo_timeout := map_option (\<lambda>d. d div 10 ^ 6 * 10 ^ 6) (wo_timeout opts)\<rparr>"
proof -
  have "map_option (\<lambda>ms. nat (ms mod 2 ^ 64) * 10 ^ 6) (map_option as_millis (wo_timeout opts)) = map_option (\<lambda>d. d div 10 ^ 6 * 10 ^ 6) (wo_timeout opts)"
  proof (cases "wo_timeout opts")
    case (Some d)
    then have "int (d div 10 ^ 6) < int (2 ^ 63)" using assms unfolding of_nat_less_iff by blast
    then have "int (d div 10 ^ 6) < 2 ^ 63" unfolding of_nat_power of_nat_numeral .
    then have "is_i64 (int (d div 10 ^ 6))" unfolding is_i64_def by linarith
    then have "as_millis d = int (d div 10 ^ 6)" by (simp add: as_millis_def)
    moreover have "nat (int (d div 10 ^ 6) mod 2 ^ 64) = d div 10 ^ 6"
      using \<open>int (d div 10 ^ 6) < 2 ^ 63\<close> by (subst mod_pos_pos_trivial) simp_all
    ultimately show ?thesis using Some by simp
  qed simp
  then show ?thesis by (cases opts) (simp add: into_options_def from_options_def workflow_options_default_def)
qed

section \<open>Witnesses\<close>

definition sample_held :: inner where
  "sample_held = inner_default\<lparr>workflows := [(''h'', (workflow_status_new 0 ''h'' DEBOUNCER_WF JNull STATUS_PENDING ''x'' ''v'')
     \<lparr>wf_queue_name := Some INTERNAL_QUEUE, wf_dedup_id := Some ''key''\<rparr>)], events := [((''h'', ''m''), JBool True)]\<rparr>"

definition sample_collector :: debouncer_input where
  "sample_collector = \<lparr>di_target_name = ''a'', di_target_id = ''run'', di_delay_ms = 10, di_timeout_ms = 0, di_initial_input = JInt 1,
     di_target_opts = target_options_default\<rparr>"

definition sample_conversions :: conversions where
  "sample_conversions = \<lparr>cv_input = \<lparr>sd_to_value = (\<lambda>_. Inr JNull), sd_from_value = (\<lambda>_. Inr sample_collector)\<rparr>,
     cv_message = \<lparr>sd_to_value = (\<lambda>m. Inr (dm_input m)), sd_from_value = (\<lambda>v. Inr \<lparr>dm_input = v, dm_delay_ms = 10000, dm_id = []\<rparr>)\<rparr>,
     cv_received = \<lparr>sd_to_value = (\<lambda>_. Inr JNull), sd_from_value = (\<lambda>v. Inr (Some \<lparr>dm_input = v, dm_delay_ms = 10000, dm_id = []\<rparr>))\<rparr>,
     cv_instant = \<lparr>sd_to_value = (\<lambda>i. Inr (JInt i)), sd_from_value = (\<lambda>v. case v of JInt i \<Rightarrow> Inr i | _ \<Rightarrow> Inl ''instant'')\<rparr>,
     cv_ack = \<lparr>sd_to_value = (\<lambda>_. Inr JNull), sd_from_value = (\<lambda>_. Inr True)\<rparr>\<rparr>"

definition sample_attempt :: "inner attempt_env" where
  "sample_attempt = \<lparr>ae_clock = (0, 0), ae_mid = (\<lambda>_. (id, id)), ae_others = (\<lambda>_. id), ae_collector_id = ''c'', ae_sent_at = 0, ae_notification_id = ''n'',
     ae_view = (\<lambda>_ _. sample_held), ae_started = 0, ae_instants = (\<lambda>_. 0)\<rparr>"

lemma sample_debounce:
  "held ''key'' ''h'' JNull sample_held" "from_value (cv_input sample_conversions) JNull = Ok sample_collector"
  "to_value (cv_input sample_conversions) inp = Ok JNull" "to_value (cv_message sample_conversions) m = Ok (dm_input m)"
  "db_get_ack (client_backend sample_client sample_conversions (\<lambda>_. sample_attempt)) k ''h'' ''m'' s = Some (Ok (Some True))"
proof -
  show "held ''key'' ''h'' JNull sample_held"
    by (auto simp: held_def sample_held_def keyed_by_def holds_slot_def workflow_status_new_def split: if_splits)
  show "db_get_ack (client_backend sample_client sample_conversions (\<lambda>_. sample_attempt)) k ''h'' ''m'' s = Some (Ok (Some True))"
    by (simp add: client_backend_def client_get_event_def poll_event.simps [of _ _ _ _ _ _ _ 0] get_event_value_def sample_attempt_def
        sample_held_def sample_conversions_def from_value_def result_bind_def)
qed (simp_all add: sample_conversions_def from_value_def to_value_def)

lemma key_shared_across_targets_witness:
  "\<exists>g' n. run_debounce (client_backend sample_client sample_conversions (\<lambda>_. sample_attempt)) (cv_input sample_conversions) (\<lambda>_. ''mine'') (\<lambda>_. ''m'')
      (\<lambda>_ _. id) ''b'' 0 target_options_default ''key'' 5 (JInt 2) sample_held = Some (Ok ''run'', g')
    \<and> notifications g' = notifications sample_held @ [n] \<and> nr_destination_id n = ''h'' \<and> nr_topic n = DEBOUNCER_TOPIC \<and> nr_message n = JInt 2"
proof -
  have own: "''h'' \<noteq> ae_collector_id sample_attempt" "di_target_name sample_collector \<noteq> ''b''" "di_target_id sample_collector = ''run''"
    by (simp_all add: sample_attempt_def sample_collector_def)
  from key_shared_across_targets [where env = "\<lambda>_. sample_attempt" and target_ids = "\<lambda>_. ''mine''" and message_ids = "\<lambda>_. ''m''" and timeout = 0
      and opts = target_options_default and delay = 5 and input = "JInt 2" and V = sample_conversions,
      OF sample_client_simps(1) sample_debounce(1) own(1) sample_debounce(2) own(2) sample_debounce(3,4)] sample_debounce(5) own(3)
  show ?thesis by simp
qed

lemma debounced_calls_share_run_witness:
  "\<exists>i g'. run_debounce (client_backend sample_client sample_conversions (\<lambda>_. sample_attempt)) (cv_input sample_conversions) (\<lambda>_. ''mine'') (\<lambda>_. ''m'')
      (\<lambda>_ _. id) ''a'' 0 target_options_default ''key'' 5 (JInt 2) sample_held = Some (Ok i, g') \<and> i = ''run''"
proof -
  have own: "''h'' \<noteq> ae_collector_id sample_attempt" "di_target_id sample_collector = ''run''" by (simp_all add: sample_attempt_def sample_collector_def)
  have c: "sample_client = sample_client\<lparr>cl_provider := memory_provider plain_codec (\<lambda>t. Some t)\<rparr>"
    by (simp add: sample_client_def with_app_version_def client_new_def)
  have ack: "\<forall>s. db_get_ack (client_backend sample_client sample_conversions (\<lambda>_. sample_attempt)) 0 ''h'' ''m'' s = Some (Ok (Some True))"
    using sample_debounce(5) by blast
  obtain g' where run: "run_debounce (client_backend sample_client sample_conversions (\<lambda>_. sample_attempt)) (cv_input sample_conversions) (\<lambda>_. ''mine'') (\<lambda>_. ''m'')
      (\<lambda>_ _. id) ''a'' 0 target_options_default ''key'' 5 (JInt 2) sample_held = Some (Ok (di_target_id sample_collector), g')"
    using debounce_joins_held [where env = "\<lambda>_. sample_attempt" and target_ids = "\<lambda>_. ''mine''" and message_ids = "\<lambda>_. ''m''" and timeout = 0
      and target = "''a''" and opts = target_options_default and delay = 5 and input = "JInt 2" and V = sample_conversions,
      OF sample_client_simps(1) sample_debounce(1) own(1) sample_debounce(2,3,4) ack] by blast
  have "\<forall>k j g. held ''key'' ''h'' JNull g \<longrightarrow> held ''key'' ''h'' JNull (id g)" "\<forall>k :: nat. ''h'' \<noteq> ae_collector_id sample_attempt" using own(1) by simp_all
  from debounced_calls_share_run [where gap = "\<lambda>_ _. id" and env = "\<lambda>_. sample_attempt", OF sample_debounce(1,2) this disjI1 run] c own(2) run
  show ?thesis by auto
qed

definition sample_pushes :: inner where
  "sample_pushes = inner_default\<lparr>steps := [((''a'', 0), step_row_default\<lparr>sr_name := ''DBOS.debounce.loopTime'', sr_output := Some (JInt 0)\<rparr>),
     ((''a'', 1), step_row_default\<lparr>sr_name := ''DBOS.recv'', sr_output := Some (JInt 7)\<rparr>),
     ((''a'', 3), step_row_default\<lparr>sr_name := ''DBOS.debounce.loopTime'', sr_output := Some (JInt 12000)\<rparr>)]\<rparr>"

text \<open>At a recorded position a step and a receive serve the record and go to the next free position.\<close>

lemma sample_step_served:
  assumes "get_step_result plain_codec ''a'' q sample_pushes = Ok (Some \<lparr>rs_name = nm, rs_outcome = Output val\<rparr>)"
    and "from_value T val = Ok x" "wrap_i32 (q + 1) = q + 1"
  shows "step sample_ctx T nm body ((sample_world None sample_pushes)\<lparr>w_seq := q\<rparr>) = (Returned (Ok x), (sample_world None sample_pushes)\<lparr>w_seq := q + 1\<rparr>)"
  using assms by (simp add: step_def pending_step_def claim_position_def refuse_inside_body_def check_call_def check_placement_def check_def sample_world_def
      sample_ctx_def execution_new_def next_seq_def and_then_def poll_in_execution_def check_call_poll_def step_at_def replay_or_guard_def
      serve_recorded_def observed_def storage_def Let_def check_recorded_def booked_def recorded_value_def ret_def)

lemma sample_recv_served:
  assumes "get_step_result plain_codec ''a'' q sample_pushes = Ok (Some \<lparr>rs_name = ''DBOS.recv'', rs_outcome = Output val\<rparr>)"
    and "from_value T val = Ok x" "wrap_i32 (q + 1) = q + 1" "wrap_i32 (2 + q) = q + 2"
  shows "recv sample_ctx T topic timeout wait ((sample_world None sample_pushes)\<lparr>w_seq := q\<rparr>)
    = Some (Returned (Ok x), (sample_world None sample_pushes)\<lparr>w_seq := q + 2\<rparr>)"
  using assms by (simp add: recv_def pending_wait_def claim_position_def refuse_inside_body_def check_call_def check_placement_def check_def sample_world_def
      sample_ctx_def execution_new_def next_seq_def and_then_def check_call_poll_def replay_or_guard_def
      serve_recorded_def observed_def storage_def Let_def check_recorded_def booked_def recorded_value_def ret_def)

lemma push_counts_from_wait_witness:
  "collect sample_ctx sample_conversions (\<lambda>_ _. id) 0 0 10000 (JInt 1) 0 ((sample_world None sample_pushes)\<lparr>w_seq := 0\<rparr>)
    = Some (Returned (Ok (JInt 7)), (sample_world None sample_pushes)\<lparr>w_seq := 4\<rparr>)"
proof -
  let ?m = "\<lparr>dm_input = JInt 7, dm_delay_ms = 10000, dm_id = []\<rparr>"
  let ?w = "\<lambda>q. (sample_world None sample_pushes)\<lparr>w_seq := q\<rparr>"
  have rec: "get_step_result plain_codec ''a'' 0 sample_pushes = Ok (Some \<lparr>rs_name = ''DBOS.debounce.loopTime'', rs_outcome = Output (JInt 0)\<rparr>)"
    "get_step_result plain_codec ''a'' 1 sample_pushes = Ok (Some \<lparr>rs_name = ''DBOS.recv'', rs_outcome = Output (JInt 7)\<rparr>)"
    "get_step_result plain_codec ''a'' 3 sample_pushes = Ok (Some \<lparr>rs_name = ''DBOS.debounce.loopTime'', rs_outcome = Output (JInt 12000)\<rparr>)"
    by code_simp+
  have val: "from_value (cv_instant sample_conversions) (JInt i) = Ok i" "from_value (cv_received sample_conversions) (JInt 7) = Ok (Some ?m)" for i
    by (simp_all add: sample_conversions_def from_value_def)
  have wrap: "wrap_i32 (0 + 1) = 0 + 1" "wrap_i32 (1 + 1) = 1 + 1" "wrap_i32 (2 + 1) = 1 + 2" "wrap_i32 (3 + 1) = 3 + 1" "wrap_i64 10000 = 10000" by code_simp+
  have one: "step sample_ctx (cv_instant sample_conversions) ''DBOS.debounce.loopTime'' now_ms (?w 0) = (Returned (Ok 0), ?w 1)"
    using sample_step_served [OF rec(1) val(1) wrap(1)] by simp
  have two: "recv sample_ctx (cv_received sample_conversions) DEBOUNCER_TOPIC (wrap_i64 (10000 - 0) * 10 ^ 6) (\<lambda>_. id) (?w 1) = Some (Returned (Ok (Some ?m)), ?w 3)"
    using sample_recv_served [OF rec(2) val(2) wrap(2,3)] by simp
  have three: "acknowledge sample_ctx sample_conversions ?m (?w 3) = (Returned (Ok ()), ?w 3)" by (simp add: acknowledge_def ret_def)
  have four: "step sample_ctx (cv_instant sample_conversions) ''DBOS.debounce.loopTime'' now_ms (?w 3) = (Returned (Ok 12000), ?w 4)"
    using sample_step_served [OF rec(3) val(1) wrap(4)] by simp
  from push_counts_from_wait [where wait = "\<lambda>_ _. id" and k = 0 and m = ?m and max_ms = 0, OF one _ two three four] show ?thesis
    by (simp add: wrap(5) is_i64_def)
qed

lemma target_options_roundtrip_witness:
  "into_options (from_options (workflow_options_default\<lparr>wo_queue := Some ''q'', wo_timeout := Some 2500000\<rparr>)) ''run''
    = workflow_options_default\<lparr>wo_workflow_id := Some ''run'', wo_queue := Some ''q'', wo_timeout := Some 2000000\<rparr>"
  using target_options_roundtrip [of "workflow_options_default\<lparr>wo_queue := Some ''q'', wo_timeout := Some 2500000\<rparr>" "''run''"]
  by (simp add: workflow_options_default_def)

end
