(* ===== verification/Conductor_Link.thy ===== *)
theory Conductor_Link
  imports Errors "HOL-Library.Word"
begin

text \<open>
  The connection to the control plane (\<open>src/conductor.rs\<close>): its URL, the
  reconnect loop with its backoff, and the loop that serves one connection.
  Durations and instants of the monotonic clock are natural numbers of
  nanoseconds.  A turn of either loop is a function of the loop's state and of
  what the environment does in that turn; a random choice of \<open>select!\<close> between
  ready branches is part of the environment.  The jitter is exact where the code
  rounds to an \<open>f64\<close>.
\<close>

section \<open>Definitions\<close>

definition PING_INTERVAL :: nat where "PING_INTERVAL = 20 * 10 ^ 9"
definition PING_TIMEOUT :: nat where "PING_TIMEOUT = 30 * 10 ^ 9"
definition INITIAL_RECONNECT_WAIT :: nat where "INITIAL_RECONNECT_WAIT = 10 ^ 9"
definition MAX_RECONNECT_WAIT :: nat where "MAX_RECONNECT_WAIT = 30 * 10 ^ 9"

text \<open>An alert handler returns, or panics with a payload.\<close>

record conductor_config =
  cf_url :: string
  cf_api_key :: string
  cf_app_name :: string
  cf_executor_metadata :: "json option"
  cf_alert_handler :: "(string \<Rightarrow> string \<Rightarrow> (string, string) hashmap \<Rightarrow> panic_payload option) option"

fun trim_start_slashes :: "string \<Rightarrow> string" where
  "trim_start_slashes (c # cs) = (if c = CHR ''/'' then trim_start_slashes cs else c # cs)"
| "trim_start_slashes [] = []"

definition trim_end_slashes :: "string \<Rightarrow> string" where
  "trim_end_slashes s = rev (trim_start_slashes (rev s))"

text \<open>\<open>domain\<close> is the environment variable \<open>DBOS_DOMAIN\<close>.\<close>

definition websocket_url :: "string option \<Rightarrow> conductor_config \<Rightarrow> string" where
  "websocket_url domain config =
     (let base = (if cf_url config = []
        then ''wss://'' @ unwrap_or ''cloud.dbos.dev'' (opt_filter (\<lambda>d. d \<noteq> []) domain) @ ''/conductor/v1alpha1''
        else trim_end_slashes (cf_url config)) in
      base @ ''/websocket/'' @ cf_app_name config @ ''/'' @ cf_api_key config)"

text \<open>The URL that the connection loop is started with.\<close>

definition conductor_start :: "string option \<Rightarrow> conductor_config \<Rightarrow> string result" where
  "conductor_start domain config =
     (if cf_api_key config = [] then Err (app ''conductor API key is required'') else Ok (websocket_url domain config))"

definition url_hash :: "string \<Rightarrow> 64 word" where
  "url_hash seed = fold (\<lambda>b a. a * 31 + of_char b) seed 0"

definition jittered :: "nat \<Rightarrow> string \<Rightarrow> nat" where
  "jittered base seed = base * (500 + unat (url_hash seed) mod 1000) div 1000"

text \<open>
  One round of the reconnect loop: \<open>cancelled\<close> before it, what dialling came to
  (\<open>Connected stopped\<close> with the result of serving the connection), and whether
  shutdown interrupts the wait.  The result is the wait and the next backoff,
  or \<open>None\<close> when the loop returns.
\<close>

datatype dial = Connected bool | Dial_Failed

definition connection_round :: "string \<Rightarrow> bool \<times> dial \<times> bool \<Rightarrow> nat \<Rightarrow> nat \<times> nat option" where
  "connection_round url env backoff = (case env of (cancelled, dial, interrupted) \<Rightarrow>
     if cancelled then (0, None)
     else case dial of
       Connected stopped \<Rightarrow> (0, if stopped then None else Some INITIAL_RECONNECT_WAIT)
     | Dial_Failed \<Rightarrow> (jittered backoff url, if interrupted then None else Some (min (backoff * 2) MAX_RECONNECT_WAIT)))"

text \<open>The waits of the loop over the given rounds, and the backoff after them.\<close>

fun connection_loop :: "string \<Rightarrow> (bool \<times> dial \<times> bool) list \<Rightarrow> nat \<Rightarrow> nat list \<times> nat option" where
  "connection_loop url [] backoff = ([], Some backoff)"
| "connection_loop url (env # envs) backoff = (case connection_round url env backoff of
     (wait, None) \<Rightarrow> ([wait], None)
   | (wait, Some backoff') \<Rightarrow> apfst (Cons wait) (connection_loop url envs backoff'))"

datatype message_frame = Text string | Ping string | Pong string | Binary string | Close
datatype reading = Frame message_frame | Stream_Closed | Read_Error

text \<open>
  One connection: the instant at which its loop comes to \<open>select!\<close>, when the next
  ping is due, the frames sent and the texts given to \<open>handle_message\<close>.
\<close>

record link =
  ln_now :: nat
  ln_next_ping :: nat
  ln_sent :: "message_frame list"
  ln_handled :: "string list"

text \<open>
  What happens in a turn: when shutdown is or was signalled, when and what the next
  read yields, which of the ready branches is taken, whether a ping can be
  written, and how long the branch's body takes.
\<close>

record turn =
  tn_cancelled_at :: "nat option"
  tn_arrival :: "(nat \<times> reading) option"
  tn_choice :: nat
  tn_written :: bool
  tn_took :: nat

datatype wake = Shutdown | Ping_Tick | Arrived reading | Read_Deadline

text \<open>
  The branches of \<open>select!\<close> with the instants they become ready.  The read and its
  deadline are one future, made anew in every turn, that prefers the read.
\<close>

definition read_branch :: "nat \<Rightarrow> (nat \<times> reading) option \<Rightarrow> nat \<times> wake" where
  "read_branch now arrival = (case arrival of
       Some (t, r) \<Rightarrow> if t \<le> now + PING_TIMEOUT then (t, Arrived r) else (now + PING_TIMEOUT, Read_Deadline)
     | None \<Rightarrow> (now + PING_TIMEOUT, Read_Deadline))"

definition branches :: "turn \<Rightarrow> link \<Rightarrow> (nat \<times> wake) list" where
  "branches t l = (case tn_cancelled_at t of None \<Rightarrow> [] | Some c \<Rightarrow> [(c, Shutdown)])
     @ [(ln_next_ping l, Ping_Tick), read_branch (ln_now l) (tn_arrival t)]"

definition wake_at :: "turn \<Rightarrow> link \<Rightarrow> nat" where
  "wake_at t l = max (ln_now l) (fold min (map fst (branches t l)) (ln_next_ping l))"

definition woken :: "turn \<Rightarrow> link \<Rightarrow> wake" where
  "woken t l = (let ready = filter (\<lambda>(due, _). due \<le> wake_at t l) (branches t l) in snd (ready ! (tn_choice t mod length ready)))"

text \<open>The next tick of an interval with \<open>MissedTickBehavior::Skip\<close>.\<close>

definition next_tick :: "nat \<Rightarrow> nat \<Rightarrow> nat" where
  "next_tick due now = now + PING_INTERVAL - (now - due) mod PING_INTERVAL"

datatype serving = Serving link | Served bool

definition serve_turn :: "turn \<Rightarrow> link \<Rightarrow> serving" where
  "serve_turn t l = (let l' = l\<lparr>ln_now := wake_at t l + tn_took t\<rparr> in
     case woken t l of
       Shutdown \<Rightarrow> Served True
     | Ping_Tick \<Rightarrow> if tn_written t
         then Serving (l'\<lparr>ln_next_ping := next_tick (ln_next_ping l) (wake_at t l), ln_sent := ln_sent l @ [Ping []]\<rparr>)
         else Served False
     | Read_Deadline \<Rightarrow> Served False
     | Arrived r \<Rightarrow> (case r of
           Stream_Closed \<Rightarrow> Served False
         | Read_Error \<Rightarrow> Served False
         | Frame f \<Rightarrow> (case f of
               Text s \<Rightarrow> Serving (l'\<lparr>ln_handled := ln_handled l @ [s]\<rparr>)
             | Ping payload \<Rightarrow> Serving (l'\<lparr>ln_sent := ln_sent l @ [Pong payload]\<rparr>)
             | Close \<Rightarrow> Served False
             | _ \<Rightarrow> Serving l')))"

definition serve_start :: "nat \<Rightarrow> link" where
  "serve_start now = \<lparr>ln_now = now, ln_next_ping = now + PING_INTERVAL, ln_sent = [], ln_handled = []\<rparr>"

fun serve_turns :: "turn list \<Rightarrow> serving \<Rightarrow> serving" where
  "serve_turns [] v = v"
| "serve_turns (t # ts) (Serving l) = serve_turns ts (serve_turn t l)"
| "serve_turns (t # ts) (Served b) = Served b"

definition serve :: "nat \<Rightarrow> turn list \<Rightarrow> serving" where
  "serve now ts = serve_turns ts (Serving (serve_start now))"

section \<open>Lemmas\<close>

lemma branch_readiness: "branches t l \<noteq> []" "(ln_next_ping l, Ping_Tick) \<in> set (branches t l)"
  by (simp_all add: branches_def)

lemma fold_min_le: "fold min xs (a :: nat) \<le> a" "x \<in> set xs \<Longrightarrow> fold min xs a \<le> x"
proof (induction xs arbitrary: a)
  case (Cons y ys)
  { case 1 then show ?case using Cons(1) [of "min y a"] by simp }
  { case 2 then show ?case using Cons(1) [of "min y a"] Cons(2) [of "min y a"] by auto }
qed simp_all

lemma fold_min_in: "fold min xs (a :: nat) \<in> insert a (set xs)"
  by (induction xs arbitrary: a) (auto simp: min_def)

lemma wake_before_ping: "ln_now l \<le> wake_at t l" "wake_at t l \<le> max (ln_now l) (ln_next_ping l)"
  using fold_min_le(1) [of "map fst (branches t l)" "ln_next_ping l"] by (auto simp: wake_at_def)

text \<open>The branch taken is one of those that are ready.\<close>

lemma woken_ready: "\<exists>due \<le> wake_at t l. (due, woken t l) \<in> set (branches t l)"
proof -
  let ?ready = "filter (\<lambda>(due, _). due \<le> wake_at t l) (branches t l)"
  have "fold min (map fst (branches t l)) (ln_next_ping l) \<in> set (map fst (branches t l))"
    using fold_min_in [of "map fst (branches t l)" "ln_next_ping l"] branch_readiness(2) [of l t] by (force simp: image_iff)
  then have "?ready \<noteq> []" by (force simp: filter_empty_conv wake_at_def)
  then have "?ready ! (tn_choice t mod length ?ready) \<in> set ?ready" by (intro nth_mem mod_less_divisor) simp
  then show ?thesis unfolding woken_def Let_def by (auto simp: case_prod_unfold)
qed

definition ping_due :: "link \<Rightarrow> bool" where
  "ping_due l \<longleftrightarrow> ln_next_ping l \<le> ln_now l + PING_INTERVAL"

lemma deadline_not_woken: "ping_due l \<Longrightarrow> woken t l \<noteq> Read_Deadline"
proof
  assume due: "ping_due l" and deadline: "woken t l = Read_Deadline"
  obtain d where "d \<le> wake_at t l" "(d, Read_Deadline) \<in> set (branches t l)" using woken_ready [of t l] deadline by auto
  then have "ln_now l + PING_TIMEOUT \<le> wake_at t l"
    by (auto simp: branches_def read_branch_def split: option.splits if_splits prod.splits)
  then show False using wake_before_ping(2) [of t l] due by (simp add: ping_due_def PING_TIMEOUT_def PING_INTERVAL_def)
qed

lemma next_tick_bounds: "next_tick due now \<le> now + PING_INTERVAL" "due \<le> now \<Longrightarrow> due + PING_INTERVAL \<le> next_tick due now"
proof -
  have "(now - due) mod PING_INTERVAL \<le> now - due" "(now - due) mod PING_INTERVAL < PING_INTERVAL"
    by (simp_all add: PING_INTERVAL_def)
  then show "next_tick due now \<le> now + PING_INTERVAL" "due \<le> now \<Longrightarrow> due + PING_INTERVAL \<le> next_tick due now"
    unfolding next_tick_def by linarith+
qed

lemma turn_ping_due: "ping_due l \<Longrightarrow> serve_turn t l = Serving l' \<Longrightarrow> ping_due l'"
  using wake_before_ping(1) [of l t] next_tick_bounds(1) [of "ln_next_ping l" "wake_at t l"]
  by (auto simp: serve_turn_def ping_due_def Let_def split: wake.splits reading.splits message_frame.splits if_splits)

text \<open>A turn in which nothing arrives, shutdown is not signalled and the ping can be written.\<close>

definition silent :: "turn \<Rightarrow> bool" where
  "silent t \<longleftrightarrow> tn_cancelled_at t = None \<and> tn_arrival t = None \<and> tn_written t"

lemma silent_turn:
  assumes "silent t" "ping_due l"
  shows "\<exists>l'. serve_turn t l = Serving l' \<and> ping_due l' \<and> ln_next_ping l + PING_INTERVAL \<le> ln_next_ping l' \<and> ln_next_ping l \<le> ln_now l'
    \<and> ln_sent l' = ln_sent l @ [Ping []]"
proof -
  have branches: "branches t l = [(ln_next_ping l, Ping_Tick), (ln_now l + PING_TIMEOUT, Read_Deadline)]"
    using assms(1) by (simp add: branches_def read_branch_def silent_def)
  then have ping: "woken t l = Ping_Tick" using deadline_not_woken [OF assms(2), of t] woken_ready [of t l] by auto
  have "ln_next_ping l \<le> wake_at t l" using assms(2) by (auto simp: wake_at_def branches ping_due_def PING_INTERVAL_def PING_TIMEOUT_def)
  then show ?thesis using assms ping next_tick_bounds [of "ln_next_ping l" "wake_at t l"]
    by (auto simp: serve_turn_def Let_def silent_def ping_due_def)
qed

lemma jittered_bounds: "base div 2 \<le> jittered base url" "2 * jittered base url \<le> 3 * base"
proof -
  let ?h = "unat (url_hash url) mod 1000"
  have h: "?h < 1000" by simp
  have "base div 2 \<le> base * 500 div 1000" by linarith
  also have "\<dots> \<le> jittered base url" unfolding jittered_def by (intro div_le_mono mult_le_mono2) simp
  finally show "base div 2 \<le> jittered base url" .
  have "base * (500 + ?h) div 1000 \<le> base * 1500 div 1000" using h by (intro div_le_mono mult_le_mono2) simp
  then show "2 * jittered base url \<le> 3 * base" unfolding jittered_def by linarith
qed

lemma silent_turns:
  "list_all silent ts \<Longrightarrow> ping_due l \<Longrightarrow> \<exists>l'. serve_turns ts (Serving l) = Serving l' \<and> ping_due l'
    \<and> ln_next_ping l + length ts * PING_INTERVAL \<le> ln_next_ping l' \<and> ln_sent l' = ln_sent l @ replicate (length ts) (Ping [])"
proof (induction ts arbitrary: l)
  case (Cons t ts)
  then obtain l1 where l1: "serve_turn t l = Serving l1" "ping_due l1" "ln_next_ping l + PING_INTERVAL \<le> ln_next_ping l1"
    "ln_sent l1 = ln_sent l @ [Ping []]" using silent_turn [of t l] by auto
  then obtain l' where "serve_turns ts (Serving l1) = Serving l'" "ping_due l'"
    "ln_next_ping l1 + length ts * PING_INTERVAL \<le> ln_next_ping l'" "ln_sent l' = ln_sent l1 @ replicate (length ts) (Ping [])"
    using Cons.IH [of l1] Cons.prems(1) by auto
  then show ?case using l1 by auto
qed simp

lemma turns_ping_due: "serve_turns ts v = Serving l' \<Longrightarrow> (\<And>l. v = Serving l \<Longrightarrow> ping_due l) \<Longrightarrow> ping_due l'"
  by (induction ts v rule: serve_turns.induct) (auto intro: turn_ping_due)

lemma start_ping_due [simp]: "ping_due (serve_start now)"
  by (simp add: ping_due_def serve_start_def)

lemma failed_rounds:
  "connection_loop url (replicate n (False, Dial_Failed, False)) b
    = (map (\<lambda>k. jittered (min (2 ^ k * b) (if k = 0 then b else MAX_RECONNECT_WAIT)) url) [0..<n],
       Some (min (2 ^ n * b) (if n = 0 then b else MAX_RECONNECT_WAIT)))"
proof (induction n arbitrary: b)
  case (Suc n)
  have step: "min (2 ^ k * min (b * 2) m) (if k = 0 then min (b * 2) m else m) = min (2 ^ Suc k * b) m" for k m :: nat
  proof (cases "k = 0 \<or> b * 2 \<le> m")
    case True
    then show ?thesis by (auto simp: mult_ac)
  next
    case False
    then have "m \<le> 2 ^ k * m" "m \<le> 2 ^ k * (b * 2)" by (auto intro: order_trans [OF less_imp_le, of m "b * 2"])
    then show ?thesis using False by (simp add: mult_ac)
  qed
  have shift: "[0..<Suc n] = 0 # map Suc [0..<n]" by (simp add: upt_conv_Cons map_Suc_upt)
  show ?case
    unfolding shift using Suc [of "min (b * 2) MAX_RECONNECT_WAIT"] by (simp add: connection_round_def step comp_def)
qed simp

section \<open>Properties\<close>

text \<open>
  C40: a dead link is not noticed.  The read deadline is meant to end a connection
  on which nothing was received for thirty seconds, but it is set anew in every
  turn and a ping is due every twenty: on a connection that stays silent while
  pings can still be written, the loop goes on serving, turn after turn, however
  long the silence lasts.  On no connection is the deadline ever the branch that is taken.
\<close>

theorem dead_link_unnoticed:
  assumes "list_all silent ts"
  shows "(\<exists>l. serve start ts = Serving l \<and> start + Suc (length ts) * PING_INTERVAL \<le> ln_next_ping l
      \<and> ln_next_ping l \<le> ln_now l + PING_INTERVAL \<and> ln_sent l = replicate (length ts) (Ping []))
    \<and> (\<forall>ts' l t. serve start ts' = Serving l \<longrightarrow> woken t l \<noteq> Read_Deadline)"
proof -
  obtain l where "serve start ts = Serving l" "ping_due l" "ln_next_ping (serve_start start) + length ts * PING_INTERVAL \<le> ln_next_ping l"
    "ln_sent l = ln_sent (serve_start start) @ replicate (length ts) (Ping [])"
    using silent_turns [OF assms start_ping_due] unfolding serve_def by blast
  moreover have "woken t l \<noteq> Read_Deadline" if "serve start ts' = Serving l" for ts' l t
    using turns_ping_due [OF that [unfolded serve_def]] deadline_not_woken by simp
  ultimately show ?thesis by (auto simp: serve_start_def ping_due_def)
qed

text \<open>
  How long a reconnect waits.  The backoff after \<open>k\<close> failed attempts in a row is
  \<open>2\<^sup>k\<close> seconds, at most thirty, spread by a factor between one half and three
  halves; an attempt that connects resets it, and after a connection that
  dropped the next attempt is made at once.
\<close>

theorem reconnect_backoff:
  "(let b = \<lambda>k. min (2 ^ k * INITIAL_RECONNECT_WAIT) MAX_RECONNECT_WAIT in
     connection_loop url (replicate n (False, Dial_Failed, False)) INITIAL_RECONNECT_WAIT = (map (\<lambda>k. jittered (b k) url) [0..<n], Some (b n))
     \<and> b k div 2 \<le> jittered (b k) url \<and> 2 * jittered (b k) url \<le> 3 * b k)
   \<and> connection_loop url ((False, Connected False, i) # envs) backoff = apfst (Cons 0) (connection_loop url envs INITIAL_RECONNECT_WAIT)"
proof -
  have "min (2 ^ k * INITIAL_RECONNECT_WAIT) (if k = 0 then INITIAL_RECONNECT_WAIT else MAX_RECONNECT_WAIT)
    = min (2 ^ k * INITIAL_RECONNECT_WAIT) MAX_RECONNECT_WAIT" for k
    by (simp add: INITIAL_RECONNECT_WAIT_def MAX_RECONNECT_WAIT_def)
  then show ?thesis using failed_rounds [of url n INITIAL_RECONNECT_WAIT] jittered_bounds
    by (simp add: Let_def connection_round_def)
qed

section \<open>Witnesses\<close>

definition sample_silence :: turn where
  "sample_silence = \<lparr>tn_cancelled_at = None, tn_arrival = None, tn_choice = 5, tn_written = True, tn_took = 3\<rparr>"

theorem dead_link_unnoticed_witness:
  "\<exists>l. serve 7 (replicate 1000 sample_silence) = Serving l \<and> 1001 * PING_INTERVAL \<le> ln_next_ping l
    \<and> ln_next_ping l \<le> ln_now l + PING_INTERVAL \<and> length (ln_sent l) = 1000"
proof -
  have "list_all silent (replicate 1000 sample_silence)" by (simp add: list_all_iff silent_def sample_silence_def)
  from dead_link_unnoticed [OF this, of 7] show ?thesis by auto
qed

end
