(* ===== verification/Engine_Query.thy ===== *)
theory Engine_Query
  imports Engine_Control Memory_Export
begin

text \<open>
  What the control plane reads of an engine and the operations over many
  workflows it asks for (\<open>DurableEngine\<close> in \<open>src/engine.rs\<close>): listings,
  aggregates, observability reads, export and import, the global timeout,
  retention and recovery by executor.  The methods of the provider behind the reads are a
  record of their own; an export is a partial function, because its walk over
  children may not end.
\<close>

section \<open>Definitions\<close>

record 's query_provider =
  y_get_workflow_aggregates :: "workflow_aggregate_query \<Rightarrow> 's \<Rightarrow> workflow_aggregate list result"
  y_get_step_aggregates :: "step_aggregate_query \<Rightarrow> 's \<Rightarrow> step_aggregate list result"
  y_list_workflow_events :: "string \<Rightarrow> 's \<Rightarrow> (string \<times> json) list result"
  y_list_workflow_notifications :: "string \<Rightarrow> 's \<Rightarrow> notification_info list result"
  y_list_workflow_streams :: "string \<Rightarrow> 's \<Rightarrow> (string \<times> json list) list result"
  y_export_workflow :: "string \<Rightarrow> bool \<Rightarrow> 's \<Rightarrow> exported_workflow list result option"
  y_import_workflow :: "(string \<Rightarrow> datetime \<times> datetime) \<Rightarrow> exported_workflow list \<Rightarrow> 's \<Rightarrow> unit result \<times> 's"
  y_garbage_collect :: "int option \<Rightarrow> int option \<Rightarrow> 's \<Rightarrow> (int result \<times> 's) option"

definition memory_queries :: "codec \<Rightarrow> (int \<Rightarrow> datetime option) \<Rightarrow> inner query_provider" where
  "memory_queries C from_ts = \<lparr>
     y_get_workflow_aggregates = get_workflow_aggregates,
     y_get_step_aggregates = get_step_aggregates,
     y_list_workflow_events = list_workflow_events,
     y_list_workflow_notifications = list_workflow_notifications,
     y_list_workflow_streams = list_workflow_streams,
     y_export_workflow = export_workflow C,
     y_import_workflow = import_workflow C from_ts,
     y_garbage_collect = garbage_collect C from_ts\<rparr>"

definition engine_list_workflows :: "'s state_provider \<Rightarrow> list_filter \<Rightarrow> 's \<Rightarrow> workflow_status list result" where
  "engine_list_workflows P f s = p_list_workflows P f s"

definition engine_get_workflow_aggregates :: "'s query_provider \<Rightarrow> workflow_aggregate_query \<Rightarrow> 's \<Rightarrow> workflow_aggregate list result" where
  "engine_get_workflow_aggregates Y q s =
     (if wq_is_empty q then Err (app ''get_workflow_aggregates requires at least one grouping dimension'')
      else if wq_no_select q then Err (app ''get_workflow_aggregates requires at least one selected aggregate'')
      else y_get_workflow_aggregates Y q s)"

definition engine_get_step_aggregates :: "'s query_provider \<Rightarrow> step_aggregate_query \<Rightarrow> 's \<Rightarrow> step_aggregate list result" where
  "engine_get_step_aggregates Y q s =
     (if sq_no_grouping q then Err (app ''get_step_aggregates requires at least one grouping dimension'')
      else if sq_no_select q then Err (app ''get_step_aggregates requires at least one selected aggregate'')
      else y_get_step_aggregates Y q s)"

definition engine_get_workflow_steps_with_options :: "'s control_provider \<Rightarrow> string \<Rightarrow> step_list_options \<Rightarrow> 's \<Rightarrow> step_info list result" where
  "engine_get_workflow_steps_with_options K w options s = c_get_workflow_steps_with_options K w options s"

definition engine_list_workflow_events :: "'s query_provider \<Rightarrow> string \<Rightarrow> 's \<Rightarrow> (string \<times> json) list result" where
  "engine_list_workflow_events Y w s = y_list_workflow_events Y w s"

definition engine_list_workflow_notifications :: "'s query_provider \<Rightarrow> string \<Rightarrow> 's \<Rightarrow> notification_info list result" where
  "engine_list_workflow_notifications Y w s = y_list_workflow_notifications Y w s"

definition engine_list_workflow_streams :: "'s query_provider \<Rightarrow> string \<Rightarrow> 's \<Rightarrow> (string \<times> json list) list result" where
  "engine_list_workflow_streams Y w s = y_list_workflow_streams Y w s"

definition engine_export_workflow :: "'s query_provider \<Rightarrow> string \<Rightarrow> bool \<Rightarrow> 's \<Rightarrow> exported_workflow list result option" where
  "engine_export_workflow Y w export_children s = y_export_workflow Y w export_children s"

definition engine_import_workflow :: "'s query_provider \<Rightarrow> (string \<Rightarrow> datetime \<times> datetime) \<Rightarrow> exported_workflow list \<Rightarrow> 's \<Rightarrow> unit result \<times> 's" where
  "engine_import_workflow Y clock xs s = y_import_workflow Y clock xs s"

definition engine_list_schedules :: "'s schedule_provider \<Rightarrow> schedule_filter \<Rightarrow> 's \<Rightarrow> workflow_schedule list result" where
  "engine_list_schedules S f s = s_list_schedules S f s"

definition engine_list_queues :: "'s control_provider \<Rightarrow> 's \<Rightarrow> workflow_queue list result" where
  "engine_list_queues K s = c_list_queues K s"

definition engine_list_application_versions :: "'s control_provider \<Rightarrow> 's \<Rightarrow> version_info list result" where
  "engine_list_application_versions K s = c_list_application_versions K s"

text \<open>\<open>mid\<close> is what others do between the listing and the cancellation.\<close>

definition timeout_filter :: "int \<Rightarrow> list_filter" where
  "timeout_filter cutoff = list_filter_default\<lparr>lf_status := [STATUS_PENDING, STATUS_ENQUEUED, STATUS_DELAYED],
     lf_end_time_ms := Some cutoff, lf_load_input := False, lf_load_output := False\<rparr>"

definition engine_cancel_all_before :: "'s state_provider \<Rightarrow> datetime \<Rightarrow> ('s \<Rightarrow> 's) \<Rightarrow> int \<Rightarrow> 's \<Rightarrow> nat result \<times> 's" where
  "engine_cancel_all_before P now mid cutoff s = (case p_list_workflows P (timeout_filter cutoff) s of
       Inl e \<Rightarrow> (Err e, s)
     | Inr rows \<Rightarrow> (let ids = map wf_id rows in
         if ids = [] then (Ok 0, s)
         else case engine_cancel_workflows P now ids (mid s) of
           (Inl e, s') \<Rightarrow> (Err e, s')
         | (Inr _, s') \<Rightarrow> (Ok (length ids), s')))"

text \<open>The count of collected workflows goes to the engine's counters, too.\<close>

definition engine_garbage_collect :: "'s query_provider \<Rightarrow> int option \<Rightarrow> int option \<Rightarrow> 's \<Rightarrow> (int result \<times> 's) option" where
  "engine_garbage_collect Y cutoff rows s = y_garbage_collect Y cutoff rows s"

definition engine_recover_pending_for :: "'s runtime \<Rightarrow> (nat \<Rightarrow> bool) \<Rightarrow> (nat \<Rightarrow> datetime) \<Rightarrow> (nat \<Rightarrow> 's \<Rightarrow> 's) \<Rightarrow> string list \<Rightarrow> 's
  \<Rightarrow> string list result \<times> workflow_status list \<times> 's" where
  "engine_recover_pending_for rt stop clock others executor_ids s =
     recover_pending_workflows rt (rt_max_recovery_attempts rt) executor_ids stop clock others s"

definition engine_recover :: "'s runtime \<Rightarrow> (nat \<Rightarrow> bool) \<Rightarrow> (nat \<Rightarrow> datetime) \<Rightarrow> (nat \<Rightarrow> 's \<Rightarrow> 's) \<Rightarrow> 's \<Rightarrow> nat result \<times> workflow_status list \<times> 's" where
  "engine_recover rt stop clock others s = (case engine_recover_pending_for rt stop clock others [] s of
     (r, spawned, s') \<Rightarrow> (result_bind r (\<lambda>ids. Ok (length ids)), spawned, s'))"

section \<open>Lemmas\<close>

lemma memory_queries_simps [simp]:
  "y_get_workflow_aggregates (memory_queries C f) = get_workflow_aggregates"
  "y_get_step_aggregates (memory_queries C f) = get_step_aggregates"
  "y_list_workflow_events (memory_queries C f) = list_workflow_events"
  "y_list_workflow_notifications (memory_queries C f) = list_workflow_notifications"
  "y_list_workflow_streams (memory_queries C f) = list_workflow_streams"
  "y_export_workflow (memory_queries C f) = export_workflow C"
  "y_import_workflow (memory_queries C f) = import_workflow C f"
  "y_garbage_collect (memory_queries C f) = garbage_collect C f"
  by (simp_all add: memory_queries_def)

text \<open>Counts by a single dimension: one group for each value that a matching row has.\<close>

lemma single_group_counts:
  assumes "get_workflow_aggregates q g = Ok out" "wq_select_count q" "wq_limit q = None" "\<And>w. wq_key q w = [(d, h w)]"
  shows "(\<lambda>a. (wa_group a, wa_count a)) ` set out
    = (\<lambda>v. ([(d, v)], Some (int (length (filter (\<lambda>w. wq_matches q w \<and> h w = v) (hm_values (workflows g)))))))
        ` {v. filter (\<lambda>w. wq_matches q w \<and> h w = v) (hm_values (workflows g)) \<noteq> []}"
proof -
  let ?ws = "hm_values (workflows g)" and ?accs = "fold (wq_step q) (hm_values (workflows g)) []"
  have keys: "fst ` set ?accs = (\<lambda>v. [(d, v)]) ` {v. filter (\<lambda>w. wq_matches q w \<and> h w = v) ?ws \<noteq> []}"
    by (auto simp: wq_keys assms(4) filter_empty_conv image_iff)
  have "(\<lambda>a. (wa_group a, wa_count a)) (wq_result q p) = (fst p, Some (int (length (filter (\<lambda>w. wq_matches q w \<and> [(d, h w)] = fst p) ?ws))))"
    if p: "p \<in> set ?accs" for p
  proof -
    obtain k a where ka: "p = (k, a)" by (cases p)
    have "k \<in> fst ` set ?accs" using p ka by force
    then obtain v where k: "k = [(d, v)]" using keys by auto
    show ?thesis using wq_accs [of k a q ?ws] p
      by (simp add: ka k assms(2,4) wq_result_def fold_accumulate_count agg_acc_default_def then_some_def)
  qed
  then have "(\<lambda>a. (wa_group a, wa_count a)) ` wq_result q ` set ?accs
      = (\<lambda>k. (k, Some (int (length (filter (\<lambda>w. wq_matches q w \<and> [(d, h w)] = k) ?ws))))) ` fst ` set ?accs"
    by (simp add: image_image cong: image_cong)
  moreover have "set out = wq_result q ` set ?accs"
    using assms(1,3) by (auto simp: get_workflow_aggregates_def truncate_opt_def Let_def)
  ultimately show ?thesis unfolding keys by (simp add: image_image)
qed

text \<open>Whether the global timeout ends a row.\<close>

definition overdue :: "int \<Rightarrow> workflow_status \<Rightarrow> bool" where
  "overdue cutoff row \<longleftrightarrow> wf_status row \<in> {STATUS_PENDING, STATUS_ENQUEUED, STATUS_DELAYED} \<and> timestamp_millis (wf_created_at row) \<le> cutoff"

lemma timeout_listing:
  "\<exists>rows. list_workflows (timeout_filter cutoff) g = Ok rows
    \<and> length rows = length (filter (overdue cutoff) (hm_values (workflows g)))
    \<and> wf_id ` set rows = wf_id ` {row \<in> set (hm_values (workflows g)). overdue cutoff row}"
proof -
  have m: "matches_filter (timeout_filter cutoff) src = overdue cutoff" for src
    by (rule ext) (auto simp: matches_filter_def timeout_filter_def list_filter_default_def in_list_or_empty_def opt_in_list_or_empty_def overdue_def)
  have f: "lf_offset (timeout_filter cutoff) = None" "lf_limit (timeout_filter cutoff) = None"
    by (simp_all add: timeout_filter_def list_filter_default_def)
  have "length (listed_rows (timeout_filter cutoff) g) = length (filter (overdue cutoff) (hm_values (workflows g)))"
    using mset_eq_length [OF mset_listed_rows [of "timeout_filter cutoff" g]] by (simp add: row_matches_def [abs_def] m)
  moreover have "wf_id ` set (listed_rows (timeout_filter cutoff) g) = wf_id ` {row \<in> set (hm_values (workflows g)). overdue cutoff row}"
    by (simp add: set_listed_rows row_matches_def [abs_def] m)
  moreover note existing_listed [OF f, of g]
  ultimately show ?thesis by simp
qed

lemma timeout_cancels:
  assumes "mem_inv g"
  shows "\<exists>g'. engine_cancel_all_before (memory_provider C f) now id cutoff g
      = (Ok (length (filter (overdue cutoff) (hm_values (workflows g)))), g')
    \<and> (\<forall>i. map_of (workflows g') i = map_option (\<lambda>row. if overdue cutoff row
        then row\<lparr>wf_status := STATUS_CANCELLED, wf_completed_at_ms := Some (timestamp_millis now), wf_started_at_ms := None,
          wf_queue_name := None, wf_dedup_id := None, wf_updated_at := now\<rparr> else row) (map_of (workflows g) i))"
proof -
  obtain rows where rows: "list_workflows (timeout_filter cutoff) g = Ok rows"
    "length rows = length (filter (overdue cutoff) (hm_values (workflows g)))"
    "wf_id ` set rows = wf_id ` {row \<in> set (hm_values (workflows g)). overdue cutoff row}"
    using timeout_listing by blast
  have listed: "i \<in> wf_id ` set rows \<longleftrightarrow> overdue cutoff row" if "map_of (workflows g) i = Some row" for i row
  proof -
    have "v = row" if "v \<in> set (hm_values (workflows g))" "wf_id v = i" for v
      using that \<open>map_of (workflows g) i = Some row\<close> in_values_iff [OF assms, of v] by simp
    moreover have "row \<in> set (hm_values (workflows g))" "wf_id row = i"
      using that row_id [OF assms that] in_values_iff [OF assms, of row] by simp_all
    ultimately show ?thesis unfolding rows(3) by blast
  qed
  have cancelled: "cancel_row now row = row\<lparr>wf_status := STATUS_CANCELLED, wf_completed_at_ms := Some (timestamp_millis now),
      wf_started_at_ms := None, wf_queue_name := None, wf_dedup_id := None, wf_updated_at := now\<rparr>" if "overdue cutoff row" for row
    using that by (auto simp: cancel_row_def overdue_def status_defs)
  let ?g = "snd (cancel_workflows now (map wf_id rows) g)"
  have look: "map_of (workflows ?g) i = map_option (\<lambda>row. if overdue cutoff row then cancel_row now row else row) (map_of (workflows g) i)" for i
    using listed [of i] by (cases "map_of (workflows g) i") (auto simp: cancel_workflows_def cancel_lookup targets_of_def)
  show ?thesis
  proof (cases "rows = []")
    case True
    then have "\<not> overdue cutoff row" if "map_of (workflows g) i = Some row" for i row using listed [OF that] by simp
    then have "map_of (workflows g) i = map_option (\<lambda>row. if overdue cutoff row then cancel_row now row else row) (map_of (workflows g) i)" for i
      by (cases "map_of (workflows g) i") auto
    then show ?thesis using True rows(1,2) cancelled by (auto simp: engine_cancel_all_before_def cong: if_cong)
  next
    case False
    then have "engine_cancel_all_before (memory_provider C f) now id cutoff g = (Ok (length rows), ?g)"
      using rows(1) by (simp add: engine_cancel_all_before_def engine_cancel_workflows_def cancel_workflows_def cancel_workflows_with_options_def)
    then show ?thesis using look cancelled rows(2) by (auto cong: if_cong)
  qed
qed

section \<open>Properties\<close>

text \<open>
  The global timeout cancels exactly the overdue workflows.  If no other task
  acts meanwhile, every workflow that is pending, enqueued or delayed and was
  created at or before the cutoff is cancelled, and the count returned is their
  number; a finished or younger workflow is untouched.
\<close>

theorem global_timeout_exact:
  assumes "mem_inv g"
  shows "\<exists>g'. engine_cancel_all_before (memory_provider C f) now id cutoff g
      = (Ok (length (filter (overdue cutoff) (hm_values (workflows g)))), g')
    \<and> (\<forall>i. map_of (workflows g') i = map_option (\<lambda>row. if overdue cutoff row
        then row\<lparr>wf_status := STATUS_CANCELLED, wf_completed_at_ms := Some (timestamp_millis now), wf_started_at_ms := None,
          wf_queue_name := None, wf_dedup_id := None, wf_updated_at := now\<rparr> else row) (map_of (workflows g) i))"
  using assms by (rule timeout_cancels)

section \<open>Witnesses\<close>

theorem global_timeout_exact_witness:
  "\<exists>g'. engine_cancel_all_before (memory_provider plain_codec (\<lambda>_. None)) 7 id 10 sample_rows = (Ok 1, g')
    \<and> map_option wf_status (map_of (workflows g') ''b'') = Some STATUS_CANCELLED
    \<and> map_of (workflows g') ''a'' = map_of (workflows sample_rows) ''a''"
proof -
  let ?row = "\<lambda>t i st. workflow_status_new t i ''wf'' JNull st ''x'' ''v''"
  have "mem_inv sample_rows" "length (filter (overdue 10) (hm_values (workflows sample_rows))) = 1"
    "map_of (workflows sample_rows) ''a'' = Some (?row 5000000 ''a'' STATUS_SUCCESS)" "\<not> overdue 10 (?row 5000000 ''a'' STATUS_SUCCESS)"
    "map_of (workflows sample_rows) ''b'' = Some (?row 9000000 ''b'' STATUS_PENDING)" "overdue 10 (?row 9000000 ''b'' STATUS_PENDING)" by code_simp+
  then show ?thesis using global_timeout_exact [of sample_rows plain_codec "\<lambda>_. None" 7 10] by auto
qed

end
