(* ===== verification/Conductor_Wire.thy ===== *)
theory Conductor_Wire
  imports Engine_Query
begin

text \<open>
  What crosses the connection to the control plane (\<open>src/conductor.rs\<close>): the
  requests, the shapes in which rows are reported, the filters that requests
  turn into, and the portable form of an exported workflow.  Parsing a request is
  the work of \<open>serde_json\<close> and the derived conversions and a parameter, as are
  compression, the \<open>base64\<close> coding and the reading of instants.
\<close>

section \<open>Requests\<close>

record base_message =
  bm_msg_type :: string
  bm_request_id :: string

record recovery_request =
  rr_executor_ids :: "string list"

record exist_pending_request =
  ep_executor_id :: string
  ep_application_version :: string

record ids_request =
  ir_workflow_id :: string
  ir_workflow_ids :: "string list"
  ir_delete_children :: bool
  ir_cancel_children :: bool
  ir_queue_name :: "string option"

record fork_body =
  fb_workflow_id :: string
  fb_start_step :: int
  fb_application_version :: "string option"
  fb_new_workflow_id :: "string option"
  fb_queue_name :: "string option"
  fb_queue_partition_key :: "string option"

record get_workflow_request =
  gw_workflow_id :: string
  gw_load_input :: bool
  gw_load_output :: bool

record list_steps_request =
  st_workflow_id :: string
  st_load_output :: bool
  st_limit :: "int option"
  st_offset :: "int option"

text \<open>A filter field that is a string or a list of strings on the wire.\<close>

datatype string_or_list = String_Or_List "string list"

primrec sol_vec :: "string_or_list \<Rightarrow> string list" where
  "sol_vec (String_Or_List xs) = xs"

definition sol_first :: "string_or_list \<Rightarrow> string option" where
  "sol_first x = (case sol_vec x of [] \<Rightarrow> None | s # _ \<Rightarrow> Some s)"

record list_schedules_body =
  lb_status :: string_or_list
  lb_workflow_name :: string_or_list
  lb_schedule_name_prefix :: string_or_list
  lb_load_context :: "bool option"

record get_schedule_request =
  gs_schedule_name :: string
  gs_load_context :: "bool option"

record backfill_request =
  bf_schedule_name :: string
  bf_start :: string
  bf_end :: string

record workflow_aggregates_body =
  wb_group_by_status :: bool
  wb_group_by_name :: bool
  wb_group_by_queue_name :: bool
  wb_group_by_executor_id :: bool
  wb_group_by_application_version :: bool
  wb_select_count :: bool
  wb_select_min_created_at :: bool
  wb_select_max_queue_wait_ms :: bool
  wb_select_max_total_latency_ms :: bool
  wb_time_bucket_size_ms :: "int option"
  wb_status :: string_or_list
  wb_name :: string_or_list
  wb_app_version :: string_or_list
  wb_executor_id :: string_or_list
  wb_queue_name :: string_or_list
  wb_workflow_id_prefix :: string_or_list
  wb_start_time :: "datetime option"
  wb_end_time :: "datetime option"
  wb_completed_after :: "datetime option"
  wb_completed_before :: "datetime option"
  wb_dequeued_after :: "datetime option"
  wb_dequeued_before :: "datetime option"

record step_aggregates_body =
  sb_group_by_function_name :: bool
  sb_group_by_status :: bool
  sb_select_count :: bool
  sb_select_max_duration_ms :: bool
  sb_time_bucket_size_ms :: "int option"
  sb_status :: string_or_list
  sb_function_name :: string_or_list
  sb_workflow_id_prefix :: string_or_list
  sb_completed_after :: "datetime option"
  sb_completed_before :: "datetime option"

record get_metrics_request =
  gm_start_time :: string
  gm_end_time :: string
  gm_metric_class :: string

record retention_body =
  rb_gc_cutoff_epoch_ms :: "int option"
  rb_gc_rows_threshold :: "int option"
  rb_timeout_cutoff_epoch_ms :: "int option"

record export_workflow_request =
  ew_workflow_id :: string
  ew_export_children :: bool

record alert_request =
  ar_name :: string
  ar_message :: string
  ar_metadata :: "(string, string) hashmap"

record list_body =
  li_workflow_uuids :: "string list"
  li_workflow_name :: string_or_list
  li_status :: string_or_list
  li_application_version :: string_or_list
  li_executor_id :: string_or_list
  li_authenticated_user :: string_or_list
  li_forked_from :: string_or_list
  li_parent_workflow_id :: string_or_list
  li_queue_name :: string_or_list
  li_workflow_id_prefix :: string_or_list
  li_has_parent :: "bool option"
  li_was_forked_from :: "bool option"
  li_start_time :: "datetime option"
  li_end_time :: "datetime option"
  li_completed_after :: "datetime option"
  li_completed_before :: "datetime option"
  li_dequeued_after :: "datetime option"
  li_dequeued_before :: "datetime option"
  li_limit :: "int option"
  li_offset :: "int option"
  li_sort_desc :: bool
  li_load_input :: bool
  li_load_output :: bool
  li_queues_only :: bool
  li_attributes :: "jmap option"

text \<open>
  The parameters: a reader per kind of request, the reading of an RFC 3339 instant (an
  error is its text), the conversion of exported workflows to bytes and back,
  and the compressor in its two steps.
\<close>

record wire =
  wi_base :: "string \<Rightarrow> base_message result"
  wi_recovery :: "string \<Rightarrow> recovery_request result"
  wi_exist_pending :: "string \<Rightarrow> exist_pending_request result"
  wi_ids :: "string \<Rightarrow> ids_request result"
  wi_fork :: "string \<Rightarrow> fork_body result"
  wi_list :: "string \<Rightarrow> list_body result"
  wi_get_workflow :: "string \<Rightarrow> get_workflow_request result"
  wi_list_steps :: "string \<Rightarrow> list_steps_request result"
  wi_list_schedules :: "string \<Rightarrow> list_schedules_body result"
  wi_get_schedule :: "string \<Rightarrow> get_schedule_request result"
  wi_schedule_name :: "string \<Rightarrow> string result"
  wi_backfill :: "string \<Rightarrow> backfill_request result"
  wi_queue_name :: "string \<Rightarrow> string result"
  wi_version_name :: "string \<Rightarrow> string result"
  wi_workflow_aggregates :: "string \<Rightarrow> workflow_aggregates_body result"
  wi_step_aggregates :: "string \<Rightarrow> step_aggregates_body result"
  wi_workflow_id :: "string \<Rightarrow> string result"
  wi_metrics :: "string \<Rightarrow> get_metrics_request result"
  wi_retention :: "string \<Rightarrow> retention_body result"
  wi_export :: "string \<Rightarrow> export_workflow_request result"
  wi_import :: "string \<Rightarrow> string result"
  wi_alert :: "string \<Rightarrow> alert_request result"
  wi_parse_rfc3339 :: "string \<Rightarrow> string + datetime"
  wi_exports_to_vec :: "exported_workflow list \<Rightarrow> string result"
  wi_exports_from_slice :: "string \<Rightarrow> string + exported_workflow list"
  wi_gzip_write :: "string \<Rightarrow> string + string"
  wi_gzip_finish :: "string \<Rightarrow> string + string"
  wi_gunzip :: "string \<Rightarrow> string + string"

section \<open>Shapes\<close>

definition base_response :: "string \<Rightarrow> string \<Rightarrow> string option \<Rightarrow> jmap" where
  "base_response msg_type request_id error = [(''type'', JString msg_type), (''request_id'', JString request_id)]
     @ (case error of None \<Rightarrow> [] | Some e \<Rightarrow> [(''error_message'', JString e)])"

definition epoch_ms_str :: "int \<Rightarrow> json" where
  "epoch_ms_str ms = JString (show_int ms)"

definition payload :: "codec \<Rightarrow> json option \<Rightarrow> string option" where
  "payload C v = (case v of Some x \<Rightarrow> if \<not> is_null x then Some (json_to_string C x) else None | None \<Rightarrow> None)"

text \<open>A member that is present when there is a value for it, and one that is present on a condition.\<close>

definition opt_member :: "string \<Rightarrow> ('a \<Rightarrow> json) \<Rightarrow> 'a option \<Rightarrow> jmap" where
  "opt_member k f x = (case x of None \<Rightarrow> [] | Some v \<Rightarrow> [(k, f v)])"

definition str_member :: "string \<Rightarrow> string \<Rightarrow> jmap" where
  "str_member k s = (if s \<noteq> [] then [(k, JString s)] else [])"

definition format_list_workflow :: "codec \<Rightarrow> workflow_status \<Rightarrow> json" where
  "format_list_workflow C ws = JObject (
     [(''WorkflowUUID'', JString (wf_id ws))]
     @ str_member ''Status'' (wf_status ws)
     @ str_member ''WorkflowName'' (wf_name ws)
     @ opt_member ''AuthenticatedUser'' JString (wf_authenticated_user ws)
     @ opt_member ''AssumedRole'' JString (wf_assumed_role ws)
     @ (if wf_authenticated_roles ws \<noteq> []
        then [(''AuthenticatedRoles'', JString (json_to_string C (JArray (map JString (wf_authenticated_roles ws)))))] else [])
     @ opt_member ''Attributes'' (\<lambda>a. JString (json_to_string C a)) (wf_attributes ws)
     @ opt_member ''Input'' JString (payload C (Some (wf_input ws)))
     @ opt_member ''Output'' JString (payload C (wf_output ws))
     @ opt_member ''Error'' JString (wf_error ws)
     @ [(''CreatedAt'', epoch_ms_str (timestamp_millis (wf_created_at ws))),
        (''UpdatedAt'', epoch_ms_str (timestamp_millis (wf_updated_at ws)))]
     @ opt_member ''QueueName'' JString (wf_queue_name ws)
     @ opt_member ''QueuePartitionKey'' JString (wf_queue_partition_key ws)
     @ opt_member ''DeduplicationID'' JString (wf_dedup_id ws)
     @ [(''Priority'', JString (show_int (wf_priority ws)))]
     @ str_member ''ApplicationVersion'' (wf_app_version ws)
     @ str_member ''ExecutorID'' (wf_executor_id ws)
     @ opt_member ''WorkflowTimeoutMS'' epoch_ms_str (opt_filter (\<lambda>t. t > 0) (wf_timeout_ms ws))
     @ opt_member ''WorkflowDeadlineEpochMS'' epoch_ms_str (wf_deadline_ms ws)
     @ opt_member ''ForkedFrom'' JString (wf_forked_from ws)
     @ [(''WasForkedFrom'', JBool (wf_forked_from ws \<noteq> None))]
     @ opt_member ''ParentWorkflowID'' JString (wf_parent_workflow_id ws)
     @ (if wf_status ws = STATUS_PENDING then opt_member ''DequeuedAt'' epoch_ms_str (wf_started_at_ms ws) else [])
     @ opt_member ''DelayUntilEpochMS'' epoch_ms_str (wf_delay_until_ms ws)
     @ opt_member ''CompletedAt'' epoch_ms_str (wf_completed_at_ms ws))"

definition format_step :: "codec \<Rightarrow> step_info \<Rightarrow> json" where
  "format_step C s = JObject (
     [(''function_id'', JInt (si_step_id s)), (''function_name'', JString (si_name s))]
     @ opt_member ''output'' JString (payload C (si_output s))
     @ opt_member ''error'' JString (si_error s)
     @ opt_member ''child_workflow_id'' JString (si_child_workflow_id s)
     @ opt_member ''started_at_epoch_ms'' (\<lambda>t. epoch_ms_str (timestamp_millis t)) (si_started_at s)
     @ opt_member ''completed_at_epoch_ms'' (\<lambda>t. epoch_ms_str (timestamp_millis t)) (si_completed_at s))"

definition format_schedule :: "codec \<Rightarrow> ('c, 'z) cron_crate \<Rightarrow> workflow_schedule \<Rightarrow> bool \<Rightarrow> json" where
  "format_schedule C L s load_context = JObject [
     (''schedule_id'', JString (ws_schedule_id s)), (''schedule_name'', JString (ws_schedule_name s)),
     (''workflow_name'', JString (ws_workflow_name s)), (''workflow_class_name'', JNull),
     (''schedule'', JString (ws_schedule s)), (''status'', JString (schedule_status_as_str (ws_status s))),
     (''context'', if load_context then j_opt_str (map_option (json_to_string C) (ws_context s)) else JNull),
     (''last_fired_at'', j_opt_str (map_option (cr_rfc3339_nanos L) (ws_last_fired_at s))),
     (''automatic_backfill'', JBool (ws_automatic_backfill s)),
     (''cron_timezone'', j_opt_str (ws_cron_timezone s)), (''queue_name'', j_opt_str (ws_queue_name s))]"

definition as_secs_f64 :: "nat \<Rightarrow> json" where
  "as_secs_f64 d = JFloat (of_nat d / 10 ^ 9)"

definition format_queue :: "workflow_queue \<Rightarrow> json" where
  "format_queue q = JObject [
     (''name'', JString (q_name q)), (''concurrency'', j_opt_int (q_global_concurrency q)),
     (''worker_concurrency'', j_opt_int (map_option int (q_worker_concurrency q))),
     (''rate_limit_max'', j_opt_int (map_option rl_limit (q_rate_limit q))),
     (''rate_limit_period_sec'', case q_rate_limit q of None \<Rightarrow> JNull | Some r \<Rightarrow> as_secs_f64 (rl_period r)),
     (''priority_enabled'', JBool (q_priority_enabled q)), (''partition_queue'', JBool (q_partitioned q)),
     (''polling_interval_sec'', as_secs_f64 (q_base_polling_interval q))]"

definition format_version :: "version_info \<Rightarrow> json" where
  "format_version v = JObject [
     (''version_id'', JString (vi_version_id v)), (''version_name'', JString (vi_version_name v)),
     (''version_timestamp'', JInt (timestamp_millis (vi_version_timestamp v))),
     (''created_at'', JInt (timestamp_millis (vi_created_at v)))]"

definition group_value :: "(string \<times> string option) list \<Rightarrow> json" where
  "group_value g = JObject (map (\<lambda>(k, v). (k, j_opt_str v)) g)"

definition format_workflow_aggregate :: "workflow_aggregate \<Rightarrow> json" where
  "format_workflow_aggregate a = JObject [
     (''group'', group_value (wa_group a)), (''count'', j_opt_int (wa_count a)),
     (''min_created_at'', j_opt_int (wa_min_created_at a)), (''max_queue_wait_ms'', j_opt_int (wa_max_queue_wait_ms a)),
     (''max_total_latency_ms'', j_opt_int (wa_max_total_latency_ms a))]"

definition format_step_aggregate :: "step_aggregate \<Rightarrow> json" where
  "format_step_aggregate a = JObject [
     (''group'', group_value (sa_group a)), (''count'', j_opt_int (sa_count a)),
     (''max_duration_ms'', j_opt_int (sa_max_duration_ms a))]"

definition metric :: "string \<Rightarrow> string \<Rightarrow> int \<Rightarrow> json" where
  "metric metric_type nm v = JObject [(''metric_name'', JString nm), (''metric_type'', JString metric_type), (''value'', JFloat (of_int v))]"

section \<open>Filters\<close>

definition listed_filter :: "list_body \<Rightarrow> list_filter" where
  "listed_filter b = \<lparr>
     lf_workflow_ids = li_workflow_uuids b, lf_workflow_id_prefix = sol_vec (li_workflow_id_prefix b),
     lf_name = sol_vec (li_workflow_name b), lf_status = sol_vec (li_status b), lf_queue_name = sol_vec (li_queue_name b),
     lf_app_version = sol_vec (li_application_version b), lf_executor_ids = sol_vec (li_executor_id b),
     lf_authenticated_users = sol_vec (li_authenticated_user b), lf_forked_from = sol_vec (li_forked_from b),
     lf_parent_workflow_ids = sol_vec (li_parent_workflow_id b), lf_was_forked_from = li_was_forked_from b,
     lf_start_time_ms = map_option timestamp_millis (li_start_time b), lf_end_time_ms = map_option timestamp_millis (li_end_time b),
     lf_completed_after_ms = map_option timestamp_millis (li_completed_after b),
     lf_completed_before_ms = map_option timestamp_millis (li_completed_before b),
     lf_dequeued_after_ms = map_option timestamp_millis (li_dequeued_after b),
     lf_dequeued_before_ms = map_option timestamp_millis (li_dequeued_before b),
     lf_has_parent = li_has_parent b, lf_attributes = li_attributes b, lf_limit = li_limit b, lf_offset = li_offset b,
     lf_sort_desc = li_sort_desc b, lf_queues_only = li_queues_only b, lf_load_input = li_load_input b,
     lf_load_output = li_load_output b\<rparr>"

definition to_filter :: "bool \<Rightarrow> list_body \<Rightarrow> list_filter" where
  "to_filter force_queued b =
     (if force_queued
      then (let f = (listed_filter b)\<lparr>lf_queues_only := True, lf_load_output := False\<rparr> in
        if lf_status f = [] then f\<lparr>lf_status := [STATUS_PENDING, STATUS_ENQUEUED, STATUS_DELAYED]\<rparr> else f)
      else listed_filter b)"

definition requested_workflow_aggregates :: "workflow_aggregates_body \<Rightarrow> workflow_aggregate_query" where
  "requested_workflow_aggregates b = \<lparr>
     wq_by_status = wb_group_by_status b, wq_by_name = wb_group_by_name b, wq_by_queue_name = wb_group_by_queue_name b,
     wq_by_executor_id = wb_group_by_executor_id b, wq_by_app_version = wb_group_by_application_version b,
     wq_select_count = wb_select_count b, wq_select_min_created_at = wb_select_min_created_at b,
     wq_select_max_queue_wait_ms = wb_select_max_queue_wait_ms b, wq_select_max_total_latency_ms = wb_select_max_total_latency_ms b,
     wq_time_bucket_ms = wb_time_bucket_size_ms b, wq_status = sol_vec (wb_status b), wq_name = sol_vec (wb_name b),
     wq_app_version = sol_vec (wb_app_version b), wq_executor_ids = sol_vec (wb_executor_id b), wq_queue_names = sol_vec (wb_queue_name b),
     wq_workflow_id_prefix = sol_first (wb_workflow_id_prefix b),
     wq_start_time_ms = map_option timestamp_millis (wb_start_time b), wq_end_time_ms = map_option timestamp_millis (wb_end_time b),
     wq_completed_after_ms = map_option timestamp_millis (wb_completed_after b),
     wq_completed_before_ms = map_option timestamp_millis (wb_completed_before b),
     wq_dequeued_after_ms = map_option timestamp_millis (wb_dequeued_after b),
     wq_dequeued_before_ms = map_option timestamp_millis (wb_dequeued_before b), wq_limit = None\<rparr>"

text \<open>A request that selects nothing counts.\<close>

definition workflow_aggregates_query :: "workflow_aggregates_body \<Rightarrow> workflow_aggregate_query" where
  "workflow_aggregates_query b = (let q = requested_workflow_aggregates b in if wq_no_select q then q\<lparr>wq_select_count := True\<rparr> else q)"

definition step_aggregates_query :: "step_aggregates_body \<Rightarrow> step_aggregate_query" where
  "step_aggregates_query b = (let q = \<lparr>
       sq_by_function_name = sb_group_by_function_name b, sq_by_status = sb_group_by_status b,
       sq_select_count = sb_select_count b, sq_select_max_duration_ms = sb_select_max_duration_ms b,
       sq_time_bucket_ms = sb_time_bucket_size_ms b, sq_status = sol_vec (sb_status b), sq_function_name = sol_vec (sb_function_name b),
       sq_workflow_id_prefix = sol_first (sb_workflow_id_prefix b),
       sq_completed_after_ms = map_option timestamp_millis (sb_completed_after b),
       sq_completed_before_ms = map_option timestamp_millis (sb_completed_before b), sq_limit = None\<rparr> in
     if sq_no_select q then q\<lparr>sq_select_count := True\<rparr> else q)"

text \<open>The two queries behind the metrics of a window.\<close>

definition workflow_metrics_query :: "int \<Rightarrow> int \<Rightarrow> workflow_aggregate_query" where
  "workflow_metrics_query start until = \<lparr>
     wq_by_status = False, wq_by_name = True, wq_by_queue_name = False, wq_by_executor_id = False, wq_by_app_version = False,
     wq_select_count = True, wq_select_min_created_at = False, wq_select_max_queue_wait_ms = False,
     wq_select_max_total_latency_ms = False, wq_time_bucket_ms = None, wq_status = [], wq_name = [], wq_app_version = [],
     wq_executor_ids = [], wq_queue_names = [], wq_workflow_id_prefix = None, wq_start_time_ms = Some start,
     wq_end_time_ms = Some until, wq_completed_after_ms = None, wq_completed_before_ms = None, wq_dequeued_after_ms = None,
     wq_dequeued_before_ms = None, wq_limit = None\<rparr>"

definition step_metrics_query :: "int \<Rightarrow> int \<Rightarrow> step_aggregate_query" where
  "step_metrics_query start until = \<lparr>
     sq_by_function_name = True, sq_by_status = False, sq_select_count = True, sq_select_max_duration_ms = False,
     sq_time_bucket_ms = None, sq_status = [], sq_function_name = [], sq_workflow_id_prefix = None,
     sq_completed_after_ms = Some start, sq_completed_before_ms = Some until, sq_limit = None\<rparr>"

section \<open>The portable form of a workflow\<close>

definition encode_export :: "codec \<Rightarrow> wire \<Rightarrow> exported_workflow list \<Rightarrow> string result" where
  "encode_export C W exported = result_bind (wi_exports_to_vec W exported) (\<lambda>bytes. case wi_gzip_write W bytes of
       Inl e \<Rightarrow> Err (app (''failed to gzip exported workflow: '' @ e))
     | Inr gz \<Rightarrow> (case wi_gzip_finish W gz of
         Inl e \<Rightarrow> Err (app (''failed to finish gzip: '' @ e))
       | Inr compressed \<Rightarrow> Ok (base64_encode C compressed)))"

definition decode_export :: "codec \<Rightarrow> wire \<Rightarrow> string \<Rightarrow> string + exported_workflow list" where
  "decode_export C W serialized = (case base64_decode C serialized of
       Inl e \<Rightarrow> Inl (''Failed to base64 decode serialized workflow: '' @ e)
     | Inr compressed \<Rightarrow> (case wi_gunzip W compressed of
         Inl e \<Rightarrow> Inl (''Failed to decompress workflow data: '' @ e)
       | Inr bytes \<Rightarrow> (case wi_exports_from_slice W bytes of
           Inl e \<Rightarrow> Inl (''Failed to unmarshal workflow data: '' @ e)
         | Inr xs \<Rightarrow> Inr xs)))"

end
