(* ===== verification/Conductor.thy ===== *)
theory Conductor
  imports Conductor_Link Conductor_Wire
begin

text \<open>
  The handlers of the control plane's messages (\<open>src/conductor.rs\<close>).  A handler
  reads its request, calls the engine and makes the response it sends.  Its
  value is \<open>None\<close> if a call does not return; otherwise the response, or the error
  with which a message is dropped unanswered, together with the rows whose
  runs were launched and the store.
\<close>

section \<open>Definitions\<close>

text \<open>An engine as the handlers use it: its runtime and the parts of its provider.\<close>

record ('s, 'c, 'z) durable_engine =
  de_runtime :: "'s runtime"
  de_control :: "'s control_provider"
  de_schedules :: "'s schedule_provider"
  de_queries :: "'s query_provider"
  de_cron :: "('c, 'z) cron_crate"
  de_input :: "scheduled_input serde"
  de_codec :: codec
  de_wire :: wire

text \<open>
  What surrounds one message: the clock readings, fresh ids, and what others do
  between the provider calls of the operation it asks for.
\<close>

record 's handling =
  hg_now :: datetime
  hg_clock :: "nat \<Rightarrow> datetime"
  hg_clocks :: "nat \<Rightarrow> datetime \<times> datetime"
  hg_import_clock :: "string \<Rightarrow> datetime \<times> datetime"
  hg_mid :: "'s \<Rightarrow> 's"
  hg_each :: "nat \<Rightarrow> 's \<Rightarrow> 's"
  hg_after :: "'s \<Rightarrow> 's"
  hg_retry :: "nat \<Rightarrow> ('s \<Rightarrow> 's) \<times> ('s \<Rightarrow> 's)"
  hg_stop :: "nat \<Rightarrow> bool"
  hg_fresh :: string
  hg_hostname :: "string option"
  hg_dbos_version :: string

type_synonym 's reply = "(jmap result \<times> workflow_status list \<times> 's) option"

definition de_provider :: "('s, 'c, 'z) durable_engine \<Rightarrow> 's state_provider" where
  "de_provider E = rt_provider (de_runtime E)"

text \<open>\<open>serde_json::from_str(text)?\<close>: a request that cannot be read ends its handler.\<close>

definition request :: "'a result \<Rightarrow> ('a \<Rightarrow> 's reply) \<Rightarrow> 's \<Rightarrow> 's reply" where
  "request r handler s = (case r of Inl e \<Rightarrow> Some (Err e, [], s) | Inr req \<Rightarrow> handler req)"

definition respond :: "jmap \<Rightarrow> 's \<Rightarrow> 's reply" where
  "respond resp s = Some (Ok resp, [], s)"

text \<open>\<open>result.err().map(|e| format!(..))\<close>.\<close>

definition failure :: "string \<Rightarrow> 'a result \<Rightarrow> string option" where
  "failure context r = (case r of Inl e \<Rightarrow> Some (context @ '': '' @ error_to_string e) | Inr _ \<Rightarrow> None)"

text \<open>The response of an operation whose only result is whether it failed.\<close>

definition success_response :: "string \<Rightarrow> string \<Rightarrow> string option \<Rightarrow> jmap" where
  "success_response ty rid err = AList.update ''success'' (JBool (err = None)) (base_response ty rid err)"

text \<open>The response of a read: what it found under a key, or a default with the error.\<close>

definition read_response :: "string \<Rightarrow> string \<Rightarrow> string \<Rightarrow> string \<Rightarrow> json \<Rightarrow> json result \<Rightarrow> jmap" where
  "read_response ty rid key context missing r =
     AList.update key (case r of Inl _ \<Rightarrow> missing | Inr v \<Rightarrow> v) (base_response ty rid (failure context r))"

definition listed :: "('a \<Rightarrow> json) \<Rightarrow> 'a list result \<Rightarrow> json result" where
  "listed f r = result_bind r (\<lambda>xs. Ok (JArray (map f xs)))"

subsection \<open>Executor\<close>

definition handle_executor_info :: "('s, 'c, 'z) durable_engine \<Rightarrow> 's handling \<Rightarrow> conductor_config \<Rightarrow> string \<Rightarrow> 's \<Rightarrow> 's reply" where
  "handle_executor_info E H config rid s = respond (base_response ''executor_info'' rid None
     @ [(''executor_id'', JString (rt_executor_id (de_runtime E))), (''application_version'', JString (rt_app_version (de_runtime E)))]
     @ opt_member ''hostname'' JString (opt_filter (\<lambda>h. h \<noteq> []) (hg_hostname H))
     @ [(''dbos_version'', JString (hg_dbos_version H)), (''language'', JString ''rust'')]
     @ opt_member ''executor_metadata'' id (cf_executor_metadata config)) s"

definition handle_recovery :: "('s, 'c, 'z) durable_engine \<Rightarrow> 's handling \<Rightarrow> string \<Rightarrow> string \<Rightarrow> 's \<Rightarrow> 's reply" where
  "handle_recovery E H rid text' s = request (wi_recovery (de_wire E) text') (\<lambda>req.
     case engine_recover_pending_for (de_runtime E) (hg_stop H) (hg_clock H) (hg_each H) (rr_executor_ids req) s of
       (r, spawned, s') \<Rightarrow> Some (Ok (success_response ''recovery'' rid (failure ''failed to recover pending workflows'' r)), spawned, s')) s"

definition handle_exist_pending :: "('s, 'c, 'z) durable_engine \<Rightarrow> string \<Rightarrow> string \<Rightarrow> 's \<Rightarrow> 's reply" where
  "handle_exist_pending E rid text' s = request (wi_exist_pending (de_wire E) text') (\<lambda>req.
     let r = engine_list_workflows (de_provider E) (list_filter_default\<lparr>lf_status := [STATUS_PENDING],
           lf_executor_ids := [ep_executor_id req], lf_app_version := [ep_application_version req], lf_limit := Some 1\<rparr>) s in
     respond (read_response ''exist_pending_workflows'' rid ''exist'' ''failed to check for pending workflows'' (JBool False)
       (result_bind r (\<lambda>rows. Ok (JBool (rows \<noteq> []))))) s) s"

subsection \<open>Workflows\<close>

datatype ids_action = Cancel_Ids | Resume_Ids | Delete_Ids

definition requested_ids :: "ids_request \<Rightarrow> string list" where
  "requested_ids req = (if ir_workflow_ids req = [] \<and> ir_workflow_id req \<noteq> [] then [ir_workflow_id req] else ir_workflow_ids req)"

definition perform_ids :: "('s, 'c, 'z) durable_engine \<Rightarrow> 's handling \<Rightarrow> ids_request \<Rightarrow> ids_action \<Rightarrow> 's \<Rightarrow> string \<times> unit result \<times> 's" where
  "perform_ids E H req action s = (case action of
       Cancel_Ids \<Rightarrow> (''cancel'', engine_cancel_workflows_with_options (de_control E) (hg_now H) (requested_ids req)
         \<lparr>co_cancel_children = ir_cancel_children req\<rparr> s)
     | Resume_Ids \<Rightarrow> (''resume'', case (case ir_queue_name req of
           Some queue \<Rightarrow> engine_resume_workflows_on (de_provider E) (de_control E) (hg_now H) (hg_clock H) (hg_each H) (hg_after H)
             (requested_ids req) queue s
         | None \<Rightarrow> engine_resume_workflows (de_provider E) (de_control E) (hg_now H) (hg_clock H) (hg_each H) (hg_after H)
             (requested_ids req) s) of (r, s') \<Rightarrow> (result_bind r (\<lambda>_. Ok ()), s'))
     | Delete_Ids \<Rightarrow> (''delete'', engine_delete_workflows (de_provider E) (requested_ids req) (ir_delete_children req) s))"

definition handle_ids :: "('s, 'c, 'z) durable_engine \<Rightarrow> 's handling \<Rightarrow> string \<Rightarrow> string \<Rightarrow> ids_action \<Rightarrow> 's \<Rightarrow> 's reply" where
  "handle_ids E H rid text' action s = request (wi_ids (de_wire E) text') (\<lambda>req. case perform_ids E H req action s of
     (ty, r, s') \<Rightarrow> respond (success_response ty rid (failure (''failed to '' @ ty @ '' workflows'') r)) s') s"

definition fork_options :: "fork_body \<Rightarrow> workflow_options" where
  "fork_options body = workflow_options_default\<lparr>wo_workflow_id := fb_new_workflow_id body, wo_app_version := fb_application_version body,
     wo_queue := fb_queue_name body, wo_partition_key := fb_queue_partition_key body\<rparr>"

definition handle_fork :: "('s, 'c, 'z) durable_engine \<Rightarrow> 's handling \<Rightarrow> string \<Rightarrow> string \<Rightarrow> 's \<Rightarrow> 's reply" where
  "handle_fork E H rid text' s = request (wi_fork (de_wire E) text') (\<lambda>body.
     if fb_start_step body < 0 \<or> fb_start_step body > (2 ^ 31 - 1) div 2
     then respond (base_response ''fork_workflow'' rid (Some ''invalid start_step'')) s
     else case engine_fork_workflow (de_control E) (hg_now H) (hg_fresh H) (fb_workflow_id body) (fb_start_step body) (fork_options body) s of
       (r, s') \<Rightarrow> respond (base_response ''fork_workflow'' rid (failure ''failed to fork workflow'' r)
         @ (case r of Inl _ \<Rightarrow> [] | Inr h \<Rightarrow> [(''new_workflow_id'', JString (handle_id h))])) s') s"

definition handle_list :: "('s, 'c, 'z) durable_engine \<Rightarrow> string \<Rightarrow> string \<Rightarrow> bool \<Rightarrow> 's \<Rightarrow> 's reply" where
  "handle_list E rid text' queued s = request (wi_list (de_wire E) text') (\<lambda>body.
     respond (read_response (if queued then ''list_queued_workflows'' else ''list_workflows'') rid ''output'' ''failed to list workflows'' (JArray [])
       (listed (format_list_workflow (de_codec E)) (engine_list_workflows (de_provider E) (to_filter queued body) s))) s) s"

text \<open>A member that the response has only when the read found something.\<close>

definition found_response :: "string \<Rightarrow> string \<Rightarrow> string \<Rightarrow> json option result \<Rightarrow> jmap" where
  "found_response ty rid context r = base_response ty rid (failure context r)
     @ (case r of Inl _ \<Rightarrow> [] | Inr v \<Rightarrow> opt_member ''output'' id v)"

definition handle_get_workflow :: "('s, 'c, 'z) durable_engine \<Rightarrow> string \<Rightarrow> string \<Rightarrow> 's \<Rightarrow> 's reply" where
  "handle_get_workflow E rid text' s = request (wi_get_workflow (de_wire E) text') (\<lambda>req.
     respond (found_response ''get_workflow'' rid ''failed to get workflow'' (result_bind
       (engine_list_workflows (de_provider E) (list_filter_default\<lparr>lf_workflow_ids := [gw_workflow_id req],
          lf_load_input := gw_load_input req, lf_load_output := gw_load_output req\<rparr>) s)
       (\<lambda>rows. Ok (case rows of [] \<Rightarrow> None | row # _ \<Rightarrow> Some (format_list_workflow (de_codec E) row))))) s) s"

definition handle_list_steps :: "('s, 'c, 'z) durable_engine \<Rightarrow> string \<Rightarrow> string \<Rightarrow> 's \<Rightarrow> 's reply" where
  "handle_list_steps E rid text' s = request (wi_list_steps (de_wire E) text') (\<lambda>req.
     respond (found_response ''list_steps'' rid ''failed to list workflow steps'' (result_bind
       (listed (format_step (de_codec E)) (engine_get_workflow_steps_with_options (de_control E) (st_workflow_id req)
          \<lparr>so_limit = st_limit req, so_offset = st_offset req, so_load_output = st_load_output req\<rparr> s)) (\<lambda>v. Ok (Some v)))) s) s"

subsection \<open>Schedules\<close>

definition handle_list_schedules :: "('s, 'c, 'z) durable_engine \<Rightarrow> string \<Rightarrow> string \<Rightarrow> 's \<Rightarrow> 's reply" where
  "handle_list_schedules E rid text' s = request (wi_list_schedules (de_wire E) text') (\<lambda>b.
     respond (read_response ''list_schedules'' rid ''output'' ''failed to list schedules'' (JArray [])
       (listed (\<lambda>sched. format_schedule (de_codec E) (de_cron E) sched (unwrap_or True (lb_load_context b)))
         (engine_list_schedules (de_schedules E) \<lparr>sf_statuses = map schedule_status_parse (sol_vec (lb_status b)),
            sf_workflow_names = sol_vec (lb_workflow_name b), sf_name_prefixes = sol_vec (lb_schedule_name_prefix b)\<rparr> s))) s) s"

definition about_schedule :: "string \<Rightarrow> string \<Rightarrow> string" where
  "about_schedule verb nm = ''failed to '' @ verb @ '' schedule '' @ [CHR 0x27] @ nm @ [CHR 0x27]"

definition handle_get_schedule :: "('s, 'c, 'z) durable_engine \<Rightarrow> string \<Rightarrow> string \<Rightarrow> 's \<Rightarrow> 's reply" where
  "handle_get_schedule E rid text' s = request (wi_get_schedule (de_wire E) text') (\<lambda>req.
     respond (read_response ''get_schedule'' rid ''output'' (about_schedule ''get'' (gs_schedule_name req)) JNull
       (result_bind (engine_get_schedule (de_schedules E) (gs_schedule_name req) s) (\<lambda>found. Ok (case found of
            None \<Rightarrow> JNull
          | Some sched \<Rightarrow> format_schedule (de_codec E) (de_cron E) sched (unwrap_or True (gs_load_context req)))))) s) s"

definition handle_schedule_toggle :: "('s, 'c, 'z) durable_engine \<Rightarrow> string \<Rightarrow> string \<Rightarrow> bool \<Rightarrow> 's \<Rightarrow> 's reply" where
  "handle_schedule_toggle E rid text' pause s = request (wi_schedule_name (de_wire E) text') (\<lambda>nm.
     case (if pause then (''pause_schedule'', ''pause'', engine_pause_schedule (de_schedules E) nm s)
           else (''resume_schedule'', ''resume'', engine_resume_schedule (de_schedules E) nm s)) of
       (ty, verb, r, s') \<Rightarrow> respond (success_response ty rid (failure (about_schedule verb nm) r)) s') s"

definition quoted_time :: "string \<Rightarrow> string \<Rightarrow> string \<Rightarrow> string" where
  "quoted_time which t e = ''failed to parse '' @ which @ '' time '' @ [CHR 0x27] @ t @ [CHR 0x27] @ '': '' @ e"

definition ids_response :: "string \<Rightarrow> string option \<Rightarrow> string list \<Rightarrow> jmap" where
  "ids_response rid err ids = AList.update ''workflow_ids'' (JArray (map JString ids)) (base_response ''backfill_schedule'' rid err)"

definition handle_backfill_schedule :: "('s, 'c, 'z) durable_engine \<Rightarrow> 's handling \<Rightarrow> string \<Rightarrow> string \<Rightarrow> 's \<Rightarrow> 's reply" where
  "handle_backfill_schedule E H rid text' s = request (wi_backfill (de_wire E) text') (\<lambda>req.
     case (wi_parse_rfc3339 (de_wire E) (bf_start req), wi_parse_rfc3339 (de_wire E) (bf_end req)) of
       (Inl e, _) \<Rightarrow> respond (ids_response rid (Some (quoted_time ''start'' (bf_start req) e)) []) s
     | (Inr _, Inl e) \<Rightarrow> respond (ids_response rid (Some (quoted_time ''end'' (bf_end req) e)) []) s
     | (Inr start, Inr until) \<Rightarrow>
         map_option (\<lambda>(r, rows, s'). (Ok (ids_response rid (failure (about_schedule ''backfill'' (bf_schedule_name req)) r)
             (case r of Inl _ \<Rightarrow> [] | Inr ids \<Rightarrow> ids)), rows, s'))
           (engine_backfill_schedule (de_runtime E) (de_cron E) (de_schedules E) (de_input E) (hg_clocks H) (hg_each H)
             (bf_schedule_name req) start until s)) s"

definition handle_trigger_schedule :: "('s, 'c, 'z) durable_engine \<Rightarrow> 's handling \<Rightarrow> string \<Rightarrow> string \<Rightarrow> 's \<Rightarrow> 's reply" where
  "handle_trigger_schedule E H rid text' s = request (wi_schedule_name (de_wire E) text') (\<lambda>nm.
     case engine_trigger_schedule (de_runtime E) (de_cron E) (de_schedules E) (de_input E) (hg_now H) (hg_clocks H) (hg_mid H) (hg_retry H)
       (hg_each H) (hg_fresh H) nm s of
       (r, s') \<Rightarrow> Some (Ok (read_response ''trigger_schedule'' rid ''workflow_id'' (about_schedule ''trigger'' nm) JNull
           (result_bind r (\<lambda>(h, _). Ok (JString (handle_id h))))),
         (case r of Inr (_, Some row) \<Rightarrow> [row] | _ \<Rightarrow> []), s')) s"

subsection \<open>Registry and analytics\<close>

definition handle_list_queues :: "('s, 'c, 'z) durable_engine \<Rightarrow> string \<Rightarrow> 's \<Rightarrow> 's reply" where
  "handle_list_queues E rid s = respond (read_response ''list_queues'' rid ''output'' ''failed to list queues'' (JArray [])
     (listed format_queue (engine_list_queues (de_control E) s))) s"

definition handle_get_queue :: "('s, 'c, 'z) durable_engine \<Rightarrow> string \<Rightarrow> string \<Rightarrow> 's \<Rightarrow> 's reply" where
  "handle_get_queue E rid text' s = request (wi_queue_name (de_wire E) text') (\<lambda>nm.
     respond (read_response ''get_queue'' rid ''output'' ''failed to get queue'' JNull
       (result_bind (engine_list_queues (de_control E) s) (\<lambda>qs. Ok (case List.find (\<lambda>q. q_name q = nm) qs of
          None \<Rightarrow> JNull | Some q \<Rightarrow> format_queue q)))) s) s"

definition handle_list_versions :: "('s, 'c, 'z) durable_engine \<Rightarrow> string \<Rightarrow> 's \<Rightarrow> 's reply" where
  "handle_list_versions E rid s = respond (read_response ''list_application_versions'' rid ''output''
     ''failed to list application versions'' (JArray []) (listed format_version (engine_list_application_versions (de_control E) s))) s"

definition handle_set_latest_version :: "('s, 'c, 'z) durable_engine \<Rightarrow> 's handling \<Rightarrow> string \<Rightarrow> string \<Rightarrow> 's \<Rightarrow> 's reply" where
  "handle_set_latest_version E H rid text' s = request (wi_version_name (de_wire E) text') (\<lambda>nm.
     case engine_set_latest_application_version (de_control E) (hg_now H) nm s of
       (r, s') \<Rightarrow> respond (success_response ''set_latest_application_version'' rid
         (failure (''failed to set latest application version '' @ [CHR 0x27] @ nm @ [CHR 0x27]) r)) s') s"

definition handle_workflow_aggregates :: "('s, 'c, 'z) durable_engine \<Rightarrow> string \<Rightarrow> string \<Rightarrow> 's \<Rightarrow> 's reply" where
  "handle_workflow_aggregates E rid text' s = request (wi_workflow_aggregates (de_wire E) text') (\<lambda>b.
     respond (read_response ''get_workflow_aggregates'' rid ''output'' ''failed to get workflow aggregates'' (JArray [])
       (listed format_workflow_aggregate (engine_get_workflow_aggregates (de_queries E) (workflow_aggregates_query b) s))) s) s"

definition handle_step_aggregates :: "('s, 'c, 'z) durable_engine \<Rightarrow> string \<Rightarrow> string \<Rightarrow> 's \<Rightarrow> 's reply" where
  "handle_step_aggregates E rid text' s = request (wi_step_aggregates (de_wire E) text') (\<lambda>b.
     respond (read_response ''get_step_aggregates'' rid ''output'' ''failed to get step aggregates'' (JArray [])
       (listed format_step_aggregate (engine_get_step_aggregates (de_queries E) (step_aggregates_query b) s))) s) s"

definition handle_get_events :: "('s, 'c, 'z) durable_engine \<Rightarrow> string \<Rightarrow> string \<Rightarrow> 's \<Rightarrow> 's reply" where
  "handle_get_events E rid text' s = request (wi_workflow_id (de_wire E) text') (\<lambda>i.
     respond (read_response ''get_workflow_events'' rid ''events'' ''failed to get workflow events'' (JArray [])
       (listed (\<lambda>(k, v). JObject [(''key'', JString k), (''value'', JString (json_to_string (de_codec E) v))])
         (engine_list_workflow_events (de_queries E) i s))) s) s"

definition handle_get_notifications :: "('s, 'c, 'z) durable_engine \<Rightarrow> string \<Rightarrow> string \<Rightarrow> 's \<Rightarrow> 's reply" where
  "handle_get_notifications E rid text' s = request (wi_workflow_id (de_wire E) text') (\<lambda>i.
     respond (read_response ''get_workflow_notifications'' rid ''notifications'' ''failed to get workflow notifications'' (JArray [])
       (listed (\<lambda>n. JObject [(''topic'', j_opt_str (ni_topic n)), (''message'', JString (json_to_string (de_codec E) (ni_message n))),
            (''created_at_epoch_ms'', JInt (ni_created_at_ms n)), (''consumed'', JBool (ni_consumed n))])
         (engine_list_workflow_notifications (de_queries E) i s))) s) s"

definition handle_get_streams :: "('s, 'c, 'z) durable_engine \<Rightarrow> string \<Rightarrow> string \<Rightarrow> 's \<Rightarrow> 's reply" where
  "handle_get_streams E rid text' s = request (wi_workflow_id (de_wire E) text') (\<lambda>i.
     respond (read_response ''get_workflow_streams'' rid ''streams'' ''failed to get workflow streams'' (JArray [])
       (listed (\<lambda>(k, vs). JObject [(''key'', JString k), (''values'', JArray (map (\<lambda>v. JString (json_to_string (de_codec E) v)) vs))])
         (engine_list_workflow_streams (de_queries E) i s))) s) s"

definition named_counts :: "string \<Rightarrow> string \<Rightarrow> ((string \<times> string option) list \<times> int option) list \<Rightarrow> json list" where
  "named_counts metric_type dimension rows = List.map_filter (\<lambda>(g, count). case (map_of g dimension, count) of
     (Some (Some nm), Some n) \<Rightarrow> Some (metric metric_type nm n) | _ \<Rightarrow> None) rows"

definition collected_metrics :: "('s, 'c, 'z) durable_engine \<Rightarrow> int \<Rightarrow> int \<Rightarrow> 's \<Rightarrow> json list result" where
  "collected_metrics E start until s =
     result_bind (engine_get_workflow_aggregates (de_queries E) (workflow_metrics_query start until) s) (\<lambda>ws.
     result_bind (engine_get_step_aggregates (de_queries E) (step_metrics_query start until) s) (\<lambda>ss.
       Ok (named_counts ''workflow_count'' ''name'' (map (\<lambda>a. (wa_group a, wa_count a)) ws)
         @ named_counts ''step_count'' ''function_name'' (map (\<lambda>a. (sa_group a, sa_count a)) ss))))"

definition metrics_response :: "string \<Rightarrow> string option \<Rightarrow> json \<Rightarrow> jmap" where
  "metrics_response rid err v = AList.update ''metrics'' v (base_response ''get_metrics'' rid err)"

definition handle_get_metrics :: "('s, 'c, 'z) durable_engine \<Rightarrow> string \<Rightarrow> string \<Rightarrow> 's \<Rightarrow> 's reply" where
  "handle_get_metrics E rid text' s = request (wi_metrics (de_wire E) text') (\<lambda>req.
     if gm_metric_class req \<noteq> ''workflow_step_count''
     then respond (metrics_response rid (Some (''Unexpected metric class: '' @ gm_metric_class req)) JNull) s
     else case (wi_parse_rfc3339 (de_wire E) (gm_start_time req), wi_parse_rfc3339 (de_wire E) (gm_end_time req)) of
       (Inr start, Inr until) \<Rightarrow> (let r = collected_metrics E (timestamp_millis start) (timestamp_millis until) s in
          respond (metrics_response rid (failure ''Exception encountered when getting metrics'' r)
            (case r of Inl _ \<Rightarrow> JNull | Inr ms \<Rightarrow> JArray ms)) s)
     | (Inl e, _) \<Rightarrow> respond (metrics_response rid (Some (''invalid start_time: '' @ e)) JNull) s
     | (Inr _, Inl e) \<Rightarrow> respond (metrics_response rid (Some (''invalid end_time: '' @ e)) JNull) s) s"

subsection \<open>Retention and transfer\<close>

definition retention_gc :: "('s, 'c, 'z) durable_engine \<Rightarrow> retention_body \<Rightarrow> 's \<Rightarrow> (string option \<times> 's) option" where
  "retention_gc E b s = (if rb_gc_cutoff_epoch_ms b \<noteq> None \<or> rb_gc_rows_threshold b \<noteq> None
     then map_option (\<lambda>(r, s'). (failure ''failed to garbage collect workflows'' r, s'))
       (engine_garbage_collect (de_queries E) (rb_gc_cutoff_epoch_ms b) (rb_gc_rows_threshold b) s)
     else Some (None, s))"

text \<open>\<open>hg_mid\<close> happens between the sweep and the timeout, \<open>hg_after\<close> between the listing and the cancellation of the latter.\<close>

definition handle_retention :: "('s, 'c, 'z) durable_engine \<Rightarrow> 's handling \<Rightarrow> string \<Rightarrow> string \<Rightarrow> 's \<Rightarrow> 's reply" where
  "handle_retention E H rid text' s = request (wi_retention (de_wire E) text') (\<lambda>b.
     Option.bind (retention_gc E b s) (\<lambda>(err, s').
       case (err, rb_timeout_cutoff_epoch_ms b) of
         (None, Some cutoff) \<Rightarrow> (case engine_cancel_all_before (de_provider E) (hg_now H) (hg_after H) cutoff (hg_mid H s') of
            (r, s'') \<Rightarrow> respond (success_response ''retention'' rid (failure ''failed to timeout workflows'' r)) s'')
       | _ \<Rightarrow> respond (success_response ''retention'' rid err) s')) s"

definition handle_export_workflow :: "('s, 'c, 'z) durable_engine \<Rightarrow> string \<Rightarrow> string \<Rightarrow> 's \<Rightarrow> 's reply" where
  "handle_export_workflow E rid text' s = request (wi_export (de_wire E) text') (\<lambda>req.
     Option.bind (engine_export_workflow (de_queries E) (ew_workflow_id req) (ew_export_children req) s) (\<lambda>r.
       let serialized = result_bind r (encode_export (de_codec E) (de_wire E)) in
       respond (base_response ''export_workflow'' rid (failure (case r of
            Inl _ \<Rightarrow> ''Exception encountered when exporting workflow '' @ ew_workflow_id req
          | Inr _ \<Rightarrow> ''failed to serialize exported workflow'') serialized)
         @ (case serialized of Inl _ \<Rightarrow> [] | Inr t \<Rightarrow> [(''serialized_workflow'', JString t)])) s)) s"

definition handle_import_workflow :: "('s, 'c, 'z) durable_engine \<Rightarrow> 's handling \<Rightarrow> string \<Rightarrow> string \<Rightarrow> 's \<Rightarrow> 's reply" where
  "handle_import_workflow E H rid text' s = request (wi_import (de_wire E) text') (\<lambda>serialized.
     case decode_export (de_codec E) (de_wire E) serialized of
       Inl e \<Rightarrow> respond (success_response ''import_workflow'' rid (Some e)) s
     | Inr xs \<Rightarrow> (case engine_import_workflow (de_queries E) (hg_import_clock H) xs s of
         (r, s') \<Rightarrow> respond (success_response ''import_workflow'' rid (failure ''Exception encountered when importing workflow'' r)) s')) s"

definition panic_detail :: "panic_payload \<Rightarrow> string" where
  "panic_detail p = (case p of Panic_Str s \<Rightarrow> s | Panic_String s \<Rightarrow> s | Panic_Other \<Rightarrow> ''unknown'')"

definition handle_alert :: "wire \<Rightarrow> conductor_config \<Rightarrow> string \<Rightarrow> string \<Rightarrow> 's \<Rightarrow> 's reply" where
  "handle_alert W config rid text' s = request (wi_alert W text') (\<lambda>req.
     respond (success_response ''alert'' rid (case cf_alert_handler config of
         None \<Rightarrow> None
       | Some handler \<Rightarrow> map_option (\<lambda>p. ''panic in alert handler: '' @ panic_detail p)
           (handler (ar_name req) (ar_message req) (ar_metadata req)))) s) s"

subsection \<open>Dispatch\<close>

definition unknown_message :: "string \<Rightarrow> string \<Rightarrow> 's \<Rightarrow> 's reply" where
  "unknown_message ty rid s = respond (base_response ty rid (Some ''Unknown message type'')) s"

definition dispatch_message :: "('s, 'c, 'z) durable_engine \<Rightarrow> 's handling \<Rightarrow> conductor_config \<Rightarrow> string \<Rightarrow> string \<Rightarrow> string \<Rightarrow> 's \<Rightarrow> 's reply" where
  "dispatch_message E H config ty rid text' s =
     (if ty = ''executor_info'' then handle_executor_info E H config rid s
      else if ty = ''recovery'' then handle_recovery E H rid text' s
      else if ty = ''exist_pending_workflows'' then handle_exist_pending E rid text' s
      else if ty = ''cancel'' then handle_ids E H rid text' Cancel_Ids s
      else if ty = ''resume'' then handle_ids E H rid text' Resume_Ids s
      else if ty = ''delete'' then handle_ids E H rid text' Delete_Ids s
      else if ty = ''fork_workflow'' then handle_fork E H rid text' s
      else if ty = ''list_workflows'' then handle_list E rid text' False s
      else if ty = ''list_queued_workflows'' then handle_list E rid text' True s
      else if ty = ''get_workflow'' then handle_get_workflow E rid text' s
      else if ty = ''list_steps'' then handle_list_steps E rid text' s
      else if ty = ''list_schedules'' then handle_list_schedules E rid text' s
      else if ty = ''get_schedule'' then handle_get_schedule E rid text' s
      else if ty = ''pause_schedule'' then handle_schedule_toggle E rid text' True s
      else if ty = ''resume_schedule'' then handle_schedule_toggle E rid text' False s
      else if ty = ''backfill_schedule'' then handle_backfill_schedule E H rid text' s
      else if ty = ''trigger_schedule'' then handle_trigger_schedule E H rid text' s
      else if ty = ''list_queues'' then handle_list_queues E rid s
      else if ty = ''get_queue'' then handle_get_queue E rid text' s
      else if ty = ''list_application_versions'' then handle_list_versions E rid s
      else if ty = ''set_latest_application_version'' then handle_set_latest_version E H rid text' s
      else if ty = ''get_workflow_aggregates'' then handle_workflow_aggregates E rid text' s
      else if ty = ''get_step_aggregates'' then handle_step_aggregates E rid text' s
      else if ty = ''get_workflow_events'' then handle_get_events E rid text' s
      else if ty = ''get_workflow_notifications'' then handle_get_notifications E rid text' s
      else if ty = ''get_workflow_streams'' then handle_get_streams E rid text' s
      else if ty = ''get_metrics'' then handle_get_metrics E rid text' s
      else if ty = ''retention'' then handle_retention E H rid text' s
      else if ty = ''export_workflow'' then handle_export_workflow E rid text' s
      else if ty = ''import_workflow'' then handle_import_workflow E H rid text' s
      else if ty = ''alert'' then handle_alert (de_wire E) config rid text' s
      else unknown_message ty rid s)"

definition handle_message :: "('s, 'c, 'z) durable_engine \<Rightarrow> 's handling \<Rightarrow> conductor_config \<Rightarrow> string \<Rightarrow> 's \<Rightarrow> 's reply" where
  "handle_message E H config text' s = request (wi_base (de_wire E) text') (\<lambda>base.
     dispatch_message E H config (bm_msg_type base) (bm_request_id base) text' s) s"

text \<open>
  A response becomes a frame; \<open>broken\<close> is the transport's error, if writing fails.  A text
  frame is answered by at most one frame.
\<close>

definition send_response :: "codec \<Rightarrow> string option \<Rightarrow> jmap \<Rightarrow> unit result \<times> message_frame list" where
  "send_response C broken resp = (case broken of
       None \<Rightarrow> (Ok (), [Text (json_to_string C (JObject resp))])
     | Some e \<Rightarrow> (Err (app (''failed to send conductor response: '' @ e)), []))"

definition answer_text :: "('s, 'c, 'z) durable_engine \<Rightarrow> 's handling \<Rightarrow> conductor_config \<Rightarrow> string option \<Rightarrow> string \<Rightarrow> 's
  \<Rightarrow> (unit result \<times> message_frame list \<times> workflow_status list \<times> 's) option" where
  "answer_text E H config broken text' s = map_option (\<lambda>(r, rows, s'). case r of
       Inl e \<Rightarrow> (Err e, [], rows, s')
     | Inr resp \<Rightarrow> (let (sent, frames) = send_response (de_codec E) broken resp in (sent, frames, rows, s')))
     (handle_message E H config text' s)"

section \<open>Lemmas\<close>

text \<open>
  A response that belongs to its request: it has the request's type and id, and says
  success exactly when it carries no error.
\<close>

definition belongs :: "string \<Rightarrow> string \<Rightarrow> jmap \<Rightarrow> bool" where
  "belongs ty rid resp \<longleftrightarrow> map_of resp ''type'' = Some (JString ty) \<and> map_of resp ''request_id'' = Some (JString rid)
     \<and> (\<forall>b. map_of resp ''success'' = Some (JBool b) \<longrightarrow> b = (map_of resp ''error_message'' = None))"

definition unending :: "string list" where
  "unending = [''backfill_schedule'', ''retention'', ''export_workflow'']"

text \<open>Whether the request of a message of a kind can be read.\<close>

definition readable :: "wire \<Rightarrow> string \<Rightarrow> string \<Rightarrow> bool" where
  "readable W ty t = unwrap_or True (map_of [
     (''recovery'', \<not> isl (wi_recovery W t)), (''exist_pending_workflows'', \<not> isl (wi_exist_pending W t)),
     (''cancel'', \<not> isl (wi_ids W t)), (''resume'', \<not> isl (wi_ids W t)), (''delete'', \<not> isl (wi_ids W t)),
     (''fork_workflow'', \<not> isl (wi_fork W t)), (''list_workflows'', \<not> isl (wi_list W t)),
     (''list_queued_workflows'', \<not> isl (wi_list W t)), (''get_workflow'', \<not> isl (wi_get_workflow W t)),
     (''list_steps'', \<not> isl (wi_list_steps W t)), (''list_schedules'', \<not> isl (wi_list_schedules W t)),
     (''get_schedule'', \<not> isl (wi_get_schedule W t)), (''pause_schedule'', \<not> isl (wi_schedule_name W t)),
     (''resume_schedule'', \<not> isl (wi_schedule_name W t)), (''backfill_schedule'', \<not> isl (wi_backfill W t)),
     (''trigger_schedule'', \<not> isl (wi_schedule_name W t)), (''get_queue'', \<not> isl (wi_queue_name W t)),
     (''set_latest_application_version'', \<not> isl (wi_version_name W t)),
     (''get_workflow_aggregates'', \<not> isl (wi_workflow_aggregates W t)),
     (''get_step_aggregates'', \<not> isl (wi_step_aggregates W t)), (''get_workflow_events'', \<not> isl (wi_workflow_id W t)),
     (''get_workflow_notifications'', \<not> isl (wi_workflow_id W t)), (''get_workflow_streams'', \<not> isl (wi_workflow_id W t)),
     (''get_metrics'', \<not> isl (wi_metrics W t)), (''retention'', \<not> isl (wi_retention W t)),
     (''export_workflow'', \<not> isl (wi_export W t)), (''import_workflow'', \<not> isl (wi_import W t)),
     (''alert'', \<not> isl (wi_alert W t))] ty)"

definition answers :: "bool \<Rightarrow> string \<Rightarrow> string \<Rightarrow> 's \<Rightarrow> 's reply \<Rightarrow> bool" where
  "answers read ty rid s reply \<longleftrightarrow> (case reply of
       None \<Rightarrow> read \<and> ty \<in> set unending
     | Some (Inl e, rows, s') \<Rightarrow> \<not> read \<and> rows = [] \<and> s' = s
     | Some (Inr resp, rows, s') \<Rightarrow> read \<and> belongs ty rid resp)"

lemma base_lookups [simp]:
  "map_of (base_response ty rid err) ''type'' = Some (JString ty)"
  "map_of (base_response ty rid err) ''request_id'' = Some (JString rid)"
  "map_of (base_response ty rid err) ''error_message'' = map_option JString err"
  "k \<notin> {''type'', ''request_id'', ''error_message''} \<Longrightarrow> map_of (base_response ty rid err) k = None"
  by (auto simp: base_response_def split: option.split)

lemma belongs_success [simp]: "belongs ty rid (success_response ty rid err)"
  by (simp add: belongs_def success_response_def update_conv)

lemma belongs_base:
  assumes "set (map fst ms) \<inter> {''type'', ''request_id'', ''success'', ''error_message''} = {}"
  shows "belongs ty rid (base_response ty rid err @ ms)"
proof -
  have "map_of ms k = None" if "k \<in> {''type'', ''request_id'', ''success'', ''error_message''}" for k
    using assms that unfolding map_of_eq_None_iff set_map by blast
  then show ?thesis by (simp add: belongs_def map_add_def)
qed

lemma belongs_update: "k \<notin> {''type'', ''request_id'', ''success'', ''error_message''} \<Longrightarrow> belongs ty rid (AList.update k v (base_response ty rid err))"
  by (auto simp: belongs_def update_conv)

lemmas belongs_intros = belongs_success belongs_update belongs_base [where ms = "[]", simplified]

lemma answers_respond [simp]: "answers True ty rid s (respond resp s') = belongs ty rid resp"
  by (simp add: answers_def respond_def)

lemma answers_request: "(\<And>req. r = Inr req \<Longrightarrow> answers True ty rid s (handler req)) \<Longrightarrow> answers (\<not> isl r) ty rid s (request r handler s)"
  by (cases r) (simp_all add: answers_def request_def)

lemma answers_Some [simp]: "answers True ty rid s (Some (Inr resp, rows, s')) = belongs ty rid resp"
  by (simp add: answers_def)

lemma answers_bind: "ty \<in> set unending \<Longrightarrow> (\<And>x. m = Some x \<Longrightarrow> answers True ty rid s (f x)) \<Longrightarrow> answers True ty rid s (Option.bind m f)"
  by (cases m) (simp_all add: answers_def)

lemma answers_map: "ty \<in> set unending \<Longrightarrow> (\<And>x. m = Some x \<Longrightarrow> answers True ty rid s (Some (f x))) \<Longrightarrow> answers True ty rid s (map_option f m)"
  by (cases m) (simp_all add: answers_def)

lemma belongs_found [simp]: "belongs ty rid (found_response ty rid context r)"
  unfolding found_response_def by (rule belongs_base) (auto simp: opt_member_def split: sum.splits option.splits)

lemma belongs_read: "k \<notin> {''type'', ''request_id'', ''success'', ''error_message''} \<Longrightarrow> belongs ty rid (read_response ty rid k context missing r)"
  unfolding read_response_def by (rule belongs_update)

lemma operations_answer:
  "answers (\<not> isl (wi_recovery (de_wire E) t)) ''recovery'' rid s (handle_recovery E H rid t s)"
  "answers (\<not> isl (wi_ids (de_wire E) t)) ''cancel'' rid s (handle_ids E H rid t Cancel_Ids s)"
  "answers (\<not> isl (wi_ids (de_wire E) t)) ''resume'' rid s (handle_ids E H rid t Resume_Ids s)"
  "answers (\<not> isl (wi_ids (de_wire E) t)) ''delete'' rid s (handle_ids E H rid t Delete_Ids s)"
  "answers (\<not> isl (wi_schedule_name (de_wire E) t)) ''pause_schedule'' rid s (handle_schedule_toggle E rid t True s)"
  "answers (\<not> isl (wi_schedule_name (de_wire E) t)) ''resume_schedule'' rid s (handle_schedule_toggle E rid t False s)"
  "answers (\<not> isl (wi_version_name (de_wire E) t)) ''set_latest_application_version'' rid s (handle_set_latest_version E H rid t s)"
  "answers (\<not> isl (wi_import (de_wire E) t)) ''import_workflow'' rid s (handle_import_workflow E H rid t s)"
  "answers (\<not> isl (wi_alert W t)) ''alert'' rid s (handle_alert W config rid t s)"
  by (auto simp: handle_recovery_def handle_ids_def perform_ids_def handle_schedule_toggle_def handle_set_latest_version_def
      handle_import_workflow_def handle_alert_def intro!: answers_request split: prod.split sum.split)

lemma reads_answer:
  "answers True ''executor_info'' rid s (handle_executor_info E H config rid s)"
  "answers (\<not> isl (wi_exist_pending (de_wire E) t)) ''exist_pending_workflows'' rid s (handle_exist_pending E rid t s)"
  "answers (\<not> isl (wi_list (de_wire E) t)) ''list_workflows'' rid s (handle_list E rid t False s)"
  "answers (\<not> isl (wi_list (de_wire E) t)) ''list_queued_workflows'' rid s (handle_list E rid t True s)"
  "answers (\<not> isl (wi_get_workflow (de_wire E) t)) ''get_workflow'' rid s (handle_get_workflow E rid t s)"
  "answers (\<not> isl (wi_list_steps (de_wire E) t)) ''list_steps'' rid s (handle_list_steps E rid t s)"
  "answers (\<not> isl (wi_list_schedules (de_wire E) t)) ''list_schedules'' rid s (handle_list_schedules E rid t s)"
  "answers (\<not> isl (wi_get_schedule (de_wire E) t)) ''get_schedule'' rid s (handle_get_schedule E rid t s)"
  "answers True ''list_queues'' rid s (handle_list_queues E rid s)"
  "answers (\<not> isl (wi_queue_name (de_wire E) t)) ''get_queue'' rid s (handle_get_queue E rid t s)"
  "answers True ''list_application_versions'' rid s (handle_list_versions E rid s)"
  "answers (\<not> isl (wi_workflow_aggregates (de_wire E) t)) ''get_workflow_aggregates'' rid s (handle_workflow_aggregates E rid t s)"
  "answers (\<not> isl (wi_step_aggregates (de_wire E) t)) ''get_step_aggregates'' rid s (handle_step_aggregates E rid t s)"
  "answers (\<not> isl (wi_workflow_id (de_wire E) t)) ''get_workflow_events'' rid s (handle_get_events E rid t s)"
  "answers (\<not> isl (wi_workflow_id (de_wire E) t)) ''get_workflow_notifications'' rid s (handle_get_notifications E rid t s)"
  "answers (\<not> isl (wi_workflow_id (de_wire E) t)) ''get_workflow_streams'' rid s (handle_get_streams E rid t s)"
proof -
  show "answers True ''executor_info'' rid s (handle_executor_info E H config rid s)"
    unfolding handle_executor_info_def answers_respond by (rule belongs_base) (auto simp: opt_member_def split: option.splits)
qed (auto simp: handle_exist_pending_def handle_list_def handle_get_workflow_def handle_list_steps_def handle_list_schedules_def
      handle_get_schedule_def handle_list_queues_def handle_get_queue_def handle_list_versions_def handle_workflow_aggregates_def
      handle_step_aggregates_def handle_get_events_def handle_get_notifications_def handle_get_streams_def Let_def
      intro!: answers_request belongs_read)

lemma transfers_answer:
  "answers (\<not> isl (wi_schedule_name (de_wire E) t)) ''trigger_schedule'' rid s (handle_trigger_schedule E H rid t s)"
  "answers (\<not> isl (wi_fork (de_wire E) t)) ''fork_workflow'' rid s (handle_fork E H rid t s)"
  "answers (\<not> isl (wi_metrics (de_wire E) t)) ''get_metrics'' rid s (handle_get_metrics E rid t s)"
  "answers (\<not> isl (wi_backfill (de_wire E) t)) ''backfill_schedule'' rid s (handle_backfill_schedule E H rid t s)"
  "answers (\<not> isl (wi_retention (de_wire E) t)) ''retention'' rid s (handle_retention E H rid t s)"
  "answers (\<not> isl (wi_export (de_wire E) t)) ''export_workflow'' rid s (handle_export_workflow E rid t s)"
proof -
  show "answers (\<not> isl (wi_schedule_name (de_wire E) t)) ''trigger_schedule'' rid s (handle_trigger_schedule E H rid t s)"
    by (auto simp: handle_trigger_schedule_def intro!: answers_request belongs_read split: prod.split)
  show "answers (\<not> isl (wi_fork (de_wire E) t)) ''fork_workflow'' rid s (handle_fork E H rid t s)"
    by (auto simp: handle_fork_def intro!: answers_request belongs_base belongs_intros split: prod.split sum.split)
  show "answers (\<not> isl (wi_metrics (de_wire E) t)) ''get_metrics'' rid s (handle_get_metrics E rid t s)"
    by (auto simp: handle_get_metrics_def metrics_response_def Let_def intro!: answers_request belongs_update split: prod.split sum.split)
  show "answers (\<not> isl (wi_backfill (de_wire E) t)) ''backfill_schedule'' rid s (handle_backfill_schedule E H rid t s)"
    by (auto simp: handle_backfill_schedule_def ids_response_def unending_def intro!: answers_request answers_map belongs_update split: prod.split sum.split)
  show "answers (\<not> isl (wi_retention (de_wire E) t)) ''retention'' rid s (handle_retention E H rid t s)"
    by (auto simp: handle_retention_def unending_def intro!: answers_request answers_bind split: prod.split option.split)
  show "answers (\<not> isl (wi_export (de_wire E) t)) ''export_workflow'' rid s (handle_export_workflow E rid t s)"
    by (auto simp: handle_export_workflow_def unending_def Let_def intro!: answers_request answers_bind belongs_base belongs_intros split: sum.split)
qed

lemma unknown_answers: "answers True ty rid s (unknown_message ty rid s)"
  using belongs_base [of "[]"] by (simp add: unknown_message_def)

lemma dispatch_answers: "answers (readable (de_wire E) ty t) ty rid s (dispatch_message E H config ty rid t s)"
  by (simp add: dispatch_message_def readable_def operations_answer reads_answer transfers_answer unknown_answers)

lemma decoded_export:
  assumes "\<forall>b. base64_decode C (base64_encode C b) = Inr b" "\<forall>b z z'. wi_gzip_write W b = Inr z \<longrightarrow> wi_gzip_finish W z = Inr z' \<longrightarrow> wi_gunzip W z' = Inr b"
    and "\<forall>xs b. wi_exports_to_vec W xs = Ok b \<longrightarrow> wi_exports_from_slice W b = Inr xs" "encode_export C W xs = Ok t"
  shows "decode_export C W t = Inr xs"
proof -
  obtain b z z' where "wi_exports_to_vec W xs = Ok b" "wi_gzip_write W b = Inr z" "wi_gzip_finish W z = Inr z'" "base64_encode C z' = t"
    using assms(4) by (cases "wi_exports_to_vec W xs") (auto simp: encode_export_def split: sum.split_asm)
  then show ?thesis using assms(1-3) by (auto simp: decode_export_def)
qed

lemma retention_sweeps:
  assumes "mem_inv g" "de_queries E = memory_queries C f" "rb_gc_cutoff_epoch_ms b = Some c" "rb_gc_rows_threshold b = None" "is_i64 (c - 1)"
  shows "\<exists>g'. retention_gc E b g = Some (None, g') \<and> mem_inv g' \<and> (\<forall>i. map_of (workflows g') i = (if swept c g i then None else map_of (workflows g) i))"
proof -
  obtain n g' where g': "gc_loop (memory_provider C f) (gc_filter c) 0 g = Some (Ok n, g')"
    "\<And>i. map_of (workflows g') i = (if swept c g i then None else map_of (workflows g) i)"
    using gc_loop_sweeps [OF assms(1,5), of C f 0] by blast
  then have "retention_gc E b g = Some (None, g')"
    using assms(2-4) by (simp add: retention_gc_def engine_garbage_collect_def garbage_collect_def garbage_collect_default_def resolve_gc_cutoff_def failure_def)
  then show ?thesis using g'(2) gc_loop_inv [OF g'(1) assms(1)] by blast
qed

section \<open>Properties\<close>

text \<open>
  C37: every request is answered, once and to the point.  A message whose kind and
  request can be read gets one response with its type and request id, which
  claims success exactly when it carries no error, also for unknown kinds.  The
  only handlers that may not return are those of a backfill, a retention and an
  export.  A message whose request cannot be read launches nothing, changes
  nothing and gets no response.
\<close>

theorem request_answered:
  assumes "wi_base (de_wire E) t = Ok base"
  shows "case handle_message E H config t s of
      None \<Rightarrow> readable (de_wire E) (bm_msg_type base) t \<and> bm_msg_type base \<in> {''backfill_schedule'', ''retention'', ''export_workflow''}
    | Some (Inl e, rows, s') \<Rightarrow> \<not> readable (de_wire E) (bm_msg_type base) t \<and> rows = [] \<and> s' = s
    | Some (Inr resp, rows, s') \<Rightarrow> readable (de_wire E) (bm_msg_type base) t
        \<and> map_of resp ''type'' = Some (JString (bm_msg_type base)) \<and> map_of resp ''request_id'' = Some (JString (bm_request_id base))
        \<and> (\<forall>b. map_of resp ''success'' = Some (JBool b) \<longrightarrow> b = (map_of resp ''error_message'' = None))"
proof -
  have "handle_message E H config t s = dispatch_message E H config (bm_msg_type base) (bm_request_id base) t s"
    using assms by (simp add: handle_message_def request_def)
  then show ?thesis using dispatch_answers [of E "bm_msg_type base" t "bm_request_id base" s H config]
    by (auto simp: answers_def belongs_def unending_def split: option.splits prod.splits sum.splits)
qed

text \<open>
  C38: a workflow survives its transfer.  If the codings that an export goes through
  can be undone, the text that the export handler of one engine sends, given to
  the import handler of another that does not have the workflow, re-creates it
  there: its row in portable form, and its steps, events and streams.
\<close>

theorem transfer_restores:
  assumes "\<forall>b. base64_decode C (base64_encode C b) = Inr b" "\<forall>b z z'. wi_gzip_write W b = Inr z \<longrightarrow> wi_gzip_finish W z = Inr z' \<longrightarrow> wi_gunzip W z' = Inr b"
    and "\<forall>xs b. wi_exports_to_vec W xs = Ok b \<longrightarrow> wi_exports_from_slice W b = Inr xs"
    and "de_codec E = C" "de_wire E = W" "de_queries E = memory_queries C f" "de_codec E' = C" "de_wire E' = W" "de_queries E' = memory_queries C f"
    and "mem_inv g" "map_of (workflows g) i = Some w" "exportable C f i w g" "absent i h"
    and "wi_export W ask = Ok \<lparr>ew_workflow_id = i, ew_export_children = False\<rparr>"
    and "handle_export_workflow E rid ask g = Some (Ok resp, rows, g1)" "map_of resp ''serialized_workflow'' = Some (JString payload_text)"
    and "wi_import W give = Ok payload_text"
  shows "\<exists>resp' h'. handle_import_workflow E' H rid' give h = Some (Ok resp', [], h') \<and> map_of resp' ''success'' = Some (JBool True)
    \<and> map_of (workflows h') i = Some (portable_row w) \<and> (\<forall>q. map_of (steps h') (i, q) = map_of (steps g) (i, q))
    \<and> (\<forall>k. map_of (events h') (i, k) = map_of (events g) (i, k)) \<and> (\<forall>k. map_of (streams h') (i, k) = map_of (streams g) (i, k))"
proof -
  obtain xs h' where x: "export_workflow C i False g = Some (Ok xs)" "import_workflow C f (hg_import_clock H) xs h = (Ok (), h')"
    "map_of (workflows h') i = Some (portable_row w)" "\<forall>q. map_of (steps h') (i, q) = map_of (steps g) (i, q)"
    "\<forall>k. map_of (events h') (i, k) = map_of (events g) (i, k)" "\<forall>k. map_of (streams h') (i, k) = map_of (streams g) (i, k)"
    using export_restored [OF assms(10-13), of "hg_import_clock H"] by blast
  have "encode_export C W xs = Ok payload_text"
    using assms(15,16) by (auto simp: handle_export_workflow_def request_def assms(4-6,14) engine_export_workflow_def x(1) respond_def Let_def
        split: sum.splits)
  then have "decode_export C W payload_text = Inr xs" by (rule decoded_export [OF assms(1-3)])
  then have "handle_import_workflow E' H rid' give h = Some (Ok (success_response ''import_workflow'' rid' None), [], h')"
    using x(2) by (simp add: handle_import_workflow_def request_def assms(7-9,17) engine_import_workflow_def respond_def failure_def)
  then show ?thesis using x(3-) by (auto simp: success_response_def update_conv)
qed

text \<open>
  C39: a retention request applies both halves of its policy.  With a cutoff for each
  and nobody interfering, the handler reports success; the workflows that
  ended before the first cutoff are gone, and of the rest exactly those that
  are still waiting or running and were created up to the second are cancelled.
\<close>

theorem retention_applies_policy:
  assumes "mem_inv g" "de_provider E = memory_provider C f" "de_queries E = memory_queries C f" "wi_retention (de_wire E) t = Ok b"
    and "rb_gc_cutoff_epoch_ms b = Some c" "rb_gc_rows_threshold b = None" "rb_timeout_cutoff_epoch_ms b = Some c'" "is_i64 (c - 1)"
    and "hg_mid H = id" "hg_after H = id"
  shows "\<exists>resp g'. handle_retention E H rid t g = Some (Ok resp, [], g') \<and> map_of resp ''success'' = Some (JBool True)
    \<and> (\<forall>i. map_of (workflows g') i = (if swept c g i then None else map_option (\<lambda>row. if overdue c' row
        then row\<lparr>wf_status := STATUS_CANCELLED, wf_completed_at_ms := Some (timestamp_millis (hg_now H)), wf_started_at_ms := None,
          wf_queue_name := None, wf_dedup_id := None, wf_updated_at := hg_now H\<rparr> else row) (map_of (workflows g) i)))"
proof -
  obtain g1 where g1: "retention_gc E b g = Some (None, g1)" "mem_inv g1"
    "\<And>i. map_of (workflows g1) i = (if swept c g i then None else map_of (workflows g) i)"
    using retention_sweeps [OF assms(1,3,5,6,8)] by blast
  obtain n g' where g': "engine_cancel_all_before (memory_provider C f) (hg_now H) id c' g1 = (Ok n, g')"
    "\<And>i. map_of (workflows g') i = map_option (\<lambda>row. if overdue c' row
        then row\<lparr>wf_status := STATUS_CANCELLED, wf_completed_at_ms := Some (timestamp_millis (hg_now H)), wf_started_at_ms := None,
          wf_queue_name := None, wf_dedup_id := None, wf_updated_at := hg_now H\<rparr> else row) (map_of (workflows g1) i)"
    using timeout_cancels [OF g1(2), of C f "hg_now H" c'] by blast
  have "handle_retention E H rid t g = Some (Ok (success_response ''retention'' rid None), [], g')"
    using g1(1) g'(1) assms(2,4,7,9,10) by (simp add: handle_retention_def request_def respond_def failure_def)
  then show ?thesis using g'(2) g1(3) by (auto simp: success_response_def update_conv)
qed

section \<open>Witnesses\<close>

definition sample_list :: list_body where
  "sample_list = \<lparr>li_workflow_uuids = [], li_workflow_name = String_Or_List [], li_status = String_Or_List [], li_application_version = String_Or_List [],
     li_executor_id = String_Or_List [], li_authenticated_user = String_Or_List [], li_forked_from = String_Or_List [],
     li_parent_workflow_id = String_Or_List [], li_queue_name = String_Or_List [], li_workflow_id_prefix = String_Or_List [],
     li_has_parent = None, li_was_forked_from = Some True, li_start_time = None, li_end_time = None, li_completed_after = None,
     li_completed_before = None, li_dequeued_after = None, li_dequeued_before = None, li_limit = None, li_offset = None,
     li_sort_desc = False, li_load_input = False, li_load_output = True, li_queues_only = False, li_attributes = None\<rparr>"

definition sample_exports :: "exported_workflow list" where
  "sample_exports = [export_one plain_codec sample_export ''a'' (workflow_status_new 5000001 ''a'' ''wf'' (JInt 7) STATUS_PENDING ''x'' ''v'')]"

text \<open>A wire that reads every text as the same request of a kind, the kind being the text.\<close>

definition sample_wire :: wire where
  "sample_wire = \<lparr>wi_base = (\<lambda>t. Ok \<lparr>bm_msg_type = t, bm_request_id = ''r''\<rparr>), wi_recovery = (\<lambda>_. Ok \<lparr>rr_executor_ids = []\<rparr>),
     wi_exist_pending = (\<lambda>_. Ok \<lparr>ep_executor_id = ''x'', ep_application_version = ''v''\<rparr>),
     wi_ids = (\<lambda>_. Ok \<lparr>ir_workflow_id = ''a'', ir_workflow_ids = [], ir_delete_children = False, ir_cancel_children = False, ir_queue_name = None\<rparr>),
     wi_fork = (\<lambda>_. Err Timeout), wi_list = (\<lambda>_. Ok sample_list), wi_get_workflow = (\<lambda>_. Err Timeout), wi_list_steps = (\<lambda>_. Err Timeout),
     wi_list_schedules = (\<lambda>_. Err Timeout), wi_get_schedule = (\<lambda>_. Err Timeout), wi_schedule_name = (\<lambda>_. Ok ''s''), wi_backfill = (\<lambda>_. Err Timeout),
     wi_queue_name = (\<lambda>_. Ok ''q''), wi_version_name = (\<lambda>_. Ok ''v''), wi_workflow_aggregates = (\<lambda>_. Err Timeout),
     wi_step_aggregates = (\<lambda>_. Err Timeout), wi_workflow_id = (\<lambda>_. Ok ''a''), wi_metrics = (\<lambda>_. Err Timeout),
     wi_retention = (\<lambda>_. Ok \<lparr>rb_gc_cutoff_epoch_ms = Some 15, rb_gc_rows_threshold = None, rb_timeout_cutoff_epoch_ms = Some 10\<rparr>),
     wi_export = (\<lambda>_. Ok \<lparr>ew_workflow_id = ''a'', ew_export_children = False\<rparr>), wi_import = (\<lambda>t. Ok t), wi_alert = (\<lambda>_. Err Timeout),
     wi_parse_rfc3339 = (\<lambda>_. Inr 0), wi_exports_to_vec = (\<lambda>xs. if xs = sample_exports then Ok ''x'' else Err Timeout),
     wi_exports_from_slice = (\<lambda>_. Inr sample_exports), wi_gzip_write = Inr, wi_gzip_finish = Inr, wi_gunzip = Inr\<rparr>"

definition sample_host :: "inner runtime" where
  "sample_host = sample_runtime\<lparr>rt_provider := memory_provider plain_codec sample_from_ts\<rparr>"

definition sample_engine :: "(inner, unit, unit) durable_engine" where
  "sample_engine = \<lparr>de_runtime = sample_host, de_control = memory_control plain_codec sample_from_ts,
     de_schedules = memory_schedules sample_from_ts (\<lambda>_. Ok ()) (\<lambda>_. Ok ()), de_queries = memory_queries plain_codec sample_from_ts,
     de_cron = sample_cron, de_input = \<lparr>sd_to_value = (\<lambda>_. Inr JNull), sd_from_value = (\<lambda>_. Inl [])\<rparr>,
     de_codec = plain_codec, de_wire = sample_wire\<rparr>"

definition sample_handling :: "inner handling" where
  "sample_handling = \<lparr>hg_now = 7, hg_clock = (\<lambda>_. 7), hg_clocks = (\<lambda>_. (7, 7)), hg_import_clock = (\<lambda>_. (0, 0)), hg_mid = id, hg_each = (\<lambda>_. id),
     hg_after = id, hg_retry = (\<lambda>_. (id, id)), hg_stop = (\<lambda>_. False), hg_fresh = ''f'', hg_hostname = None, hg_dbos_version = ''1''\<rparr>"

definition sample_config :: conductor_config where
  "sample_config = \<lparr>cf_url = [], cf_api_key = ''k'', cf_app_name = ''app'', cf_executor_metadata = None, cf_alert_handler = None\<rparr>"

theorem request_answered_witness:
  "\<exists>resp rows s'. handle_message sample_engine sample_handling sample_config ''cancel'' inner_default = Some (Inr resp, rows, s')
    \<and> map_of resp ''type'' = Some (JString ''cancel'')"
proof -
  let ?m = "handle_message sample_engine sample_handling sample_config ''cancel'' inner_default"
  have "wi_base (de_wire sample_engine) ''cancel'' = Ok \<lparr>bm_msg_type = ''cancel'', bm_request_id = ''r''\<rparr>"
    and read: "readable (de_wire sample_engine) ''cancel'' ''cancel''"
    by (simp_all add: sample_engine_def sample_wire_def readable_def)
  note answered = request_answered [OF this(1), of inner_default sample_handling sample_config]
  obtain r rows s' where m: "?m = Some (r, rows, s')" using answered by (cases ?m) auto
  show ?thesis using answered read by (cases r) (simp_all add: m)
qed

theorem retention_applies_policy_witness:
  "\<exists>resp g'. handle_retention sample_engine sample_handling ''r'' [] sample_archive = Some (Ok resp, [], g')
    \<and> map_of resp ''success'' = Some (JBool True) \<and> map_of (workflows g') ''a'' = None
    \<and> map_option wf_status (map_of (workflows g') ''c'') = Some STATUS_CANCELLED"
proof -
  let ?row = "workflow_status_new 0 ''c'' ''wf'' JNull STATUS_PENDING ''x'' ''v''"
  have "mem_inv sample_archive" "swept 15 sample_archive ''a''" "\<not> swept 15 sample_archive ''c''"
    "map_of (workflows sample_archive) ''c'' = Some ?row" "overdue 10 ?row" by code_simp+
  then show ?thesis
    using retention_applies_policy [of sample_archive sample_engine plain_codec sample_from_ts "[]"
        "\<lparr>rb_gc_cutoff_epoch_ms = Some 15, rb_gc_rows_threshold = None, rb_timeout_cutoff_epoch_ms = Some 10\<rparr>" 15 10 sample_handling "''r''"]
    by (auto simp: sample_engine_def sample_host_def sample_wire_def sample_handling_def de_provider_def is_i64_def)
qed

theorem transfer_restores_witness:
  "\<exists>t resp' h'. handle_import_workflow sample_engine sample_handling ''r'' t inner_default = Some (Ok resp', [], h')
    \<and> map_of resp' ''success'' = Some (JBool True) \<and> map_of (streams h') (''a'', ''s'') = map_of (streams sample_export) (''a'', ''s'')"
proof -
  let ?w = "workflow_status_new 5000001 ''a'' ''wf'' (JInt 7) STATUS_PENDING ''x'' ''v''"
  let ?resp = "base_response ''export_workflow'' ''r'' None @ [(''serialized_workflow'', JString ''bx'')]"
  have row: "map_of (workflows sample_export) ''a'' = Some ?w" "mem_inv sample_export" "absent ''a'' inner_default" by code_simp+
  have exported: "export_workflow plain_codec ''a'' False sample_export = Some (Ok sample_exports)"
    by (simp add: export_workflow_def row(1) sample_exports_def)
  have coded: "\<forall>b. base64_decode plain_codec (base64_encode plain_codec b) = Inr b" "base64_encode plain_codec ''x'' = ''bx''"
    by (simp_all add: plain_codec_def sample_codec_def)
  have E: "de_codec sample_engine = plain_codec" "de_wire sample_engine = sample_wire"
    "de_queries sample_engine = memory_queries plain_codec sample_from_ts" by (simp_all add: sample_engine_def)
  have "encode_export plain_codec sample_wire sample_exports = Ok ''bx''"
    by (simp add: encode_export_def sample_wire_def coded(2))
  then have "handle_export_workflow sample_engine ''r'' [] sample_export = Some (Ok ?resp, [], sample_export)"
    by (simp add: handle_export_workflow_def request_def respond_def E engine_export_workflow_def exported failure_def) (simp add: sample_wire_def exported)
  then have exp_done: "handle_export_workflow sample_engine ''r'' [] sample_export = Some (Ok ?resp, [], sample_export)" .
  have laws: "\<forall>b z z'. wi_gzip_write sample_wire b = Inr z \<longrightarrow> wi_gzip_finish sample_wire z = Inr z' \<longrightarrow> wi_gunzip sample_wire z' = Inr b"
    "\<forall>xs b. wi_exports_to_vec sample_wire xs = Ok b \<longrightarrow> wi_exports_from_slice sample_wire b = Inr xs"
    "wi_export sample_wire [] = Ok \<lparr>ew_workflow_id = ''a'', ew_export_children = False\<rparr>" "wi_import sample_wire ''bx'' = Ok ''bx''"
    by (auto simp: sample_wire_def split: if_splits)
  have "map_of ?resp ''serialized_workflow'' = Some (JString ''bx'')" by (simp add: base_response_def)
  from transfer_restores [OF coded(1) laws(1,2) E E row(2,1) sample_exportable row(3) laws(3) exp_done this laws(4), of sample_handling "''r''"]
  show ?thesis by blast
qed

end
