(* ===== verification/Conductor_Reads.thy ===== *)
theory Conductor_Reads
  imports Conductor
begin

text \<open>
  What the reads of the control plane report (\<open>src/conductor.rs\<close>), on the in-memory
  provider: the counts of a metrics request and the rows of a listing.
\<close>

section \<open>Metrics\<close>

lemma window_matches:
  "wq_matches (workflow_metrics_query start until) w \<longleftrightarrow> start \<le> timestamp_millis (wf_created_at w) \<and> timestamp_millis (wf_created_at w) \<le> until"
  by (auto simp: wq_matches_def workflow_metrics_query_def in_list_or_empty_def Let_def)

lemma window_key: "wq_key (workflow_metrics_query start until) w = [(''name'', Some (wf_name w))]"
  by (simp add: wq_key_def workflow_metrics_query_def enabled_columns_def AGG_DIMENSIONS_def dim_val_def)

text \<open>The rows of a name in a window, its bounds included.\<close>

definition in_window :: "int \<Rightarrow> int \<Rightarrow> string \<Rightarrow> workflow_status \<Rightarrow> bool" where
  "in_window start until nm w \<longleftrightarrow> wf_name w = nm \<and> start \<le> timestamp_millis (wf_created_at w) \<and> timestamp_millis (wf_created_at w) \<le> until"

lemma window_counts:
  assumes "get_workflow_aggregates (workflow_metrics_query start until) g = Ok out"
  shows "(\<lambda>a. (wa_group a, wa_count a)) ` set out = (\<lambda>nm. ([(''name'', Some nm)], Some (int (length (filter (in_window start until nm) (hm_values (workflows g)))))))
    ` {nm. filter (in_window start until nm) (hm_values (workflows g)) \<noteq> []}"
proof -
  let ?ws = "hm_values (workflows g)" and ?m = "wq_matches (workflow_metrics_query start until)"
  have hits: "filter (\<lambda>w. ?m w \<and> Some (wf_name w) = Some nm) ?ws = filter (in_window start until nm) ?ws" for nm
    by (rule filter_cong) (auto simp: window_matches in_window_def)
  have "{v. filter (\<lambda>w. ?m w \<and> Some (wf_name w) = v) ?ws \<noteq> []} = Some ` {nm. filter (in_window start until nm) ?ws \<noteq> []}"
    unfolding hits [symmetric] by (auto simp: filter_empty_conv image_iff)
  moreover have "wq_select_count (workflow_metrics_query start until)" "wq_limit (workflow_metrics_query start until) = None"
    by (simp_all add: workflow_metrics_query_def)
  note single_group_counts [OF assms this window_key]
  ultimately show ?thesis by (simp only: image_image hits)
qed

lemma metric_inject [simp]: "metric ty nm n = metric ty' nm' n' \<longleftrightarrow> ty = ty' \<and> nm = nm' \<and> n = n'"
  by (auto simp: metric_def)

lemma named_counts_iff:
  "metric ty' nm n \<in> set (named_counts ty d rows) \<longleftrightarrow> ty' = ty \<and> (\<exists>p \<in> set rows. map_of (fst p) d = Some (Some nm) \<and> snd p = Some n)"
  by (induction rows) (auto simp: named_counts_def map_filter_simps split: option.splits)

section \<open>Listings\<close>

lemma member_lookups [simp]:
  "map_of (opt_member k f x) k' = (if k = k' then map_option f x else None)"
  "map_of (str_member k t) k' = (if k = k' \<and> t \<noteq> [] then Some (JString t) else None)"
  by (auto simp: opt_member_def str_member_def split: option.split)

lemma reported_row:
  "jget (format_list_workflow C row) ''Output'' = map_option JString (payload C (wf_output row))"
  "jget (format_list_workflow C row) ''Status'' = (if wf_status row = [] then None else Some (JString (wf_status row)))"
  "jget (format_list_workflow C row) ''WasForkedFrom'' = Some (JBool (wf_forked_from row \<noteq> None))"
  by (auto simp: format_list_workflow_def jget_def map_add_def split: option.split)

lemma handle_list_rows:
  assumes "de_provider E = memory_provider C f" "wi_list (de_wire E) t = Ok b"
  obtains rows resp where "list_workflows (to_filter queued b) g = Ok rows" "handle_list E rid t queued g = Some (Ok resp, [], g)"
    "map_of resp ''output'' = Some (JArray (map (format_list_workflow (de_codec E)) rows))"
proof -
  obtain rows where rows: "list_workflows (to_filter queued b) g = Ok rows" by (simp add: list_workflows_def)
  have resp: "handle_list E rid t queued g = Some (Ok (read_response (if queued then ''list_queued_workflows'' else ''list_workflows'') rid
      ''output'' ''failed to list workflows'' (JArray []) (Ok (JArray (map (format_list_workflow (de_codec E)) rows)))), [], g)"
    by (simp add: handle_list_def request_def assms respond_def listed_def engine_list_workflows_def rows)
  show ?thesis by (rule that [OF rows resp]) (simp add: read_response_def update_conv)
qed

section \<open>Properties\<close>

text \<open>
  What the metrics count.  The metrics of a window hold one workflow count for each
  name that has a workflow created in it, which is the number of those
  workflows.  Both ends of the window belong to it, so that a workflow created
  on the border of two consecutive windows is counted in both.
\<close>

theorem metrics_count_window:
  assumes "de_queries E = memory_queries C f"
  shows "\<exists>ms. collected_metrics E start until g = Ok ms \<and> (\<forall>nm n. metric ''workflow_count'' nm n \<in> set ms
    \<longleftrightarrow> n = int (length (filter (in_window start until nm) (hm_values (workflows g)))) \<and> 0 < n)"
proof -
  obtain ws ss where r: "get_workflow_aggregates (workflow_metrics_query start until) g = Ok ws"
    "get_step_aggregates (step_metrics_query start until) g = Ok ss"
    by (simp add: get_workflow_aggregates_def get_step_aggregates_def Let_def)
  have q: "\<not> wq_is_empty (workflow_metrics_query start until)" "\<not> wq_no_select (workflow_metrics_query start until)"
    "\<not> sq_no_grouping (step_metrics_query start until)" "\<not> sq_no_select (step_metrics_query start until)"
    by (simp_all add: wq_is_empty_def wq_no_select_def sq_no_grouping_def sq_no_select_def workflow_metrics_query_def step_metrics_query_def
        enabled_columns_def AGG_DIMENSIONS_def)
  have counted: "metric ''workflow_count'' nm n \<in> set (named_counts ''workflow_count'' ''name'' (map (\<lambda>a. (wa_group a, wa_count a)) ws))
    \<longleftrightarrow> n = int (length (filter (in_window start until nm) (hm_values (workflows g)))) \<and> 0 < n" for nm n
  proof -
    have "set (map (\<lambda>a. (wa_group a, wa_count a)) ws) = (\<lambda>nm. ([(''name'', Some nm)], Some (int (length (filter (in_window start until nm) (hm_values (workflows g)))))))
      ` {nm. filter (in_window start until nm) (hm_values (workflows g)) \<noteq> []}" using window_counts [OF r(1)] by simp
    then show ?thesis unfolding named_counts_iff by (auto simp: filter_empty_conv)
  qed
  have steps: "metric ''workflow_count'' nm n \<notin> set (named_counts ''step_count'' ''function_name'' rows)" for nm n rows
    by (simp add: named_counts_iff)
  show ?thesis
    using counted steps by (simp add: collected_metrics_def engine_get_workflow_aggregates_def engine_get_step_aggregates_def assms q r)
qed

text \<open>
  A listing of queued workflows shows only waiting work.  Every row it reports
  has a queue, carries no output, and, unless the request asks for other
  statuses, is pending, enqueued or delayed, whatever else the request says.
\<close>

theorem queued_listing_shows_waiting:
  assumes "de_provider E = memory_provider C f" "wi_list (de_wire E) t = Ok b"
  shows "\<exists>rows resp. handle_list E rid t True g = Some (Ok resp, [], g)
    \<and> map_of resp ''output'' = Some (JArray (map (format_list_workflow (de_codec E)) rows))
    \<and> (\<forall>row \<in> set rows. wf_queue_name row \<noteq> None \<and> jget (format_list_workflow (de_codec E) row) ''Output'' = None
        \<and> (sol_vec (li_status b) = [] \<longrightarrow> wf_status row \<in> {STATUS_PENDING, STATUS_ENQUEUED, STATUS_DELAYED}))"
proof -
  obtain rows resp where r: "list_workflows (to_filter True b) g = Ok rows" "handle_list E rid t True g = Some (Ok resp, [], g)"
    "map_of resp ''output'' = Some (JArray (map (format_list_workflow (de_codec E)) rows))"
    by (rule handle_list_rows [OF assms, where rid = rid])
  have f: "lf_queues_only (to_filter True b)" "\<not> lf_load_output (to_filter True b)"
    "sol_vec (li_status b) = [] \<Longrightarrow> lf_status (to_filter True b) = [STATUS_PENDING, STATUS_ENQUEUED, STATUS_DELAYED]"
    by (simp_all add: to_filter_def listed_filter_def Let_def)
  have "wf_queue_name row \<noteq> None \<and> wf_output row = None
      \<and> (sol_vec (li_status b) = [] \<longrightarrow> wf_status row \<in> {STATUS_PENDING, STATUS_ENQUEUED, STATUS_DELAYED})" if "row \<in> set rows" for row
  proof -
    obtain v where "row = strip_heavy (to_filter True b) v" "row_matches (to_filter True b) g v"
      using list_workflows_sound [OF r(1) \<open>row \<in> set rows\<close>] by blast
    then show ?thesis using f by (auto simp: row_matches_def matches_filter_def strip_heavy_def Let_def in_list_or_empty_def)
  qed
  then show ?thesis using r(2,3) by (intro exI [of _ rows] exI [of _ resp]) (simp add: reported_row payload_def)
qed

text \<open>
  The fork filter and the fork flag of a listing mean different things.  A request
  for workflows with \<open>was_forked_from\<close> gets those from which another workflow was
  forked, while the flag \<open>WasForkedFrom\<close> in the report says whether the row is
  itself a fork.
\<close>

theorem fork_filter_and_flag_differ:
  assumes "de_provider E = memory_provider C f" "wi_list (de_wire E) t = Ok b" "li_was_forked_from b = Some True" "mem_inv g"
  shows "\<exists>rows resp. handle_list E rid t False g = Some (Ok resp, [], g)
    \<and> map_of resp ''output'' = Some (JArray (map (format_list_workflow (de_codec E)) rows))
    \<and> (\<forall>row \<in> set rows. \<exists>v j fork. map_of (workflows g) (wf_id row) = Some v \<and> map_of (workflows g) j = Some fork
        \<and> wf_forked_from fork = Some (wf_id row)
        \<and> jget (format_list_workflow (de_codec E) row) ''WasForkedFrom'' = Some (JBool (wf_forked_from v \<noteq> None)))"
proof -
  obtain rows resp where r: "list_workflows (to_filter False b) g = Ok rows" "handle_list E rid t False g = Some (Ok resp, [], g)"
    "map_of resp ''output'' = Some (JArray (map (format_list_workflow (de_codec E)) rows))"
    by (rule handle_list_rows [OF assms(1,2), where rid = rid])
  have "\<exists>v j fork. map_of (workflows g) (wf_id row) = Some v \<and> map_of (workflows g) j = Some fork \<and> wf_forked_from fork = Some (wf_id row)
      \<and> wf_forked_from row = wf_forked_from v" if "row \<in> set rows" for row
  proof -
    obtain v where v: "v \<in> set (hm_values (workflows g))" "row = strip_heavy (to_filter False b) v" "row_matches (to_filter False b) g v"
      using list_workflows_sound [OF r(1) \<open>row \<in> set rows\<close>] by blast
    then have "wf_id v \<in> set (fork_sources g)"
      using assms(3) by (simp add: row_matches_def matches_filter_def to_filter_def listed_filter_def)
    then obtain fork where "fork \<in> set (hm_values (workflows g))" "wf_forked_from fork = Some (wf_id v)"
      by (auto simp: fork_sources_def map_filter_def)
    then show ?thesis using v(1,2) in_values_iff [OF assms(4), of v] in_values_iff [OF assms(4), of fork] by (auto simp: strip_heavy_def Let_def)
  qed
  then show ?thesis using r(2,3) by (intro exI [of _ rows] exI [of _ resp]) (fastforce simp: reported_row)
qed

section \<open>Witnesses\<close>

definition sample_forks :: inner where
  "sample_forks = inner_default\<lparr>workflows := [
     (''a'', (workflow_status_new 5000000 ''a'' ''wf'' JNull STATUS_ENQUEUED ''x'' ''v'')\<lparr>wf_queue_name := Some ''q'', wf_output := Some (JInt 1)\<rparr>),
     (''b'', (workflow_status_new 9000000 ''b'' ''wf'' JNull STATUS_PENDING ''x'' ''v'')\<lparr>wf_forked_from := Some ''a''\<rparr>)]\<rparr>"

theorem metrics_count_window_witness:
  "\<exists>ms. collected_metrics sample_engine 5 9 sample_forks = Ok ms \<and> metric ''workflow_count'' ''wf'' 2 \<in> set ms"
proof -
  have "length (filter (in_window 5 9 ''wf'') (hm_values (workflows sample_forks))) = 2" by code_simp
  then show ?thesis using metrics_count_window [of sample_engine plain_codec sample_from_ts 5 9 sample_forks]
    by (auto simp: sample_engine_def)
qed

theorem queued_listing_shows_waiting_witness:
  "\<exists>rows resp. handle_list sample_engine ''r'' ''all'' True sample_forks = Some (Ok resp, [], sample_forks)
    \<and> map_of resp ''output'' = Some (JArray (map (format_list_workflow (de_codec sample_engine)) rows)) \<and> (\<forall>row \<in> set rows. wf_queue_name row \<noteq> None)"
  using queued_listing_shows_waiting [of sample_engine plain_codec sample_from_ts "''all''" sample_list "''r''" sample_forks]
  by (auto simp: sample_engine_def sample_wire_def de_provider_def sample_host_def)

theorem fork_filter_and_flag_differ_witness:
  "\<exists>rows resp. handle_list sample_engine ''r'' ''all'' False sample_forks = Some (Ok resp, [], sample_forks)
    \<and> map_of resp ''output'' = Some (JArray (map (format_list_workflow (de_codec sample_engine)) rows))
    \<and> (\<forall>row \<in> set rows. \<exists>j fork. map_of (workflows sample_forks) j = Some fork \<and> wf_forked_from fork = Some (wf_id row))"
proof -
  have "mem_inv sample_forks" by code_simp
  then show ?thesis using fork_filter_and_flag_differ [of sample_engine plain_codec sample_from_ts "''all''" sample_list sample_forks "''r''"]
    by (fastforce simp: sample_engine_def sample_wire_def de_provider_def sample_host_def sample_list_def)
qed

end
