(* ===== verification/Engine_Config.thy ===== *)
theory Engine_Config
  imports Engine_Query Debounce
begin

text \<open>
  Construction of an engine and its registrations (\<open>src/engine.rs\<close>): the settings and
  how they are resolved against the process environment, the builder with its
  conflict checks, the direct constructor, and the registrations on an engine.
  The workflows that the macro collected at compile time, the hash of the
  executable and the erased handler of the debouncer's collector are arguments.
\<close>

section \<open>Definitions\<close>

subsection \<open>Settings\<close>

record retention_policy =
  rp_period :: "nat option"
  rp_max_rows :: "int option"
  rp_sweep_interval :: nat

definition retention_policy_default :: retention_policy where
  "retention_policy_default = \<lparr>rp_period = None, rp_max_rows = None, rp_sweep_interval = 3600 * 10 ^ 9\<rparr>"

record engine_config =
  ec_app_version :: "string option"
  ec_executor_id :: "string option"
  ec_recover_on_launch :: "bool option"
  ec_retention :: "retention_policy option"

definition engine_config_default :: engine_config where
  "engine_config_default = \<lparr>ec_app_version = None, ec_executor_id = None, ec_recover_on_launch = None, ec_retention = None\<rparr>"

text \<open>The variables of the environment that are set, and the hash of the executable or why it could not be read.\<close>

record process_env =
  pe_appversion :: "string option"
  pe_vmid :: "string option"
  pe_hash :: "string + string"

definition binary_version :: "process_env \<Rightarrow> string" where
  "binary_version env = (case pe_hash env of Inr h \<Rightarrow> h | Inl _ \<Rightarrow> [])"

definition resolve_app_version :: "process_env \<Rightarrow> engine_config \<Rightarrow> string" where
  "resolve_app_version env c = (case opt_filter (\<lambda>v. v \<noteq> []) (pe_appversion env) of
       Some v \<Rightarrow> v
     | None \<Rightarrow> (case ec_app_version c of Some v \<Rightarrow> v | None \<Rightarrow> binary_version env))"

definition resolve_executor_id :: "process_env \<Rightarrow> engine_config \<Rightarrow> string" where
  "resolve_executor_id env c = (case opt_filter (\<lambda>v. v \<noteq> []) (pe_vmid env) of
       Some v \<Rightarrow> v
     | None \<Rightarrow> (case ec_executor_id c of Some v \<Rightarrow> v | None \<Rightarrow> ''local''))"

definition resolve_recover_on_launch :: "engine_config \<Rightarrow> bool" where
  "resolve_recover_on_launch c = unwrap_or False (ec_recover_on_launch c)"

subsection \<open>The engine\<close>

text \<open>A handler over JSON from a typed one.\<close>

definition erase :: "'i serde \<Rightarrow> 'o serde \<Rightarrow> (auth_context \<Rightarrow> 'i \<Rightarrow> ('s, 'o) act) \<Rightarrow> 's workflow_fn" where
  "erase T U f auth input_json = and_then (ret (from_value T input_json)) (\<lambda>inp.
     and_then (f auth inp) (\<lambda>out. ret (to_value U out)))"

record 's workflow_registration =
  wr_name :: string
  wr_handler :: "'s workflow_fn"
  wr_schedule :: "string option"

text \<open>
  A background task: what it does, the cancellation token it was given, and whether
  it has ended.  Tokens are numbered in the order in which they are created.
\<close>

datatype background = Dispatcher string | Reconciler | Retention_Sweep

record background_task =
  tk_work :: background
  tk_token :: nat
  tk_finished :: bool

text \<open>
  The handlers and role declarations that the execution core captured when it was
  built are \<open>en_captured\<close>; the queues and the filter are shared with it.
  \<open>en_closed\<close> says whether the tracker of runs is closed.
\<close>

record 's engine =
  en_provider :: "'s state_provider"
  en_workflows :: "(string, 's workflow_fn) hashmap"
  en_queues :: "(string, workflow_queue) hashmap"
  en_listen_filter :: "string list option"
  en_scheduled :: "(string \<times> string) list"
  en_executor_id :: string
  en_app_version :: string
  en_max_recovery_attempts :: int
  en_recover_on_launch :: bool
  en_retention :: "retention_policy option"
  en_required_roles :: "(string, string list) hashmap"
  en_token :: nat
  en_cancelled :: "nat set"
  en_deactivated :: bool
  en_recovery_stopped :: bool
  en_closed :: bool
  en_dispatchers :: "background_task list"
  en_captured :: "((string, 's workflow_fn) hashmap \<times> (string, string list) hashmap) option"

definition internal_queue :: workflow_queue where
  "internal_queue = (workflow_queue_new INTERNAL_QUEUE)\<lparr>q_base_polling_interval := 100 * 10 ^ 6\<rparr>"

definition engine_new :: "'s state_provider \<Rightarrow> (string, 's workflow_fn) hashmap \<Rightarrow> (string, workflow_queue) hashmap \<Rightarrow> string list option
  \<Rightarrow> (string \<times> string) list \<Rightarrow> string \<Rightarrow> string \<Rightarrow> int \<Rightarrow> engine_config \<Rightarrow> (string, string list) hashmap \<Rightarrow> 's engine" where
  "engine_new P wfs qs listen scheduled executor version attempts c roles = \<lparr>en_provider = P, en_workflows = wfs, en_queues = qs,
     en_listen_filter = listen, en_scheduled = scheduled, en_executor_id = executor, en_app_version = version,
     en_max_recovery_attempts = attempts, en_recover_on_launch = resolve_recover_on_launch c, en_retention = ec_retention c,
     en_required_roles = roles, en_token = 0, en_cancelled = {}, en_deactivated = False, en_recovery_stopped = False,
     en_closed = False, en_dispatchers = [], en_captured = None\<rparr>"

definition declared_schedules :: "'s workflow_registration list \<Rightarrow> (string \<times> string) list" where
  "declared_schedules regs = List.map_filter (\<lambda>r. map_option (Pair (wr_name r)) (wr_schedule r)) regs"

subsection \<open>The builder\<close>

record 's engine_builder =
  eb_provider :: "'s state_provider"
  eb_config :: engine_config
  eb_workflows :: "(string \<times> 's workflow_fn) list"
  eb_queues :: "workflow_queue list"
  eb_listen_filter :: "string list option"
  eb_max_recovery_attempts :: int
  eb_required_roles :: "(string, string list) hashmap"

definition builder :: "'s state_provider \<Rightarrow> 's engine_builder" where
  "builder P = \<lparr>eb_provider = P, eb_config = engine_config_default, eb_workflows = [], eb_queues = [], eb_listen_filter = None,
     eb_max_recovery_attempts = 100, eb_required_roles = []\<rparr>"

definition builder_register :: "'i serde \<Rightarrow> 'o serde \<Rightarrow> string \<Rightarrow> (auth_context \<Rightarrow> 'i \<Rightarrow> ('s, 'o) act) \<Rightarrow> 's engine_builder \<Rightarrow> 's engine_builder" where
  "builder_register T U nm f b = b\<lparr>eb_workflows := eb_workflows b @ [(nm, erase T U f)]\<rparr>"

definition builder_register_configured :: "'i serde \<Rightarrow> 'o serde \<Rightarrow> string \<Rightarrow> string \<Rightarrow> (auth_context \<Rightarrow> 'i \<Rightarrow> ('s, 'o) act)
  \<Rightarrow> 's engine_builder \<Rightarrow> 's engine_builder" where
  "builder_register_configured T U nm config f b = b\<lparr>eb_workflows := eb_workflows b @ [(registry_key nm (Some config), erase T U f)]\<rparr>"

definition builder_register_queue :: "workflow_queue \<Rightarrow> 's engine_builder \<Rightarrow> 's engine_builder" where
  "builder_register_queue q b = b\<lparr>eb_queues := eb_queues b @ [q]\<rparr>"

definition builder_require_roles :: "string \<Rightarrow> string list \<Rightarrow> 's engine_builder \<Rightarrow> 's engine_builder" where
  "builder_require_roles nm roles b = b\<lparr>eb_required_roles := AList.update nm roles (eb_required_roles b)\<rparr>"

definition builder_listen_queues :: "string list \<Rightarrow> 's engine_builder \<Rightarrow> 's engine_builder" where
  "builder_listen_queues names b = b\<lparr>eb_listen_filter := Some names\<rparr>"

text \<open>Registrations in order, each under a key that must be free.\<close>

fun register_each :: "(string \<times> 'v) list \<Rightarrow> (string, 'v) hashmap \<Rightarrow> (string, 'v) hashmap result" where
  "register_each [] m = Ok m"
| "register_each ((k, v) # kvs) m = (if contains_key m k then Err (ConflictingRegistration k) else register_each kvs (AList.update k v m))"

text \<open>The first role declaration for a workflow that is registered neither plainly nor as a configured instance.\<close>

definition unknown_role :: "(string, 'v) hashmap \<Rightarrow> (string, string list) hashmap \<Rightarrow> string option" where
  "unknown_role wfs roles = List.find (\<lambda>nm. \<not> contains_key wfs nm \<and> \<not> list_ex (\<lambda>k. starts_with k (nm @ ''/'')) (map fst wfs)) (map fst roles)"

definition build :: "process_env \<Rightarrow> 's workflow_fn \<Rightarrow> 's workflow_registration list \<Rightarrow> unit result \<Rightarrow> 's engine_builder \<Rightarrow> 's engine result" where
  "build env collector inventory initialised b =
     result_bind initialised (\<lambda>_.
     result_bind (register_each (map (\<lambda>r. (wr_name r, wr_handler r)) inventory) [(DEBOUNCER_WF, collector)]) (\<lambda>wfs0.
     result_bind (register_each (eb_workflows b) wfs0) (\<lambda>wfs.
       case unknown_role wfs (eb_required_roles b) of
         Some nm \<Rightarrow> Err (UnknownWorkflow nm)
       | None \<Rightarrow> result_bind (register_each (map (\<lambda>q. (q_name q, q)) (eb_queues b)) [(INTERNAL_QUEUE, internal_queue)]) (\<lambda>qs.
           Ok (engine_new (eb_provider b) wfs qs (eb_listen_filter b) (declared_schedules inventory)
             (resolve_executor_id env (eb_config b)) (resolve_app_version env (eb_config b))
             (eb_max_recovery_attempts b) (eb_config b) (eb_required_roles b))))))"

text \<open>The direct constructor: a later registration replaces an earlier one.\<close>

definition with_config :: "process_env \<Rightarrow> 's workflow_fn \<Rightarrow> 's workflow_registration list \<Rightarrow> unit result \<Rightarrow> 's state_provider \<Rightarrow> engine_config
  \<Rightarrow> 's engine result" where
  "with_config env collector inventory initialised P c = result_bind initialised (\<lambda>_.
     Ok (engine_new P (AList.update DEBOUNCER_WF collector (fold (\<lambda>r. AList.update (wr_name r) (wr_handler r)) inventory []))
       [(INTERNAL_QUEUE, internal_queue)] None (declared_schedules inventory)
       (resolve_executor_id env c) (resolve_app_version env c) 100 c []))"

subsection \<open>Registrations on an engine\<close>

definition engine_register :: "'i serde \<Rightarrow> 'o serde \<Rightarrow> string \<Rightarrow> (auth_context \<Rightarrow> 'i \<Rightarrow> ('s, 'o) act) \<Rightarrow> 's engine \<Rightarrow> 's engine" where
  "engine_register T U nm f E = E\<lparr>en_workflows := AList.update nm (erase T U f) (en_workflows E)\<rparr>"

definition engine_register_configured :: "'i serde \<Rightarrow> 'o serde \<Rightarrow> string \<Rightarrow> string \<Rightarrow> (auth_context \<Rightarrow> 'i \<Rightarrow> ('s, 'o) act) \<Rightarrow> 's engine \<Rightarrow> 's engine" where
  "engine_register_configured T U nm config f E =
     E\<lparr>en_workflows := AList.update (registry_key nm (Some config)) (erase T U f) (en_workflows E)\<rparr>"

definition engine_register_queue :: "workflow_queue \<Rightarrow> 's engine \<Rightarrow> 's engine" where
  "engine_register_queue q E = E\<lparr>en_queues := AList.update (q_name q) q (en_queues E)\<rparr>"

definition require_roles :: "string \<Rightarrow> string list \<Rightarrow> 's engine \<Rightarrow> 's engine" where
  "require_roles nm roles E = E\<lparr>en_required_roles := AList.update nm roles (en_required_roles E)\<rparr>"

definition listen_queues :: "string list \<Rightarrow> 's engine \<Rightarrow> unit result \<times> 's engine" where
  "listen_queues names E = (if en_dispatchers E \<noteq> []
     then (Err (app ''listen_queues must be called before launch; the dispatcher set is fixed while running''), E)
     else (Ok (), E\<lparr>en_listen_filter := Some names\<rparr>))"

definition list_registered_queues :: "'s engine \<Rightarrow> workflow_queue list" where
  "list_registered_queues E = sort_key q_name (filter (\<lambda>q. q_name q \<noteq> INTERNAL_QUEUE) (hm_values (en_queues E)))"

record registered_workflow =
  rw_name :: string
  rw_cron_schedule :: "string option"

text \<open>Of two schedules for one name the table of schedules holds the later one.\<close>

definition list_registered_workflows :: "'s engine \<Rightarrow> registered_workflow list" where
  "list_registered_workflows E = sort_key rw_name (map (\<lambda>nm. \<lparr>rw_name = nm, rw_cron_schedule = map_of (rev (en_scheduled E)) nm\<rparr>)
     (map fst (en_workflows E)))"

definition list_scheduled_workflows :: "'s engine \<Rightarrow> registered_workflow list" where
  "list_scheduled_workflows E = filter (\<lambda>w. rw_cron_schedule w \<noteq> None) (list_registered_workflows E)"

text \<open>The execution core: built on first use, it keeps the handlers and role declarations it found.\<close>

definition engine_runtime :: "'s engine \<Rightarrow> 's runtime \<times> 's engine" where
  "engine_runtime E = (let (wfs, roles) = (case en_captured E of Some c \<Rightarrow> c | None \<Rightarrow> (en_workflows E, en_required_roles E)) in
     (\<lparr>rt_provider = en_provider E, rt_workflows = wfs, rt_queues = en_queues E, rt_listen_filter = en_listen_filter E,
       rt_required_roles = roles, rt_executor_id = en_executor_id E, rt_app_version = en_app_version E,
       rt_max_recovery_attempts = en_max_recovery_attempts E\<rparr>, E\<lparr>en_captured := Some (wfs, roles)\<rparr>))"

section \<open>Lemmas\<close>

lemma contains_key_fst: "contains_key m k \<longleftrightarrow> k \<in> fst ` set m"
  by (simp add: contains_key_iff dom_map_of_conv_image_fst)

lemma register_each_ok:
  "(\<exists>m'. register_each kvs m = Ok m') \<longleftrightarrow> distinct (map fst kvs) \<and> fst ` set kvs \<inter> fst ` set m = {}"
proof (induction kvs arbitrary: m)
  case (Cons p kvs)
  then show ?case by (cases p) (auto simp: contains_key_fst dom_update simp flip: dom_map_of_conv_image_fst)
qed simp

lemma register_each_map:
  "register_each kvs m = Ok m' \<Longrightarrow> map_of m' = map_of m ++ map_of kvs"
proof (induction kvs arbitrary: m)
  case (Cons p kvs)
  obtain k v where p: "p = (k, v)" by (cases p)
  have free: "\<not> contains_key m k" "register_each kvs (AList.update k v m) = Ok m'" using Cons.prems by (auto simp: p split: if_splits)
  have "distinct (map fst kvs) \<and> fst ` set kvs \<inter> fst ` set (AList.update k v m) = {}"
    using free(2) register_each_ok by blast
  then have "map_of kvs k = None" by (auto simp: map_of_eq_None_iff dom_update simp flip: dom_map_of_conv_image_fst)
  then show ?case using Cons.IH [OF free(2)] by (auto simp: p update_conv map_add_def fun_eq_iff split: option.split)
qed simp

lemma register_each_err:
  "register_each kvs m = Err e \<Longrightarrow> \<exists>k. e = ConflictingRegistration k \<and> 2 \<le> count_list (map fst kvs) k + (if k \<in> fst ` set m then 1 else 0)"
proof (induction kvs arbitrary: m)
  case (Cons p kvs)
  obtain k v where p: "p = (k, v)" by (cases p)
  show ?case
  proof (cases "contains_key m k")
    case True
    then show ?thesis using Cons.prems by (auto simp: p contains_key_fst)
  next
    case False
    have "k \<in> fst ` set (AList.update k v m)" "\<And>k'. k' \<noteq> k \<Longrightarrow> k' \<in> fst ` set (AList.update k v m) \<longleftrightarrow> k' \<in> fst ` set m"
      by (auto simp: dom_update simp flip: dom_map_of_conv_image_fst)
    moreover obtain k' where "e = ConflictingRegistration k'" "2 \<le> count_list (map fst kvs) k' + (if k' \<in> fst ` set (AList.update k v m) then 1 else 0)"
      using Cons.IH [of "AList.update k v m"] Cons.prems False by (auto simp: p)
    ultimately show ?thesis by (intro exI [of _ k']) (cases "k' = k", simp_all add: p)
  qed
qed simp

lemma count_in_append: "count_list (xs @ ys) k = count_list xs k + count_list ys k"
  by (induction xs) auto

text \<open>The keys under which a build registers workflows, and those of its queues.\<close>

definition workflow_keys :: "'s workflow_registration list \<Rightarrow> 's engine_builder \<Rightarrow> string list" where
  "workflow_keys inventory b = DEBOUNCER_WF # map wr_name inventory @ map fst (eb_workflows b)"

definition queue_keys :: "'s engine_builder \<Rightarrow> string list" where
  "queue_keys b = INTERNAL_QUEUE # map q_name (eb_queues b)"

text \<open>A role declaration that names a workflow under the given keys.\<close>

definition declared_for :: "string list \<Rightarrow> string \<Rightarrow> bool" where
  "declared_for ks nm \<longleftrightarrow> nm \<in> set ks \<or> list_ex (\<lambda>k. starts_with k (nm @ ''/'')) ks"

lemma unknown_role_find: "unknown_role wfs roles = List.find (\<lambda>nm. \<not> declared_for (map fst wfs) nm) (map fst roles)"
  by (simp add: unknown_role_def declared_for_def contains_key_fst)

lemma declared_for_cong: "set ks = set ks' \<Longrightarrow> declared_for ks = declared_for ks'"
  by (auto simp: fun_eq_iff declared_for_def list_ex_iff)

lemma registered_both:
  assumes "register_each (map (\<lambda>r. (wr_name r, wr_handler r)) inventory) [(DEBOUNCER_WF, c)] = Ok m0" "register_each (eb_workflows b) m0 = Ok m"
  shows "distinct (workflow_keys inventory b)" "set (map fst m) = set (workflow_keys inventory b)"
    "map_of m = map_of ((DEBOUNCER_WF, c) # map (\<lambda>r. (wr_name r, wr_handler r)) inventory @ eb_workflows b)"
proof -
  let ?inv = "map (\<lambda>r. (wr_name r, wr_handler r)) inventory"
  have fsts: "map fst ?inv = map wr_name inventory" by (simp add: comp_def)
  have d0: "distinct (map fst ?inv)" "fst ` set ?inv \<inter> {DEBOUNCER_WF} = {}"
    using assms(1) register_each_ok [of ?inv "[(DEBOUNCER_WF, c)]"] by auto
  have d: "distinct (map fst (eb_workflows b))" "fst ` set (eb_workflows b) \<inter> fst ` set m0 = {}"
    using assms(2) register_each_ok [of "eb_workflows b" m0] by auto
  have m: "map_of m = map_of [(DEBOUNCER_WF, c)] ++ map_of ?inv ++ map_of (eb_workflows b)"
    using register_each_map [OF assms(1)] register_each_map [OF assms(2)] by simp
  have m0: "fst ` set m0 = insert DEBOUNCER_WF (wr_name ` set inventory)"
    using arg_cong [where f = dom, OF register_each_map [OF assms(1)]] by (auto simp: dom_map_of_conv_image_fst image_image)
  have "fst ` set m = fst ` set m0 \<union> fst ` set (eb_workflows b)"
    using arg_cong [where f = dom, OF register_each_map [OF assms(2)]] by (auto simp: dom_map_of_conv_image_fst)
  then show "set (map fst m) = set (workflow_keys inventory b)" by (auto simp: m0 workflow_keys_def)
  show "distinct (workflow_keys inventory b)" using d0 d unfolding fsts m0 by (auto simp: workflow_keys_def image_image)
  have "dom (map_of ?inv) \<inter> dom (map_of (eb_workflows b)) = {}" "DEBOUNCER_WF \<notin> dom (map_of (?inv @ eb_workflows b))"
    using d0 d m0 by (auto simp: dom_map_of_conv_image_fst image_image)
  then show "map_of m = map_of ((DEBOUNCER_WF, c) # ?inv @ eb_workflows b)"
    unfolding m by (auto simp: fun_eq_iff map_add_def map_of_append map_add_None domIff dom_def split: option.splits)
qed

lemma registered_queues:
  assumes "register_each (map (\<lambda>q. (q_name q, q)) (eb_queues b)) [(INTERNAL_QUEUE, internal_queue)] = Ok qs"
  shows "distinct (queue_keys b)" "map_of qs = map_of ((INTERNAL_QUEUE, internal_queue) # map (\<lambda>q. (q_name q, q)) (eb_queues b))"
proof -
  let ?qs = "map (\<lambda>q. (q_name q, q)) (eb_queues b)"
  have d: "distinct (map q_name (eb_queues b))" "INTERNAL_QUEUE \<notin> q_name ` set (eb_queues b)"
    using assms register_each_ok [of ?qs "[(INTERNAL_QUEUE, internal_queue)]"] by (auto simp: comp_def image_image)
  then show "distinct (queue_keys b)" by (simp add: queue_keys_def)
  have "map_of ?qs INTERNAL_QUEUE = None" using d(2) by (simp add: map_of_eq_None_iff image_image)
  then show "map_of qs = map_of ((INTERNAL_QUEUE, internal_queue) # ?qs)"
    unfolding register_each_map [OF assms] by (auto simp: fun_eq_iff map_add_def split: option.splits)
qed

lemma unregistered_workflow:
  assumes "register_each (map (\<lambda>r. (wr_name r, wr_handler r)) inventory) [(DEBOUNCER_WF, c)] = Ok m0" "register_each (eb_workflows b) m0 = Err e"
  shows "\<exists>k. e = ConflictingRegistration k \<and> 2 \<le> count_list (workflow_keys inventory b) k"
proof -
  have "fst ` set m0 = insert DEBOUNCER_WF (wr_name ` set inventory)"
    using arg_cong [where f = dom, OF register_each_map [OF assms(1)]] by (auto simp: dom_map_of_conv_image_fst image_image)
  moreover have "1 \<le> count_list (map wr_name inventory) k" if "k \<in> wr_name ` set inventory" for k
    using that by (metis count_list_0_iff image_set less_one not_le)
  ultimately show ?thesis using register_each_err [OF assms(2)]
    by (fastforce simp: workflow_keys_def count_in_append split: if_splits)
qed

lemma conflicting_inventory:
  assumes "register_each (map (\<lambda>r. (wr_name r, wr_handler r)) inventory) [(DEBOUNCER_WF, c)] = Err e"
  shows "\<exists>k. e = ConflictingRegistration k \<and> 2 \<le> count_list (workflow_keys inventory b) k"
  using register_each_err [OF assms] by (fastforce simp: workflow_keys_def count_in_append comp_def split: if_splits)

lemma conflicting_queue:
  assumes "register_each (map (\<lambda>q. (q_name q, q)) (eb_queues b)) [(INTERNAL_QUEUE, internal_queue)] = Err e"
  shows "\<exists>k. e = ConflictingRegistration k \<and> 2 \<le> count_list (queue_keys b) k"
  using register_each_err [OF assms] by (fastforce simp: queue_keys_def comp_def split: if_splits)

section \<open>Properties\<close>

text \<open>
  C30: a built engine has an unambiguous registry.  A build succeeds only if no two
  registrations share a key, counting the reserved collector, the workflows
  found at compile time and the configured instances, and no two queues a name,
  counting the reserved one, and every role declaration names a registered
  workflow; then each key has the handler it was registered with.  Otherwise
  the error names a key that occurs twice or a workflow that is not registered.
\<close>

theorem build_unambiguous:
  "case build env collector inventory (Ok ()) b of
     Inr E \<Rightarrow> distinct (workflow_keys inventory b) \<and> distinct (queue_keys b)
       \<and> list_all (declared_for (workflow_keys inventory b)) (map fst (eb_required_roles b))
       \<and> map_of (en_workflows E) = map_of ((DEBOUNCER_WF, collector) # map (\<lambda>r. (wr_name r, wr_handler r)) inventory @ eb_workflows b)
       \<and> map_of (en_queues E) = map_of ((INTERNAL_QUEUE, internal_queue) # map (\<lambda>q. (q_name q, q)) (eb_queues b))
   | Inl e \<Rightarrow> (\<exists>k. e = ConflictingRegistration k \<and> (2 \<le> count_list (workflow_keys inventory b) k \<or> 2 \<le> count_list (queue_keys b) k))
       \<or> (\<exists>nm. e = UnknownWorkflow nm \<and> nm \<in> fst ` set (eb_required_roles b) \<and> \<not> declared_for (workflow_keys inventory b) nm)"
proof (cases "register_each (map (\<lambda>r. (wr_name r, wr_handler r)) inventory) [(DEBOUNCER_WF, collector)]")
  case (Inl e)
  then show ?thesis using conflicting_inventory [OF Inl, of b] by (auto simp: build_def)
next
  case m0: (Inr m0)
  show ?thesis
  proof (cases "register_each (eb_workflows b) m0")
    case (Inl e)
    then show ?thesis using m0 unregistered_workflow [OF m0 Inl] by (auto simp: build_def)
  next
    case (Inr m)
    note reg = registered_both [OF m0 Inr]
    have roles: "unknown_role m (eb_required_roles b) = List.find (\<lambda>nm. \<not> declared_for (workflow_keys inventory b) nm) (map fst (eb_required_roles b))"
      by (simp add: unknown_role_find declared_for_cong [OF reg(2)])
    show ?thesis
    proof (cases "unknown_role m (eb_required_roles b)")
      case (Some nm)
      then have "nm \<in> fst ` set (eb_required_roles b)" "\<not> declared_for (workflow_keys inventory b) nm"
        using roles by (auto simp: find_Some_iff)
      then show ?thesis using m0 Inr Some by (simp add: build_def)
    next
      case None
      then have "list_all (declared_for (workflow_keys inventory b)) (map fst (eb_required_roles b))"
        using roles by (auto simp: find_None_iff list_all_iff)
      then show ?thesis using m0 Inr None reg registered_queues [of b] conflicting_queue [of b]
        by (cases "register_each (map (\<lambda>q. (q_name q, q)) (eb_queues b)) [(INTERNAL_QUEUE, internal_queue)]")
          (auto simp: build_def engine_new_def)
    qed
  qed
qed

text \<open>
  The listing of registered workflows is sorted, names each key of the registry once,
  and the scheduled ones among them are those with a schedule.
\<close>

theorem registered_listing:
  assumes "distinct (map fst (en_workflows E))"
  shows "sorted (map rw_name (list_registered_workflows E)) \<and> distinct (map rw_name (list_registered_workflows E))
    \<and> rw_name ` set (list_registered_workflows E) = dom (map_of (en_workflows E))
    \<and> rw_name ` set (list_scheduled_workflows E) = dom (map_of (en_workflows E)) \<inter> fst ` set (en_scheduled E)"
proof -
  have "mset (map rw_name (list_registered_workflows E)) = mset (map fst (en_workflows E))"
    by (simp add: list_registered_workflows_def multiset.map_comp comp_def)
  then have "distinct (map rw_name (list_registered_workflows E))" using assms by (metis mset_eq_imp_distinct_iff)
  moreover have "sorted (map rw_name (list_registered_workflows E))" by (simp add: list_registered_workflows_def)
  moreover have all: "set (list_registered_workflows E)
      = (\<lambda>nm. \<lparr>rw_name = nm, rw_cron_schedule = map_of (rev (en_scheduled E)) nm\<rparr>) ` dom (map_of (en_workflows E))"
    by (simp add: list_registered_workflows_def dom_map_of_conv_image_fst image_image)
  moreover have "set (list_scheduled_workflows E) = (\<lambda>nm. \<lparr>rw_name = nm, rw_cron_schedule = map_of (rev (en_scheduled E)) nm\<rparr>)
      ` (dom (map_of (en_workflows E)) \<inter> {nm. map_of (rev (en_scheduled E)) nm \<noteq> None})"
    by (auto simp: list_scheduled_workflows_def all)
  moreover have "{nm. map_of (rev (en_scheduled E)) nm \<noteq> None} = fst ` set (en_scheduled E)"
    using map_of_eq_None_iff [of "rev (en_scheduled E)"] by auto
  ultimately show ?thesis by (simp add: image_image)
qed

section \<open>Witnesses\<close>

definition identity_handler :: "'s workflow_fn" where
  "identity_handler auth inp = ret (Ok inp)"

definition sample_json_serde :: "json serde" where
  "sample_json_serde = \<lparr>sd_to_value = Inr, sd_from_value = Inr\<rparr>"

definition sample_process :: process_env where
  "sample_process = \<lparr>pe_appversion = Some [], pe_vmid = Some ''vm'', pe_hash = Inr ''h''\<rparr>"

definition sample_builder :: "inner engine_builder" where
  "sample_builder = builder_require_roles ''wf'' [''admin''] (builder_register_configured sample_json_serde sample_json_serde ''wf'' ''eu''
     (\<lambda>_ v. ret (Ok v)) (builder_register_queue (workflow_queue_new ''q'') (builder (memory_provider plain_codec (\<lambda>_. None)))))"

lemmas sample_builder_simps = sample_builder_def builder_def builder_register_configured_def builder_register_queue_def builder_require_roles_def
  registry_key_def workflow_queue_new_def DEBOUNCER_WF_def INTERNAL_QUEUE_def internal_queue_def

theorem build_unambiguous_witness:
  "\<exists>E. build sample_process identity_handler [] (Ok ()) sample_builder = Ok E \<and> en_executor_id E = ''vm'' \<and> en_app_version E = ''h''
    \<and> map_of (en_queues E) ''q'' = Some (workflow_queue_new ''q'')
    \<and> map_of (en_workflows E) ''wf/eu'' = Some (erase sample_json_serde sample_json_serde (\<lambda>_ v. ret (Ok v)))"
proof -
  obtain E where E: "build sample_process identity_handler [] (Ok ()) sample_builder = Ok E" "en_executor_id E = ''vm''" "en_app_version E = ''h''"
    by (simp add: build_def sample_builder_simps unknown_role_def contains_key_def starts_with_def engine_new_def
        resolve_app_version_def resolve_executor_id_def binary_version_def sample_process_def opt_filter_def engine_config_default_def)
  then show ?thesis using build_unambiguous [where env = sample_process and collector = identity_handler and inventory = "[]" and b = sample_builder]
    by (simp add: sample_builder_simps)
qed

lemma registered_listing_witness:
  "rw_name ` set (list_registered_workflows (engine_new (memory_provider plain_codec (\<lambda>_. None)) [(''b'', identity_handler), (''a'', identity_handler)]
      [] None [] [] [] 1 engine_config_default [])) = {''a'', ''b''}"
  using registered_listing [of "engine_new (memory_provider plain_codec (\<lambda>_. None)) [(''b'', identity_handler), (''a'', identity_handler)]
      [] None [] [] [] 1 engine_config_default []"]
  by (auto simp: engine_new_def split: if_splits)

end
