(* ===== verification/Engine_Life.thy ===== *)
theory Engine_Life
  imports Engine_Config
begin

text \<open>
  The life of an engine (\<open>src/engine.rs\<close>): launch, deactivation, shutdown and the
  readiness report.  What a call does to the
  engine between two awaits is one function on its state; a launch has two such
  parts, with provider calls between them during which other calls may run, and
  is therefore two steps of the transition system below.  Dropping a background
  task from the list aborts it.
\<close>

section \<open>Definitions\<close>

subsection \<open>Launch\<close>

definition launch_check :: "'s engine \<Rightarrow> unit result" where
  "launch_check E = (if is_some_and (en_retention E) (\<lambda>p. rp_period p = None \<and> rp_max_rows p = None)
     then Err (app ''a retention policy needs a period or a max_rows bound'')
     else case unknown_role (en_workflows E) (en_required_roles E) of Some nm \<Rightarrow> Err (UnknownWorkflow nm) | None \<Rightarrow> Ok ())"

text \<open>What a launch keeps over its awaits: its token and the queues it found.\<close>

record launching =
  la_token :: nat
  la_queues :: "(string, workflow_queue) hashmap"

definition launch_begin :: "'s engine \<Rightarrow> launching \<times> 's engine" where
  "launch_begin E = (let E1 = (if en_token E \<in> en_cancelled E then E\<lparr>en_token := Suc (en_token E)\<rparr> else E);
     E2 = snd (engine_runtime (E1\<lparr>en_closed := False\<rparr>)) in (\<lparr>la_token = en_token E2, la_queues = en_queues E2\<rparr>, E2))"

definition update_existing :: "'s control_provider \<Rightarrow> string \<Rightarrow> 's \<Rightarrow> bool" where
  "update_existing K version s = (case c_get_latest_application_version K s of
       Inr (Some latest) \<Rightarrow> vi_version_name latest = version
     | Inr None \<Rightarrow> True
     | Inl _ \<Rightarrow> False)"

text \<open>\<open>others k\<close> is what happens to the store before the \<open>k\<close>-th of the following calls.  Failures are logged.\<close>

fun persist_queues :: "'s control_provider \<Rightarrow> bool \<Rightarrow> (nat \<Rightarrow> 's \<Rightarrow> 's) \<Rightarrow> nat \<Rightarrow> workflow_queue list \<Rightarrow> 's \<Rightarrow> 's" where
  "persist_queues K upd others k [] s = s"
| "persist_queues K upd others k (q # qs) s = (if q_name q = INTERNAL_QUEUE then persist_queues K upd others k qs s
     else persist_queues K upd others (Suc k) qs (snd (c_upsert_queue K q upd (others k s))))"

definition launch_register :: "'s control_provider \<Rightarrow> datetime \<Rightarrow> string \<Rightarrow> (nat \<Rightarrow> 's \<Rightarrow> 's) \<Rightarrow> string \<Rightarrow> workflow_queue list \<Rightarrow> 's \<Rightarrow> 's" where
  "launch_register K now fresh others version qs s =
     (let s1 = others 0 (snd (c_create_application_version K now fresh version s)) in
      persist_queues K (update_existing K version s1) others 1 qs s1)"

definition spawned_tasks :: "launching \<Rightarrow> 's runtime \<Rightarrow> retention_policy option \<Rightarrow> background_task list" where
  "spawned_tasks L rt retention = map (\<lambda>work. \<lparr>tk_work = work, tk_token = la_token L, tk_finished = False\<rparr>)
     (map (\<lambda>q. Dispatcher (q_name q)) (filter (\<lambda>q. \<not> is_producer_only rt (q_name q)) (hm_values (la_queues L)))
      @ [Reconciler] @ (case retention of None \<Rightarrow> [] | Some _ \<Rightarrow> [Retention_Sweep]))"

definition launch_end :: "launching \<Rightarrow> 's engine \<Rightarrow> 's engine" where
  "launch_end L E = E\<lparr>en_dispatchers := en_dispatchers E @ spawned_tasks L (fst (engine_runtime E)) (en_retention E)\<rparr>"

text \<open>
  The whole call: \<open>lv_others\<close> is what others do to the store, \<open>lv_meanwhile\<close> what they do
  to the engine between its two parts.  The rows returned are those that the
  background task dispatches for recovery, with the token of this launch.
\<close>

record 's launch_env =
  lv_now :: datetime
  lv_fresh :: string
  lv_others :: "nat \<Rightarrow> 's \<Rightarrow> 's"
  lv_before_listing :: "'s \<Rightarrow> 's"
  lv_meanwhile :: "'s engine \<Rightarrow> 's engine"

definition launch :: "'s control_provider \<Rightarrow> 's launch_env \<Rightarrow> 's engine \<Rightarrow> 's \<Rightarrow> unit result \<times> workflow_status list \<times> 's engine \<times> 's" where
  "launch K V E s = (if en_deactivated E then (Ok (), [], E, s)
     else case launch_check E of
       Inl e \<Rightarrow> (Err e, [], E, s)
     | Inr _ \<Rightarrow> (let (L, E1) = launch_begin E;
           s1 = launch_register K (lv_now V) (lv_fresh V) (lv_others V) (en_app_version E1) (hm_values (la_queues L)) s;
           E2 = lv_meanwhile V E1 in
         if en_recover_on_launch E1
         then (case list_pending_workflows (fst (engine_runtime E1)) [en_executor_id E1] (lv_before_listing V s1) of
             Inl e \<Rightarrow> (Err e, [], E2, lv_before_listing V s1)
           | Inr pending \<Rightarrow> (Ok (), pending, launch_end L E2, lv_before_listing V s1))
         else (Ok (), [], launch_end L E2, s1)))"

subsection \<open>Deactivation, shutdown and readiness\<close>

definition deactivate :: "'s engine \<Rightarrow> 's engine" where
  "deactivate E = (if en_deactivated E then E else E\<lparr>en_deactivated := True, en_recovery_stopped := True, en_dispatchers := []\<rparr>)"

text \<open>The wait for the runs in flight ends at its timeout at the latest and changes nothing.\<close>

definition shutdown :: "'s engine \<Rightarrow> 's engine" where
  "shutdown E = E\<lparr>en_cancelled := insert (en_token E) (en_cancelled E), en_dispatchers := [], en_closed := True\<rparr>"

definition dispatch_state :: "'s engine \<Rightarrow> string option" where
  "dispatch_state E =
     (if en_deactivated E then Some ''deactivated: this process stopped claiming new work''
      else if en_token E \<in> en_cancelled E then Some ''shut down''
      else if en_dispatchers E = [] then Some ''not launched''
      else let dead = length (filter tk_finished (en_dispatchers E)) in
        if 0 < dead then Some (show_nat dead @ '' of '' @ show_nat (length (en_dispatchers E)) @ '' dispatcher tasks have exited unexpectedly'')
        else None)"

record health_report =
  hr_database :: "string option"
  hr_dispatch :: "string option"

definition is_ready :: "health_report \<Rightarrow> bool" where
  "is_ready r \<longleftrightarrow> hr_database r = None \<and> hr_dispatch r = None"

definition health :: "unit result \<Rightarrow> 's engine \<Rightarrow> health_report" where
  "health ping E = \<lparr>hr_database = (case ping of Inl e \<Rightarrow> Some (error_to_string e) | Inr _ \<Rightarrow> None), hr_dispatch = dispatch_state E\<rparr>"

text \<open>
  The calls on a shared engine interleave.  The state is the engine with the launches
  that are between their two parts.  A launch whose listing fails ends without
  starting anything; a background task ends when its token is cancelled, or
  dies.  Registrations need the engine alone, so no launch is on its way.
\<close>

inductive life_step :: "'s engine \<times> launching list \<Rightarrow> 's engine \<times> launching list \<Rightarrow> bool" where
  Launch_Begins: "\<not> en_deactivated E \<Longrightarrow> launch_check E = Ok () \<Longrightarrow> life_step (E, Ls) (snd (launch_begin E), fst (launch_begin E) # Ls)"
| Launch_Ends: "L \<in> set Ls \<Longrightarrow> life_step (E, Ls) (launch_end L E, remove1 L Ls)"
| Launch_Fails: "L \<in> set Ls \<Longrightarrow> life_step (E, Ls) (E, remove1 L Ls)"
| Deactivates: "life_step (E, Ls) (deactivate E, Ls)"
| Shuts_Down: "life_step (E, Ls) (shutdown E, Ls)"
| Task_Exits: "n < length (en_dispatchers E) \<Longrightarrow>
    life_step (E, Ls) (E\<lparr>en_dispatchers := (en_dispatchers E)[n := (en_dispatchers E ! n)\<lparr>tk_finished := True\<rparr>]\<rparr>, Ls)"
| Runtime_Built: "life_step (E, Ls) (snd (engine_runtime E), Ls)"
| Queue_Registered: "life_step (E, []) (engine_register_queue q E, [])"
| Roles_Required: "life_step (E, []) (require_roles nm roles E, [])"
| Filter_Set: "life_step (E, []) (snd (listen_queues names E), [])"

definition life_start :: "'s engine \<Rightarrow> bool" where
  "life_start E \<longleftrightarrow> en_token E = 0 \<and> en_cancelled E = {} \<and> \<not> en_deactivated E \<and> en_dispatchers E = []"

section \<open>Lemmas\<close>

text \<open>Every token but the last is cancelled, and no task or launch has one that is yet to come.\<close>

definition life_inv :: "'s engine \<times> launching list \<Rightarrow> bool" where
  "life_inv = (\<lambda>(E, Ls). {..<en_token E} \<subseteq> en_cancelled E \<and> en_cancelled E \<subseteq> {..en_token E}
     \<and> tk_token ` set (en_dispatchers E) \<subseteq> {..en_token E} \<and> la_token ` set Ls \<subseteq> {..en_token E}
     \<and> (en_deactivated E \<longrightarrow> en_recovery_stopped E))"

lemma engine_runtime_keeps [simp]:
  "en_token (snd (engine_runtime E)) = en_token E" "en_cancelled (snd (engine_runtime E)) = en_cancelled E"
  "en_dispatchers (snd (engine_runtime E)) = en_dispatchers E" "en_deactivated (snd (engine_runtime E)) = en_deactivated E"
  "en_recovery_stopped (snd (engine_runtime E)) = en_recovery_stopped E" "en_queues (snd (engine_runtime E)) = en_queues E"
  "en_listen_filter (snd (engine_runtime E)) = en_listen_filter E" "en_retention (snd (engine_runtime E)) = en_retention E"
  "en_recover_on_launch (snd (engine_runtime E)) = en_recover_on_launch E"
  by (simp_all add: engine_runtime_def split: prod.split)

lemma runtime_shared [simp]:
  "rt_queues (fst (engine_runtime E)) = en_queues E" "rt_listen_filter (fst (engine_runtime E)) = en_listen_filter E"
  "rt_provider (fst (engine_runtime E)) = en_provider E"
  by (simp_all add: engine_runtime_def split: prod.split)

lemma launch_begin_simps [simp]:
  "en_token (snd (launch_begin E)) = (if en_token E \<in> en_cancelled E then Suc (en_token E) else en_token E)"
  "en_cancelled (snd (launch_begin E)) = en_cancelled E" "en_dispatchers (snd (launch_begin E)) = en_dispatchers E"
  "en_deactivated (snd (launch_begin E)) = en_deactivated E" "en_recovery_stopped (snd (launch_begin E)) = en_recovery_stopped E"
  "en_retention (snd (launch_begin E)) = en_retention E" "en_listen_filter (snd (launch_begin E)) = en_listen_filter E"
  "en_recover_on_launch (snd (launch_begin E)) = en_recover_on_launch E"
  "la_token (fst (launch_begin E)) = en_token (snd (launch_begin E))" "la_queues (fst (launch_begin E)) = en_queues E"
  by (simp_all add: launch_begin_def Let_def)

lemma spawned_token: "t \<in> set (spawned_tasks L rt retention) \<Longrightarrow> tk_token t = la_token L \<and> \<not> tk_finished t"
  by (auto simp: spawned_tasks_def split: option.splits)

lemma spawned_tokens [simp]: "tk_token ` set (spawned_tasks L rt retention) = {la_token L}"
  by (auto simp: spawned_tasks_def split: option.splits)

lemma registrations_keep [simp]:
  "en_token (engine_register_queue q E) = en_token E" "en_cancelled (engine_register_queue q E) = en_cancelled E"
  "en_dispatchers (engine_register_queue q E) = en_dispatchers E" "en_deactivated (engine_register_queue q E) = en_deactivated E"
  "en_recovery_stopped (engine_register_queue q E) = en_recovery_stopped E"
  "en_token (require_roles nm roles E) = en_token E" "en_cancelled (require_roles nm roles E) = en_cancelled E"
  "en_dispatchers (require_roles nm roles E) = en_dispatchers E" "en_deactivated (require_roles nm roles E) = en_deactivated E"
  "en_recovery_stopped (require_roles nm roles E) = en_recovery_stopped E"
  "en_token (snd (listen_queues names E)) = en_token E" "en_cancelled (snd (listen_queues names E)) = en_cancelled E"
  "en_dispatchers (snd (listen_queues names E)) = en_dispatchers E" "en_deactivated (snd (listen_queues names E)) = en_deactivated E"
  "en_recovery_stopped (snd (listen_queues names E)) = en_recovery_stopped E"
  by (simp_all add: engine_register_queue_def require_roles_def listen_queues_def)

lemma life_step_inv: "life_step p p' \<Longrightarrow> life_inv p \<Longrightarrow> life_inv p'"
proof (induction rule: life_step.induct)
  case (Launch_Begins E Ls)
  then show ?case by (auto simp: life_inv_def less_Suc_eq image_subset_iff split: if_splits intro: le_SucI)
next
  case (Launch_Ends L Ls E)
  then show ?case using set_remove1_subset [of L Ls] by (auto simp: life_inv_def launch_end_def image_Un image_subset_iff dest: spawned_token)
next
  case (Launch_Fails L Ls E)
  then show ?case using set_remove1_subset [of L Ls] by (auto simp: life_inv_def image_subset_iff)
next
  case (Task_Exits n E Ls)
  then show ?case using set_update_subset_insert [of "en_dispatchers E" n] by (fastforce simp: life_inv_def image_subset_iff)
qed (auto simp: life_inv_def deactivate_def shutdown_def)

lemma life_inv_reachable:
  assumes "life_step\<^sup>*\<^sup>* p p'" "life_inv p"
  shows "life_inv p'"
  using assms by (induction rule: rtranclp_induct) (auto intro: life_step_inv)

lemma life_start_inv: "life_start E \<Longrightarrow> life_inv (E, [])"
  by (simp add: life_start_def life_inv_def)

lemma cancelled_stays:
  assumes "life_step\<^sup>*\<^sup>* p p'"
  shows "en_cancelled (fst p) \<subseteq> en_cancelled (fst p')"
  using assms
proof (induction rule: rtranclp_induct)
  case (step p' p'')
  have "en_cancelled (fst p') \<subseteq> en_cancelled (fst p'')"
    using step(2) by (cases rule: life_step.cases) (auto simp: launch_end_def deactivate_def shutdown_def)
  with step(3) show ?case by blast
qed simp

lemma deactivated_idle:
  assumes "life_step\<^sup>*\<^sup>* p p'" "en_deactivated (fst p)" "en_dispatchers (fst p) = []" "snd p = []"
  shows "en_deactivated (fst p') \<and> en_dispatchers (fst p') = [] \<and> snd p' = []"
  using assms
proof (induction rule: rtranclp_induct)
  case (step p' p'')
  then have "en_deactivated (fst p')" "en_dispatchers (fst p') = []" "snd p' = []" by simp_all
  with step(2) show ?case by (cases rule: life_step.cases) (auto simp: deactivate_def shutdown_def)
qed simp

lemma launch_alone:
  assumes "launch_check E = Ok ()" "\<not> en_deactivated E"
  shows "life_step\<^sup>*\<^sup>* (E, []) (launch_end (fst (launch_begin E)) (snd (launch_begin E)), [])"
proof -
  have "life_step (E, []) (snd (launch_begin E), [fst (launch_begin E)])" using assms by (intro Launch_Begins) simp_all
  moreover have "life_step (snd (launch_begin E), [fst (launch_begin E)]) (launch_end (fst (launch_begin E)) (snd (launch_begin E)), [])"
    using Launch_Ends [of "fst (launch_begin E)" "[fst (launch_begin E)]" "snd (launch_begin E)"] by simp
  ultimately show ?thesis by (rule converse_rtranclp_into_rtranclp [OF _ r_into_rtranclp])
qed

lemma launch_without_recovery:
  assumes "\<not> en_deactivated E" "launch_check E = Ok ()" "\<not> en_recover_on_launch E"
  shows "\<exists>E' s'. launch K V E s = (Ok (), [], E', s')"
  using assms by (simp add: launch_def Let_def case_prod_unfold)

lemma pending_token:
  assumes "life_inv (E, Ls)" "L \<in> set Ls" "la_token L \<notin> en_cancelled E"
  shows "la_token L = en_token E"
proof -
  have "la_token L \<le> en_token E" "\<not> la_token L < en_token E" using assms by (auto simp: life_inv_def)
  then show ?thesis by simp
qed

subsection \<open>The queue registry\<close>

lemma persisted_queues:
  assumes "distinct (map q_name qs)"
  shows "map_of (queues (persist_queues (memory_control C f) upd (\<lambda>_. id) k qs g)) nm = (case List.find (\<lambda>q. q_name q = nm) qs of
      Some q \<Rightarrow> if nm \<noteq> INTERNAL_QUEUE \<and> (upd \<or> map_of (queues g) nm = None) then Some q else map_of (queues g) nm
    | None \<Rightarrow> map_of (queues g) nm)"
  using assms
proof (induction qs arbitrary: g k)
  case (Cons q qs)
  have later: "nm = q_name q \<Longrightarrow> List.find (\<lambda>p. q_name p = nm) qs = None"
    using Cons.prems by (auto simp: find_None_iff) (metis image_eqI)
  show ?case
  proof (cases "nm = q_name q")
    case True
    then show ?thesis using Cons later by (auto simp: upsert_queue_def update_conv contains_key_iff domIff)
  next
    case False
    then show ?thesis using Cons by (auto simp: upsert_queue_def update_conv split: option.split)
  qed
qed simp

lemma keyed_values: "keyed_by h m \<Longrightarrow> map h (hm_values m) = map fst m"
  by (induction m) (auto simp: keyed_by_def hm_values_def)

lemma find_key:
  assumes "keyed_by h m"
  shows "List.find (\<lambda>v. h v = k) (hm_values m) = map_of m k"
  using assms by (induction m) (auto simp: keyed_by_def hm_values_def)

text \<open>The time stamp of a version, which registering it leaves as it is.\<close>

definition stamp :: "datetime \<Rightarrow> string \<Rightarrow> inner \<Rightarrow> datetime" where
  "stamp now version g = (case map_of (versions g) version of Some u \<Rightarrow> vi_version_timestamp u | None \<Rightarrow> now)"

lemma latest_after_create:
  fixes now :: datetime and fresh version :: string
  assumes "mem_inv g"
  defines "g1 \<equiv> snd (create_application_version now fresh version g)"
  shows "\<exists>x n. get_latest_application_version g1 = Ok (Some x) \<and> vi_version_name x = n \<and> (n = version \<or> n \<in> dom (map_of (versions g)))
    \<and> (\<forall>n'. n' = version \<or> n' \<in> dom (map_of (versions g)) \<longrightarrow> stamp now n' g \<le> stamp now n g)"
proof -
  have "keyed_by vi_version_name (versions g)" using assms(1) unfolding mem_inv_def by blast
  then have keyed: "keyed_by vi_version_name (versions g1)" by (simp add: g1_def create_application_version_def)
  have entry: "map_of (versions g1) n \<noteq> None \<longleftrightarrow> n = version \<or> n \<in> dom (map_of (versions g))"
    "map_of (versions g1) n = Some v \<Longrightarrow> vi_version_timestamp v = stamp now n g" for n v
    by (auto simp: g1_def create_application_version_def stamp_def contains_key_iff split: if_splits option.splits)
  have "versions g1 \<noteq> []" using entry(1) [of version] by auto
  then obtain x where x: "max_by_key vi_version_timestamp (hm_values (versions g1)) = Some x"
    by (cases "max_by_key vi_version_timestamp (hm_values (versions g1))") (auto simp: hm_values_def)
  have max: "x \<in> set (hm_values (versions g1))" "\<forall>y \<in> set (hm_values (versions g1)). vi_version_timestamp y \<le> vi_version_timestamp x"
    using max_by_key_Some [OF x] by blast+
  obtain n where n: "map_of (versions g1) n = Some x"
    using max(1) keyed_by_distinct [OF keyed] by (auto simp: hm_values_def)
  have "stamp now n' g \<le> stamp now n g" if known: "n' = version \<or> n' \<in> dom (map_of (versions g))" for n'
  proof -
    obtain y where "map_of (versions g1) n' = Some y" using known entry(1) [of n'] by blast
    then show ?thesis using max(2) entry(2) n by (metis hm_values_def image_eqI map_of_SomeD set_map snd_conv)
  qed
  then show ?thesis using x entry(1) [of n] n keyed_by_lookup [OF keyed n] by (auto simp: get_latest_application_version_def)
qed

section \<open>Properties\<close>

text \<open>
  C12: a shutdown ends its generation for good.  However launches, deactivations and
  shutdowns interleave, the loops that can still run hold the current token; once a
  shutdown has returned, every loop that a launch begun before it has started,
  or is yet to start, holds a cancelled token, whatever is launched later.
\<close>

theorem shutdown_ends_generation:
  assumes "life_start E0" "life_step\<^sup>*\<^sup>* (E0, []) (E, Ls)" "life_step\<^sup>*\<^sup>* (shutdown E, Ls) (E', Ls')"
  shows "(\<forall>t \<in> set (en_dispatchers E'). (tk_token t \<in> en_cancelled E' \<or> tk_token t = en_token E')
      \<and> (tk_token t \<le> en_token E \<longrightarrow> tk_token t \<in> en_cancelled E'))
    \<and> (\<forall>L \<in> set Ls. la_token L \<in> en_cancelled E')"
proof -
  have inv: "life_inv (E, Ls)" using life_inv_reachable [OF assms(2)] life_start_inv [OF assms(1)] by blast
  then have inv': "life_inv (E', Ls')" using life_inv_reachable [OF assms(3)] life_step_inv [OF Shuts_Down] by blast
  have "{..en_token E} \<subseteq> en_cancelled (shutdown E)" using inv by (auto simp: life_inv_def shutdown_def nat_less_le)
  then have old: "{..en_token E} \<subseteq> en_cancelled E'" using cancelled_stays [OF assms(3)] by auto
  have "tk_token t \<in> en_cancelled E' \<or> tk_token t = en_token E'" if "t \<in> set (en_dispatchers E')" for t
    using inv' that by (auto simp: life_inv_def image_subset_iff nat_less_le)
  then show ?thesis using inv old by (auto simp: life_inv_def image_subset_iff)
qed

text \<open>
  A deactivation is final.  If no launch is on its way, a deactivated engine runs no
  background task, whatever is called on it afterwards, and its report says so.
\<close>

theorem deactivation_final:
  assumes "\<not> en_deactivated E" "life_step\<^sup>*\<^sup>* (deactivate E, []) (E', Ls)"
  shows "en_dispatchers E' = [] \<and> Ls = [] \<and> dispatch_state E' = Some ''deactivated: this process stopped claiming new work''"
  using deactivated_idle [OF assms(2)] assms(1) by (simp add: deactivate_def dispatch_state_def)

text \<open>
  C34: a launch on its way escapes a deactivation.  A launch that is between its two parts
  when the engine is deactivated starts its tasks all the same, with a token
  that nothing has cancelled: the engine reports itself deactivated while it
  claims work, and a second deactivation does nothing.
\<close>

theorem deactivation_races_launch:
  assumes "life_start E0" "life_step\<^sup>*\<^sup>* (E0, []) (E, Ls)" "\<not> en_deactivated E" "L \<in> set Ls" "la_token L \<notin> en_cancelled E"
  shows "\<exists>E'. life_step\<^sup>*\<^sup>* (deactivate E, Ls) (E', remove1 L Ls) \<and> en_deactivated E' \<and> deactivate E' = E'
    \<and> \<lparr>tk_work = Reconciler, tk_token = en_token E', tk_finished = False\<rparr> \<in> set (en_dispatchers E') \<and> en_token E' \<notin> en_cancelled E'
    \<and> (\<forall>q \<in> set (hm_values (la_queues L)). \<not> is_producer_only (fst (engine_runtime E)) (q_name q) \<longrightarrow>
        \<lparr>tk_work = Dispatcher (q_name q), tk_token = en_token E', tk_finished = False\<rparr> \<in> set (en_dispatchers E'))"
proof -
  have "life_inv (E, Ls)" using life_inv_reachable [OF assms(2)] life_start_inv [OF assms(1)] by blast
  then have tok: "la_token L = en_token E" using assms(4,5) by (rule pending_token)
  have "life_step (deactivate E, Ls) (launch_end L (deactivate E), remove1 L Ls)" using assms(4) by (rule Launch_Ends)
  moreover have "is_producer_only (fst (engine_runtime (deactivate E))) = is_producer_only (fst (engine_runtime E))"
    by (simp add: is_producer_only_def deactivate_def fun_eq_iff)
  ultimately show ?thesis using assms(3,5) tok
    by (intro exI [of _ "launch_end L (deactivate E)"]) (auto simp: launch_end_def deactivate_def spawned_tasks_def image_iff split: option.splits)
qed

text \<open>
  C13: a launch brings the engine up.  On an engine that has no background tasks, was
  not deactivated and has a valid configuration, also after any number of
  shutdowns, a launch that nothing interferes with makes the engine ready: one
  dispatcher for each registered queue that it listens to, the reserved queue
  always among them, the reconciler, and the retention task if there is a policy.
\<close>

theorem launch_serves:
  assumes "life_start E0" "life_step\<^sup>*\<^sup>* (E0, []) (E, [])" "en_dispatchers E = []" "\<not> en_deactivated E" "launch_check E = Ok ()"
    and "lv_meanwhile V = id" "en_provider E = memory_provider C f"
  shows "\<exists>pending E' s'. launch K V E s = (Ok (), pending, E', s') \<and> life_step\<^sup>*\<^sup>* (E, []) (E', []) \<and> is_ready (health (Ok ()) E')
    \<and> map tk_work (en_dispatchers E') = map (\<lambda>q. Dispatcher (q_name q)) (filter (\<lambda>q. q_name q = INTERNAL_QUEUE
          \<or> is_none_or (en_listen_filter E) (\<lambda>names. q_name q \<in> set names)) (hm_values (en_queues E)))
        @ [Reconciler] @ (if en_retention E = None then [] else [Retention_Sweep])"
proof -
  let ?L = "fst (launch_begin E)" and ?E = "launch_end (fst (launch_begin E)) (snd (launch_begin E))"
  have "en_provider (snd (launch_begin E)) = memory_provider C f"
    using assms(7) by (simp add: launch_begin_def engine_runtime_def Let_def split: prod.split)
  then have "\<exists>rows. \<forall>ids g. list_pending_workflows (fst (engine_runtime (snd (launch_begin E)))) ids g = Ok (rows ids g)"
    by (intro choice allI) (simp add: list_pending_workflows_def list_workflows_def)
  then have "\<exists>pending s'. launch K V E s = (Ok (), pending, ?E, s')"
    using assms(4-6) by (cases "en_recover_on_launch E") (auto simp: launch_def Let_def case_prod_unfold)
  then obtain pending s' where run: "launch K V E s = (Ok (), pending, ?E, s')" by blast
  have "life_inv (E, [])" using life_inv_reachable [OF assms(2)] life_start_inv [OF assms(1)] by blast
  then have live: "en_token ?E \<notin> en_cancelled ?E" by (auto simp: life_inv_def launch_end_def)
  have tasks: "en_dispatchers ?E = spawned_tasks ?L (fst (engine_runtime (snd (launch_begin E)))) (en_retention E)"
    using assms(3) by (simp add: launch_end_def)
  then have "filter tk_finished (en_dispatchers ?E) = []" "en_dispatchers ?E \<noteq> []"
    by (auto simp: filter_empty_conv dest: spawned_token) (simp add: spawned_tasks_def)
  then have "is_ready (health (Ok ()) ?E)"
    using live assms(4) by (simp add: is_ready_def health_def dispatch_state_def Let_def launch_end_def)
  moreover have "map tk_work (en_dispatchers ?E) = map (\<lambda>q. Dispatcher (q_name q)) (filter (\<lambda>q. q_name q = INTERNAL_QUEUE
          \<or> is_none_or (en_listen_filter E) (\<lambda>names. q_name q \<in> set names)) (hm_values (en_queues E)))
        @ [Reconciler] @ (if en_retention E = None then [] else [Retention_Sweep])"
    by (auto simp: tasks spawned_tasks_def is_producer_only_def is_some_and_def is_none_or_def comp_def split: option.splits intro!: filter_cong)
  ultimately show ?thesis using run launch_alone [OF assms(5,4)] by blast
qed

text \<open>
  Roles declared after the first run are not enforced.  The declaration is accepted,
  and so is the launch that checks it, but the execution core keeps the
  declarations it found when it was built: the gate lets every caller in.
\<close>

theorem late_roles_unenforced:
  assumes "en_captured E = Some (wfs, roles)" "map_of roles (wf_name row) = None" "en_captured \<circ> lv_meanwhile V = en_captured"
    and "launch K V (require_roles (wf_name row) required E) s = (Ok (), pending, E', s')"
  shows "role_gate (fst (engine_runtime E')) row = Ok (from_status row)"
proof -
  have keep: "en_captured (lv_meanwhile V E1) = en_captured E1" for E1 using fun_cong [OF assms(3), of E1] by simp
  have "en_captured E' = Some (wfs, roles)"
    using assms(1,4) by (auto simp: launch_def launch_begin_def launch_end_def engine_runtime_def require_roles_def Let_def keep
        split: if_splits sum.splits option.splits prod.splits)
  then show ?thesis using assms(2) by (simp add: engine_runtime_def role_gate_def Let_def)
qed

text \<open>
  An older version does not overwrite a newer one's queues.  When an engine launches
  while a newer version is registered, every queue that is persisted keeps its
  configuration and only missing ones are added; if all other versions are
  older, its own configurations replace those persisted under the same names.
  The reserved queue is never persisted.
\<close>

theorem launch_respects_newer_queues:
  fixes C :: codec and f :: "int \<Rightarrow> datetime option" and now :: datetime and fresh version :: string
  assumes "mem_inv g" "keyed_by q_name m"
  defines "g' \<equiv> launch_register (memory_control C f) now fresh (\<lambda>_. id) version (hm_values m) g"
  shows "((\<exists>n \<in> dom (map_of (versions g)). stamp now version g < stamp now n g) \<longrightarrow>
      map_of (queues g') nm = (case map_of (queues g) nm of Some q \<Rightarrow> Some q | None \<Rightarrow> if nm = INTERNAL_QUEUE then None else map_of m nm))
    \<and> ((\<forall>n \<in> dom (map_of (versions g)). n \<noteq> version \<longrightarrow> stamp now n g < stamp now version g) \<longrightarrow>
      map_of (queues g') nm = (if nm = INTERNAL_QUEUE \<or> map_of m nm = None then map_of (queues g) nm else map_of m nm))"
proof -
  let ?g1 = "snd (create_application_version now fresh version g)"
  obtain x n where x: "get_latest_application_version ?g1 = Ok (Some x)" "vi_version_name x = n" "n = version \<or> n \<in> dom (map_of (versions g))"
    "\<forall>n'. n' = version \<or> n' \<in> dom (map_of (versions g)) \<longrightarrow> stamp now n' g \<le> stamp now n g"
    using latest_after_create [OF assms(1), of now fresh version] by blast
  have q: "queues ?g1 = queues g" by (simp add: create_application_version_def)
  have "distinct (map q_name (hm_values m))"
    using assms(2) keyed_by_distinct [OF assms(2)] by (simp add: keyed_values)
  then have "map_of (queues g') nm = (case map_of m nm of
      Some q \<Rightarrow> if nm \<noteq> INTERNAL_QUEUE \<and> (n = version \<or> map_of (queues g) nm = None) then Some q else map_of (queues g) nm
    | None \<Rightarrow> map_of (queues g) nm)"
    unfolding g'_def launch_register_def Let_def by (auto simp: persisted_queues find_key [OF assms(2)] update_existing_def x(1,2) q split: option.split)
  moreover have "n \<noteq> version" if "\<exists>n \<in> dom (map_of (versions g)). stamp now version g < stamp now n g" using that x(4) by fastforce
  moreover have "n = version" if "\<forall>n \<in> dom (map_of (versions g)). n \<noteq> version \<longrightarrow> stamp now n g < stamp now version g"
    using that x(3,4) by fastforce
  ultimately show ?thesis by (auto split: option.splits)
qed

section \<open>Witnesses\<close>

definition sample_life :: "inner engine" where
  "sample_life = engine_new (memory_provider plain_codec (\<lambda>_. None)) [(''wf'', identity_handler)]
     [(INTERNAL_QUEUE, internal_queue), (''q'', workflow_queue_new ''q'')] None [] ''vm'' ''v1'' 100 engine_config_default []"

definition sample_going :: "inner engine" where
  "sample_going = snd (launch_begin sample_life)"

definition sample_launching :: launching where
  "sample_launching = fst (launch_begin sample_life)"

definition sample_launch_env :: "inner launch_env" where
  "sample_launch_env = \<lparr>lv_now = 1, lv_fresh = ''f'', lv_others = \<lambda>_. id, lv_before_listing = id, lv_meanwhile = id\<rparr>"

lemma sample_life_simps [simp]:
  "life_start sample_life" "launch_check sample_life = Ok ()" "\<not> en_deactivated sample_life" "en_dispatchers sample_life = []"
  "en_token sample_life = 0" "en_cancelled sample_life = {}" "en_listen_filter sample_life = None" "en_retention sample_life = None"
  "hm_values (en_queues sample_life) = [internal_queue, workflow_queue_new ''q'']" "en_provider sample_life = memory_provider plain_codec (\<lambda>_. None)"
  by (simp_all add: sample_life_def engine_new_def life_start_def launch_check_def unknown_role_def engine_config_default_def hm_values_def is_some_and_def)

lemma sample_going_reached: "life_step\<^sup>*\<^sup>* (sample_life, []) (sample_going, [sample_launching])"
  unfolding sample_going_def sample_launching_def by (rule r_into_rtranclp) (rule Launch_Begins, simp_all)

lemma sample_going_simps [simp]:
  "\<not> en_deactivated sample_going" "en_token sample_going = 0" "en_cancelled sample_going = {}" "en_dispatchers sample_going = []"
  "la_token sample_launching = 0" "en_listen_filter sample_going = None" "hm_values (la_queues sample_launching) = [internal_queue, workflow_queue_new ''q'']"
  by (simp_all add: sample_going_def sample_launching_def)

theorem shutdown_ends_generation_witness:
  "tk_token ` set (en_dispatchers (launch_end sample_launching (shutdown sample_going))) = {la_token sample_launching}
    \<and> la_token sample_launching \<in> en_cancelled (launch_end sample_launching (shutdown sample_going))"
proof -
  have "life_step\<^sup>*\<^sup>* (shutdown sample_going, [sample_launching]) (launch_end sample_launching (shutdown sample_going), [])"
    using Launch_Ends [of sample_launching "[sample_launching]"] by auto
  from shutdown_ends_generation [OF sample_life_simps(1) sample_going_reached this]
  have "la_token sample_launching \<in> en_cancelled (launch_end sample_launching (shutdown sample_going))" by simp
  moreover have "en_dispatchers (launch_end sample_launching (shutdown sample_going))
      = spawned_tasks sample_launching (fst (engine_runtime (shutdown sample_going))) (en_retention sample_going)"
    by (simp add: launch_end_def shutdown_def)
  ultimately show ?thesis by (simp only: spawned_tokens)
qed

theorem deactivation_final_witness:
  "dispatch_state (shutdown (deactivate sample_life)) = Some ''deactivated: this process stopped claiming new work''"
  using deactivation_final [of sample_life "shutdown (deactivate sample_life)" "[]"] r_into_rtranclp [of life_step, OF Shuts_Down [of "deactivate sample_life" "[]"]] by simp

theorem deactivation_races_launch_witness:
  "\<exists>E'. life_step\<^sup>*\<^sup>* (deactivate sample_going, [sample_launching]) (E', []) \<and> en_deactivated E'
    \<and> \<lparr>tk_work = Dispatcher ''q'', tk_token = en_token E', tk_finished = False\<rparr> \<in> set (en_dispatchers E')"
  using deactivation_races_launch [OF sample_life_simps(1) sample_going_reached, of sample_launching]
  by (auto simp: is_producer_only_def is_some_and_def workflow_queue_new_def)

theorem launch_serves_witness:
  "\<exists>pending E' s'. launch (memory_control plain_codec (\<lambda>_. None)) sample_launch_env sample_life inner_default = (Ok (), pending, E', s')
    \<and> is_ready (health (Ok ()) E') \<and> map tk_work (en_dispatchers E') = [Dispatcher INTERNAL_QUEUE, Dispatcher ''q'', Reconciler]"
  using launch_serves [of sample_life sample_life sample_launch_env plain_codec "\<lambda>_. None" "memory_control plain_codec (\<lambda>_. None)" inner_default]
  by (auto simp: sample_launch_env_def is_none_or_def internal_queue_def workflow_queue_new_def)

theorem late_roles_unenforced_witness:
  "\<exists>E' s'. launch (memory_control plain_codec (\<lambda>_. None)) sample_launch_env (require_roles ''wf'' [''admin''] (snd (engine_runtime sample_life)))
      inner_default = (Ok (), [], E', s')
    \<and> role_gate (fst (engine_runtime E')) (workflow_status_new 0 ''i'' ''wf'' JNull STATUS_PENDING ''vm'' ''v1'')
        = Ok (from_status (workflow_status_new 0 ''i'' ''wf'' JNull STATUS_PENDING ''vm'' ''v1''))"
proof -
  let ?row = "workflow_status_new 0 ''i'' ''wf'' JNull STATUS_PENDING ''vm'' ''v1''" and ?E = "snd (engine_runtime sample_life)"
  have cap: "en_captured ?E = Some ([(''wf'', identity_handler)], [])" by (simp add: engine_runtime_def sample_life_def engine_new_def)
  have "launch_check (require_roles ''wf'' [''admin''] ?E) = Ok ()" "\<not> en_recover_on_launch (require_roles ''wf'' [''admin''] ?E)"
    by (simp_all add: launch_check_def require_roles_def engine_runtime_def sample_life_def engine_new_def unknown_role_def contains_key_def
        engine_config_default_def is_some_and_def resolve_recover_on_launch_def unwrap_or_def)
  then obtain E' s' where "launch (memory_control plain_codec (\<lambda>_. None)) sample_launch_env (require_roles (wf_name ?row) [''admin''] ?E) inner_default
      = (Ok (), [], E', s')"
    using launch_without_recovery [of "require_roles ''wf'' [''admin''] ?E" "memory_control plain_codec (\<lambda>_. None)" sample_launch_env inner_default]
    by (auto simp: workflow_status_new_def)
  from late_roles_unenforced [OF cap _ _ this] this show ?thesis by (auto simp: sample_launch_env_def workflow_status_new_def)
qed

definition sample_registry :: inner where
  "sample_registry = inner_default\<lparr>versions := [(''v2'', \<lparr>vi_version_id = ''i'', vi_version_name = ''v2'', vi_version_timestamp = 9, vi_created_at = 9\<rparr>)],
     queues := [(''q'', (workflow_queue_new ''q'')\<lparr>q_priority_enabled := True\<rparr>)]\<rparr>"

theorem launch_respects_newer_queues_witness:
  "map_of (queues (launch_register (memory_control plain_codec (\<lambda>_. None)) 1 ''f'' (\<lambda>_. id) ''v1'' [workflow_queue_new ''q''] sample_registry)) ''q''
    = Some ((workflow_queue_new ''q'')\<lparr>q_priority_enabled := True\<rparr>)"
proof -
  have "mem_inv sample_registry" "keyed_by q_name [(''q'', workflow_queue_new ''q'')]" 
    by (simp_all add: mem_inv_def keyed_by_def sample_registry_def inner_default_def workflow_queue_new_def)
  from launch_respects_newer_queues [OF this, of 1 "''v1''" plain_codec "\<lambda>_. None" "''f''" "''q''"] show ?thesis
    by (simp add: sample_registry_def stamp_def hm_values_def)
qed

end
