(* ===== verification/Engine_Upkeep.thy ===== *)
theory Engine_Upkeep
  imports Engine_Life
begin

text \<open>
  What keeps a running engine in shape and tells about it (\<open>src/engine.rs\<close>): the
  retention task, the metrics and the verification of a recorded history.  The
  hash that spreads the sweeps of a fleet is an argument, and the spread interval
  is exact where the code rounds to an \<open>f64\<close>.
\<close>

section \<open>Definitions\<close>

subsection \<open>Retention\<close>

definition jitter_factor :: "(string \<Rightarrow> nat) \<Rightarrow> string \<Rightarrow> rat" where
  "jitter_factor hash executor_id = 9 / 10 + 2 / 10 * (of_nat (hash executor_id mod 1000) / 1000)"

definition sweep_interval :: "(string \<Rightarrow> nat) \<Rightarrow> retention_policy \<Rightarrow> string \<Rightarrow> rat" where
  "sweep_interval hash policy executor_id = of_nat (rp_sweep_interval policy) * jitter_factor hash executor_id"

text \<open>The cutoff of a sweep; both the cast and the subtraction wrap.\<close>

definition sweep_cutoff :: "datetime \<Rightarrow> retention_policy \<Rightarrow> int option" where
  "sweep_cutoff now policy = map_option (\<lambda>p. wrap_i64 (timestamp_millis now - as_millis p)) (rp_period policy)"

text \<open>
  The sweeps, one for each round of the loop: whether it was cancelled while it waited,
  the clock, and what others did before.  The result counts what was collected;
  it is \<open>None\<close> if a collection does not return.
\<close>

fun retention_sweep_loop :: "'s query_provider \<Rightarrow> retention_policy \<Rightarrow> (bool \<times> datetime \<times> ('s \<Rightarrow> 's)) list \<Rightarrow> int \<Rightarrow> 's \<Rightarrow> (int \<times> 's) option" where
  "retention_sweep_loop Y policy [] collected s = Some (collected, s)"
| "retention_sweep_loop Y policy ((cancelled, now, others) # rounds) collected s = (if cancelled then Some (collected, s)
     else Option.bind (y_garbage_collect Y (sweep_cutoff now policy) (rp_max_rows policy) (others s)) (\<lambda>(r, s').
       retention_sweep_loop Y policy rounds (case r of Inr deleted \<Rightarrow> collected + deleted | Inl _ \<Rightarrow> collected) s'))"

subsection \<open>Metrics\<close>

record engine_counters =
  ct_workflows_recovered :: nat
  ct_step_retries :: nat
  ct_dead_lettered :: nat
  ct_dequeue_errors :: nat
  ct_workflows_collected :: nat

record engine_metrics =
  em_workflows_in_flight :: nat
  em_queue_depth :: "(string, int) hashmap"
  em_counters :: engine_counters

definition depth_query :: workflow_aggregate_query where
  "depth_query = \<lparr>wq_by_status = False, wq_by_name = False, wq_by_queue_name = True, wq_by_executor_id = False, wq_by_app_version = False,
     wq_select_count = True, wq_select_min_created_at = False, wq_select_max_queue_wait_ms = False,
     wq_select_max_total_latency_ms = False, wq_time_bucket_ms = None, wq_status = [STATUS_ENQUEUED], wq_name = [], wq_app_version = [],
     wq_executor_ids = [], wq_queue_names = [], wq_workflow_id_prefix = None, wq_start_time_ms = None, wq_end_time_ms = None,
     wq_completed_after_ms = None, wq_completed_before_ms = None, wq_dequeued_after_ms = None, wq_dequeued_before_ms = None, wq_limit = None\<rparr>"

definition queue_depth :: "workflow_aggregate list \<Rightarrow> (string, int) hashmap \<Rightarrow> (string, int) hashmap" where
  "queue_depth rows m = fold (\<lambda>row m. case (map_of (wa_group row) ''queue_name'', wa_count row) of
       (Some (Some queue), Some n) \<Rightarrow> AList.update queue n m
     | _ \<Rightarrow> m) rows m"

text \<open>
  \<open>in_flight\<close> is the number of tracked runs.  Reading the counters builds the execution core
  if there is none yet, which is \<open>engine_runtime\<close>.
\<close>

definition metrics :: "'s query_provider \<Rightarrow> nat \<Rightarrow> engine_counters \<Rightarrow> 's engine \<Rightarrow> 's \<Rightarrow> engine_metrics result" where
  "metrics Y in_flight counters E s = result_bind (y_get_workflow_aggregates Y depth_query s) (\<lambda>rows.
     Ok \<lparr>em_workflows_in_flight = in_flight, em_queue_depth = queue_depth rows (map (\<lambda>(q, _). (q, 0)) (en_queues E)), em_counters = counters\<rparr>)"

subsection \<open>Verification of a history\<close>

text \<open>The world a verification runs the body in: an execution of its own, and a fresh cell to book in.\<close>

definition verifying_world :: "string \<Rightarrow> nat \<Rightarrow> bool \<Rightarrow> 's world \<Rightarrow> 's world" where
  "verifying_world i token whole w = w\<lparr>w_seq := 0, w_execution := execution_new token i, w_verify := Some (verification_new whole),
     w_current := Some token, w_in_body := False\<rparr>"

text \<open>
  What the end of the body becomes.  A failure that the execution latched while the
  body was suspended ends the wait with the error that \<open>check\<close> gives.
\<close>

definition verified :: "history \<Rightarrow> bool \<Rightarrow> json run_outcome \<Rightarrow> 's world \<Rightarrow> replay_report result" where
  "verified h whole outcome w = (case check (w_execution w) of
       Inl e \<Rightarrow> Err e
     | Inr _ \<Rightarrow> (case outcome of
           Returned (Inl (RecoveryRequired cause)) \<Rightarrow> Err (RecoveryRequired cause)
         | Returned (Inl (ObservationFailed cause)) \<Rightarrow> Err (ObservationFailed cause)
         | _ \<Rightarrow> Ok (report h outcome (unwrap_or (verification_new whole) (w_verify w)))))"

definition verify_replay :: "'s runtime \<Rightarrow> nat \<Rightarrow> string \<Rightarrow> 's world \<Rightarrow> replay_report result \<times> 's world" where
  "verify_replay rt token i w = (case map_err observation_error (p_get_workflow_status (rt_provider rt) i (w_store w)) of
       Inl e \<Rightarrow> (Err e, w)
     | Inr None \<Rightarrow> (Err (UnknownWorkflow i), w)
     | Inr (Some status) \<Rightarrow> (case map_of (rt_workflows rt) (registry_key (wf_name status) (wf_config_name status)) of
         None \<Rightarrow> (Err (UnknownWorkflow (wf_name status)), w)
       | Some handler \<Rightarrow> (case map_err observation_error (p_get_workflow_steps (rt_provider rt) i (w_store w)) of
           Inl e \<Rightarrow> (Err e, w)
         | Inr recorded \<Rightarrow> (let whole = wf_status status \<in> {STATUS_SUCCESS, STATUS_ERROR};
               (outcome, w') = handler (from_status status) (wf_input status) (verifying_world i token whole w) in
             (verified \<lparr>h_id = i, h_name = wf_name status, h_status = wf_status status, h_recorded = recorded\<rparr> whole outcome w', w')))))"

section \<open>Lemmas\<close>

lemma jitter_bounds: "9 / 10 \<le> jitter_factor hash i" "jitter_factor hash i < 11 / 10"
proof -
  have "(of_nat (hash i mod 1000) :: rat) < 1000" by (metis mod_less_divisor of_nat_less_iff of_nat_numeral zero_less_numeral)
  then show "9 / 10 \<le> jitter_factor hash i" "jitter_factor hash i < 11 / 10" by (simp_all add: jitter_factor_def)
qed

lemma depth_matches: "wq_matches depth_query w \<longleftrightarrow> wf_status w = STATUS_ENQUEUED"
  by (auto simp: wq_matches_def depth_query_def in_list_or_empty_def Let_def)

lemma depth_key: "wq_key depth_query w = [(''queue_name'', wf_queue_name w)]"
  by (simp add: wq_key_def depth_query_def enabled_columns_def AGG_DIMENSIONS_def dim_val_def)

text \<open>Folding rows whose counts agree with a function into the depths.\<close>

lemma queue_depth_lookup:
  assumes "\<forall>row \<in> set rows. \<forall>q n. map_of (wa_group row) ''queue_name'' = Some (Some q) \<longrightarrow> wa_count row = Some n \<longrightarrow> n = c q"
  shows "map_of (queue_depth rows m) q = (if \<exists>row \<in> set rows. map_of (wa_group row) ''queue_name'' = Some (Some q) \<and> wa_count row \<noteq> None
    then Some (c q) else map_of m q)"
  using assms unfolding queue_depth_def
proof (induction rows arbitrary: m)
  case (Cons row rows)
  then show ?case by (cases "map_of (wa_group row) ''queue_name''"; cases "wa_count row") (auto simp: update_conv split: option.split)
qed simp

lemma program_verification:
  assumes "\<forall>auth inp. handler auth inp = (\<lambda>w. snd (run_program ctx (p auth inp) w))"
  shows "w_store (snd (handler auth inp (verifying_world i token whole w))) = w_store w"
  using readonly_program [of "verifying_world i token whole w" ctx "p auth inp"] assms
  by (cases "run_program ctx (p auth inp) (verifying_world i token whole w)") (simp add: verifying_world_def verifying_def)

lemma listed_steps:
  assumes "get_workflow_steps C f i g = Ok ops" "op \<in> set ops"
  shows "lookup_step C g i (si_step_id op) \<noteq> None"
proof -
  have part: "set (skip_take a b xs) \<subseteq> set xs" for a b and xs :: "(int \<times> step_row) list"
    by (auto simp: skip_take_def Let_def dest: in_set_dropD in_set_takeD split: option.splits)
  obtain seq row where "(seq, row) \<in> set (steps_of i g)" "op = step_info_of C f (so_load_output step_list_options_default) seq row"
    using assms part by (fastforce simp: get_workflow_steps_def get_workflow_steps_with_options_def)
  moreover from this have "((i, seq), row) \<in> set (steps g)" by (auto simp: steps_of_def)
  then have "map_of (steps g) (i, seq) \<noteq> None" by (metis map_of_eq_None_iff fst_conv image_eqI)
  ultimately show ?thesis by (simp add: lookup_step_def step_info_of_def)
qed

section \<open>Properties\<close>

text \<open>
  The metrics show the depth of every queue.  A queue has an entry exactly if it is
  registered here or has waiting work, registered or not, and the entry is
  the number of its enqueued workflows in the shared store.
\<close>

theorem metrics_depth_exact:
  "\<exists>m. metrics (memory_queries C f) n counters E g = Ok m
    \<and> (\<forall>q. map_of (em_queue_depth m) q
        = (let waiting = length (filter (\<lambda>w. wf_status w = STATUS_ENQUEUED \<and> wf_queue_name w = Some q) (hm_values (workflows g))) in
           if waiting = 0 \<and> map_of (en_queues E) q = None then None else Some (int waiting)))"
proof -
  let ?ws = "hm_values (workflows g)"
  let ?c = "\<lambda>v. int (length (filter (\<lambda>w. wf_status w = STATUS_ENQUEUED \<and> wf_queue_name w = v) ?ws))"
  obtain rows where rows: "get_workflow_aggregates depth_query g = Ok rows" by (simp add: get_workflow_aggregates_def Let_def)
  have sel: "wq_select_count depth_query" "wq_limit depth_query = None" by (simp_all add: depth_query_def)
  have groups: "(\<lambda>a. (wa_group a, wa_count a)) ` set rows
      = (\<lambda>v. ([(''queue_name'', v)], Some (?c v))) ` {v. filter (\<lambda>w. wf_status w = STATUS_ENQUEUED \<and> wf_queue_name w = v) ?ws \<noteq> []}"
    using single_group_counts [OF rows sel depth_key] by (simp add: depth_matches)
  have row: "\<exists>v. wa_group a = [(''queue_name'', v)] \<and> wa_count a = Some (?c v)" if "a \<in> set rows" for a
  proof -
    have "(wa_group a, wa_count a) \<in> (\<lambda>a. (wa_group a, wa_count a)) ` set rows" using that by (rule imageI)
    then show ?thesis unfolding groups by auto
  qed
  have has: "(\<exists>a \<in> set rows. map_of (wa_group a) ''queue_name'' = Some (Some q) \<and> wa_count a \<noteq> None) \<longleftrightarrow> ?c (Some q) \<noteq> 0" for q
  proof
    assume "\<exists>a \<in> set rows. map_of (wa_group a) ''queue_name'' = Some (Some q) \<and> wa_count a \<noteq> None"
    then obtain a where "a \<in> set rows" "map_of (wa_group a) ''queue_name'' = Some (Some q)" by blast
    then have "([(''queue_name'', Some q)], Some (?c (Some q))) \<in> (\<lambda>a. (wa_group a, wa_count a)) ` set rows" using row [of a] by force
    then show "?c (Some q) \<noteq> 0" unfolding groups by auto
  next
    assume "?c (Some q) \<noteq> 0"
    then have "([(''queue_name'', Some q)], Some (?c (Some q))) \<in> (\<lambda>a. (wa_group a, wa_count a)) ` set rows" unfolding groups by auto
    then obtain a where a: "([(''queue_name'', Some q)], Some (?c (Some q))) = (wa_group a, wa_count a)" "a \<in> set rows" by (rule imageE)
    then show "\<exists>a \<in> set rows. map_of (wa_group a) ''queue_name'' = Some (Some q) \<and> wa_count a \<noteq> None"
      using a(1) [symmetric] by (intro bexI [of _ a]) simp_all
  qed
  have zeros: "map_of (map (\<lambda>(k, _). (k, 0 :: int)) xs) q = map_option (\<lambda>_. 0) (map_of xs q)" for xs :: "(string \<times> workflow_queue) list" and q
    by (induction xs) auto
  have "map_of (queue_depth rows m) q = (if ?c (Some q) \<noteq> 0 then Some (?c (Some q)) else map_of m q)" for m q
    unfolding has [symmetric] by (rule queue_depth_lookup) (use row in fastforce)
  then show ?thesis
    by (auto simp: metrics_def rows zeros Let_def split: option.split)
qed

text \<open>
  C35: the retention task deletes what is older than its period, if the period fits.  With
  a period of less than \<open>2\<^sup>6\<^sup>3\<close> milliseconds a sweep removes exactly the finished
  workflows that ended more than the period ago, with their steps, and counts
  them.  The longest duration, which reads as keeping everything, wraps
  to minus one: a sweep then removes every workflow that has ended.
\<close>

theorem retention_period_wraps:
  assumes "mem_inv g" "rp_max_rows policy = None" "rp_period policy = Some p" "is_i64 (timestamp_millis now + 1)" "0 \<le> timestamp_millis now"
  shows "(p div 10 ^ 6 < 2 ^ 63 \<longrightarrow> (let cutoff = timestamp_millis now - int (p div 10 ^ 6) in
      \<exists>g'. retention_sweep_loop (memory_queries C f) policy [(False, now, id)] k g
        = Some (k + int (length (filter (collectable cutoff) (hm_values (workflows g)))), g')
      \<and> (\<forall>i. map_of (workflows g') i = (if swept cutoff g i then None else map_of (workflows g) i))
      \<and> (\<forall>i q. map_of (steps g') (i, q) = (if swept cutoff g i then None else map_of (steps g) (i, q)))))
    \<and> (p = (2 ^ 64 - 1) * 10 ^ 9 + 999999999 \<longrightarrow> (\<exists>n g'. retention_sweep_loop (memory_queries C f) policy [(False, now, id)] k g = Some (n, g')
      \<and> (\<forall>i row t. map_of (workflows g) i = Some row \<longrightarrow> wf_status row \<in> set terminal_statuses \<longrightarrow> wf_completed_at_ms row = Some t
          \<longrightarrow> t \<le> timestamp_millis now \<longrightarrow> map_of (workflows g') i = None)))"
proof -
  have sweep: "\<exists>g'. retention_sweep_loop (memory_queries C f) policy [(False, now, id)] k g
        = Some (k + int (length (filter (collectable c) (hm_values (workflows g)))), g')
      \<and> (\<forall>i. map_of (workflows g') i = (if swept c g i then None else map_of (workflows g) i))
      \<and> (\<forall>i q. map_of (steps g') (i, q) = (if swept c g i then None else map_of (steps g) (i, q)))"
    if "sweep_cutoff now policy = Some c" "is_i64 (c - 1)" for c
    using gc_loop_sweeps [OF assms(1) that(2), of C f 0] that(1) assms(2)
    by (auto simp: garbage_collect_def garbage_collect_default_def resolve_gc_cutoff_def)
  have cut: "sweep_cutoff now policy = Some (wrap_i64 (timestamp_millis now - as_millis p))" by (simp add: sweep_cutoff_def assms(3))
  have fits: "wrap_i64 (timestamp_millis now - as_millis p) = timestamp_millis now - int (p div 10 ^ 6)
      \<and> is_i64 (timestamp_millis now - int (p div 10 ^ 6) - 1)" if "p div 10 ^ 6 < 2 ^ 63"
  proof -
    have "int (p div 10 ^ 6) < 2 ^ 63" using that by (metis of_nat_less_iff of_nat_numeral of_nat_power)
    moreover have "0 \<le> int (p div 10 ^ 6)" by simp
    ultimately show ?thesis using assms(4,5) by (auto simp: as_millis_def wrap_i64_def is_i64_def)
  qed
  have whole: "wrap_i64 (timestamp_millis now - as_millis p) = timestamp_millis now + 1" if "p = (2 ^ 64 - 1) * 10 ^ 9 + 999999999"
    using assms(4,5) by (simp add: that as_millis_def wrap_i64_def is_i64_def)
  have "is_i64 (timestamp_millis now + 1 - 1)" using assms(4,5) by (simp add: is_i64_def)
  then show ?thesis using sweep [OF cut] fits whole
    by (auto simp: Let_def swept_def collectable_def is_some_and_iff)
qed

text \<open>
  The verification of a history is read-only.  Whatever the workflow, the provider
  and the recorded history are, asking the engine to verify it changes
  nothing in the store, whether the answer is a report or an error.
\<close>

theorem verify_replay_readonly:
  assumes "\<forall>k handler. map_of (rt_workflows rt) k = Some handler \<longrightarrow> (\<exists>ctx p. \<forall>auth inp. handler auth inp = (\<lambda>w. snd (run_program ctx (p auth inp) w)))"
  shows "w_store (snd (verify_replay rt token i w)) = w_store w"
proof -
  have "w_store w' = w_store w" if handler: "map_of (rt_workflows rt) k = Some handler" "handler auth inp (verifying_world i token whole w) = (out, w')"
    for k handler auth inp whole out w'
  proof -
    obtain ctx p where "\<forall>auth inp. handler auth inp = (\<lambda>w. snd (run_program ctx (p auth inp) w))" using assms handler(1) by blast
    from program_verification [OF this, of auth inp i token whole w] handler(2) show ?thesis by simp
  qed
  then show ?thesis by (auto simp: verify_replay_def Let_def split: sum.splits option.splits prod.splits)
qed

text \<open>
  The engine verifies its own histories.  Take a run of a registered workflow under
  the identity of its row that recorded every position it claimed and ended in
  success.  If the store holds that row and exactly those records, the engine's
  verification of it reports no divergence and every record as matched.
\<close>

theorem verify_replay_passes:
  assumes "rt_provider rt = memory_provider C f" "cx_provider ctx = memory_provider C f" "i = cx_workflow_id ctx"
    and "map_of (workflows (w_store v)) i = Some row" "wf_status row = STATUS_SUCCESS"
    and "map_of (rt_workflows rt) (registry_key (wf_name row) (wf_config_name row)) = Some (\<lambda>auth inp w. snd (run_program ctx (p auth inp) w))"
    and "live (lookup_step C) i w" "w_seq w = 0" "latch w = None" "tame_program (lookup_step C) i (p (from_status row) (wf_input row))"
    and "run_program ctx (p (from_status row) (wf_input row)) w = (rs, Returned (Ok out), w')" "int (length rs) < 2 ^ 31 - 1" "latch w' = None"
    and "\<forall>q \<in> {0..<w_seq w'}. lookup_step C (w_store w') i q \<noteq> None"
    and "\<forall>q. lookup_step C (w_store v) i q = (if q \<in> {0..<w_seq w'} then lookup_step C (w_store w') i q else None)"
  shows "\<exists>r v'. verify_replay rt token i v = (Ok r, v') \<and> passes r \<and> rr_matched r = rr_recorded r \<and> w_store v' = w_store v"
proof -
  let ?v = "verifying_world i token True v"
  obtain ops where ops: "get_workflow_steps C f i (w_store v) = Ok ops" by (simp add: get_workflow_steps_def get_workflow_steps_with_options_def)
  let ?h = "\<lparr>h_id = i, h_name = wf_name row, h_status = STATUS_SUCCESS, h_recorded = ops\<rparr>"
  have v: "placed ?v" "w_seq ?v = w_seq w" "latch ?v = latch w" "w_store ?v = w_store v" "w_verify ?v = Some (verification_new True)"
    using assms(8,9) by (simp_all add: verifying_world_def placed_def latch_def execution_new_def)
  have ids: "\<forall>op \<in> set (h_recorded ?h). si_step_id op \<in> {w_seq w..<w_seq w'}"
  proof
    fix op assume "op \<in> set (h_recorded ?h)"
    then have "lookup_step C (w_store v) i (si_step_id op) \<noteq> None" using listed_steps [OF ops] by simp
    then show "si_step_id op \<in> {w_seq w..<w_seq w'}" using assms(8) spec [OF assms(15), of "si_step_id op"] by presburger
  qed
  have same: "\<forall>q \<in> {w_seq w..<w_seq w'}. lookup_step C (w_store ?v) i q = lookup_step C (w_store w') i q"
    "\<forall>q \<in> {w_seq w..<w_seq w'}. lookup_step C (w_store w') i q \<noteq> None" "w_seq w + int (length rs) < 2 ^ 31 - 1"
    using assms(8,12,14,15) v(4) by simp_all
  have "ended_well (h_status ?h) (Returned (Ok out))" by (simp add: ended_well_def)
  from history_verifies [OF assms(2,3,7,10,11) same(3,2) v(1-3) same(1) v(5) ids this] obtain v3 b where
    run: "run_program ctx (p (from_status row) (wf_input row)) ?v = (rs, Returned (Ok out), v3)" "w_verify v3 = Some b"
    "w_store v3 = w_store v" "latch v3 = latch w'" "passes (report ?h (Returned (Ok out)) b)"
    "rr_matched (report ?h (Returned (Ok out)) b) = rr_recorded (report ?h (Returned (Ok out)) b)" unfolding v(4) by blast
  have "check (w_execution v3) = Ok ()" using run(4) assms(13) by (simp add: latch_def check_def)
  then have "verified ?h True (Returned (Ok out)) v3 = Ok (report ?h (Returned (Ok out)) b)" using run(2) by (simp add: verified_def unwrap_or_def)
  then have "verify_replay rt token i v = (Ok (report ?h (Returned (Ok out)) b), v3)"
    using assms(1,4-6) ops run(1) by (simp add: verify_replay_def get_workflow_status_def map_err_def)
  with run(3,5,6) show ?thesis by blast
qed

section \<open>Witnesses\<close>

theorem retention_period_wraps_witness:
  "\<exists>n g'. retention_sweep_loop (memory_queries plain_codec (\<lambda>_. None))
      (retention_policy_default\<lparr>rp_period := Some ((2 ^ 64 - 1) * 10 ^ 9 + 999999999)\<rparr>) [(False, 30000000, id)] 0 sample_archive = Some (n, g')
    \<and> map_of (workflows g') ''a'' = None \<and> map_of (workflows g') ''b'' = None"
proof -
  let ?policy = "retention_policy_default\<lparr>rp_period := Some ((2 ^ 64 - 1) * 10 ^ 9 + 999999999)\<rparr>"
  have inv: "mem_inv sample_archive" by code_simp
  have "map_of (workflows sample_archive) ''a'' = Some (sample_finished ''a'' 10)" "map_of (workflows sample_archive) ''b'' = Some (sample_finished ''b'' 20)"
    by (simp_all add: sample_archive_def)
  moreover have "wf_status (sample_finished i t) \<in> set terminal_statuses" "wf_completed_at_ms (sample_finished i t) = Some t" for i t
    by (simp_all add: sample_finished_def workflow_status_new_def terminal_statuses_def)
  moreover have "rp_max_rows ?policy = None" "rp_period ?policy = Some ((2 ^ 64 - 1) * 10 ^ 9 + 999999999)"
    "is_i64 (timestamp_millis 30000000 + 1)" "timestamp_millis 30000000 = 30"
    by (simp_all add: retention_policy_default_def is_i64_def timestamp_millis_def)
  ultimately show ?thesis
    using conjunct2 [OF retention_period_wraps [OF inv, of ?policy _ 30000000 plain_codec "\<lambda>_. None" 0]] by fastforce
qed

definition sample_verifier :: "inner runtime" where
  "sample_verifier = \<lparr>rt_provider = memory_provider plain_codec (\<lambda>t. Some t),
     rt_workflows = [(''wf'', \<lambda>auth inp w. snd (run_program sample_ctx sample_program w))], rt_queues = [], rt_listen_filter = None,
     rt_required_roles = [], rt_executor_id = ''x'', rt_app_version = ''v'', rt_max_recovery_attempts = 100\<rparr>"

definition sample_verified_row :: workflow_status where
  "sample_verified_row = workflow_status_new 0 ''a'' ''wf'' JNull STATUS_SUCCESS ''x'' ''v''"

definition sample_recorded_world :: "inner world" where
  "sample_recorded_world = sample_world None ((w_store (snd (snd sample_run)))\<lparr>workflows := [(''a'', sample_verified_row)]\<rparr>)"

lemma sample_run_keys: "map fst (steps (w_store (snd (snd sample_run)))) = [(''a'', 0), (''a'', 1), (''a'', 2)]"
  by code_simp

lemma sample_run_latch: "latch (snd (snd sample_run)) = None"
  by code_simp

lemma sample_lookup:
  "lookup_step plain_codec (w_store sample_recorded_world) ''a'' q
    = (if q \<in> {0..<3} then lookup_step plain_codec (w_store (snd (snd sample_run))) ''a'' q else None)"
proof -
  let ?g = "w_store (snd (snd sample_run))"
  have "map_of (steps ?g) (''a'', q) = None" if "q \<notin> {0..<3}"
  proof -
    have "(''a'', q) \<notin> set (map fst (steps ?g))" unfolding sample_run_keys using that by auto
    then show ?thesis by (simp add: map_of_eq_None_iff)
  qed
  then show ?thesis by (auto simp: sample_recorded_world_def lookup_step_def)
qed

theorem verify_replay_readonly_witness:
  "w_store (snd (verify_replay sample_verifier 5 ''a'' sample_recorded_world)) = w_store sample_recorded_world"
  by (rule verify_replay_readonly) (auto simp: sample_verifier_def split: if_splits)

theorem verify_replay_passes_witness:
  "\<exists>r v'. verify_replay sample_verifier 5 ''a'' sample_recorded_world = (Ok r, v') \<and> passes r"
proof -
  have row: "map_of (workflows (w_store sample_recorded_world)) ''a'' = Some sample_verified_row" "wf_status sample_verified_row = STATUS_SUCCESS"
    "map_of (rt_workflows sample_verifier) (registry_key (wf_name sample_verified_row) (wf_config_name sample_verified_row))
      = Some (\<lambda>auth inp w. snd (run_program sample_ctx sample_program w))"
    by (simp_all add: sample_recorded_world_def sample_verified_row_def workflow_status_new_def sample_verifier_def registry_key_def)
  have run: "run_program sample_ctx sample_program (sample_world None inner_default)
      = ([Ok (JInt 7), Ok JNull, Ok JNull], Returned (Ok (JInt 7)), snd (snd sample_run))"
    using sample_run_facts by (metis prod.collapse sample_run_def)
  have seqs: "w_seq (snd (snd sample_run)) = 3" by (rule sample_run_facts(1))
  from verify_replay_passes [where rt = sample_verifier and ctx = sample_ctx and C = plain_codec and f = "\<lambda>t. Some t"
      and p = "\<lambda>_ _. sample_program" and w = "sample_world None inner_default" and token = 5, OF _ sample_ctx_simps(1) refl, unfolded sample_ctx_simps,
      OF _ row sample_live _ _ sample_tame run _ sample_run_latch] sample_recorded sample_lookup
  show ?thesis unfolding seqs by (auto simp: sample_verifier_def)
qed

end
