(* ===== verification/Admin.thy ===== *)
theory Admin
  imports Engine_Upkeep
begin

text \<open>
  The admin HTTP server (\<open>src/admin.rs\<close>): the table of routes, the handler of each, the
  reading of request bodies and the shape of responses.  A handler takes the
  engine's state and the store and gives them back with the response; it is \<open>None\<close>
  if the collection it asks for does not return.  Listening on a port and HTTP
  itself are left out; the parsers of the bodies, derived by \<open>serde\<close>, are
  parameters, which answer with the message of the parse error.
\<close>

section \<open>Definitions\<close>

subsection \<open>Requests\<close>

record garbage_collect_request =
  gr_cutoff :: "int option"
  gr_rows_threshold :: "int option"

record fork_request =
  fr_start_step :: "int option"
  fr_new_workflow_id :: "string option"
  fr_application_version :: "string option"

record list_workflows_request =
  lr_workflow_uuids :: "string list option"
  lr_authenticated_user :: "string option"
  lr_start_time :: "datetime option"
  lr_end_time :: "datetime option"
  lr_status :: "string option"
  lr_application_version :: "string option"
  lr_workflow_name :: "string option"
  lr_limit :: "int option"
  lr_offset :: "int option"
  lr_sort_desc :: "bool option"
  lr_workflow_id_prefix :: "string option"
  lr_load_input :: "bool option"
  lr_load_output :: "bool option"
  lr_queue_name :: "string option"

definition gc_request_default :: garbage_collect_request where
  "gc_request_default = \<lparr>gr_cutoff = None, gr_rows_threshold = None\<rparr>"

definition fork_request_default :: fork_request where
  "fork_request_default = \<lparr>fr_start_step = None, fr_new_workflow_id = None, fr_application_version = None\<rparr>"

definition list_request_default :: list_workflows_request where
  "list_request_default = \<lparr>lr_workflow_uuids = None, lr_authenticated_user = None, lr_start_time = None, lr_end_time = None, lr_status = None,
     lr_application_version = None, lr_workflow_name = None, lr_limit = None, lr_offset = None, lr_sort_desc = None,
     lr_workflow_id_prefix = None, lr_load_input = None, lr_load_output = None, lr_queue_name = None\<rparr>"

record admin_wire =
  aw_executors :: "string \<Rightarrow> string + string list"
  aw_timeout :: "string \<Rightarrow> string + int"
  aw_gc :: "string \<Rightarrow> string + garbage_collect_request"
  aw_list :: "string \<Rightarrow> string + list_workflows_request"
  aw_fork :: "string \<Rightarrow> string + fork_request"

definition admin_filter :: "list_workflows_request \<Rightarrow> list_filter" where
  "admin_filter r = list_filter_default\<lparr>
     lf_workflow_ids := unwrap_or [] (lr_workflow_uuids r),
     lf_workflow_id_prefix := (case lr_workflow_id_prefix r of None \<Rightarrow> [] | Some p \<Rightarrow> [p]),
     lf_name := (case lr_workflow_name r of None \<Rightarrow> [] | Some n \<Rightarrow> [n]),
     lf_app_version := (case lr_application_version r of None \<Rightarrow> [] | Some v \<Rightarrow> [v]),
     lf_queue_name := (case lr_queue_name r of None \<Rightarrow> [] | Some q \<Rightarrow> [q]),
     lf_start_time_ms := map_option timestamp_millis (lr_start_time r),
     lf_end_time_ms := map_option timestamp_millis (lr_end_time r),
     lf_limit := lr_limit r, lf_offset := lr_offset r, lf_sort_desc := unwrap_or False (lr_sort_desc r),
     lf_status := (case opt_filter (\<lambda>s. s \<noteq> []) (lr_status r) of None \<Rightarrow> [] | Some s \<Rightarrow> [s]),
     lf_load_input := unwrap_or True (lr_load_input r), lf_load_output := unwrap_or True (lr_load_output r)\<rparr>"

definition queued_filter :: "list_workflows_request \<Rightarrow> list_filter" where
  "queued_filter r = (let f = admin_filter r in (if lf_status f = [] then f\<lparr>lf_status := [STATUS_ENQUEUED, STATUS_PENDING, STATUS_DELAYED]\<rparr> else f)
     \<lparr>lf_queues_only := True\<rparr>)"

subsection \<open>Responses\<close>

datatype response_body = Json_Body json | Text_Body string | No_Body

type_synonym response = "nat \<times> response_body"

definition OK :: nat where "OK = 200"
definition NO_CONTENT :: nat where "NO_CONTENT = 204"
definition BAD_REQUEST :: nat where "BAD_REQUEST = 400"
definition NOT_FOUND :: nat where "NOT_FOUND = 404"
definition INTERNAL_SERVER_ERROR :: nat where "INTERNAL_SERVER_ERROR = 500"
definition SERVICE_UNAVAILABLE :: nat where "SERVICE_UNAVAILABLE = 503"

definition internal :: "error \<Rightarrow> response" where
  "internal e = (INTERNAL_SERVER_ERROR, Text_Body (error_to_string e))"

definition opt_json :: "('a \<Rightarrow> json) \<Rightarrow> 'a option \<Rightarrow> json" where
  "opt_json f v = (case v of None \<Rightarrow> JNull | Some x \<Rightarrow> f x)"

definition epoch_ms_value :: "int option \<Rightarrow> json" where
  "epoch_ms_value ms = opt_json (\<lambda>m. JString (show_int m)) ms"

definition admin_payload :: "codec \<Rightarrow> json option \<Rightarrow> string" where
  "admin_payload C v = (case v of Some x \<Rightarrow> if is_null x then [] else json_to_string C x | None \<Rightarrow> [])"

definition to_list_workflow_response :: "codec \<Rightarrow> workflow_status \<Rightarrow> json" where
  "to_list_workflow_response C ws = JObject [
     (''WorkflowUUID'', JString (wf_id ws)), (''Status'', JString (wf_status ws)), (''WorkflowName'', JString (wf_name ws)),
     (''AuthenticatedUser'', opt_json JString (wf_authenticated_user ws)), (''AssumedRole'', opt_json JString (wf_assumed_role ws)),
     (''AuthenticatedRoles'', JArray (map JString (wf_authenticated_roles ws))),
     (''Output'', JString (admin_payload C (wf_output ws))), (''Input'', JString (admin_payload C (Some (wf_input ws)))),
     (''ExecutorID'', JString (wf_executor_id ws)), (''ApplicationVersion'', JString (wf_app_version ws)), (''ApplicationID'', JString []),
     (''Attempts'', JInt (wf_recovery_attempts ws)), (''QueueName'', opt_json JString (wf_queue_name ws)),
     (''Timeout'', opt_json JInt (wf_timeout_ms ws)), (''DeduplicationID'', opt_json JString (wf_dedup_id ws)),
     (''Priority'', JInt (wf_priority ws)), (''QueuePartitionKey'', opt_json JString (wf_queue_partition_key ws)),
     (''CreatedAt'', epoch_ms_value (Some (timestamp_millis (wf_created_at ws)))),
     (''UpdatedAt'', epoch_ms_value (Some (timestamp_millis (wf_updated_at ws)))),
     (''WorkflowDeadlineEpochMS'', epoch_ms_value (wf_deadline_ms ws)), (''StartedAt'', epoch_ms_value (wf_started_at_ms ws))]"

definition to_step_response :: "codec \<Rightarrow> step_info \<Rightarrow> json" where
  "to_step_response C s = JObject [
     (''function_id'', JInt (si_step_id s)), (''function_name'', JString (si_name s)),
     (''child_workflow_id'', opt_json JString (si_child_workflow_id s)), (''output'', JString (admin_payload C (si_output s))),
     (''error'', opt_json JString (si_error s)),
     (''started_at_epoch_ms'', opt_json (\<lambda>t. JInt (timestamp_millis t)) (si_started_at s)),
     (''completed_at_epoch_ms'', opt_json (\<lambda>t. JInt (timestamp_millis t)) (si_completed_at s))]"

definition to_queue_metadata :: "workflow_queue \<Rightarrow> json" where
  "to_queue_metadata q = JObject [
     (''name'', JString (q_name q)), (''workerConcurrency'', opt_json (\<lambda>n. JInt (int n)) (q_worker_concurrency q)),
     (''concurrency'', opt_json JInt (q_global_concurrency q)), (''priorityEnabled'', JBool (q_priority_enabled q)),
     (''rateLimit'', opt_json (\<lambda>r. JObject [(''limit'', JInt (rl_limit r)), (''period'', JFloat (of_nat (rl_period r) / 10 ^ 9))]) (q_rate_limit q)),
     (''maxTasksPerIteration'', JInt (int (q_max_tasks_per_iteration q))), (''partitionQueue'', JBool (q_partitioned q))]"

subsection \<open>Handlers\<close>

text \<open>
  What a handler works on: the provider's further methods, the text codec, the parsers,
  and what surrounds one request, as for the other callers of the engine.
\<close>

record 's admin_host =
  ah_control :: "'s control_provider"
  ah_queries :: "'s query_provider"
  ah_codec :: codec
  ah_wire :: admin_wire
  ah_ping :: "unit result"
  ah_now :: datetime
  ah_clock :: "nat \<Rightarrow> datetime"
  ah_fresh :: string
  ah_stop :: "nat \<Rightarrow> bool"
  ah_mid :: "'s \<Rightarrow> 's"
  ah_others :: "nat \<Rightarrow> 's \<Rightarrow> 's"

type_synonym 's answered = "(response \<times> workflow_status list \<times> 's engine \<times> 's) option"

definition answer :: "response \<Rightarrow> 's engine \<Rightarrow> 's \<Rightarrow> 's answered" where
  "answer r E s = Some (r, [], E, s)"

text \<open>An operation whose result is not shown: no content, or the error.\<close>

definition acted :: "'a result \<times> 's \<Rightarrow> 's engine \<Rightarrow> 's answered" where
  "acted rs E = (case rs of (Inl e, s') \<Rightarrow> answer (internal e) E s' | (Inr _, s') \<Rightarrow> answer (NO_CONTENT, No_Body) E s')"

definition shown :: "json result \<Rightarrow> 's engine \<Rightarrow> 's \<Rightarrow> 's answered" where
  "shown r E s = answer (case r of Inl e \<Rightarrow> internal e | Inr v \<Rightarrow> (OK, Json_Body v)) E s"

definition parse_optional :: "(string \<Rightarrow> string + 'a) \<Rightarrow> 'a \<Rightarrow> string \<Rightarrow> response + 'a" where
  "parse_optional parse dflt body = (if body = [] then Inr dflt else case parse body of
     Inl e \<Rightarrow> Inl (BAD_REQUEST, Text_Body (''Invalid JSON input: '' @ e)) | Inr v \<Rightarrow> Inr v)"

definition parse_required :: "(string \<Rightarrow> string + 'a) \<Rightarrow> string \<Rightarrow> response + 'a" where
  "parse_required parse body = (case parse body of Inl _ \<Rightarrow> Inl (BAD_REQUEST, Text_Body ''Invalid JSON body'') | Inr v \<Rightarrow> Inr v)"

definition with_body :: "response + 'a \<Rightarrow> ('a \<Rightarrow> 's answered) \<Rightarrow> 's engine \<Rightarrow> 's \<Rightarrow> 's answered" where
  "with_body parsed k E s = (case parsed of Inl r \<Rightarrow> answer r E s | Inr req \<Rightarrow> k req)"

definition readyz :: "'s admin_host \<Rightarrow> 's engine \<Rightarrow> 's \<Rightarrow> 's answered" where
  "readyz A E s = (let r = health (ah_ping A) E in
     answer (if is_ready r then OK else SERVICE_UNAVAILABLE, Json_Body (JObject [(''ready'', JBool (is_ready r)),
       (''database'', JString (unwrap_or ''ok'' (hr_database r))), (''dispatch'', JString (unwrap_or ''ok'' (hr_dispatch r)))])) E s)"

definition workflow_recovery :: "'s admin_host \<Rightarrow> string \<Rightarrow> 's engine \<Rightarrow> 's \<Rightarrow> 's answered" where
  "workflow_recovery A body E s = with_body (parse_required (aw_executors (ah_wire A)) body) (\<lambda>ids.
     case engine_runtime E of (rt, E') \<Rightarrow>
       (case engine_recover_pending_for rt (ah_stop A) (ah_clock A) (ah_others A) ids s of
          (Inl e, spawned, s') \<Rightarrow> Some (internal e, spawned, E', s')
        | (Inr recovered, spawned, s') \<Rightarrow> Some ((OK, Json_Body (JArray (map JString recovered))), spawned, E', s'))) E s"

definition global_timeout :: "'s admin_host \<Rightarrow> string \<Rightarrow> 's engine \<Rightarrow> 's \<Rightarrow> 's answered" where
  "global_timeout A body E s = with_body (parse_required (aw_timeout (ah_wire A)) body) (\<lambda>cutoff.
     acted (engine_cancel_all_before (en_provider E) (ah_now A) (ah_mid A) cutoff s) E) E s"

definition admin_garbage_collect :: "'s admin_host \<Rightarrow> string \<Rightarrow> 's engine \<Rightarrow> 's \<Rightarrow> 's answered" where
  "admin_garbage_collect A body E s = with_body (parse_optional (aw_gc (ah_wire A)) gc_request_default body) (\<lambda>req.
     Option.bind (engine_garbage_collect (ah_queries A) (gr_cutoff req) (gr_rows_threshold req) s) (\<lambda>rs. acted rs E)) E s"

definition admin_list :: "'s admin_host \<Rightarrow> list_filter \<Rightarrow> 's engine \<Rightarrow> 's \<Rightarrow> 's answered" where
  "admin_list A f E s = shown (result_bind (engine_list_workflows (en_provider E) f s) (\<lambda>rows.
     Ok (JArray (map (to_list_workflow_response (ah_codec A)) rows)))) E s"

definition admin_list_workflows :: "'s admin_host \<Rightarrow> string \<Rightarrow> 's engine \<Rightarrow> 's \<Rightarrow> 's answered" where
  "admin_list_workflows A body E s = with_body (parse_optional (aw_list (ah_wire A)) list_request_default body) (\<lambda>req.
     admin_list A (admin_filter req) E s) E s"

definition admin_list_queued :: "'s admin_host \<Rightarrow> string \<Rightarrow> 's engine \<Rightarrow> 's \<Rightarrow> 's answered" where
  "admin_list_queued A body E s = with_body (parse_optional (aw_list (ah_wire A)) list_request_default body) (\<lambda>req.
     admin_list A (queued_filter req) E s) E s"

definition get_workflow :: "'s admin_host \<Rightarrow> string \<Rightarrow> 's engine \<Rightarrow> 's \<Rightarrow> 's answered" where
  "get_workflow A i E s = answer (case engine_list_workflows (en_provider E) (list_filter_default\<lparr>lf_workflow_ids := [i]\<rparr>) s of
       Inl e \<Rightarrow> internal e
     | Inr [] \<Rightarrow> (NOT_FOUND, Text_Body ''Workflow not found'')
     | Inr (row # _) \<Rightarrow> (OK, Json_Body (to_list_workflow_response (ah_codec A) row))) E s"

definition workflow_steps :: "'s admin_host \<Rightarrow> string \<Rightarrow> 's engine \<Rightarrow> 's \<Rightarrow> 's answered" where
  "workflow_steps A i E s = shown (result_bind (p_get_workflow_steps (en_provider E) i s) (\<lambda>steps.
     Ok (JArray (map (to_step_response (ah_codec A)) steps)))) E s"

text \<open>A resumption reads the clock twice.\<close>

definition admin_resume :: "'s admin_host \<Rightarrow> string \<Rightarrow> 's engine \<Rightarrow> 's \<Rightarrow> 's answered" where
  "admin_resume A i E s = acted (engine_resume_workflow (en_provider E) (ah_control A) (ah_clock A 0, ah_clock A 1) (ah_mid A) i s) E"

definition admin_fork_options :: "fork_request \<Rightarrow> workflow_options" where
  "admin_fork_options req = workflow_options_default\<lparr>wo_workflow_id := fr_new_workflow_id req, wo_app_version := fr_application_version req\<rparr>"

definition admin_fork :: "'s admin_host \<Rightarrow> string \<Rightarrow> string \<Rightarrow> 's engine \<Rightarrow> 's \<Rightarrow> 's answered" where
  "admin_fork A i body E s = with_body (parse_optional (aw_fork (ah_wire A)) fork_request_default body) (\<lambda>req.
     case engine_fork_workflow (ah_control A) (ah_now A) (ah_fresh A) i (unwrap_or 0 (fr_start_step req)) (admin_fork_options req) s of
       (r, s') \<Rightarrow> shown (result_bind r (\<lambda>h. Ok (JObject [(''workflow_id'', JString (handle_id h))]))) E s') E s"

subsection \<open>Routes\<close>

datatype http_method = GET | POST

datatype route = Health | Readyz | Deactivate | Conductor_Probe | Queues_Metadata | Workflow_Recovery | Global_Timeout | Garbage_Collect
  | List_Workflows | List_Queued | Get_Workflow string | Workflow_Steps string | Cancel_Workflow string | Resume_Workflow string
  | Fork_Workflow string

text \<open>The route of a path, given as its segments; a parameter takes any segment.\<close>

fun router :: "http_method \<Rightarrow> string list \<Rightarrow> route option" where
  "router GET [a] = map_of [(''dbos-healthz'', Health), (''readyz'', Readyz), (''deactivate'', Deactivate), (''conductor'', Conductor_Probe),
     (''dbos-workflow-queues-metadata'', Queues_Metadata)] a"
| "router POST [a] = map_of [(''dbos-workflow-recovery'', Workflow_Recovery), (''dbos-global-timeout'', Global_Timeout),
     (''dbos-garbage-collect'', Garbage_Collect), (''workflows'', List_Workflows), (''queues'', List_Queued)] a"
| "router GET [a, i] = (if a = ''workflows'' then Some (Get_Workflow i) else None)"
| "router GET [a, i, b] = (if a = ''workflows'' \<and> b = ''steps'' then Some (Workflow_Steps i) else None)"
| "router POST [a, i, b] = (if a = ''workflows'' then map_of [(''cancel'', Cancel_Workflow i), (''resume'', Resume_Workflow i),
     (''fork'', Fork_Workflow i)] b else None)"
| "router _ _ = None"

fun serve_route :: "'s admin_host \<Rightarrow> route \<Rightarrow> string \<Rightarrow> 's engine \<Rightarrow> 's \<Rightarrow> 's answered" where
  "serve_route A Health body E s = answer (OK, Json_Body (JObject [(''status'', JString ''healthy'')])) E s"
| "serve_route A Readyz body E s = readyz A E s"
| "serve_route A Deactivate body E s = answer (OK, Text_Body ''deactivated'') (deactivate E) s"
| "serve_route A Conductor_Probe body E s = answer (OK, Json_Body (JObject [(''status'', JBool True)])) E s"
| "serve_route A Queues_Metadata body E s = answer (OK, Json_Body (JArray (map to_queue_metadata (list_registered_queues E)))) E s"
| "serve_route A Workflow_Recovery body E s = workflow_recovery A body E s"
| "serve_route A Global_Timeout body E s = global_timeout A body E s"
| "serve_route A Garbage_Collect body E s = admin_garbage_collect A body E s"
| "serve_route A List_Workflows body E s = admin_list_workflows A body E s"
| "serve_route A List_Queued body E s = admin_list_queued A body E s"
| "serve_route A (Get_Workflow i) body E s = get_workflow A i E s"
| "serve_route A (Workflow_Steps i) body E s = workflow_steps A i E s"
| "serve_route A (Cancel_Workflow i) body E s = acted (engine_cancel_workflow (ah_control A) (ah_now A) i s) E"
| "serve_route A (Resume_Workflow i) body E s = admin_resume A i E s"
| "serve_route A (Fork_Workflow i) body E s = admin_fork A i body E s"

section \<open>Lemmas\<close>

text \<open>Whether the body of a request cannot be read by the handler of its route.\<close>

fun unreadable :: "admin_wire \<Rightarrow> route \<Rightarrow> string \<Rightarrow> bool" where
  "unreadable W Workflow_Recovery body = isl (aw_executors W body)"
| "unreadable W Global_Timeout body = isl (aw_timeout W body)"
| "unreadable W Garbage_Collect body = (body \<noteq> [] \<and> isl (aw_gc W body))"
| "unreadable W List_Workflows body = (body \<noteq> [] \<and> isl (aw_list W body))"
| "unreadable W List_Queued body = (body \<noteq> [] \<and> isl (aw_list W body))"
| "unreadable W (Fork_Workflow i) body = (body \<noteq> [] \<and> isl (aw_fork W body))"
| "unreadable W _ body = False"

text \<open>The routes that only report.\<close>

fun reports :: "route \<Rightarrow> bool" where
  "reports Deactivate = False" | "reports Workflow_Recovery = False" | "reports Global_Timeout = False" | "reports Garbage_Collect = False"
| "reports (Cancel_Workflow i) = False" | "reports (Resume_Workflow i) = False" | "reports (Fork_Workflow i) = False"
| "reports _ = True"

lemma unread_body:
  "isl (parse body) \<Longrightarrow> \<exists>m. with_body (parse_required parse body) k E s = Some ((BAD_REQUEST, Text_Body m), [], E, s)"
  "body \<noteq> [] \<Longrightarrow> isl (parse body) \<Longrightarrow> \<exists>m. with_body (parse_optional parse dflt body) k E s = Some ((BAD_REQUEST, Text_Body m), [], E, s)"
  by (auto simp: with_body_def parse_required_def parse_optional_def answer_def isl_def)

lemma inert_answers:
  "\<exists>resp. shown r E s = Some (resp, [], E, s)" "\<exists>resp. answer resp' E s = Some (resp, [], E, s)"
  "(\<And>req. \<exists>resp. k req = Some (resp, [], E, s)) \<Longrightarrow> \<exists>resp. with_body parsed k E s = Some (resp, [], E, s)"
  by (auto simp: shown_def answer_def with_body_def split: sum.split)

lemma listed_by_id:
  assumes "mem_inv g"
  shows "list_workflows (list_filter_default\<lparr>lf_workflow_ids := [i]\<rparr>) g = Ok (case map_of (workflows g) i of None \<Rightarrow> [] | Some row \<Rightarrow> [row])"
proof -
  have keyed: "keyed_by wf_id (workflows g)" using assms unfolding mem_inv_def by blast
  have one: "filter (\<lambda>row. wf_id row = i) (hm_values m) = (case map_of m i of None \<Rightarrow> [] | Some row \<Rightarrow> [row])" if "keyed_by wf_id m" for m
    using that
  proof (induction m)
    case (Cons p m)
    have rest: "keyed_by wf_id m" "fst p \<notin> set (map fst m)" using Cons.prems by (auto simp: keyed_by_def)
    have "fst p \<notin> set (map wf_id (hm_values m))" using rest(2) unfolding keyed_values [OF rest(1)] .
    then have "filter (\<lambda>row. wf_id row = i) (hm_values m) = []" if "i = fst p" using that by (auto simp: filter_empty_conv) (metis image_eqI)
    then show ?case using Cons by (cases p) (auto simp: keyed_by_def hm_values_def)
  qed (simp add: hm_values_def)
  have "matches_filter (list_filter_default\<lparr>lf_workflow_ids := [i]\<rparr>) [] = (\<lambda>row. wf_id row = i)"
    by (simp add: fun_eq_iff matches_filter_def list_filter_default_def in_list_or_empty_def opt_in_list_or_empty_def is_none_or_def is_some_and_def)
  moreover have "strip_heavy (list_filter_default\<lparr>lf_workflow_ids := [i]\<rparr>) = id" by (simp add: fun_eq_iff strip_heavy_def list_filter_default_def Let_def)
  ultimately show ?thesis using one [OF keyed]
    by (cases "map_of (workflows g) i") (simp_all add: list_workflows_def listed_rows_def page_def list_filter_default_def Let_def)
qed

section \<open>Properties\<close>

text \<open>
  A request that cannot be read does nothing.  Whatever its route, a body that does
  not parse is answered with the status of a bad request, and neither the
  engine nor the store changes.
\<close>

theorem malformed_request_inert:
  assumes "unreadable (ah_wire A) r body"
  shows "\<exists>m. serve_route A r body E s = Some ((BAD_REQUEST, Text_Body m), [], E, s)"
  using assms
  by (cases r) (auto simp: workflow_recovery_def global_timeout_def admin_garbage_collect_def admin_list_workflows_def
      admin_list_queued_def admin_fork_def intro!: unread_body)

text \<open>
  A report changes nothing.  The routes that report are answered on every request
  and body, and leave the engine and the store as they are.
\<close>

theorem admin_reads_inert:
  assumes "reports r"
  shows "\<exists>resp. serve_route A r body E s = Some (resp, [], E, s)"
  using assms
  by (cases r) (simp_all add: readyz_def get_workflow_def workflow_steps_def admin_list_workflows_def admin_list_queued_def admin_list_def Let_def
      inert_answers del: split_paired_Ex)

text \<open>
  One workflow is found by its id.  The route of a single workflow answers with that
  row in full if the store has it, and with the status for a missing
  resource exactly if it has not.
\<close>

theorem get_workflow_exact:
  assumes "mem_inv g" "en_provider E = memory_provider C f"
  shows "serve_route A (Get_Workflow i) body E g = Some (case map_of (workflows g) i of
      None \<Rightarrow> (NOT_FOUND, Text_Body ''Workflow not found'')
    | Some row \<Rightarrow> (OK, Json_Body (to_list_workflow_response (ah_codec A) row)), [], E, g)"
  using assms by (simp add: get_workflow_def engine_list_workflows_def listed_by_id answer_def split: option.split)

text \<open>
  C31: an engine that was deactivated over HTTP is not ready again.  From the request on,
  if no launch was on its way, the readiness probe answers that the service is
  unavailable, whatever else is called on the engine, launches included.
\<close>

theorem deactivated_probe_unavailable:
  assumes "\<not> en_deactivated E" "serve_route A Deactivate body E s = Some (resp, rows, E1, s1)" "life_step\<^sup>*\<^sup>* (E1, []) (E2, Ls)"
  shows "\<exists>report. serve_route A Readyz body' E2 s2 = Some ((SERVICE_UNAVAILABLE, report), [], E2, s2)"
proof -
  have "E1 = deactivate E" using assms(2) by (simp add: answer_def)
  then have "en_deactivated E2" using deactivated_idle [OF assms(3)] assms(1) by (simp add: deactivate_def)
  then show ?thesis by (simp add: readyz_def answer_def is_ready_def health_def dispatch_state_def Let_def)
qed

section \<open>Witnesses\<close>

definition sample_admin :: "inner admin_host" where
  "sample_admin = \<lparr>ah_control = memory_control plain_codec (\<lambda>_. None), ah_queries = memory_queries plain_codec (\<lambda>_. None), ah_codec = plain_codec,
     ah_wire = \<lparr>aw_executors = \<lambda>_. Inl ''no'', aw_timeout = \<lambda>_. Inr 0, aw_gc = \<lambda>_. Inr gc_request_default, aw_list = \<lambda>_. Inr list_request_default,
       aw_fork = \<lambda>_. Inl ''no''\<rparr>,
     ah_ping = Ok (), ah_now = 0, ah_clock = int, ah_fresh = ''f'', ah_stop = (\<lambda>_. False), ah_mid = id, ah_others = (\<lambda>_. id)\<rparr>"

theorem malformed_request_inert_witness:
  "\<exists>m. serve_route sample_admin (Fork_Workflow ''a'') ''x'' sample_life sample_archive = Some ((400, Text_Body m), [], sample_life, sample_archive)"
  using malformed_request_inert [of sample_admin "Fork_Workflow ''a''" "''x''" sample_life sample_archive]
  by (simp add: sample_admin_def BAD_REQUEST_def)

theorem admin_reads_inert_witness:
  "\<exists>resp. serve_route sample_admin List_Queued [] sample_life sample_archive = Some (resp, [], sample_life, sample_archive)"
  by (rule admin_reads_inert) simp

theorem get_workflow_exact_witness:
  "serve_route sample_admin (Get_Workflow ''z'') [] sample_life sample_archive
    = Some ((404, Text_Body ''Workflow not found''), [], sample_life, sample_archive)"
proof -
  have "mem_inv sample_archive" "map_of (workflows sample_archive) ''z'' = None" by code_simp+
  then show ?thesis using get_workflow_exact [of sample_archive sample_life plain_codec "\<lambda>_. None" sample_admin "''z''" "[]"]
    by (simp add: NOT_FOUND_def)
qed

theorem deactivated_probe_unavailable_witness:
  "\<exists>report. serve_route sample_admin Readyz [] (shutdown (deactivate sample_life)) sample_archive
    = Some ((503, report), [], shutdown (deactivate sample_life), sample_archive)"
  using deactivated_probe_unavailable [of sample_life sample_admin "[]" sample_archive "(OK, Text_Body ''deactivated'')" "[]" "deactivate sample_life"
      sample_archive "shutdown (deactivate sample_life)" "[]" "[]" sample_archive]
    r_into_rtranclp [of life_step, OF Shuts_Down [of "deactivate sample_life" "[]"]]
  by (simp add: answer_def SERVICE_UNAVAILABLE_def)

end
