(* ===== verification/Transaction.thy ===== *)
theory Transaction
  imports Engine_Run
begin

text \<open>
  Transactional steps on a data source (\<open>transaction_on\<close> of \<open>src/context.rs\<close>, \<open>src/tx.rs\<close>,
  the trait of \<open>src/datasource.rs\<close>).  The body's writes and a witness row commit in one
  transaction of the application's database, then the step is checkpointed in the
  system's; a data source of the system's own database commits the checkpoint
  itself.  The store is all that persists, both databases included.  The SQL behind the
  trait's methods is not modelled: a data source is a record of functions on the
  store, and dropping a transaction is one of them.  The flag that refuses two
  transactions at once within one workflow is left out, since calls here follow
  one another.
\<close>

section \<open>Definitions\<close>

subsection \<open>Options\<close>

datatype isolation_level = ReadCommitted | RepeatableRead | Serializable

record transaction_options =
  xo_name :: string
  xo_isolation :: isolation_level
  xo_read_only :: bool
  xo_max_retries :: nat
  xo_backoff_factor :: rat
  xo_base_interval :: int
  xo_max_interval :: int
  xo_retry_if :: "(error \<Rightarrow> bool) option"

definition transaction_options_new :: "string \<Rightarrow> transaction_options" where
  "transaction_options_new nm = \<lparr>xo_name = nm, xo_isolation = ReadCommitted, xo_read_only = False, xo_max_retries = 0, xo_backoff_factor = 2,
     xo_base_interval = 100000000, xo_max_interval = 5000000000, xo_retry_if = None\<rparr>"

text \<open>In seconds; \<open>None\<close> is the panic of the conversion, as for the retries of a step.\<close>

definition user_retry_backoff :: "transaction_options \<Rightarrow> nat \<Rightarrow> rat option" where
  "user_retry_backoff opts attempt =
     (let backoff = (of_int (xo_base_interval opts) / 1000000000) * power_int (xo_backoff_factor opts) (wrap_i32 (int attempt)) in
      if backoff < 0 \<or> backoff \<ge> 2 ^ 64 then None else Some (min backoff (of_int (xo_max_interval opts) / 1000000000)))"

definition should_user_retry :: "transaction_options \<Rightarrow> error \<Rightarrow> nat \<Rightarrow> bool" where
  "should_user_retry opts e attempt \<longleftrightarrow>
     \<not> (case e of RecoveryRequired _ \<Rightarrow> True | ObservationFailed _ \<Rightarrow> True | OutputSerialization _ \<Rightarrow> True | _ \<Rightarrow> False)
     \<and> \<not> ((case e of Db _ \<Rightarrow> True | _ \<Rightarrow> False) \<and> is_tx_conflict e)
     \<and> \<not> is_scope_violation e \<and> attempt < xo_max_retries opts \<and> is_none_or (xo_retry_if opts) (\<lambda>p. p e)"

definition TX_TERMINATED_MSG :: string where
  "TX_TERMINATED_MSG = ''the transaction body terminated the surrounding database transaction (a raw COMMIT or ROLLBACK?), so its writes cannot be committed atomically with the durability record''"

subsection \<open>Data sources\<close>

record completion_row =
  cr_output :: "string option"
  cr_error :: "string option"
  cr_serialization :: "string option"

text \<open>The identity of a provider is its number.\<close>

datatype data_source_kind = External | System nat

record ('s, 't) data_source =
  ds_kind :: data_source_kind
  ds_begin :: "isolation_level \<Rightarrow> bool \<Rightarrow> 's \<Rightarrow> 't result \<times> 's"
  ds_commit :: "'t \<Rightarrow> 's \<Rightarrow> unit result \<times> 's"
  ds_rollback :: "'t \<Rightarrow> 's \<Rightarrow> unit result \<times> 's"
  ds_drop :: "'t \<Rightarrow> 's \<Rightarrow> 's"
  ds_fingerprint :: "'t \<Rightarrow> 's \<Rightarrow> string option result \<times> 's"
  ds_fetch_completion :: "string \<Rightarrow> int \<Rightarrow> 's \<Rightarrow> completion_row option result"
  ds_insert_completion :: "datetime \<Rightarrow> 't \<Rightarrow> string \<Rightarrow> int \<Rightarrow> completion_row \<Rightarrow> 's \<Rightarrow> bool result \<times> 't \<times> 's"
  ds_insert_failure :: "datetime \<Rightarrow> string \<Rightarrow> int \<Rightarrow> string \<Rightarrow> string \<Rightarrow> 's \<Rightarrow> unit result \<times> 's"
  ds_insert_checkpoint :: "datetime \<Rightarrow> 't \<Rightarrow> string \<Rightarrow> int \<Rightarrow> string \<Rightarrow> string \<Rightarrow> string \<Rightarrow> int \<Rightarrow> 's \<Rightarrow> bool result \<times> 't \<times> 's"

text \<open>A body works on its transaction and may end it with any outcome.\<close>

type_synonym ('s, 't, 'a) tx_body = "'t \<Rightarrow> 's world \<Rightarrow> ('a run_outcome \<times> 't) \<times> 's world"

subsection \<open>One attempt\<close>

datatype ds_attempt = Committed json | BodyFailed error | AlreadyCompleted json

definition db :: "('s \<Rightarrow> 'a result \<times> 's) \<Rightarrow> ('s, 'a) act" where
  "db f w = (let (r, s) = f (w_store w) in (Returned r, w\<lparr>w_store := s\<rparr>))"

definition dropped :: "('s, 't) data_source \<Rightarrow> 't \<Rightarrow> 's world \<Rightarrow> 's world" where
  "dropped ds t w = w\<lparr>w_store := ds_drop ds t (w_store w)\<rparr>"

text \<open>The \<open>?\<close> operator while a transaction is open: leaving drops it.\<close>

definition in_tx :: "('s, 't) data_source \<Rightarrow> 't \<Rightarrow> ('s, 'a) act \<Rightarrow> ('a \<Rightarrow> ('s, 'b) act) \<Rightarrow> ('s, 'b) act" where
  "in_tx ds t m k w = (case m w of
       (Returned (Inr a), w') \<Rightarrow> k a w'
     | (Returned (Inl e), w') \<Rightarrow> (Returned (Inl e), dropped ds t w')
     | (Panicked p, w') \<Rightarrow> (Panicked p, dropped ds t w'))"

definition run_body :: "('s, 't, 'a) tx_body \<Rightarrow> 't \<Rightarrow> 's world \<Rightarrow> ('a run_outcome \<times> 't) \<times> 's world" where
  "run_body f t w = (case f t (w\<lparr>w_in_body := True\<rparr>) of (rt, w') \<Rightarrow> (rt, w'\<lparr>w_in_body := w_in_body w\<rparr>))"

text \<open>
  What follows a body that returned a value; \<open>ins\<close> writes the row that makes the commit
  durable, the witness or the checkpoint.
\<close>

definition attempt_insert :: "('s, 't) data_source \<Rightarrow> (string \<Rightarrow> datetime \<Rightarrow> 't \<Rightarrow> 's \<Rightarrow> bool result \<times> 't \<times> 's) \<Rightarrow> json \<Rightarrow> 't \<Rightarrow> string
  \<Rightarrow> ('s, ds_attempt) act" where
  "attempt_insert ds ins value t encoded = and_then read_clock (\<lambda>now w. case ins encoded now t (w_store w) of
       (Inl e, t', s') \<Rightarrow> (Returned (Err e), dropped ds t' (w\<lparr>w_store := s'\<rparr>))
     | (Inr False, t', s') \<Rightarrow> (Returned (Ok (AlreadyCompleted value)), w\<lparr>w_store := snd (ds_rollback ds t' s')\<rparr>)
     | (Inr True, t', s') \<Rightarrow> and_then (db (ds_commit ds t')) (\<lambda>_. ret (Ok (Committed value))) (w\<lparr>w_store := s'\<rparr>))"

definition rolled_back :: "('s, 't) data_source \<Rightarrow> 't \<Rightarrow> error \<Rightarrow> ('s, ds_attempt) act" where
  "rolled_back ds t e = and_then (db (ds_rollback ds t)) (\<lambda>_. ret (Ok (BodyFailed e)))"

definition same_transaction :: "('s, 't) data_source \<Rightarrow> 't \<Rightarrow> string option \<Rightarrow> ('s, bool) act" where
  "same_transaction ds t fp = (case fp of None \<Rightarrow> ret (Ok True)
     | Some expected \<Rightarrow> and_then (db (ds_fingerprint ds t)) (\<lambda>now_fp. ret (Ok (now_fp = Some expected))))"

definition attempt_value :: "'s durable_context \<Rightarrow> 'a serde \<Rightarrow> ('s, 't) data_source \<Rightarrow> transaction_options
  \<Rightarrow> (string \<Rightarrow> datetime \<Rightarrow> 't \<Rightarrow> 's \<Rightarrow> bool result \<times> 't \<times> 's) \<Rightarrow> string option \<Rightarrow> 'a \<Rightarrow> 't \<Rightarrow> ('s, ds_attempt) act" where
  "attempt_value ctx T ds opts ins fp v t = (case sd_to_value T v of
       Inl m \<Rightarrow> rolled_back ds t (OutputSerialization m)
     | Inr value \<Rightarrow> in_tx ds t (same_transaction ds t fp) (\<lambda>same.
         if \<not> same then rolled_back ds t (app TX_TERMINATED_MSG)
         else if xo_read_only opts then and_then (db (ds_commit ds t)) (\<lambda>_. ret (Ok (Committed value)))
         else in_tx ds t (ret (encode (cx_codec ctx) (p_serializer (cx_provider ctx)) value)) (attempt_insert ds ins value t)))"

definition attempt_body :: "'s durable_context \<Rightarrow> 'a serde \<Rightarrow> ('s, 't) data_source \<Rightarrow> transaction_options
  \<Rightarrow> (string \<Rightarrow> datetime \<Rightarrow> 't \<Rightarrow> 's \<Rightarrow> bool result \<times> 't \<times> 's) \<Rightarrow> ('s, 't, 'a) tx_body \<Rightarrow> 't \<Rightarrow> string option \<Rightarrow> ('s, ds_attempt) act" where
  "attempt_body ctx T ds opts ins f t fp w = (case run_body f t w of
       ((Panicked p, t'), w') \<Rightarrow> (Panicked p, dropped ds t' w')
     | ((Returned (Inr v), t'), w') \<Rightarrow> attempt_value ctx T ds opts ins fp v t' w'
     | ((Returned (Inl e), t'), w') \<Rightarrow> (let (e', ex) = body_error e (w_execution w') in
         and_then (db (ds_rollback ds t')) (\<lambda>_. ret (if should_retry_live_transaction e' then Err e' else Ok (BodyFailed e')))
           (w'\<lparr>w_execution := ex\<rparr>)))"

definition attempt_with :: "'s durable_context \<Rightarrow> 'a serde \<Rightarrow> ('s, 't) data_source \<Rightarrow> transaction_options
  \<Rightarrow> (string \<Rightarrow> datetime \<Rightarrow> 't \<Rightarrow> 's \<Rightarrow> bool result \<times> 't \<times> 's) \<Rightarrow> ('s, 't, 'a) tx_body \<Rightarrow> ('s, ds_attempt) act" where
  "attempt_with ctx T ds opts ins f = and_then (db (ds_begin ds (xo_isolation opts) (xo_read_only opts))) (\<lambda>t.
     in_tx ds t (db (ds_fingerprint ds t)) (attempt_body ctx T ds opts ins f t))"

definition witness_row :: "'s durable_context \<Rightarrow> string \<Rightarrow> completion_row" where
  "witness_row ctx encoded = \<lparr>cr_output = Some encoded, cr_error = None, cr_serialization = Some (serializer_name (p_serializer (cx_provider ctx)))\<rparr>"

definition datasource_attempt :: "'s durable_context \<Rightarrow> 'a serde \<Rightarrow> ('s, 't) data_source \<Rightarrow> transaction_options \<Rightarrow> ('s, 't, 'a) tx_body
  \<Rightarrow> int \<Rightarrow> ('s, ds_attempt) act" where
  "datasource_attempt ctx T ds opts f seq =
     attempt_with ctx T ds opts (\<lambda>encoded now t. ds_insert_completion ds now t (cx_workflow_id ctx) seq (witness_row ctx encoded)) f"

definition system_datasource_attempt :: "'s durable_context \<Rightarrow> 'a serde \<Rightarrow> ('s, 't) data_source \<Rightarrow> transaction_options \<Rightarrow> ('s, 't, 'a) tx_body
  \<Rightarrow> int \<Rightarrow> int \<Rightarrow> ('s, ds_attempt) act" where
  "system_datasource_attempt ctx T ds opts f seq started =
     attempt_with ctx T ds opts (\<lambda>encoded now t. ds_insert_checkpoint ds now t (cx_workflow_id ctx) seq (xo_name opts) encoded
       (serializer_name (p_serializer (cx_provider ctx))) started) f"

subsection \<open>The loops\<close>

definition datasource_conflict_wait :: "'s durable_context \<Rightarrow> nat \<Rightarrow> ('s, unit) act" where
  "datasource_conflict_wait ctx attempt =
     and_then (observed (p_get_workflow_status (cx_provider ctx) (cx_workflow_id ctx))) (\<lambda>status.
       if is_some_and status (\<lambda>row. wf_status row = STATUS_CANCELLED) then ret (Err (Cancelled (cx_workflow_id ctx)))
       else (\<lambda>w. (Returned (Ok ()), w\<lparr>w_waits := w_waits w @ [min (2 ^ min attempt 10) 1000 * 1000000]\<rparr>)))"

text \<open>
  Attempts on fresh transactions until one is not a conflict.  \<open>Inl\<close> is what the loop
  breaks with, \<open>Inr\<close> a return from the whole call; conflicts for ever are \<open>None\<close>.
\<close>

partial_function (option) conflict_loop :: "'s durable_context \<Rightarrow> ('s, ds_attempt) act \<Rightarrow> (json \<Rightarrow> ('s, 'a) act) \<Rightarrow> nat \<Rightarrow> 's world
  \<Rightarrow> ((json result + 'a run_outcome) \<times> 's world) option" where
  "conflict_loop ctx attempt duplicate k w = (case attempt w of
       (Panicked p, w') \<Rightarrow> Some (Inr (Panicked p), w')
     | (Returned (Inr (Committed v)), w') \<Rightarrow> Some (Inl (Ok v), w')
     | (Returned (Inr (BodyFailed e)), w') \<Rightarrow> Some (Inl (Err e), w')
     | (Returned (Inr (AlreadyCompleted v)), w') \<Rightarrow> (case duplicate v w' of (r, w'') \<Rightarrow> Some (Inr r, w''))
     | (Returned (Inl e), w') \<Rightarrow>
        if should_retry_live_transaction e
        then (case datasource_conflict_wait ctx k w' of
            (Returned (Inr _), w'') \<Rightarrow> conflict_loop ctx attempt duplicate (min (Suc k) (2 ^ 32 - 1)) w''
          | (Returned (Inl e'), w'') \<Rightarrow> Some (Inr (Returned (Inl e')), w'')
          | (Panicked p, w'') \<Rightarrow> Some (Inr (Panicked p), w''))
        else (let (e', ex) = record_error e (w_execution w') in Some (Inr (Returned (Err e')), w'\<lparr>w_execution := ex\<rparr>)))"

text \<open>\<open>left\<close> counts the user's retries that remain, as for a step.\<close>

fun user_retry_loop :: "'s durable_context \<Rightarrow> transaction_options \<Rightarrow> ('s, ds_attempt) act \<Rightarrow> (json \<Rightarrow> ('s, 'a) act) \<Rightarrow> (json \<Rightarrow> ('s, 'a) act)
  \<Rightarrow> (error \<Rightarrow> ('s, 'a) act) \<Rightarrow> nat \<Rightarrow> 's world \<Rightarrow> ('a run_outcome \<times> 's world) option" where
  "user_retry_loop ctx opts attempt duplicate committed give_up left w = (case conflict_loop ctx attempt duplicate 0 w of
       None \<Rightarrow> None
     | Some (Inr r, w') \<Rightarrow> Some (r, w')
     | Some (Inl (Inr v), w') \<Rightarrow> Some (committed v w')
     | Some (Inl (Inl e), w') \<Rightarrow>
        (let used = xo_max_retries opts - left in
         if \<not> should_user_retry opts e used then Some (give_up e w')
         else (case left of
             0 \<Rightarrow> Some (give_up e w')
           | Suc rest \<Rightarrow> (case user_retry_backoff opts used of
               None \<Rightarrow> Some (Panicked (Panic_String ''cannot convert float seconds to Duration''), w')
             | Some d \<Rightarrow> user_retry_loop ctx opts attempt duplicate committed give_up rest
                 (w'\<lparr>w_waits := w_waits w' @ [\<lfloor>d * 1000000000\<rfloor>]\<rparr>)))))"

declare user_retry_loop.simps [simp del]

subsection \<open>A transaction on a data source\<close>

definition completion_row_matches :: "codec \<Rightarrow> serializer \<Rightarrow> completion_row \<Rightarrow> json \<Rightarrow> bool result" where
  "completion_row_matches C ser row value = (case cr_output row of
       None \<Rightarrow> Ok False
     | Some out \<Rightarrow> if cr_error row \<noteq> None then Ok False
         else result_bind (decode C ser (cr_serialization row) out) (\<lambda>v. Ok (value_eq v value)))"

definition replay_completion_row :: "'s durable_context \<Rightarrow> 'a serde \<Rightarrow> int \<Rightarrow> string \<Rightarrow> completion_row \<Rightarrow> int \<Rightarrow> ('s, 'a) act" where
  "replay_completion_row ctx T seq nm row started = (case cr_error row of
       Some err_text \<Rightarrow> (let (message, info) = decode_error (cx_codec ctx) (cr_serialization row) err_text in
         and_then (observed (\<lambda>_. try_from_parts (cx_codec ctx) message info)) (\<lambda>e.
         and_then (observed (\<lambda>_. encode_error (cx_codec ctx) (p_serializer (cx_provider ctx)) e)) (\<lambda>encoded.
           write_step_outcome ctx T seq nm JNull (Some encoded) (Some started))))
     | None \<Rightarrow> (case cr_output row of
         None \<Rightarrow> interrupted (Err (app ''transaction completion row has neither output nor error''))
       | Some out \<Rightarrow> and_then (observed (\<lambda>_. decode (cx_codec ctx) (p_serializer (cx_provider ctx)) (cr_serialization row) out)) (\<lambda>value.
           write_step_outcome ctx T seq nm value None (Some started))))"

text \<open>Another execution committed this step first: the same outcome is a replay, another a live rival.\<close>

definition settle_duplicate :: "'s durable_context \<Rightarrow> 'a serde \<Rightarrow> ('s, 't) data_source \<Rightarrow> int \<Rightarrow> string \<Rightarrow> int \<Rightarrow> json \<Rightarrow> ('s, 'a) act" where
  "settle_duplicate ctx T ds seq nm started value =
     and_then (observed (ds_fetch_completion ds (cx_workflow_id ctx) seq)) (\<lambda>found. case found of
       None \<Rightarrow> interrupted (Err (app ''transaction_completion row vanished after a duplicate insert''))
     | Some row \<Rightarrow> and_then (observed (\<lambda>_. completion_row_matches (cx_codec ctx) (p_serializer (cx_provider ctx)) row value)) (\<lambda>same.
         if \<not> same then ret (Err (WorkflowConflict (cx_workflow_id ctx)))
         else replay_completion_row ctx T seq nm row started))"

definition settle_system_duplicate :: "'s durable_context \<Rightarrow> 'a serde \<Rightarrow> int \<Rightarrow> string \<Rightarrow> json \<Rightarrow> ('s, 'a) act" where
  "settle_system_duplicate ctx T seq nm value =
     and_then (observed (p_get_step_result (cx_provider ctx) (cx_workflow_id ctx) seq)) (\<lambda>found. case found of
       None \<Rightarrow> interrupted (Err (app ''checkpoint row vanished after a duplicate insert''))
     | Some rec \<Rightarrow> and_then (check_recorded ctx seq nm (rs_name rec)) (\<lambda>_.
         if \<not> (case rs_outcome rec of Output v \<Rightarrow> value_eq v value | _ \<Rightarrow> False) then ret (Err (WorkflowConflict (cx_workflow_id ctx)))
         else recorded_value ctx T (Output value)))"

definition run_system_datasource_transaction :: "'s durable_context \<Rightarrow> 'a serde \<Rightarrow> ('s, 't) data_source \<Rightarrow> transaction_options
  \<Rightarrow> ('s, 't, 'a) tx_body \<Rightarrow> int \<Rightarrow> int \<Rightarrow> 's world \<Rightarrow> ('a run_outcome \<times> 's world) option" where
  "run_system_datasource_transaction ctx T ds opts f seq started =
     user_retry_loop ctx opts (system_datasource_attempt ctx T ds opts f seq started) (settle_system_duplicate ctx T seq (xo_name opts))
       (\<lambda>value. if xo_read_only opts then write_step_outcome ctx T seq (xo_name opts) value None (Some started)
          else recorded_value ctx T (Output value))
       (\<lambda>e. record_failure ctx T seq (xo_name opts) e (Some started)) (xo_max_retries opts)"

text \<open>The failure goes to the application's database first; that it cannot be written there is ignored.\<close>

definition mirror_failure :: "'s durable_context \<Rightarrow> 'a serde \<Rightarrow> ('s, 't) data_source \<Rightarrow> int \<Rightarrow> string \<Rightarrow> int \<Rightarrow> error \<Rightarrow> ('s, 'a) act" where
  "mirror_failure ctx T ds seq nm started e =
     and_then (observed (\<lambda>_. encode_error (cx_codec ctx) (p_serializer (cx_provider ctx)) e)) (\<lambda>encoded.
     and_then read_clock (\<lambda>now w.
       record_failure ctx T seq nm e (Some started) (w\<lparr>w_store := snd (ds_insert_failure ds now (cx_workflow_id ctx) seq encoded
         (serializer_name (p_serializer (cx_provider ctx))) (w_store w))\<rparr>)))"

definition run_external_transaction :: "'s durable_context \<Rightarrow> 'a serde \<Rightarrow> ('s, 't) data_source \<Rightarrow> transaction_options
  \<Rightarrow> ('s, 't, 'a) tx_body \<Rightarrow> int \<Rightarrow> int \<Rightarrow> 's world \<Rightarrow> ('a run_outcome \<times> 's world) option" where
  "run_external_transaction ctx T ds opts f seq started w =
     (case observed (ds_fetch_completion ds (cx_workflow_id ctx) seq) w of
       (Panicked p, w') \<Rightarrow> Some (Panicked p, w')
     | (Returned (Inl e), w') \<Rightarrow> Some (Returned (Err e), w')
     | (Returned (Inr (Some row)), w') \<Rightarrow> Some (replay_completion_row ctx T seq (xo_name opts) row started w')
     | (Returned (Inr None), w') \<Rightarrow>
        user_retry_loop ctx opts (datasource_attempt ctx T ds opts f seq) (settle_duplicate ctx T ds seq (xo_name opts) started)
          (\<lambda>value. write_step_outcome ctx T seq (xo_name opts) value None (Some started))
          (mirror_failure ctx T ds seq (xo_name opts) started) (xo_max_retries opts) w')"

text \<open>\<open>own\<close> is the identity of the provider this workflow runs on.\<close>

definition run_datasource_transaction :: "'s durable_context \<Rightarrow> nat option \<Rightarrow> 'a serde \<Rightarrow> ('s, 't) data_source \<Rightarrow> transaction_options
  \<Rightarrow> ('s, 't, 'a) tx_body \<Rightarrow> int \<Rightarrow> 's world \<Rightarrow> ('a run_outcome \<times> 's world) option" where
  "run_datasource_transaction ctx own T ds opts f seq w = (case replay_or_guard ctx T seq (xo_name opts) w of
       (Panicked p, w') \<Rightarrow> Some (Panicked p, w')
     | (Returned (Inl e), w') \<Rightarrow> Some (Returned (Err e), w')
     | (Returned (Inr (Some v)), w') \<Rightarrow> Some (Returned (Ok v), w')
     | (Returned (Inr None), w') \<Rightarrow>
        (let started = timestamp_millis (w_clock w' (w_reads w')); w'' = w'\<lparr>w_reads := Suc (w_reads w')\<rparr> in
         case ds_kind ds of
           External \<Rightarrow> run_external_transaction ctx T ds opts f seq started w''
         | System identity \<Rightarrow>
            if own = Some identity then run_system_datasource_transaction ctx T ds opts f seq started w''
            else Some (Returned (Err (app ''this system data source was minted by a different provider than the one this workflow runs on; use system_datasource() from this engine's own provider (or an external data source)'')), w'')))"

definition transaction_on_with :: "'s durable_context \<Rightarrow> nat option \<Rightarrow> 'a serde \<Rightarrow> ('s, 't) data_source \<Rightarrow> transaction_options
  \<Rightarrow> ('s, 't, 'a) tx_body \<Rightarrow> 's world \<Rightarrow> ('a run_outcome \<times> 's world) option" where
  "transaction_on_with ctx own T ds opts f w = (case claim_position ctx ''transaction'' w of
       (Panicked p, w') \<Rightarrow> Some (Panicked p, w')
     | (Returned (Inl e), w') \<Rightarrow> Some (Returned (Err e), w')
     | (Returned (Inr seq), w') \<Rightarrow> (case check_call_poll ''transaction'' w' of
         Inl e \<Rightarrow> Some (Returned (Err e), w')
       | Inr _ \<Rightarrow> run_datasource_transaction ctx own T ds opts f seq w'))"

definition transaction_on :: "'s durable_context \<Rightarrow> nat option \<Rightarrow> 'a serde \<Rightarrow> ('s, 't) data_source \<Rightarrow> string
  \<Rightarrow> ('s, 't, 'a) tx_body \<Rightarrow> 's world \<Rightarrow> ('a run_outcome \<times> 's world) option" where
  "transaction_on ctx own T ds nm = transaction_on_with ctx own T ds (transaction_options_new nm)"

subsection \<open>A transaction of the provider\<close>

text \<open>The provider runs the body in its own database: \<open>rts\<close> is \<open>run_transaction_step\<close> of a SQL provider.\<close>

type_synonym ('s, 't) transaction_step = "string \<Rightarrow> int \<Rightarrow> int \<Rightarrow> transaction_options \<Rightarrow> ('s, 't, json) tx_body \<Rightarrow> ('s, json) act"

definition provider_body :: "'a serde \<Rightarrow> ('s, 't, 'a) tx_body \<Rightarrow> ('s, 't, json) tx_body" where
  "provider_body T f t w = (case run_body f t w of
       ((Panicked p, t'), w') \<Rightarrow> ((Panicked p, t'), w')
     | ((Returned (Inl e), t'), w') \<Rightarrow> (let (e', ex) = body_error e (w_execution w') in ((Returned (Err e'), t'), w'\<lparr>w_execution := ex\<rparr>))
     | ((Returned (Inr v), t'), w') \<Rightarrow> ((Returned (case sd_to_value T v of Inl m \<Rightarrow> Err (OutputSerialization m) | Inr value \<Rightarrow> Ok value), t'), w'))"

definition transaction_live :: "'s durable_context \<Rightarrow> ('s, 't) transaction_step \<Rightarrow> 'a serde \<Rightarrow> transaction_options
  \<Rightarrow> ('s, 't, 'a) tx_body \<Rightarrow> int \<Rightarrow> ('s, 'a) act" where
  "transaction_live ctx rts T opts f seq = and_then read_clock (\<lambda>now w.
     case rts (cx_workflow_id ctx) seq (timestamp_millis now) opts (provider_body T f) w of
       (Panicked p, w') \<Rightarrow> (Panicked p, w')
     | (Returned (Inr value), w') \<Rightarrow> recorded_value ctx T (Output value) w'
     | (Returned (Inl e), w') \<Rightarrow>
        if \<not> is_storage_failure e then (Returned (Err e), w')
        else and_then (observed (p_get_step_result (cx_provider ctx) (cx_workflow_id ctx) seq)) (\<lambda>found. case found of
            Some rec \<Rightarrow> and_then (check_recorded ctx seq (xo_name opts) (rs_name rec)) (\<lambda>_. recorded_value ctx T (rs_outcome rec))
          | None \<Rightarrow> (\<lambda>w. let (e', ex) = record_error e (w_execution w) in (Returned (Err e'), w\<lparr>w_execution := ex\<rparr>))) w')"

definition transaction_with :: "'s durable_context \<Rightarrow> ('s, 't) transaction_step \<Rightarrow> 'a serde \<Rightarrow> transaction_options
  \<Rightarrow> ('s, 't, 'a) tx_body \<Rightarrow> ('s, 'a) act" where
  "transaction_with ctx rts T opts f = pending_step ctx ''transaction'' (\<lambda>seq w.
     if verifying w
     then and_then (replay_or_guard ctx T seq (xo_name opts)) (\<lambda>found. case found of
         Some v \<Rightarrow> ret (Ok v) | None \<Rightarrow> transaction_live ctx rts T opts f seq) w
     else transaction_live ctx rts T opts f seq w)"

definition transaction :: "'s durable_context \<Rightarrow> ('s, 't) transaction_step \<Rightarrow> 'a serde \<Rightarrow> string \<Rightarrow> ('s, 't, 'a) tx_body \<Rightarrow> ('s, 'a) act" where
  "transaction ctx rts T nm = transaction_with ctx rts T (transaction_options_new nm)"

subsection \<open>Placeholders\<close>

fun pg_placeholders_from :: "nat \<Rightarrow> bool \<Rightarrow> string \<Rightarrow> string" where
  "pg_placeholders_from n in_str [] = []"
| "pg_placeholders_from n in_str (c # sql) =
     (if c = CHR 0x27 then c # pg_placeholders_from n (\<not> in_str) sql
      else if c = CHR ''?'' \<and> \<not> in_str then CHR ''$'' # show_nat (n + 1) @ pg_placeholders_from (n + 1) in_str sql
      else c # pg_placeholders_from n in_str sql)"

definition to_pg_placeholders :: "string \<Rightarrow> string" where
  "to_pg_placeholders sql = pg_placeholders_from 0 False sql"

section \<open>Specification\<close>

text \<open>
  What a data source keeps at one position: how often writes of its body were committed,
  the witness row, and the row an open transaction would commit.  The laws are what
  the trait documents of a database: only a commit makes anything durable, it makes the
  writes and the witness durable together or neither, and one position has one
  witness.  A commit whose response is lost may have happened.
\<close>

record ('s, 't) ledger =
  lg_effects :: "'s \<Rightarrow> nat"
  lg_witness :: "'s \<Rightarrow> completion_row option"
  lg_pending :: "'t \<Rightarrow> completion_row option"

text \<open>A change of the store that touches neither the data source's position nor the step's checkpoint.\<close>

definition apart :: "('s, 't) ledger \<Rightarrow> 's state_provider \<Rightarrow> string \<Rightarrow> int \<Rightarrow> 's \<Rightarrow> 's \<Rightarrow> bool" where
  "apart L P i q s s' \<longleftrightarrow> lg_effects L s' = lg_effects L s \<and> lg_witness L s' = lg_witness L s
     \<and> p_get_step_result P i q s' = p_get_step_result P i q s"

definition commit_law :: "('s, 't) ledger \<Rightarrow> 's state_provider \<Rightarrow> ('s, 't) data_source \<Rightarrow> string \<Rightarrow> int \<Rightarrow> bool" where
  "commit_law L P ds i q \<longleftrightarrow> (\<forall>t s row r s'. lg_pending L t = Some row \<and> ds_commit ds t s = (r, s') \<longrightarrow>
     apart L P i q s s' \<and> r \<noteq> Ok ()
     \<or> lg_witness L s = None \<and> lg_witness L s' = Some row \<and> lg_effects L s' = Suc (lg_effects L s)
       \<and> p_get_step_result P i q s' = p_get_step_result P i q s)"

definition insert_law :: "('s, 't) ledger \<Rightarrow> 's state_provider \<Rightarrow> ('s, 't) data_source \<Rightarrow> string \<Rightarrow> int \<Rightarrow> bool" where
  "insert_law L P ds i q \<longleftrightarrow> (\<forall>now t row s r t' s'. ds_insert_completion ds now t i q row s = (r, t', s') \<longrightarrow>
     apart L P i q s s' \<and> (r = Ok True \<longrightarrow> lg_pending L t' = Some row))"

definition failure_law :: "('s, 't) ledger \<Rightarrow> 's state_provider \<Rightarrow> ('s, 't) data_source \<Rightarrow> string \<Rightarrow> int \<Rightarrow> bool" where
  "failure_law L P ds i q \<longleftrightarrow> (\<forall>now m ser s r s'. ds_insert_failure ds now i q m ser s = (r, s') \<longrightarrow>
     apart L P i q s s'
     \<or> lg_witness L s = None \<and> lg_witness L s' = Some \<lparr>cr_output = None, cr_error = Some m, cr_serialization = Some ser\<rparr>
       \<and> lg_effects L s' = lg_effects L s \<and> p_get_step_result P i q s' = p_get_step_result P i q s)"

definition atomic_source :: "('s, 't) ledger \<Rightarrow> 's state_provider \<Rightarrow> ('s, 't) data_source \<Rightarrow> string \<Rightarrow> int \<Rightarrow> bool" where
  "atomic_source L P ds i q \<longleftrightarrow> commit_law L P ds i q \<and> insert_law L P ds i q \<and> failure_law L P ds i q
     \<and> (\<forall>iso ro s. apart L P i q s (snd (ds_begin ds iso ro s)))
     \<and> (\<forall>t s. apart L P i q s (snd (ds_rollback ds t s)) \<and> apart L P i q s (ds_drop ds t s) \<and> apart L P i q s (snd (ds_fingerprint ds t s)))
     \<and> (\<forall>s row. ds_fetch_completion ds i q s = Ok row \<longrightarrow> row = lg_witness L s)"

text \<open>The body writes inside its transaction only, so nothing of what it writes is durable when it ends.\<close>

definition contained_body :: "('s, 't) ledger \<Rightarrow> 's state_provider \<Rightarrow> string \<Rightarrow> int \<Rightarrow> ('s, 't, 'a) tx_body \<Rightarrow> bool" where
  "contained_body L P i q f \<longleftrightarrow> (\<forall>t w. apart L P i q (w_store w) (w_store (snd (f t w))))"

text \<open>Checkpointing a step leaves the application's database alone, and an empty position takes the outcome it is given.\<close>

definition checkpoint_law :: "('s, 't) ledger \<Rightarrow> 's state_provider \<Rightarrow> string \<Rightarrow> int \<Rightarrow> bool" where
  "checkpoint_law L P i q \<longleftrightarrow> (\<forall>now nm v err started ex s r s'. p_record_step_result P now i q nm v err started ex s = (r, s') \<longrightarrow>
     lg_effects L s' = lg_effects L s \<and> lg_witness L s' = lg_witness L s
     \<and> (p_get_step_result P i q s = Ok None \<longrightarrow> (\<forall>x. r = Ok (Output x) \<longrightarrow> err = None)))"

text \<open>The writes were committed once if the witness holds an output, never otherwise.\<close>

definition balanced :: "('s, 't) ledger \<Rightarrow> 's \<Rightarrow> bool" where
  "balanced L s \<longleftrightarrow> lg_effects L s = (if is_some_and (lg_witness L s) (\<lambda>row. cr_error row = None) then 1 else 0)"

definition unsettled :: "('s, 't) ledger \<Rightarrow> 's state_provider \<Rightarrow> string \<Rightarrow> int \<Rightarrow> 's \<Rightarrow> bool" where
  "unsettled L P i q s \<longleftrightarrow> balanced L s \<and> p_get_step_result P i q s = Ok None"

definition once :: "('s, 't) ledger \<Rightarrow> 'a run_outcome \<times> 's world \<Rightarrow> bool" where
  "once L r \<longleftrightarrow> balanced L (w_store (snd r)) \<and> (\<forall>v. fst r = Returned (Inr v) \<longrightarrow> lg_effects L (w_store (snd r)) = 1)"

definition attempted :: "('s, 't) ledger \<Rightarrow> 's state_provider \<Rightarrow> string \<Rightarrow> int \<Rightarrow> ds_attempt run_outcome \<times> 's world \<Rightarrow> bool" where
  "attempted L P i q r \<longleftrightarrow> unsettled L P i q (w_store (snd r))
     \<and> (\<forall>v. fst r = Returned (Inr (Committed v)) \<longrightarrow> lg_effects L (w_store (snd r)) = 1)"

section \<open>Lemmas\<close>

lemma apart_refl [simp]: "apart L P i q s s"
  by (simp add: apart_def)

lemma apart_trans: "apart L P i q s s' \<Longrightarrow> apart L P i q s' s'' \<Longrightarrow> apart L P i q s s''"
  by (simp add: apart_def)

lemma apart_unsettled: "apart L P i q s s' \<Longrightarrow> unsettled L P i q s' = unsettled L P i q s"
  by (simp add: apart_def unsettled_def balanced_def)

lemma apart_balanced: "apart L P i q s s' \<Longrightarrow> balanced L s' = balanced L s"
  by (simp add: apart_def balanced_def)

lemma unsettled_balanced: "unsettled L P i q s \<Longrightarrow> balanced L s"
  by (simp add: unsettled_def)

lemma once_failed: "balanced L (w_store w) \<Longrightarrow> once L (Returned (Inl e), w)" "balanced L (w_store w) \<Longrightarrow> once L (Panicked p, w)"
  by (simp_all add: once_def)

lemma observed_store [simp]: "w_store (snd (observed f w)) = w_store w"
  by (simp add: observed_def Let_def case_prod_unfold)

lemma observedD: "observed f w = (r, w') \<Longrightarrow> w_store w' = w_store w"
  using observed_store [of f w] by simp

lemma interrupted_store [simp]: "w_store (snd (interrupted r w)) = w_store w"
  by (simp add: interrupted_def Let_def case_prod_unfold split: sum.split)

lemma recorded_value_store [simp]: "w_store (snd (recorded_value ctx T oc w)) = w_store w"
  by (simp add: recorded_value_def Let_def case_prod_unfold split: step_outcome.split)

lemma recorded_failure_no_value: "fst (recorded_value ctx T (Failure m info) w) \<noteq> Returned (Inr v)"
  by (simp add: recorded_value_def Let_def case_prod_unfold split: sum.split)

lemma once_interrupted: "balanced L (w_store w) \<Longrightarrow> once L (interrupted (Inl e) w)"
  by (simp add: once_def interrupted_def Let_def case_prod_unfold)

lemma once_and_then_read:
  assumes "\<And>w. w_store (snd (m w)) = w_store w" "balanced L (w_store w)"
    and "\<And>a w'. m w = (Returned (Inr a), w') \<Longrightarrow> w_store w' = w_store w \<Longrightarrow> once L (k a w')"
  shows "once L (and_then m k w)"
proof (cases "and_then m k w")
  case (Pair o' w')
  have store: "m w = (r, w1) \<Longrightarrow> w_store w1 = w_store w" for r w1 using assms(1) [of w] by simp
  show ?thesis using Pair
    by (cases rule: and_then_cases) (use Pair assms(2) store assms(3) in \<open>auto simp: once_def\<close>)
qed

subsection \<open>What a checkpoint changes\<close>

lemma checkpoint_lawD:
  assumes "checkpoint_law L P i q" "p_record_step_result P now i q nm v err started ex s = (r, s')"
  shows "lg_effects L s' = lg_effects L s" "lg_witness L s' = lg_witness L s"
    and "p_get_step_result P i q s = Ok None \<Longrightarrow> r = Ok (Output x) \<Longrightarrow> err = None"
  using assms unfolding checkpoint_law_def by blast+

lemma record_outcome_keeps:
  assumes "checkpoint_law L (cx_provider ctx) (cx_workflow_id ctx) q"
  shows "balanced L (w_store (snd (record_outcome ctx q nm v err started w))) = balanced L (w_store w)"
    and "lg_effects L (w_store (snd (record_outcome ctx q nm v err started w))) = lg_effects L (w_store w)"
  by (simp_all add: record_outcome_def stored_def balanced_def checkpoint_lawD [OF assms] Let_def split: prod.split)

lemma write_outcome_store:
  "w_store (snd (write_step_outcome ctx T q nm v err started w)) = w_store (snd (record_outcome ctx q nm v err started w))"
proof (cases "record_outcome ctx q nm v err started w")
  case (Pair r w1)
  then show ?thesis
    by (cases r) (auto simp: write_step_outcome_def and_then_def split: sum.split)
qed

lemma write_outcome_once:
  assumes law: "checkpoint_law L (cx_provider ctx) (cx_workflow_id ctx) q"
    and "balanced L (w_store w)" "lg_effects L (w_store w) = 1"
  shows "once L (write_step_outcome ctx T q nm v err started w)"
  using assms record_outcome_keeps [OF law] by (simp add: once_def write_outcome_store)

lemma record_outcome_error:
  assumes "checkpoint_law L (cx_provider ctx) (cx_workflow_id ctx) q" "unsettled L (cx_provider ctx) (cx_workflow_id ctx) q (w_store w)"
    and "record_outcome ctx q nm v (Some m) started w = (Returned (Inr oc), w')"
  shows "\<exists>msg info. oc = Failure msg info"
proof (cases oc)
  case (Output x)
  let ?r = "p_record_step_result (cx_provider ctx) (w_clock w (w_reads w)) (cx_workflow_id ctx) q nm v (Some m) started
    (Some (cx_executor_id ctx)) (w_store w)"
  have "fst ?r = Inr (Output x)" using assms(3) Output
    by (auto simp: record_outcome_def stored_def storage_def Let_def split: prod.splits sum.splits)
  then have r: "?r = (Inr (Output x), snd ?r)" by (simp add: prod_eq_iff)
  show ?thesis using checkpoint_lawD(3) [OF assms(1) r] assms(2) by (auto simp: unsettled_def)
qed simp

lemma write_error_once:
  assumes law: "checkpoint_law L (cx_provider ctx) (cx_workflow_id ctx) q"
    and s: "unsettled L (cx_provider ctx) (cx_workflow_id ctx) q (w_store w)"
  shows "once L (write_step_outcome ctx T q nm v (Some m) started w)"
proof -
  have "fst (write_step_outcome ctx T q nm v (Some m) started w) \<noteq> Returned (Inr a)" for a
  proof (cases "record_outcome ctx q nm v (Some m) started w")
    case (Pair r w1)
    then show ?thesis
      by (cases r) (auto simp: write_step_outcome_def and_then_def recorded_failure_no_value dest!: record_outcome_error [OF law s] split: sum.split)
  qed
  then show ?thesis using record_outcome_keeps [OF law] s by (simp add: once_def write_outcome_store unsettled_def)
qed

subsection \<open>What an attempt changes\<close>

lemma db_parts [simp]: "fst (db f w) = Returned (fst (f (w_store w)))" "w_store (snd (db f w)) = snd (f (w_store w))"
  by (simp_all add: db_def case_prod_unfold Let_def)

lemma dropped_store [simp]: "w_store (dropped ds t w) = ds_drop ds t (w_store w)"
  by (simp add: dropped_def)

lemma atomic_sourceD:
  assumes "atomic_source L P ds i q"
  shows "apart L P i q s (snd (ds_begin ds level ro s))" "apart L P i q s (snd (ds_rollback ds t s))"
    "apart L P i q s (ds_drop ds t s)" "apart L P i q s (snd (ds_fingerprint ds t s))"
    "ds_fetch_completion ds i q s = Ok row \<Longrightarrow> row = lg_witness L s"
    "commit_law L P ds i q" "insert_law L P ds i q" "failure_law L P ds i q"
  using assms unfolding atomic_source_def by blast+

lemma in_tx_attempted:
  assumes src: "atomic_source L P ds i q" and s: "unsettled L P i q (w_store w)"
    and m: "apart L P i q (w_store w) (w_store (snd (m w)))"
    and k: "\<And>a w'. unsettled L P i q (w_store w') \<Longrightarrow> attempted L P i q (k a w')"
  shows "attempted L P i q (in_tx ds t m k w)"
proof -
  have "unsettled L P i q (w_store (snd (m w)))" using s apart_unsettled [OF m] by simp
  moreover from this have "unsettled L P i q (ds_drop ds t (w_store (snd (m w))))"
    using apart_unsettled [OF atomic_sourceD(3) [OF src]] by blast
  ultimately show ?thesis using k
    by (auto simp: in_tx_def attempted_def split: prod.splits run_outcome.splits sum.splits)
qed

lemma rolled_back_attempted:
  assumes "atomic_source L P ds i q" "unsettled L P i q (w_store w)"
  shows "attempted L P i q (rolled_back ds t e w)"
proof -
  have "unsettled L P i q (snd (ds_rollback ds t (w_store w)))"
    using assms apart_unsettled [OF atomic_sourceD(2) [OF assms(1)]] by blast
  then show ?thesis
    by (auto simp: rolled_back_def attempted_def and_then_def ret_def db_def split: prod.splits sum.splits)
qed

lemma commit_attempted:
  assumes src: "atomic_source L P ds i q" and s: "unsettled L P i q (w_store w)"
    and t: "lg_pending L t = Some row" "cr_error row = None"
  shows "attempted L P i q (and_then (db (ds_commit ds t)) (\<lambda>_. ret (Ok (Committed v))) w)"
proof -
  obtain r s' where r: "ds_commit ds t (w_store w) = (r, s')" by fastforce
  have "apart L P i q (w_store w) s' \<and> r \<noteq> Ok () \<or> lg_witness L (w_store w) = None \<and> lg_witness L s' = Some row
      \<and> lg_effects L s' = Suc (lg_effects L (w_store w)) \<and> p_get_step_result P i q s' = p_get_step_result P i q (w_store w)"
    using atomic_sourceD(6) [OF src] t(1) r unfolding commit_law_def by blast
  then have "unsettled L P i q s' \<and> (r = Ok () \<longrightarrow> lg_effects L s' = 1)"
    using s t(2) apart_unsettled [of L P i q "w_store w" s'] by (auto simp: unsettled_def balanced_def is_some_and_def)
  then show ?thesis using r
    by (auto simp: attempted_def and_then_def ret_def db_def split: sum.splits)
qed

lemma insert_attempted:
  assumes src: "atomic_source L (cx_provider ctx) ds (cx_workflow_id ctx) q" and s: "unsettled L (cx_provider ctx) (cx_workflow_id ctx) q (w_store w)"
  shows "attempted L (cx_provider ctx) (cx_workflow_id ctx) q
    (attempt_insert ds (\<lambda>enc now t. ds_insert_completion ds now t (cx_workflow_id ctx) q (witness_row ctx enc)) v t enc w)"
proof -
  let ?w = "w\<lparr>w_reads := Suc (w_reads w)\<rparr>"
  obtain r t' s' where r: "ds_insert_completion ds (w_clock w (w_reads w)) t (cx_workflow_id ctx) q (witness_row ctx enc) (w_store w) = (r, t', s')"
    by (metis prod.exhaust)
  have law: "apart L (cx_provider ctx) (cx_workflow_id ctx) q (w_store w) s'" "r = Ok True \<Longrightarrow> lg_pending L t' = Some (witness_row ctx enc)"
    using atomic_sourceD(7) [OF src] r unfolding insert_law_def by blast+
  have s': "unsettled L (cx_provider ctx) (cx_workflow_id ctx) q s'" using s apart_unsettled [OF law(1)] by simp
  show ?thesis
  proof (cases r)
    case (Inr inserted)
    then show ?thesis using r s' law(2) commit_attempted [OF src, of "?w\<lparr>w_store := s'\<rparr>" t' "witness_row ctx enc" v]
        apart_unsettled [OF atomic_sourceD(2) [OF src], of t' s']
      by (cases inserted) (auto simp: attempt_insert_def and_then_def read_clock_def witness_row_def attempted_def)
  qed (use r s' apart_unsettled [OF atomic_sourceD(3) [OF src], of t' s'] in
       \<open>auto simp: attempt_insert_def and_then_def read_clock_def attempted_def\<close>)
qed

lemma value_attempted:
  assumes src: "atomic_source L (cx_provider ctx) ds (cx_workflow_id ctx) q" and s: "unsettled L (cx_provider ctx) (cx_workflow_id ctx) q (w_store w)"
    and "\<not> xo_read_only opts"
  shows "attempted L (cx_provider ctx) (cx_workflow_id ctx) q (attempt_value ctx T ds opts
    (\<lambda>enc now t. ds_insert_completion ds now t (cx_workflow_id ctx) q (witness_row ctx enc)) fp v t w)"
proof (cases "sd_to_value T v")
  case (Inr u)
  have same_tx: "apart L (cx_provider ctx) (cx_workflow_id ctx) q (w_store w) (w_store (snd (same_transaction ds t fp w)))" for w
    using atomic_sourceD(4) [OF src, of "w_store w" t]
    by (auto simp: same_transaction_def and_then_def ret_def db_def split: option.split prod.splits sum.splits)
  show ?thesis using Inr assms
    by (auto simp: attempt_value_def ret_def intro!: in_tx_attempted [OF src] same_tx rolled_back_attempted [OF src] insert_attempted [OF src])
qed (simp add: attempt_value_def rolled_back_attempted [OF src s])

lemma run_body_apart:
  assumes "contained_body L P i q f"
  shows "apart L P i q (w_store w) (w_store (snd (run_body f t w)))"
  using assms [unfolded contained_body_def, rule_format, of "w\<lparr>w_in_body := True\<rparr>" t]
  by (auto simp: run_body_def split: prod.split)

lemma body_attempted:
  assumes src: "atomic_source L (cx_provider ctx) ds (cx_workflow_id ctx) q" and s: "unsettled L (cx_provider ctx) (cx_workflow_id ctx) q (w_store w)"
    and "\<not> xo_read_only opts" and f: "contained_body L (cx_provider ctx) (cx_workflow_id ctx) q f"
  shows "attempted L (cx_provider ctx) (cx_workflow_id ctx) q (attempt_body ctx T ds opts
    (\<lambda>enc now t. ds_insert_completion ds now t (cx_workflow_id ctx) q (witness_row ctx enc)) f t fp w)"
proof -
  let ?U = "unsettled L (cx_provider ctx) (cx_workflow_id ctx) q"
  obtain r t' w' where r: "run_body f t w = ((r, t'), w')" by (metis prod.exhaust)
  have w': "?U (w_store w')" using apart_unsettled [OF run_body_apart [OF f, of w t]] s r by simp
  have ends: "?U (ds_drop ds t' (w_store w'))" "?U (snd (ds_rollback ds t' (w_store w')))"
    using w' apart_unsettled [OF atomic_sourceD(3) [OF src]] apart_unsettled [OF atomic_sourceD(2) [OF src]] by blast+
  show ?thesis
  proof (cases r)
    case (Returned x)
    show ?thesis
    proof (cases x)
      case (Inr v)
      then show ?thesis using r Returned value_attempted [OF src w' assms(3)] by (simp add: attempt_body_def)
    qed (use r Returned ends in \<open>auto simp: attempt_body_def attempted_def and_then_def ret_def db_def Let_def split: prod.splits sum.splits\<close>)
  qed (use r ends in \<open>simp add: attempt_body_def attempted_def\<close>)
qed

lemma datasource_attempted:
  assumes src: "atomic_source L (cx_provider ctx) ds (cx_workflow_id ctx) q" and s: "unsettled L (cx_provider ctx) (cx_workflow_id ctx) q (w_store w)"
    and "\<not> xo_read_only opts" "contained_body L (cx_provider ctx) (cx_workflow_id ctx) q f"
  shows "attempted L (cx_provider ctx) (cx_workflow_id ctx) q (datasource_attempt ctx T ds opts f q w)"
proof -
  let ?b = "ds_begin ds (xo_isolation opts) (xo_read_only opts)"
  have begun: "unsettled L (cx_provider ctx) (cx_workflow_id ctx) q (snd (?b (w_store w)))"
    using s apart_unsettled [OF atomic_sourceD(1) [OF src]] by blast
  have run: "attempted L (cx_provider ctx) (cx_workflow_id ctx) q (in_tx ds t (db (ds_fingerprint ds t)) (attempt_body ctx T ds opts
      (\<lambda>enc now t. ds_insert_completion ds now t (cx_workflow_id ctx) q (witness_row ctx enc)) f t) w)"
    if "unsettled L (cx_provider ctx) (cx_workflow_id ctx) q (w_store w)" for t w
    using that assms by (auto intro!: in_tx_attempted [OF src] body_attempted [OF src] simp: atomic_sourceD(4) [OF src])
  obtain r s' where r: "?b (w_store w) = (r, s')" by fastforce
  have "attempted L (cx_provider ctx) (cx_workflow_id ctx) q (Returned (Inl e), w\<lparr>w_store := s'\<rparr>)" for e
    using begun r by (simp add: attempted_def)
  then show ?thesis using r begun run [of "w\<lparr>w_store := s'\<rparr>"]
    by (cases r) (auto simp: datasource_attempt_def attempt_with_def and_then_def db_def)
qed

subsection \<open>What follows an attempt\<close>

lemma replay_row_once:
  assumes law: "checkpoint_law L (cx_provider ctx) (cx_workflow_id ctx) q"
    and s: "unsettled L (cx_provider ctx) (cx_workflow_id ctx) q (w_store w)" and row: "lg_witness L (w_store w) = Some row"
  shows "once L (replay_completion_row ctx T q nm row started w)"
proof (cases "cr_error row")
  case None
  then have "lg_effects L (w_store w) = 1" using s row by (simp add: unsettled_def balanced_def is_some_and_def)
  moreover have "balanced L (w_store w)" using s by (simp add: unsettled_def)
  ultimately show ?thesis using None
    by (auto simp: replay_completion_row_def split: option.split intro!: once_interrupted once_and_then_read write_outcome_once [OF law])
next
  case (Some m)
  then show ?thesis using s unsettled_balanced [OF s]
    by (auto simp: replay_completion_row_def Let_def case_prod_unfold intro!: once_and_then_read write_error_once [OF law])
qed

lemma settle_duplicate_once:
  assumes src: "atomic_source L (cx_provider ctx) ds (cx_workflow_id ctx) q" and law: "checkpoint_law L (cx_provider ctx) (cx_workflow_id ctx) q"
    and s: "unsettled L (cx_provider ctx) (cx_workflow_id ctx) q (w_store w)"
  shows "once L (settle_duplicate ctx T ds q nm started v w)"
  unfolding settle_duplicate_def
proof (rule once_and_then_read)
  fix found w'
  assume o: "observed (ds_fetch_completion ds (cx_workflow_id ctx) q) w = (Returned (Inr found), w')" and w': "w_store w' = w_store w"
  then have "ds_fetch_completion ds (cx_workflow_id ctx) q (w_store w) = Ok found"
    by (auto simp: observed_def storage_def Let_def split: sum.splits prod.splits)
  then have found: "found = lg_witness L (w_store w)" using atomic_sourceD(5) [OF src] by simp
  have s': "unsettled L (cx_provider ctx) (cx_workflow_id ctx) q (w_store w')" using s w' by simp
  show "once L ((case found of None \<Rightarrow> interrupted (Err (app ''transaction_completion row vanished after a duplicate insert''))
      | Some row \<Rightarrow> and_then (observed (\<lambda>_. completion_row_matches (cx_codec ctx) (p_serializer (cx_provider ctx)) row v)) (\<lambda>same.
          if \<not> same then ret (Err (WorkflowConflict (cx_workflow_id ctx))) else replay_completion_row ctx T q nm row started)) w')"
  proof (cases found)
    case None
    then show ?thesis using unsettled_balanced [OF s'] by (simp add: once_interrupted)
  next
    case (Some row)
    have "once L ((if \<not> same then ret (Err (WorkflowConflict (cx_workflow_id ctx))) else replay_completion_row ctx T q nm row started) w2)"
      if "w_store w2 = w_store w'" for same w2
      using replay_row_once [OF law, where w = w2 and row = row and T = T] s' found Some w' that unsettled_balanced [OF s']
      by (cases same) (simp_all add: ret_def once_failed)
    then show ?thesis using Some unsettled_balanced [OF s'] by (auto intro!: once_and_then_read)
  qed
qed (use unsettled_balanced [OF s] in simp_all)

lemma record_failure_once:
  assumes law: "checkpoint_law L (cx_provider ctx) (cx_workflow_id ctx) q"
    and s: "unsettled L (cx_provider ctx) (cx_workflow_id ctx) q (w_store w)"
  shows "once L (record_failure ctx T q nm e started w)"
  using s unsettled_balanced [OF s] unfolding record_failure_def
  by (auto intro!: once_and_then_read write_error_once [OF law])

lemma mirror_failure_once:
  assumes src: "atomic_source L (cx_provider ctx) ds (cx_workflow_id ctx) q" and law: "checkpoint_law L (cx_provider ctx) (cx_workflow_id ctx) q"
    and s: "unsettled L (cx_provider ctx) (cx_workflow_id ctx) q (w_store w)"
  shows "once L (mirror_failure ctx T ds q nm started e w)"
proof -
  have "unsettled L (cx_provider ctx) (cx_workflow_id ctx) q (snd (ds_insert_failure ds now (cx_workflow_id ctx) q m ser s0))"
    if "unsettled L (cx_provider ctx) (cx_workflow_id ctx) q s0" for now m ser s0
  proof -
    obtain r s' where r: "ds_insert_failure ds now (cx_workflow_id ctx) q m ser s0 = (r, s')" by fastforce
    then have "apart L (cx_provider ctx) (cx_workflow_id ctx) q s0 s' \<or> lg_witness L s0 = None
        \<and> lg_witness L s' = Some \<lparr>cr_output = None, cr_error = Some m, cr_serialization = Some ser\<rparr> \<and> lg_effects L s' = lg_effects L s0
        \<and> p_get_step_result (cx_provider ctx) (cx_workflow_id ctx) q s' = p_get_step_result (cx_provider ctx) (cx_workflow_id ctx) q s0"
      using atomic_sourceD(8) [OF src] unfolding failure_law_def by blast
    then show ?thesis using that r apart_unsettled by (fastforce simp: unsettled_def balanced_def is_some_and_def)
  qed
  then show ?thesis using s unsettled_balanced [OF s] unfolding mirror_failure_def
    by (auto simp: read_clock_def intro!: once_and_then_read record_failure_once [OF law])
qed

lemma conflict_wait_store [simp]: "w_store (snd (datasource_conflict_wait ctx k w)) = w_store w"
proof (cases "observed (p_get_workflow_status (cx_provider ctx) (cx_workflow_id ctx)) w")
  case (Pair r w')
  then have "w_store w' = w_store w" using observed_store [of "p_get_workflow_status (cx_provider ctx) (cx_workflow_id ctx)" w] by simp
  then show ?thesis using Pair by (auto simp: datasource_conflict_wait_def and_then_def ret_def split: run_outcome.split sum.split)
qed

text \<open>What every attempt keeps, the loops keep, and what they return satisfies what each exit satisfies.\<close>

lemma conflict_loop_inv:
  fixes duplicate :: "json \<Rightarrow> ('s, 'a) act" and r :: "json result + 'a run_outcome"
  assumes loop: "conflict_loop ctx attempt duplicate k w = Some (r, w')" and start: "I (w_store w)"
    and att: "\<And>w r w'. I (w_store w) \<Longrightarrow> attempt w = (r, w') \<Longrightarrow> I (w_store w') \<and> (\<forall>v. r = Returned (Inr (Committed v)) \<longrightarrow> J (w_store w'))"
    and dup: "\<And>v w. I (w_store w) \<Longrightarrow> Q (duplicate v w)"
    and bad: "\<And>w e. I (w_store w) \<Longrightarrow> Q (Returned (Inl e), w)" "\<And>w p. I (w_store w) \<Longrightarrow> Q (Panicked p, w)"
  shows "case r of Inl b \<Rightarrow> I (w_store w') \<and> (\<forall>v. b = Inr v \<longrightarrow> J (w_store w')) | Inr out \<Rightarrow> Q (out, w')"
proof -
  define post where "post = (\<lambda>(r :: json result + 'a run_outcome) (w' :: 's world). case r of Inl b \<Rightarrow> I (w_store w') \<and> (\<forall>v. b = Inr v \<longrightarrow> J (w_store w')) | Inr out \<Rightarrow> Q (out, w'))"
  define P where "P = (\<lambda>ctx' attempt' duplicate' (k :: nat) (w :: 's world) y. ctx' = ctx \<and> attempt' = attempt \<and> duplicate' = duplicate
      \<longrightarrow> I (w_store w) \<longrightarrow> post (fst y) (snd y))"
  have "P ctx attempt duplicate k w (r, w')"
  proof (rule conflict_loop.raw_induct [where P = P, OF _ loop], unfold P_def, intro impI, elim conjE)
    fix rec ctx' attempt' duplicate' k w y
    assume ih: "\<And>ctx' attempt' duplicate' k w y. rec ctx' attempt' duplicate' k w = Some y \<Longrightarrow>
        ctx' = ctx \<and> attempt' = attempt \<and> duplicate' = duplicate \<longrightarrow> I (w_store w) \<longrightarrow> post (fst y) (snd y)"
      and step: "(case attempt' w of
          (Returned (Inl e), w') \<Rightarrow> if should_retry_live_transaction e
              then (case datasource_conflict_wait ctx' k w' of
                  (Returned (Inl e'), w'') \<Rightarrow> Some (Inr (Returned (Inl e')), w'')
                | (Returned (Inr _), w'') \<Rightarrow> rec ctx' attempt' duplicate' (min (Suc k) (2 ^ 32 - 1)) w''
                | (Panicked p, w'') \<Rightarrow> Some (Inr (Panicked p), w''))
              else (let (e', ex) = record_error e (w_execution w') in Some (Inr (Returned (Err e')), w'\<lparr>w_execution := ex\<rparr>))
        | (Returned (Inr (Committed v)), w') \<Rightarrow> Some (Inl (Ok v), w')
        | (Returned (Inr (BodyFailed e)), w') \<Rightarrow> Some (Inl (Err e), w')
        | (Returned (Inr (AlreadyCompleted v)), w') \<Rightarrow> (case duplicate' v w' of (r, w'') \<Rightarrow> Some (Inr r, w''))
        | (Panicked p, w') \<Rightarrow> Some (Inr (Panicked p), w')) = Some y"
      and same: "ctx' = ctx" "attempt' = attempt" "duplicate' = duplicate" and w: "I (w_store w)"
    obtain a w1 where a: "attempt w = (a, w1)" by fastforce
    have w1: "I (w_store w1)" "\<And>v. a = Returned (Inr (Committed v)) \<Longrightarrow> J (w_store w1)" using att [OF w a] by blast+
    have wait: "I (w_store w2)" if "datasource_conflict_wait ctx k w1 = (x, w2)" for x w2
      using conflict_wait_store [of ctx k w1] that w1(1) by simp
    have dup1: "Q (x, w2)" if "duplicate v w1 = (x, w2)" for v x w2 using dup [OF w1(1), of v] that by simp
    show "post (fst y) (snd y)"
    proof (cases a)
      case (Panicked p)
      then show ?thesis using step same a bad(2) [OF w1(1)] by (auto simp: post_def)
    next
      case (Returned x)
      show ?thesis
      proof (cases x)
        case (Inr d)
        then show ?thesis using step same a Returned w1 dup1 by (cases d) (auto simp: post_def split: prod.splits)
      next
        case (Inl e)
        then show ?thesis using step same a Returned w1(1) wait ih [of ctx attempt duplicate _ _ y] bad
          by (auto simp: post_def split: if_splits prod.splits run_outcome.splits sum.splits)
      qed
    qed
  qed
  then show ?thesis using start by (auto simp: P_def post_def split: sum.splits)
qed

lemma user_retry_loop_inv:
  assumes loop: "user_retry_loop ctx opts attempt duplicate committed give_up left w = Some r" and start: "I (w_store w)"
    and att: "\<And>w r w'. I (w_store w) \<Longrightarrow> attempt w = (r, w') \<Longrightarrow> I (w_store w') \<and> (\<forall>v. r = Returned (Inr (Committed v)) \<longrightarrow> J (w_store w'))"
    and dup: "\<And>v w. I (w_store w) \<Longrightarrow> Q (duplicate v w)"
    and bad: "\<And>w e. I (w_store w) \<Longrightarrow> Q (Returned (Inl e), w)" "\<And>w p. I (w_store w) \<Longrightarrow> Q (Panicked p, w)"
    and ends: "\<And>v w. I (w_store w) \<Longrightarrow> J (w_store w) \<Longrightarrow> Q (committed v w)" "\<And>e w. I (w_store w) \<Longrightarrow> Q (give_up e w)"
  shows "Q r"
  using loop start
proof (induction left arbitrary: w)
  case (0 w)
  from 0(1) obtain b w1 where b: "conflict_loop ctx attempt duplicate 0 w = Some (b, w1)"
    by (subst (asm) user_retry_loop.simps) (auto split: option.splits)
  show ?case using conflict_loop_inv [OF b, of I J Q, OF 0(2) att dup bad] 0(1) b ends
    by (subst (asm) (1) user_retry_loop.simps) (auto simp: Let_def split: sum.splits if_splits)
next
  case (Suc rest w)
  from Suc(2) obtain b w1 where b: "conflict_loop ctx attempt duplicate 0 w = Some (b, w1)"
    by (subst (asm) user_retry_loop.simps) (auto split: option.splits)
  show ?case using conflict_loop_inv [OF b, of I J Q, OF Suc(3) att dup bad] Suc(2) b ends bad(2) Suc(1) [of "w1\<lparr>w_waits := _\<rparr>"]
    by (subst (asm) (1) user_retry_loop.simps) (auto simp: Let_def split: sum.splits if_splits option.splits)
qed

lemma run_external_once:
  assumes src: "atomic_source L (cx_provider ctx) ds (cx_workflow_id ctx) q" and law: "checkpoint_law L (cx_provider ctx) (cx_workflow_id ctx) q"
    and f: "contained_body L (cx_provider ctx) (cx_workflow_id ctx) q f" "\<not> xo_read_only opts"
    and s: "unsettled L (cx_provider ctx) (cx_workflow_id ctx) q (w_store w)"
    and run: "run_external_transaction ctx T ds opts f q started w = Some r"
  shows "once L r"
proof -
  let ?I = "unsettled L (cx_provider ctx) (cx_workflow_id ctx) q"
  obtain x w1 where x: "observed (ds_fetch_completion ds (cx_workflow_id ctx) q) w = (Returned x, w1)"
    by (simp add: observed_def case_prod_unfold Let_def)
  have w1: "w_store w1 = w_store w" using observed_store [of "ds_fetch_completion ds (cx_workflow_id ctx) q" w] x by simp
  then have s1: "?I (w_store w1)" using s by simp
  show ?thesis
  proof (cases x)
    case (Inl e)
    then show ?thesis using run x unsettled_balanced [OF s1] by (auto simp: run_external_transaction_def once_failed)
  next
    case (Inr found)
    have "ds_fetch_completion ds (cx_workflow_id ctx) q (w_store w) = Ok found"
      using x Inr by (auto simp: observed_def storage_def Let_def split: sum.splits prod.splits)
    then have found: "found = lg_witness L (w_store w1)" using atomic_sourceD(5) [OF src] w1 by simp
    show ?thesis
    proof (cases found)
      case (Some row)
      then show ?thesis using run x Inr found replay_row_once [OF law s1, of row T]
        by (auto simp: run_external_transaction_def)
    next
      case None
      show ?thesis
      proof (rule user_retry_loop_inv [where I = ?I and J = "\<lambda>s. lg_effects L s = 1" and Q = "once L"])
        show "user_retry_loop ctx opts (datasource_attempt ctx T ds opts f q) (settle_duplicate ctx T ds q (xo_name opts) started)
          (\<lambda>value. write_step_outcome ctx T q (xo_name opts) value None (Some started))
          (mirror_failure ctx T ds q (xo_name opts) started) (xo_max_retries opts) w1 = Some r"
          using run x Inr None by (simp add: run_external_transaction_def)
        show "?I (w_store w') \<and> (\<forall>v. r = Returned (Inr (Committed v)) \<longrightarrow> lg_effects L (w_store w') = 1)"
          if "?I (w_store w)" "datasource_attempt ctx T ds opts f q w = (r, w')" for w r w'
          using datasource_attempted [OF src that(1) f(2) f(1), of T] that(2) by (simp add: attempted_def)
      qed (auto simp: s1 once_failed unsettled_balanced settle_duplicate_once [OF src law] mirror_failure_once [OF src law]
          write_outcome_once [OF law])
    qed
  qed
qed

lemma refuse_live_store [simp]: "w_store (snd (refuse_live_work ctx q nm w)) = w_store w"
  by (simp add: refuse_live_work_def booked_def split: option.split)

lemma guard_unrecorded:
  assumes "p_get_step_result (cx_provider ctx) (cx_workflow_id ctx) q (w_store w) = Ok None" "replay_or_guard ctx T q nm w = (r, w')"
  shows "w_store w' = w_store w" "r \<noteq> Returned (Inr (Some v))"
proof -
  obtain x w1 where x: "refuse_live_work ctx q nm w = (x, w1)" by fastforce
  then have w1: "w_store w1 = w_store w" using refuse_live_store [of ctx q nm w] by simp
  have "w_store w' = w_store w \<and> r \<noteq> Returned (Inr (Some v))" using assms(2) x w1
    by (auto simp: replay_or_guard_def serve_recorded_def and_then_def ret_def assms(1) split: run_outcome.splits sum.splits prod.splits if_splits
        dest: observedD)
  then show "w_store w' = w_store w" "r \<noteq> Returned (Inr (Some v))" by auto
qed

section \<open>Theorems\<close>

text \<open>
  C4: a transaction on an external data source takes effect once.  For every body that
  stays inside its transaction, however its attempts conflict, fail or lose the response of a
  commit: whenever the call returns, the writes of the body were committed once if
  the witness row holds an output and never otherwise, and once if the call
  returned a value; so a later run of the workflow finds the same state and commits nothing more.
\<close>

theorem transaction_applied_once:
  assumes src: "atomic_source L (cx_provider ctx) ds (cx_workflow_id ctx) q" and law: "checkpoint_law L (cx_provider ctx) (cx_workflow_id ctx) q"
    and f: "contained_body L (cx_provider ctx) (cx_workflow_id ctx) q f" "\<not> xo_read_only opts" "ds_kind ds = External"
    and s: "balanced L (w_store w)" "p_get_step_result (cx_provider ctx) (cx_workflow_id ctx) q (w_store w) = Ok None"
    and run: "run_datasource_transaction ctx own T ds opts f q w = Some (out, w')"
  shows "balanced L (w_store w') \<and> (\<forall>v. out = Returned (Ok v) \<longrightarrow> lg_effects L (w_store w') = 1)"
proof -
  obtain r w1 where r: "replay_or_guard ctx T q (xo_name opts) w = (r, w1)" by fastforce
  note kept = guard_unrecorded [OF s(2) r]
  have s1: "unsettled L (cx_provider ctx) (cx_workflow_id ctx) q (w_store w1)" using s kept(1) by (simp add: unsettled_def)
  have "once L (out, w')"
  proof (cases "r = Returned (Inr None)")
    case True
    then have "run_external_transaction ctx T ds opts f q (timestamp_millis (w_clock w1 (w_reads w1))) (w1\<lparr>w_reads := Suc (w_reads w1)\<rparr>)
        = Some (out, w')" using run r f(3) by (simp add: run_datasource_transaction_def)
    then show ?thesis by (rule run_external_once [OF src law f(1, 2), rotated]) (simp add: s1)
  next
    case False
    then show ?thesis using run r kept(2) unsettled_balanced [OF s1]
      by (auto simp: run_datasource_transaction_def once_failed split: run_outcome.splits sum.splits option.splits)
  qed
  then show ?thesis by (simp add: once_def)
qed

text \<open>
  A committed transaction is not run again.  When the application's database
  already holds the witness of this step and the system's database no checkpoint
  (the process stopped between the two commits), the call returns the same with
  every body, the one that panics at once included: the recorded outcome is
  replayed and checkpointed.
\<close>

theorem committed_not_repeated:
  assumes "ds_kind ds = External" "ds_fetch_completion ds (cx_workflow_id ctx) q (w_store w) = Ok (Some row)"
    and "p_get_step_result (cx_provider ctx) (cx_workflow_id ctx) q (w_store w) = Ok None" "replay_or_guard ctx T q (xo_name opts) w = (Returned (Ok None), w')"
  shows "run_datasource_transaction ctx own T ds opts f q w
    = Some (replay_completion_row ctx T q (xo_name opts) row (timestamp_millis (w_clock w' (w_reads w'))) (w'\<lparr>w_reads := Suc (w_reads w')\<rparr>))"
  using assms guard_unrecorded(1) [OF assms(3, 4)]
  by (simp add: run_datasource_transaction_def run_external_transaction_def)

lemma adopt_waits:
  assumes "\<And>k. \<exists>row. p_get_workflow_status P i (view k) = Ok (Some row) \<and> \<not> is_terminal (wf_status row)"
  shows "adopt_recorded_outcome P C i view k = None"
proof (rule ccontr)
  assume "adopt_recorded_outcome P C i view k \<noteq> None"
  then obtain r where r: "adopt_recorded_outcome P C i view k = Some r" by blast
  have live: "p_get_workflow_status P i (view k) \<noteq> Inl e" "p_get_workflow_status P i (view k) \<noteq> Inr None"
    "p_get_workflow_status P i (view k) = Inr (Some row) \<Longrightarrow> \<not> is_terminal (wf_status row)" for k e row
    using assms [of k] by auto
  have "(\<lambda>((((P', _), i'), view'), _) r. \<not> (P' = P \<and> i' = i \<and> view' = view)) ((((P, C), i), view), k) r"
    by (rule adopt_recorded_outcome.raw_induct [OF _ r])
      (auto split: option.splits if_splits sum.splits simp: live)
  then show False by simp
qed

text \<open>
  C33: a lost commit can stall its workflow.  When the first attempt commits but the
  response of the commit is lost in a transient error, the body runs again on
  the committed state; if it then computes another value, as one that counts the rows
  it inserted does, the call reports a conflict with a rival execution, and the engine waits
  for the outcome of a rival that does not exist: as long as nobody else ends the
  workflow, \<open>finalize\<close> never returns.
\<close>

theorem lost_commit_stalls:
  assumes "ds_kind ds = External" "replay_or_guard ctx T q (xo_name opts) w = (Returned (Ok None), w0)"
    and "w1 = w0\<lparr>w_reads := Suc (w_reads w0)\<rparr>" "ds_fetch_completion ds (cx_workflow_id ctx) q (w_store w1) = Ok None"
    and lost: "datasource_attempt ctx T ds opts f q w1 = (Returned (Err e), w2)" "should_retry_live_transaction e"
    and wait: "datasource_conflict_wait ctx 0 w2 = (Returned (Ok ()), w3)"
    and again: "datasource_attempt ctx T ds opts f q w3 = (Returned (Ok (AlreadyCompleted v)), w4)"
    and row: "ds_fetch_completion ds (cx_workflow_id ctx) q (w_store w4) = Ok (Some row)"
      "completion_row_matches (cx_codec ctx) (p_serializer (cx_provider ctx)) row v = Ok False"
    and alone: "\<And>k. \<exists>status. p_get_workflow_status (cx_provider ctx) (cx_workflow_id ctx) (view k) = Ok (Some status)
      \<and> \<not> is_terminal (wf_status status)"
  shows "run_datasource_transaction ctx own T ds opts f q w = Some (Returned (Err (WorkflowConflict (cx_workflow_id ctx))), w4)
    \<and> finalize (cx_provider ctx) (cx_codec ctx) now (cx_workflow_id ctx) view (Err (WorkflowConflict (cx_workflow_id ctx))) (w_store w4) = None"
proof
  have settled: "settle_duplicate ctx T ds q nm started v w4 = (Returned (Err (WorkflowConflict (cx_workflow_id ctx))), w4)" for nm started
    using row by (simp add: settle_duplicate_def and_then_def ret_def observed_def)
  have "conflict_loop ctx (datasource_attempt ctx T ds opts f q) (settle_duplicate ctx T ds q nm started) 0 w1
      = Some (Inr (Returned (Err (WorkflowConflict (cx_workflow_id ctx)))), w4)" for nm started
    by (subst conflict_loop.simps, subst conflict_loop.simps) (simp add: lost wait again settled)
  then show "run_datasource_transaction ctx own T ds opts f q w = Some (Returned (Err (WorkflowConflict (cx_workflow_id ctx))), w4)"
    using assms(1-4) by (simp add: run_datasource_transaction_def run_external_transaction_def user_retry_loop.simps)
  show "finalize (cx_provider ctx) (cx_codec ctx) now (cx_workflow_id ctx) view (Err (WorkflowConflict (cx_workflow_id ctx))) (w_store w4) = None"
    using adopt_waits [OF alone] by (simp add: finalize_def)
qed


lemma guard_verifying:
  assumes "verifying w" "replay_or_guard ctx T q nm w = (Returned (Inr x), w')"
  shows "x \<noteq> None"
  using assms(2) unfolding replay_or_guard_def
proof (cases rule: and_then_cases)
  case (ok found w1)
  then show ?thesis using serve_recorded_ends [OF assms(1), of ctx T q nm w1] by (cases found) (auto simp: ret_def)
qed auto

lemma claim_verifying: "claim_position ctx operation w = (r, w') \<Longrightarrow> verifying w' = verifying w"
  by (auto simp: claim_position_def next_seq_def verifying_def split: sum.splits)

text \<open>
  A verification run opens no transaction of the provider.  Whatever the
  provider would do with the body, and whatever the body is, the call gives the same result
  and leaves the same world.
\<close>

theorem verified_transaction_inert:
  assumes "verifying w"
  shows "transaction_with ctx rts T opts f w = transaction_with ctx rts' T opts f' w"
proof -
  have live: "and_then (replay_or_guard ctx T q nm) (\<lambda>found. case found of Some v \<Rightarrow> ret (Ok v) | None \<Rightarrow> k) u
      = and_then (replay_or_guard ctx T q nm) (\<lambda>found. case found of Some v \<Rightarrow> ret (Ok v) | None \<Rightarrow> k') u"
    if "verifying u" for k k' q nm u
    using guard_verifying [OF that, of ctx T q nm]
    by (auto simp: and_then_def split: prod.splits run_outcome.splits sum.splits option.splits)
  show ?thesis using assms
    by (auto simp: transaction_with_def pending_step_def and_then_def [of "claim_position _ _"] poll_in_execution_def claim_verifying
        split: prod.splits run_outcome.splits sum.splits intro!: live)
qed

subsection \<open>Placeholders\<close>

lemma digit_plain: "d < 10 \<Longrightarrow> digit_char d \<noteq> CHR 0x27 \<and> digit_char d \<noteq> CHR ''?''"
proof -
  assume "d < 10"
  moreover have "list_all (\<lambda>d. digit_char d \<noteq> CHR 0x27 \<and> digit_char d \<noteq> CHR ''?'') [0..<10]" by code_simp
  ultimately show ?thesis by (simp add: list_all_iff)
qed

lemma show_nat_plain: "c \<in> set (show_nat n) \<Longrightarrow> c \<noteq> CHR 0x27 \<and> c \<noteq> CHR ''?''"
proof (induction n rule: show_nat.induct)
  case (1 n)
  then show ?case using digit_plain [of n] digit_plain [of "n mod 10"]
    by (subst (asm) (2) show_nat.simps) (auto split: if_splits)
qed

lemma placeholders_skip: "(\<And>c. c \<in> set xs \<Longrightarrow> c \<noteq> CHR 0x27 \<and> c \<noteq> CHR ''?'') \<Longrightarrow>
    pg_placeholders_from n in_str (xs @ ys) = xs @ pg_placeholders_from n in_str ys"
  by (induction xs) auto

lemma placeholders_again: "pg_placeholders_from m in_str (pg_placeholders_from n in_str sql) = pg_placeholders_from n in_str sql"
  by (induction n in_str sql rule: pg_placeholders_from.induct) (auto simp: placeholders_skip show_nat_plain)

text \<open>Rewriting leaves no placeholder outside the literals, so it does nothing to its own result.\<close>

lemma to_pg_placeholders_idem: "to_pg_placeholders (to_pg_placeholders sql) = to_pg_placeholders sql"
  by (simp add: to_pg_placeholders_def placeholders_again)

section \<open>Witnesses\<close>

text \<open>
  A data source that keeps its tables in two streams of the in-memory store: the orders
  committed and the one witness row.  A transaction holds the order it wrote and
  the row it would commit.  With \<open>lost\<close>, the response of every commit is lost.
\<close>

definition source_text :: "json option \<Rightarrow> string option" where
  "source_text v = (case v of Some (JString t) \<Rightarrow> Some t | _ \<Rightarrow> None)"

definition source_witness :: "inner \<Rightarrow> completion_row option" where
  "source_witness g = (case map_of (streams g) (''db'', ''witness'') of
       Some [out, err, ser] \<Rightarrow> Some \<lparr>cr_output = source_text out, cr_error = source_text err, cr_serialization = source_text ser\<rparr>
     | _ \<Rightarrow> None)"

definition source_orders :: "inner \<Rightarrow> json option list" where
  "source_orders g = unwrap_or [] (map_of (streams g) (''db'', ''orders''))"

definition keep_row :: "completion_row \<Rightarrow> inner \<Rightarrow> inner" where
  "keep_row row g = g\<lparr>streams := AList.update (''db'', ''witness'')
     [map_option JString (cr_output row), map_option JString (cr_error row), map_option JString (cr_serialization row)] (streams g)\<rparr>"

definition keep_order :: "json \<Rightarrow> inner \<Rightarrow> inner" where
  "keep_order order g = g\<lparr>streams := AList.update (''db'', ''orders'') (source_orders g @ [Some order]) (streams g)\<rparr>"

definition connection_lost :: error where
  "connection_lost = Db \<lparr>sqlx_kind = Sqlx_Io, sqlx_text = ''broken pipe''\<rparr>"

definition sample_source :: "bool \<Rightarrow> (inner, json \<times> completion_row option) data_source" where
  "sample_source lost = \<lparr>ds_kind = External, ds_begin = (\<lambda>_ _ s. (Ok (JNull, None), s)),
     ds_commit = (\<lambda>(order, row) s. case row of
         None \<Rightarrow> (Ok (), s)
       | Some row \<Rightarrow> if source_witness s \<noteq> None then (Err connection_lost, s)
           else (if lost then Err connection_lost else Ok (), keep_order order (keep_row row s))),
     ds_rollback = (\<lambda>_ s. (Ok (), s)), ds_drop = (\<lambda>_ s. s), ds_fingerprint = (\<lambda>_ s. (Ok None, s)),
     ds_fetch_completion = (\<lambda>_ _ s. Ok (source_witness s)),
     ds_insert_completion = (\<lambda>now (order, pending) i q row s.
       if source_witness s = None then (Ok True, (order, Some row), s) else (Ok False, (order, pending), s)),
     ds_insert_failure = (\<lambda>now i q m ser s. (Ok (), if source_witness s = None
       then keep_row \<lparr>cr_output = None, cr_error = Some m, cr_serialization = Some ser\<rparr> s else s)),
     ds_insert_checkpoint = (\<lambda>now t i q nm enc ser started s. (Ok True, t, s))\<rparr>"

definition sample_ledger :: "(inner, json \<times> completion_row option) ledger" where
  "sample_ledger = \<lparr>lg_effects = (\<lambda>s. length (source_orders s)), lg_witness = source_witness,
     lg_pending = snd\<rparr>"

lemma source_text_kept [simp]: "source_text (map_option JString v) = v"
  by (cases v) (simp_all add: source_text_def)

lemma source_kept [simp]:
  "source_witness (keep_row row g) = Some row" "source_orders (keep_row row g) = source_orders g" "steps (keep_row row g) = steps g"
  "source_witness (keep_order order g) = source_witness g" "source_orders (keep_order order g) = source_orders g @ [Some order]"
  "steps (keep_order order g) = steps g" "workflows (keep_row row g) = workflows g" "workflows (keep_order order g) = workflows g"
  by (simp_all add: source_witness_def source_orders_def keep_row_def keep_order_def update_conv')

lemma sample_apart: "apart sample_ledger (memory_provider C f) i q s s' \<longleftrightarrow>
    length (source_orders s') = length (source_orders s) \<and> source_witness s' = source_witness s
    \<and> get_step_result C i q s' = get_step_result C i q s"
  by (simp add: apart_def sample_ledger_def)

lemma same_steps: "steps s' = steps s \<Longrightarrow> get_step_result C i q s' = get_step_result C i q s"
  by (simp add: get_step_result_def)

lemma sample_source_atomic: "atomic_source sample_ledger (memory_provider C f) (sample_source lost) i q"
  unfolding atomic_source_def commit_law_def insert_law_def failure_law_def sample_apart
  by (auto simp: sample_source_def sample_ledger_def split: option.splits if_splits intro: same_steps)

lemma sample_checkpoint_law: "checkpoint_law sample_ledger (memory_provider C f) i q"
proof -
  have streams: "streams (refresh_executor i ex g) = streams g" for ex g by (simp add: refresh_executor_def split: option.split)
  have kept: "source_orders (refresh_executor i ex (g\<lparr>steps := x\<rparr>)) = source_orders g"
    "source_witness (refresh_executor i ex (g\<lparr>steps := x\<rparr>)) = source_witness g" for ex g x
    by (simp_all add: source_orders_def source_witness_def streams)
  have failure: "step_row_outcome C (checkpoint_row now nm v (Some m) started) \<noteq> Output x" for now nm v m started x
    by (simp add: step_row_outcome_def checkpoint_row_def split: prod.split)
  show ?thesis unfolding checkpoint_law_def
    by (auto simp: sample_ledger_def record_step_result_def get_step_result_def Let_def kept failure split: option.splits if_splits)
qed

definition order_body :: "(inner, json \<times> completion_row option, json) tx_body" where
  "order_body t w = ((Returned (Ok (JInt 7)), (JString ''widget'', snd t)), w)"

definition count_body :: "(inner, json \<times> completion_row option, json) tx_body" where
  "count_body t w = ((Returned (Ok (JInt (int (length (source_orders (w_store w))) + 7))), (JString ''widget'', snd t)), w)"

lemma order_body_contained: "contained_body L P i q order_body"
  by (simp add: contained_body_def order_body_def)

definition pending_store :: inner where
  "pending_store = inner_default\<lparr>workflows := [(''a'', sample_child\<lparr>wf_id := ''a''\<rparr>)]\<rparr>"

definition pending_world :: "inner world" where
  "pending_world = sample_world None pending_store"

lemma sample_attempt:
  assumes "\<And>t w'. w_store w' = w_store w \<Longrightarrow> f t w' = ((Returned (Ok (JInt n)), (JString ''widget'', snd t)), w')" "\<not> w_in_body w" "\<not> xo_read_only opts"
  shows "datasource_attempt sample_ctx json_serde (sample_source True) opts f q w = (if source_witness (w_store w) = None
      then (Returned (Err connection_lost), w\<lparr>w_reads := Suc (w_reads w),
        w_store := keep_order (JString ''widget'') (keep_row (witness_row sample_ctx ''b7'') (w_store w))\<rparr>)
      else (Returned (Ok (AlreadyCompleted (JInt n))), w\<lparr>w_reads := Suc (w_reads w)\<rparr>))"
  using assms by (simp add: datasource_attempt_def attempt_with_def attempt_body_def attempt_value_def attempt_insert_def same_transaction_def run_body_def
      in_tx_def and_then_def db_def ret_def read_clock_def sample_source_def json_serde_def sample_ctx_def plain_codec_def sample_codec_def encode_def is_null_def
      Let_def)

lemma pending_facts:
  "steps pending_store = []" "source_witness pending_store = None" "source_orders pending_store = []"
  "workflows pending_store = [(''a'', sample_child\<lparr>wf_id := ''a''\<rparr>)]"
  "\<not> is_terminal (wf_status sample_child)" "wf_status sample_child \<noteq> STATUS_CANCELLED" "should_retry_live_transaction connection_lost"
  by (simp_all add: pending_store_def inner_default_def source_witness_def source_orders_def sample_child_def workflow_status_new_def
      connection_lost_def should_retry_live_transaction_def is_terminal_def STATUS_PENDING_def STATUS_CANCELLED_def STATUS_SUCCESS_def
      STATUS_ERROR_def STATUS_MAX_RECOVERY_ATTEMPTS_EXCEEDED_def)

lemma sample_balance: "balanced sample_ledger pending_store"
  by (simp add: balanced_def sample_ledger_def pending_facts is_some_and_def)

lemma pending_guard: "replay_or_guard sample_ctx T 0 nm pending_world = (Returned (Ok None), pending_world)"
  by (simp add: pending_world_def replay_or_guard_def serve_recorded_def and_then_def observed_def get_step_result_def get_workflow_status_def
      refuse_live_work_def ret_def pending_facts)

lemma pending_wait:
  assumes "workflows (w_store w) = workflows pending_store"
  shows "datasource_conflict_wait sample_ctx 0 w = (Returned (Ok ()), w\<lparr>w_waits := w_waits w @ [1000000]\<rparr>)"
  using assms by (simp add: datasource_conflict_wait_def and_then_def observed_def get_workflow_status_def pending_facts)

definition committed_store :: inner where
  "committed_store = keep_order (JString ''widget'') (keep_row (witness_row sample_ctx ''b7'') pending_store)"

text \<open>The worlds after the attempt whose response was lost, after the wait, and after the second attempt.\<close>

definition lost_world :: "inner world" where
  "lost_world = pending_world\<lparr>w_reads := 2, w_store := committed_store\<rparr>"

definition waited_world :: "inner world" where
  "waited_world = lost_world\<lparr>w_waits := [1000000]\<rparr>"

definition repeated_world :: "inner world" where
  "repeated_world = waited_world\<lparr>w_reads := 3\<rparr>"

lemma sample_worlds:
  "w_store lost_world = committed_store" "w_store waited_world = committed_store" "w_store repeated_world = committed_store"
  "source_witness committed_store = Some (witness_row sample_ctx ''b7'')" "length (source_orders committed_store) = 1"
  "datasource_conflict_wait sample_ctx 0 lost_world = (Returned (Ok ()), waited_world)"
  by (simp_all add: lost_world_def waited_world_def repeated_world_def committed_store_def pending_wait pending_facts pending_world_def)

lemma order_attempts:
  assumes "f = order_body \<and> n = 7 \<or> f = count_body \<and> n = 8"
  shows "datasource_attempt sample_ctx json_serde (sample_source True) (transaction_options_new ''order'') f 0 (pending_world\<lparr>w_reads := Suc 0\<rparr>)
      = (Returned (Err connection_lost), lost_world)"
    "datasource_attempt sample_ctx json_serde (sample_source True) (transaction_options_new ''order'') f 0 waited_world
      = (Returned (Ok (AlreadyCompleted (JInt n))), repeated_world)"
proof -
  have outside: "\<not> w_in_body pending_world" "\<not> w_in_body waited_world" and store: "w_store pending_world = pending_store"
    by (simp_all add: pending_world_def waited_world_def lost_world_def sample_world_def)
  have opts: "\<not> xo_read_only (transaction_options_new ''order'')" by (simp add: transaction_options_new_def)
  show "datasource_attempt sample_ctx json_serde (sample_source True) (transaction_options_new ''order'') f 0 (pending_world\<lparr>w_reads := Suc 0\<rparr>)
      = (Returned (Err connection_lost), lost_world)"
    by (subst sample_attempt [where n = 7]) (use assms outside opts in \<open>auto simp: order_body_def count_body_def store pending_facts
        lost_world_def committed_store_def numeral_2_eq_2\<close>)
  show "datasource_attempt sample_ctx json_serde (sample_source True) (transaction_options_new ''order'') f 0 waited_world
      = (Returned (Ok (AlreadyCompleted (JInt n))), repeated_world)"
    by (subst sample_attempt [where n = n]) (use assms outside opts in \<open>auto simp: order_body_def count_body_def sample_worlds
        repeated_world_def waited_world_def lost_world_def\<close>)
qed

lemmas order_runs = order_attempts [OF disjI1 [OF conjI [OF refl refl]]] order_attempts [OF disjI2 [OF conjI [OF refl refl]]]

lemma sample_row_facts:
  "decode (cx_codec sample_ctx) Json_Format (cr_serialization (witness_row sample_ctx ''b7'')) ''b7'' = Ok (JInt 7)"
  "completion_row_matches (cx_codec sample_ctx) Json_Format (witness_row sample_ctx ''b7'') (JInt n) = Ok (7 = n)"
  "cr_output (witness_row sample_ctx ''b7'') = Some ''b7''" "cr_error (witness_row sample_ctx ''b7'') = None"
proof -
  show row: "decode (cx_codec sample_ctx) Json_Format (cr_serialization (witness_row sample_ctx ''b7'')) ''b7'' = Ok (JInt 7)"
    by code_simp
  show "cr_output (witness_row sample_ctx ''b7'') = Some ''b7''" "cr_error (witness_row sample_ctx ''b7'') = None"
    by (simp_all add: witness_row_def)
  then show "completion_row_matches (cx_codec sample_ctx) Json_Format (witness_row sample_ctx ''b7'') (JInt n) = Ok (7 = n)"
    using row by (simp add: completion_row_matches_def)
qed

lemma repeated_settled:
  "\<exists>w'. settle_duplicate sample_ctx json_serde (sample_source True) 0 ''order'' started (JInt 7) repeated_world = (Returned (Ok (JInt 7)), w')"
proof -
  have "steps committed_store = []" by (simp add: committed_store_def pending_facts)
  then have "\<exists>w'. write_step_outcome sample_ctx json_serde 0 ''order'' (JInt 7) None (Some started) repeated_world = (Returned (Ok (JInt 7)), w')"
    by (simp add: write_step_outcome_def and_then_def record_outcome_def stored_def record_step_result_def sample_worlds step_row_outcome_def
        checkpoint_row_def recorded_value_def json_serde_def from_value_def Let_def)
  then show ?thesis
    by (simp add: settle_duplicate_def and_then_def observed_def sample_worlds sample_source_def sample_row_facts replay_completion_row_def)
qed

lemma transaction_applied_once_witness:
  "\<exists>w'. run_datasource_transaction sample_ctx None json_serde (sample_source True) (transaction_options_new ''order'') order_body 0 pending_world
      = Some (Returned (Ok (JInt 7)), w') \<and> lg_effects sample_ledger (w_store w') = 1"
proof -
  let ?run = "run_datasource_transaction sample_ctx None json_serde (sample_source True) (transaction_options_new ''order'') order_body 0 pending_world"
  have opts: "xo_name (transaction_options_new ''order'') = ''order''" "\<not> xo_read_only (transaction_options_new ''order'')"
    by (simp_all add: transaction_options_new_def)
  have src: "ds_kind (sample_source True) = External" "ds_fetch_completion (sample_source True) i q s = Ok (source_witness s)" for i q s
    by (simp_all add: sample_source_def)
  have store: "w_store pending_world = pending_store" by (simp add: pending_world_def)
  have start: "timestamp_millis (w_clock pending_world 0) = 0" "w_reads pending_world = 0"
    by (simp_all add: pending_world_def timestamp_millis_def)
  obtain w' where "settle_duplicate sample_ctx json_serde (sample_source True) 0 ''order'' 0 (JInt 7) repeated_world = (Returned (Ok (JInt 7)), w')"
    using repeated_settled by blast
  then have "conflict_loop sample_ctx (datasource_attempt sample_ctx json_serde (sample_source True) (transaction_options_new ''order'') order_body 0)
      (settle_duplicate sample_ctx json_serde (sample_source True) 0 ''order'' 0) 0 (pending_world\<lparr>w_reads := Suc 0\<rparr>)
      = Some (Inr (Returned (Ok (JInt 7))), w')"
    by (subst conflict_loop.simps, subst conflict_loop.simps) (simp add: order_runs sample_worlds pending_facts)
  then have run: "?run = Some (Returned (Ok (JInt 7)), w')"
    by (simp add: run_datasource_transaction_def run_external_transaction_def user_retry_loop.simps pending_guard opts src store pending_facts start)
  have "balanced sample_ledger (w_store w') \<and> (\<forall>v. Returned (Ok (JInt 7)) = Returned (Ok v) \<longrightarrow> lg_effects sample_ledger (w_store w') = 1)"
    by (rule transaction_applied_once [OF _ _ order_body_contained opts(2) src(1) _ _ run])
      (simp_all add: sample_source_atomic sample_checkpoint_law store sample_balance get_step_result_def pending_facts)
  then show ?thesis using run by blast
qed

lemma committed_not_repeated_witness:
  "run_datasource_transaction sample_ctx None json_serde (sample_source True) (transaction_options_new ''order'') count_body 0
      (sample_world None committed_store)
    = run_datasource_transaction sample_ctx None json_serde (sample_source True) (transaction_options_new ''order'') order_body 0
      (sample_world None committed_store)"
proof -
  have src: "ds_kind (sample_source True) = External" "ds_fetch_completion (sample_source True) i q s = Ok (source_witness s)" for i q s
    by (simp_all add: sample_source_def)
  have store: "steps committed_store = []" "workflows committed_store = workflows pending_store"
    by (simp_all add: committed_store_def pending_facts)
  have guard: "replay_or_guard sample_ctx json_serde 0 nm (sample_world None committed_store) = (Returned (Ok None), sample_world None committed_store)" for nm
    using store by (simp add: replay_or_guard_def serve_recorded_def and_then_def observed_def get_step_result_def get_workflow_status_def
        refuse_live_work_def ret_def pending_facts)
  show ?thesis
    by (simp only: committed_not_repeated [OF src(1) _ _ guard] src sample_world_simps sample_worlds
        sample_ctx_simps memory_provider_simps get_step_result_def store map_of.simps option.map)
qed

lemma lost_commit_stalls_witness:
  "\<exists>w'. run_datasource_transaction sample_ctx None json_serde (sample_source True) (transaction_options_new ''order'') count_body 0 pending_world
      = Some (Returned (Err (WorkflowConflict ''a'')), w')
    \<and> finalize (cx_provider sample_ctx) (cx_codec sample_ctx) 5 ''a'' (\<lambda>_. pending_store) (Err (WorkflowConflict ''a'')) (w_store w') = None"
proof -
  have opts: "xo_name (transaction_options_new ''order'') = ''order''" by (simp add: transaction_options_new_def)
  have src: "ds_kind (sample_source True) = External" "ds_fetch_completion (sample_source True) i q s = Ok (source_witness s)" for i q s
    by (simp_all add: sample_source_def)
  have "w_reads pending_world = 0" "w_store pending_world = pending_store" by (simp_all add: pending_world_def)
  then have "run_datasource_transaction sample_ctx None json_serde (sample_source True) (transaction_options_new ''order'') count_body 0 pending_world
      = Some (Returned (Err (WorkflowConflict (cx_workflow_id sample_ctx))), repeated_world)
    \<and> finalize (cx_provider sample_ctx) (cx_codec sample_ctx) 5 (cx_workflow_id sample_ctx) (\<lambda>_. pending_store)
        (Err (WorkflowConflict (cx_workflow_id sample_ctx))) (w_store repeated_world) = None"
    by (intro lost_commit_stalls [OF src(1) pending_guard refl _ _ pending_facts(7) sample_worlds(6), where v = "JInt 8" and row = "witness_row sample_ctx ''b7''"])
      (simp_all add: src order_runs sample_worlds sample_row_facts pending_facts get_workflow_status_def opts)
  then show ?thesis by auto
qed

lemma verified_transaction_inert_witness:
  "transaction_with sample_ctx (\<lambda>_ _ _ _ _ w. (Panicked Panic_Other, w)) json_serde (transaction_options_new ''order'') order_body
      (sample_world (Some (verification_new True)) pending_store)
    = transaction_with sample_ctx (\<lambda>_ _ _ _ _. ret (Ok JNull)) json_serde (transaction_options_new ''order'') count_body
      (sample_world (Some (verification_new True)) pending_store)"
  by (rule verified_transaction_inert) simp


end
