(* ===== verification/Spec2Isabelle.thy ===== *)
theory Spec2Isabelle
  imports Memory_Life Memory_Provider Replay Durable_Replay Debounce Conductor_Reads Admin Transaction
begin

text \<open>
  A model of \<open>durare\<close>, a durable-execution crate, and of its correctness.

  \<^bold>\<open>The program.\<close>  A workflow is an ordinary function whose calls go through
  a durable context (\<open>src/context.rs\<close>).  Each call claims the next position
  of its workflow, looks for a record at that position, and either returns what
  the record holds or does its work and records the outcome.  The records, and
  everything else that must survive a crash, are behind the trait
  \<open>StateProvider\<close> (\<open>src/provider.rs\<close>); \<open>src/memory.rs\<close> implements it over
  tables in memory, \<open>src/postgres.rs\<close> and \<open>src/sqlite.rs\<close> over SQL.  An engine
  (\<open>src/engine.rs\<close>) starts workflows, polls queues, recovers workflows whose
  executor died, fires schedules and writes outcomes.  A client
  (\<open>src/client.rs\<close>) enqueues and manages workflows without running any, and a
  debouncer (\<open>src/debounce.rs\<close>) folds a burst of calls into one run.  An engine is
  operated from outside through a connection to a control plane
  (\<open>src/conductor.rs\<close>) and an HTTP server (\<open>src/admin.rs\<close>).  A step may run in a
  transaction of the application's database, whose witness row and checkpoint
  make it take effect once (\<open>src/context.rs\<close>, \<open>src/tx.rs\<close>,
  \<open>src/datasource.rs\<close>).  A failure of the storage is latched per execution
  (\<open>src/execution.rs\<close>), so that a workflow whose records can no longer be trusted stops and is left for recovery.  A recorded history can be
  verified against the code (\<open>src/replay.rs\<close>).

  \<^bold>\<open>The theories\<close>, in import order.
  \<^item> \<open>Prelude\<close>, \<open>Json\<close>: machine integers and instants, results as sums
    (\<open>Inl\<close> is the error), hash maps as association lists, Rust's option and
    list operations; JSON values.
  \<^item> \<open>Errors\<close> (\<open>error.rs\<close>): the error type with its text, code and database
    classification.  \<open>Execution\<close> (\<open>execution.rs\<close>): placement and the
    failure latch.  \<open>Recorded_Errors\<close> (\<open>serialize.rs\<close>,
    \<open>recorded_error.rs\<close>): the formats values and errors are stored in.
  \<^item> \<open>Provider_Types\<close> (\<open>provider.rs\<close>, \<open>queue.rs\<close>, \<open>schedule.rs\<close>): rows,
    filters and requests, and the functions over them.
  \<^item> \<open>Memory_State\<close>, \<open>Memory_Steps\<close>, \<open>Memory_Workflows\<close>, \<open>Memory_Messages\<close>,
    \<open>Memory_Queue\<close>, \<open>Memory_Query\<close>, \<open>Memory_Schedules\<close>, \<open>Memory_Export\<close>
    (\<open>memory.rs\<close>): the tables and every operation on them.  An operation is a
    function on the record \<open>inner\<close>, which the code holds under one mutex, and
    takes the clock readings and fresh ids it uses as arguments.
  \<^item> \<open>Memory_Machine\<close>, \<open>Memory_Life\<close>: the operations as data, runs of them,
    and what holds of every reachable store.
  \<^item> \<open>Replay\<close> (\<open>replay.rs\<close>): what a verification books and its report.
  \<^item> \<open>Provider_Api\<close> (\<open>provider.rs\<close>): the trait as a record of methods over
    an arbitrary store, with its default methods.  \<open>Memory_Provider\<close>: the
    in-memory store as an instance of it.
  \<^item> \<open>Context\<close> (\<open>context.rs\<close>, \<open>prepare_bulk\<close> of \<open>engine.rs\<close>): the durable
    calls, as functions from a world to what they returned or the payload of
    their panic, and the world they leave.  \<open>Durable\<close>, \<open>Durable_Replay\<close>:
    workflow functions as programs of such calls, and why they can be re-run.
  \<^item> \<open>Engine_Start\<close> (\<open>engine.rs\<close>, \<open>start_workflow\<close> of \<open>context.rs\<close>): the row
    of a new run, its insertion under the deduplication policies, and starts
    from outside and from a workflow.  \<open>Engine_Run\<close> (\<open>engine.rs\<close>): one run from
    its role gate to its terminal write, the settlement of an interrupted run
    and the recovery sweep.  \<open>Transaction\<close> (\<open>context.rs\<close>, \<open>tx.rs\<close>,
    \<open>datasource.rs\<close>): transactional steps over a data source, which is a record
    of functions on the store.
  \<^item> \<open>Engine_Queue\<close> (\<open>queue_dispatch_loop\<close> of \<open>engine.rs\<close>): a dispatcher as a
    transition system: its turns, the ends of its runs and the other clients of
    the store interleave.  \<open>Engine_Schedule\<close> (\<open>engine.rs\<close>): cron ticks, backfill,
    the firing loop and the reconciler.  \<open>Engine_Handle\<close> (\<open>handle.rs\<close>): waiting
    for an outcome.  \<open>Provider_Control\<close>: the methods of the trait the management
    operations call, with the in-memory instance.  \<open>Engine_Control\<close>
    (\<open>engine.rs\<close>): the management operations.  \<open>Engine_Query\<close> (\<open>engine.rs\<close>):
    listings, aggregates, export and import, retention, the global timeout and
    recovery for named executors.
  \<^item> \<open>Client\<close> (\<open>client.rs\<close>) and \<open>Debounce\<close> (\<open>debounce.rs\<close>): enqueueing from
    outside; the collector workflow and its producers in an engine or a client.
  \<^item> \<open>Conductor_Link\<close>, \<open>Conductor_Wire\<close>, \<open>Conductor\<close>, \<open>Conductor_Reads\<close>
    (\<open>conductor.rs\<close>): the dialling loop and the turns of a connection, the
    requests and responses, the handler of each request, and what the handlers
    that read return.
  \<^item> \<open>Engine_Config\<close>, \<open>Engine_Life\<close>, \<open>Engine_Upkeep\<close> (\<open>engine.rs\<close>): settings, the
    builder and registrations; launch, deactivation, shutdown and readiness as a
    transition system; the retention task, metrics and the verification of a
    history.  \<open>Admin\<close> (\<open>admin.rs\<close>): routes, handlers and the shapes of requests
    and responses.

  \<^bold>\<open>Interfaces.\<close>  \<open>checkpoint_store\<close> (first write wins) is interpreted on the
  in-memory steps; \<open>durable_provider\<close> extends it by what a durable call needs of
  a provider (reads see the store, a send or stream write commits its effect and
  its checkpoint together) and is interpreted on the in-memory provider;
  \<open>row_relation\<close> carries a relation between the versions of a workflow row over
  every operation and is interpreted on the deduplication slots and on the
  outcomes.  \<open>claiming_provider\<close> is what a dispatcher needs of a dequeue (it
  claims no more than asked) and is interpreted on the in-memory provider; \<open>debounce_store\<close> is what the producers of a debouncer need
  of their backend and is interpreted on the client and on the engine, both over
  the in-memory provider.

  \<^bold>\<open>What is shown.\<close>
  \<^item> Replay: a run whose positions are all recorded is reproduced from its
    records with the step bodies taken out (\<open>durable_replay\<close>); a run that
    recovers from a prefix of the records agrees with them
    (\<open>recovery_agrees\<close>); a verification changes nothing, for every provider,
    and passes on its own history; misplaced calls are refused without moving
    the counter; retries, sleeps, patches and waits behave as documented, but
    for the overflow of the backoff (\<open>default_backoff_overflows\<close>).
  \<^item> Transactions: on a data source that keeps the laws of a database, the writes
    of a transaction are committed once or never, as the witness row says
    (\<open>transaction_applied_once\<close>), a witnessed transaction is not run again, the
    attempts end with the conflicts, and a verification opens none.  A lost
    response of a commit can stall a run whose body is not repeatable
    (\<open>lost_commit_stalls\<close>).
  \<^item> Records: the first checkpoint at a position wins and is permanent; the
    first outcome of a workflow wins and is final; a recovery claim and a queue
    claim are won once; a message is taken once, with its checkpoint; streams
    only grow; deduplication slots are unique unless a row is moved or imported
    into a slot that is taken (\<open>slot_discipline_needed\<close>).
  \<^item> Engine: a workflow id is run by at most one start, a recorded child start
    is not repeated, a generation is dispatched by at most one recovery sweep,
    a run reports only what its row records, an interrupted run decides nothing
    and is settled by its cause, attempts and queue, and the role gate stands
    before every body.
  \<^item> Queues and schedules: a dispatcher keeps within its worker concurrency,
    and strands no claim; a tick is fired once,
    a backfill fires exactly what is missing, the reconciler makes the firing
    loops match the schedules.  Releasing a claim races with a cancellation
    (\<open>release_revives_cancelled\<close>), the catch-up skips one second
    (\<open>catch_up_misses_next_second\<close>), and a tick whose executor lacks the handler
    is stranded (\<open>unregistered_tick_stranded\<close>).
  \<^item> Handles, client and debouncer: clones of a handle agree but for a deadline;
    a polling wait returns the outcome; a client enqueues what an engine of the
    same version would for what that engine has registered, but for the empty id
    (\<open>empty_id_collapses\<close>); calls under an active debounce key share
    one run, also across targets (\<open>key_shared_across_targets\<close>), and a push counts
    from the start of the wait (\<open>push_counts_from_wait\<close>).
  \<^item> Life of an engine: a build rejects an ambiguous registry, a launch brings
    the engine up and respects the queues of a newer version, a shutdown ends its
    generation for good, a deactivation is final unless a launch is on its way
    (\<open>deactivation_races_launch\<close>), roles declared after the first run are not
    enforced (\<open>late_roles_unenforced\<close>), the metrics count the queues exactly, the
    engine verifies its own histories, and the retention task removes what is
    older than its period if the period fits (\<open>retention_period_wraps\<close>).
  \<^item> Operation from outside: every readable message of the control plane gets one
    response with its id, an exported workflow is restored, in portable
    form and without its children, by the import of another engine, a retention request applies its policy, and the deadline of a
    silent connection never fires (\<open>dead_link_unnoticed\<close>); an unreadable HTTP request and
    the routes that report change nothing, and a deactivated engine stays unready.
  \<^item> Queries, listings, retention, export and import, fork, cancellation and
    deletion do exactly what their documentation says, with the exceptions
    noted beside the theorems.
  \<^item> Formats: values, inputs and errors survive being stored.

  \<^bold>\<open>Loops.\<close>  Loops over data are structural recursion or have a measure.  The
  loops that may run forever (the retention sweep, the stream readers, the waits
  of \<open>recv\<close> and \<open>get_event\<close>, the waits for an outcome, the enumeration of cron
  ticks, the firing loop, the collector, the retries of a debounced call and the
  attempts of a transaction) are partial functions whose value is \<open>None\<close> if they do not end.  The sweep, the
  waits and a backfill are shown to end; a debounced call may retry as long as it
  meets no living collector, and its theorem is about the calls that return.  The
  dispatcher and the life of an engine have no end and are transition relations;
  the turns of a connection and the rounds of the retention task are driven by a
  list of what happens in each.  The walk of an export over the children
  is such a partial function too, since a cycle of parents never lets it
  end; the round trip is for an export without children.

  \<^bold>\<open>Choices.\<close>  \<open>serde_json\<close>, its derives, \<open>base64\<close>, the cron and timezone
  parsers and \<open>chrono\<close>'s conversions are parameters with the laws the code
  relies on as hypotheses.  Positions and counters are integers with the wrap
  of their width written out.  Instants are integers in nanoseconds.  The
  backoff and the polling interval of a dispatcher are exact where the code rounds
  to an \<open>f64\<close>.  What other tasks and processes do between two provider calls is an
  explicit function on the store, or part of the environment a call is given.  The
  parsers of requests, compression, hashes and the branch a \<open>select!\<close> takes are such
  parameters too.  A launch is two steps, since other calls may run during its
  awaits.  A data source commits and rolls back by its own functions, and a commit whose
  response is lost may have happened; the SQL behind them is not modelled.  In \<open>durable_replay\<close> a
  step body is an arbitrary action that leaves the records of its own workflow
  and the shared cells of its context alone; the races that this leaves out are
  those of \<open>first_checkpoint_wins\<close>.

  \<^bold>\<open>Not modelled.\<close>  The SQL providers and the SQL of the data sources, which a
  database runs, with the wrappers of \<open>sqlx\<close> around connections and rows; stream
  readers of the engine and the client and the client's listings, which pass
  their arguments to the provider; \<open>select\<close> and \<open>random\<close> of a context; setters of option structs and
  \<open>connect\<close>, which picks a provider by a URL; sockets, HTTP and WebSocket frames; tracing; procedural macros;
  wake-ups by \<open>LISTEN\<close>/\<open>NOTIFY\<close>, which only shorten a wait; the panic of adding a
  huge duration to the monotonic clock.
\<close>

end
